(* ===== verification/Prelude.thy ===== *)
theory Prelude
  imports Main "HOL-Library.Word"
begin

unbundle bit_operations_syntax

text \<open>
  Types and generic lemmas shared by the whole development: the machine integer types of the
  C code, the error numbers it returns, lemma collections, and facts about bits of words, list
  updates and list segments that several components use.
\<close>

section \<open>Machine types and error numbers\<close>

type_synonym u8 = "8 word"
type_synonym u32 = "32 word"
type_synonym u64 = "64 word"

text \<open>
  The code returns negated error numbers of \<^verbatim>\<open>errno.h\<close>; the values are those of Linux, the
  only system the tool runs on.
\<close>

abbreviation (input) EIO :: int where "EIO \<equiv> 5"
abbreviation (input) EAGAIN :: int where "EAGAIN \<equiv> 11"
abbreviation (input) EINVAL :: int where "EINVAL \<equiv> 22"
abbreviation (input) EFBIG :: int where "EFBIG \<equiv> 27"
abbreviation (input) ERANGE :: int where "ERANGE \<equiv> 34"
abbreviation (input) EOVERFLOW :: int where "EOVERFLOW \<equiv> 75"

section \<open>Lemma collections\<close>

named_theorems c_bits "the bits of the words the C expressions compute"
named_theorems table_layouts "definitions of the field layouts of the configuration tables"

section \<open>Bits of words\<close>

lemma bit_word_oob [simp]: "LENGTH('a) \<le> n \<Longrightarrow> \<not> bit (w :: 'a::len word) n"
  using bit_imp_le_length by fastforce

lemma word_eq_iff_bits: "(a = b) = (\<forall>n < LENGTH('a). bit a n = bit b n)" for a b :: "'a::len word"
  by (auto simp: bit_eq_iff dest: bit_imp_le_length)

lemma word_bits_eqI: "(\<And>n. n < LENGTH('a) \<Longrightarrow> bit a n = bit b n) \<Longrightarrow> a = b" for a b :: "'a::len word"
  by (simp add: word_eq_iff_bits)

lemma take_bit_word_id: "LENGTH('a) \<le> n \<Longrightarrow> take_bit n w = (w :: 'a::len word)"
  by (rule bit_eqI) (auto simp: bit_take_bit_iff dest: bit_imp_le_length)

lemma and_nonzero_iff: "x AND y \<noteq> 0 \<longleftrightarrow> (\<exists>n. bit x n \<and> bit y n)" for x y :: "'a::len word"
  by (auto simp: bit_eq_iff bit_and_iff dest: bit_imp_le_length)

lemma bit_2p [simp]: "bit (2 ^ i :: 'a::len word) n \<longleftrightarrow> n = i \<and> i < LENGTH('a)"
  by (auto simp: bit_exp_iff)

lemma and_2p: "x AND 2 ^ i \<noteq> 0 \<longleftrightarrow> bit x i" for x :: "'a::len word"
  by (auto simp: and_nonzero_iff dest: bit_imp_le_length)

lemma bit_0xFF [c_bits]:
  "bit (0xFF :: u64) n \<longleftrightarrow> n < 8" "bit (0xFF :: u32) n \<longleftrightarrow> n < 8" "bit (0xFF :: u8) n \<longleftrightarrow> n < 8"
proof -
  have "(0xFF :: u64) = mask 8" "(0xFF :: u32) = mask 8" "(0xFF :: u8) = mask 8"
    by (simp_all add: mask_eq_exp_minus_1)
  then show "bit (0xFF :: u64) n \<longleftrightarrow> n < 8" "bit (0xFF :: u32) n \<longleftrightarrow> n < 8" "bit (0xFF :: u8) n \<longleftrightarrow> n < 8"
    by (auto simp only: bit_mask_iff possible_bit_word len_num1 len_bit0)
qed

lemma bit_0xFF_int [c_bits]: "bit (0xFF :: int) n \<longleftrightarrow> n < 8"
proof -
  have "(0xFF :: int) = mask 8" by (simp add: mask_eq_exp_minus_1)
  then show ?thesis by (simp only: bit_mask_iff possible_bit_def) auto
qed

lemma bit_double [simp]:
  "bit (x * 2) n \<longleftrightarrow> 0 < n \<and> n < LENGTH('a) \<and> bit x (n - 1)"
  "bit (2 * x) n \<longleftrightarrow> 0 < n \<and> n < LENGTH('a) \<and> bit x (n - 1)" for x :: "'a::len word"
proof -
  have "bit (push_bit 1 x) n \<longleftrightarrow> 0 < n \<and> n < LENGTH('a) \<and> bit x (n - 1)"
    by (auto simp only: bit_push_bit_iff possible_bit_word Suc_le_eq One_nat_def)
  then show "bit (x * 2) n \<longleftrightarrow> 0 < n \<and> n < LENGTH('a) \<and> bit x (n - 1)"
    "bit (2 * x) n \<longleftrightarrow> 0 < n \<and> n < LENGTH('a) \<and> bit x (n - 1)"
    by (simp_all add: push_bit_eq_mult mult.commute)
qed

lemma drop_bit_0_bits: "drop_bit k v = 0 \<Longrightarrow> k \<le> j \<Longrightarrow> \<not> bit v j" for v :: "'a::len word"
proof -
  assume a: "drop_bit k v = 0" "k \<le> j"
  from a(2) have "bit v j = bit (drop_bit k v) (j - k)" by (simp add: bit_drop_bit_eq)
  then show "\<not> bit v j" using a(1) by simp
qed

section \<open>Lists as buffers\<close>

lemma nth_update_eq_iff:
  "j < length xs \<Longrightarrow> (xs[i := v]) ! j = (if i = j then v else xs ! j)"
  by (simp add: nth_list_update)

text \<open>\<^verbatim>\<open>memset(p, 0, n)\<close> on the memory that starts at \<open>p\<close>.\<close>

definition memset0 :: "nat \<Rightarrow> u8 list \<Rightarrow> u8 list" where
  "memset0 n buf = replicate n 0 @ drop n buf"

lemma length_memset0 [simp]: "n \<le> length buf \<Longrightarrow> length (memset0 n buf) = length buf"
  by (simp add: memset0_def)

lemma memset0_Nil [simp]: "memset0 n [] = replicate n 0"
  by (simp add: memset0_def)

end
