(* ===== verification/Gtable.thy ===== *)
theory Gtable
  imports Prelude
begin

unbundle bit_operations_syntax

text \<open>
  \<^verbatim>\<open>src/lib/gtable/gtable.c\<close>: packing of a bit field of up to 64 bits into a byte buffer and
  its unpacking, with the three layout quirks.
\<close>

section \<open>Quirks and masks\<close>

definition QUIRK_MSB_ON_THE_RIGHT :: int where "QUIRK_MSB_ON_THE_RIGHT = 1"
definition QUIRK_LITTLE_ENDIAN :: int where "QUIRK_LITTLE_ENDIAN = 2"
definition QUIRK_LSW32_IS_FIRST :: int where "QUIRK_LSW32_IS_FIRST = 4"

lemmas quirk_defs = QUIRK_MSB_ON_THE_RIGHT_def QUIRK_LITTLE_ENDIAN_def QUIRK_LSW32_IS_FIRST_def

text \<open>The initial value of the global \<^verbatim>\<open>g_quirks\<close>, which \<^verbatim>\<open>main\<close> sets again.\<close>

definition g_quirks :: int where "g_quirks = QUIRK_LSW32_IS_FIRST"

definition has_quirk :: "u64 \<Rightarrow> int \<Rightarrow> bool" where
  "has_quirk quirks q = (quirks AND word_of_int q \<noteq> 0)"

text \<open>
  The masks shift \<open>1ull\<close>. A shift by 64, which the first one makes for the top bit of a 64-bit
  value, gives 0 as on the ARM target.
\<close>

definition ONES_TO_RIGHT_OF :: "int \<Rightarrow> u64" where
  "ONES_TO_RIGHT_OF x = push_bit (nat (x + 1)) 1 - 1"

definition ONES_TO_LEFT_OF :: "int \<Rightarrow> u64" where
  "ONES_TO_LEFT_OF x = NOT (push_bit (nat x) 1 - 1)"

section \<open>Addresses of the logical bytes\<close>

definition get_le_offset :: "int \<Rightarrow> int" where
  "get_le_offset offset =
     (let closest_multiple_of_4 = (offset div 4) * 4;
          offset' = offset - closest_multiple_of_4
      in closest_multiple_of_4 + (3 - offset'))"

definition get_reverse_lsw32_offset :: "int \<Rightarrow> int \<Rightarrow> int" where
  "get_reverse_lsw32_offset offset len =
     (let word_index = offset div 4;
          closest_multiple_of_4 = word_index * 4;
          offset' = offset - closest_multiple_of_4;
          word_index' = (len div 4) - word_index - 1
      in word_index' * 4 + offset')"

definition gtable_box_addr :: "u64 \<Rightarrow> int \<Rightarrow> int \<Rightarrow> int" where
  "gtable_box_addr quirks tbl_len_bytes box =
     (let a0 = tbl_len_bytes - box - 1;
          a1 = (if has_quirk quirks QUIRK_LITTLE_ENDIAN then get_le_offset a0 else a0);
          a2 = (if has_quirk quirks QUIRK_LSW32_IS_FIRST
                then get_reverse_lsw32_offset a1 tbl_len_bytes else a1)
      in a2)"

section \<open>Bit reversal and the correction for MSB on the right\<close>

text \<open>
  \<^verbatim>\<open>1 << i\<close> is an \<open>int\<close>, sign-extended to 64 bits for the \<open>&\<close>; \<open>bit << ...\<close> is an
  \<open>unsigned int\<close>, zero-extended for the \<open>|=\<close>. The function is called with widths up to 32.
\<close>

definition bit_reverse_step :: "u64 \<Rightarrow> nat \<Rightarrow> u64 \<Rightarrow> nat \<Rightarrow> u64" where
  "bit_reverse_step val width new_val i =
     (let b = (if (val AND scast (push_bit i 1 :: u32)) \<noteq> 0 then 1 else 0 :: u32)
      in new_val OR ucast (push_bit (width - i - 1) b))"

definition bit_reverse :: "u64 \<Rightarrow> nat \<Rightarrow> u64" where
  "bit_reverse val width = foldl (bit_reverse_step val width) 0 [0..<width]"

text \<open>
  The result is \<open>None\<close> where the code would go on to shift by a negative amount, which C leaves
  undefined.
\<close>

definition correct_for_msb_right_quirk ::
    "u64 \<Rightarrow> int \<Rightarrow> int \<Rightarrow> (u64 \<times> int \<times> int \<times> u8) option" where
  "correct_for_msb_right_quirk to_write box_bit_start box_bit_end =
     (let box_bit_width = box_bit_start - box_bit_end + 1;
          w0 = drop_bit (nat box_bit_end) to_write;
          w1 = bit_reverse w0 (nat box_bit_width);
          w2 = push_bit (nat box_bit_end) w1;
          new_end = box_bit_width - box_bit_start - 1;
          new_start = box_bit_width - box_bit_end - 1
      in if new_end < 0 \<or> new_start + 1 < 0 then None
         else Some (w2, new_start, new_end,
                    ucast (ONES_TO_RIGHT_OF new_start AND ONES_TO_LEFT_OF new_end)))"

section \<open>The access function\<close>

datatype gtable_operation = GTABLE_PACK | GTABLE_UNPACK

text \<open>One iteration of the loop over the boxes, for each of the two operations.\<close>

definition box_bit_start_of :: "int \<Rightarrow> int \<Rightarrow> int" where
  "box_bit_start_of tbl_bit_start box =
     (if box = tbl_bit_start div 8 then tbl_bit_start mod 8 else 7)"

definition box_bit_end_of :: "int \<Rightarrow> int \<Rightarrow> int" where
  "box_bit_end_of tbl_bit_end box =
     (if box = tbl_bit_end div 8 then tbl_bit_end mod 8 else 0)"

definition gtable_unpack_box ::
    "u64 \<Rightarrow> int \<Rightarrow> int \<Rightarrow> int \<Rightarrow> u8 list \<Rightarrow> u64 \<Rightarrow> int \<Rightarrow> u64 option" where
  "gtable_unpack_box quirks tbl_bit_start tbl_bit_end tbl_len_bytes table value box =
     (let bs = box_bit_start_of tbl_bit_start box;
          be = box_bit_end_of tbl_bit_end box;
          home_bit_start = (box * 8 + bs) - tbl_bit_end;
          home_bit_end = (box * 8 + be) - tbl_bit_end;
          home_bit_mask = ONES_TO_RIGHT_OF home_bit_start AND ONES_TO_LEFT_OF home_bit_end;
          box_bit_mask = (ucast (ONES_TO_RIGHT_OF bs AND ONES_TO_LEFT_OF be) :: u8);
          box_addr = gtable_box_addr quirks tbl_len_bytes box;
          v0 = (ucast (table ! nat box_addr AND box_bit_mask) :: u64)
      in map_option
           (\<lambda>(v1, be1).
              (value AND NOT home_bit_mask) OR
              push_bit (nat home_bit_end) (drop_bit (nat be1) v1))
           (if has_quirk quirks QUIRK_MSB_ON_THE_RIGHT
            then map_option (\<lambda>(w, s, e, m). (w, e)) (correct_for_msb_right_quirk v0 bs be)
            else Some (v0, be)))"

definition gtable_pack_box ::
    "u64 \<Rightarrow> int \<Rightarrow> int \<Rightarrow> int \<Rightarrow> u64 \<Rightarrow> u8 list \<Rightarrow> int \<Rightarrow> u8 list option" where
  "gtable_pack_box quirks tbl_bit_start tbl_bit_end tbl_len_bytes value table box =
     (let bs = box_bit_start_of tbl_bit_start box;
          be = box_bit_end_of tbl_bit_end box;
          home_bit_start = (box * 8 + bs) - tbl_bit_end;
          home_bit_end = (box * 8 + be) - tbl_bit_end;
          home_bit_mask = ONES_TO_RIGHT_OF home_bit_start AND ONES_TO_LEFT_OF home_bit_end;
          box_bit_mask = (ucast (ONES_TO_RIGHT_OF bs AND ONES_TO_LEFT_OF be) :: u8);
          box_addr = nat (gtable_box_addr quirks tbl_len_bytes box);
          v0 = drop_bit (nat home_bit_end) (value AND home_bit_mask)
      in map_option
           (\<lambda>(v1, be1, mask1).
              let t1 = table[box_addr := table ! box_addr AND NOT mask1]
              in t1[box_addr := t1 ! box_addr OR ucast (push_bit (nat be1) v1)])
           (if has_quirk quirks QUIRK_MSB_ON_THE_RIGHT
            then map_option (\<lambda>(w, s, e, m). (w, e, m)) (correct_for_msb_right_quirk v0 bs be)
            else Some (v0, be, box_bit_mask)))"

fun loop_opt :: "('s \<Rightarrow> 'x \<Rightarrow> 's option) \<Rightarrow> 's \<Rightarrow> 'x list \<Rightarrow> 's option" where
  "loop_opt f s [] = Some s"
| "loop_opt f s (x # xs) = (case f s x of None \<Rightarrow> None | Some s' \<Rightarrow> loop_opt f s' xs)"

text \<open>
  The whole function: the return code, the value behind the pointer and the table after the call;
  \<open>None\<close> stands for an undefined shift. The boxes run from the byte of the first bit down to the
  byte of the last. All offsets the program passes are non-negative.
\<close>

definition gtable_field_access ::
    "u8 list \<Rightarrow> u64 \<Rightarrow> int \<Rightarrow> int \<Rightarrow> int \<Rightarrow> gtable_operation \<Rightarrow> u64 \<Rightarrow> (int \<times> u64 \<times> u8 list) option" where
  "gtable_field_access table value tbl_bit_start tbl_bit_end tbl_len_bytes op quirks =
     (let boxes = rev [tbl_bit_end div 8 .. tbl_bit_start div 8];
          value_width = tbl_bit_start - tbl_bit_end + 1
      in if tbl_bit_start < tbl_bit_end then Some (- EINVAL, value, table)
         else if value_width > 64 then Some (- ERANGE, value, table)
         else case op of
           GTABLE_PACK \<Rightarrow>
             (let value' = (if value_width < 64 \<and> value \<ge> push_bit (nat value_width) 1
                            then value AND (push_bit (nat value_width) 1 - 1) else value)
              in map_option (\<lambda>t. (0, value', t))
                   (loop_opt (gtable_pack_box quirks tbl_bit_start tbl_bit_end tbl_len_bytes value')
                      table boxes))
         | GTABLE_UNPACK \<Rightarrow>
             map_option (\<lambda>v. (0, v, table))
               (loop_opt (gtable_unpack_box quirks tbl_bit_start tbl_bit_end tbl_len_bytes table)
                  0 boxes))"

section \<open>Facts about masks and addresses\<close>

lemma bit_ONES_TO_RIGHT_OF [c_bits]:
  "bit (ONES_TO_RIGHT_OF x) n \<longleftrightarrow> n < 64 \<and> int n \<le> x"
proof -
  have "ONES_TO_RIGHT_OF x = mask (nat (x + 1))"
    by (simp add: ONES_TO_RIGHT_OF_def mask_eq_exp_minus_1)
  then show ?thesis by (auto simp: bit_mask_iff)
qed

lemma bit_ONES_TO_LEFT_OF [c_bits]:
  "bit (ONES_TO_LEFT_OF x) n \<longleftrightarrow> n < 64 \<and> x \<le> int n"
proof -
  have "ONES_TO_LEFT_OF x = NOT (mask (nat x))"
    by (simp add: ONES_TO_LEFT_OF_def mask_eq_exp_minus_1)
  then show ?thesis by (auto simp: bit_mask_iff bit_not_iff)
qed

lemma get_le_offset_eq: "0 \<le> r \<Longrightarrow> r < 4 \<Longrightarrow> get_le_offset (4 * q + r) = 4 * q + (3 - r)"
  by (simp add: get_le_offset_def Let_def)

lemma get_reverse_lsw32_offset_eq:
  "0 \<le> r \<Longrightarrow> r < 4 \<Longrightarrow> get_reverse_lsw32_offset (4 * q + r) (4 * k) = 4 * (k - q - 1) + r"
  by (simp add: get_reverse_lsw32_offset_def Let_def algebra_simps)

lemma split_word_offset:
  obtains q r :: int where "a = 4 * q + r" "0 \<le> r" "r < 4"
  by (rule that [of "a div 4" "a mod 4"]) simp_all

lemma get_le_offset_range:
  assumes "4 dvd len" "0 \<le> a" "a < len"
  shows "0 \<le> get_le_offset a" "get_le_offset a < len"
proof -
  obtain k where k: "len = 4 * k" using assms(1) by blast
  obtain q r where a: "a = 4 * q + r" "0 \<le> r" "r < 4" by (rule split_word_offset)
  have "0 \<le> q" "q < k" using a k assms(2,3) by presburger+
  then show "0 \<le> get_le_offset a" "get_le_offset a < len"
    using a k by (simp_all add: get_le_offset_eq)
qed

lemma get_le_offset_invol: "get_le_offset (get_le_offset a) = a"
proof -
  obtain q r where a: "a = 4 * q + r" "0 \<le> r" "r < 4" by (rule split_word_offset)
  then show ?thesis using get_le_offset_eq [of "3 - r" q] by (simp add: get_le_offset_eq)
qed

lemma get_reverse_lsw32_offset_range:
  assumes "4 dvd len" "0 \<le> a" "a < len"
  shows "0 \<le> get_reverse_lsw32_offset a len" "get_reverse_lsw32_offset a len < len"
proof -
  obtain k where k: "len = 4 * k" using assms(1) by blast
  obtain q r where a: "a = 4 * q + r" "0 \<le> r" "r < 4" by (rule split_word_offset)
  have "0 \<le> q" "q < k" using a k assms(2,3) by presburger+
  then show "0 \<le> get_reverse_lsw32_offset a len" "get_reverse_lsw32_offset a len < len"
    using a k by (simp_all add: get_reverse_lsw32_offset_eq)
qed

lemma get_reverse_lsw32_offset_invol:
  assumes "4 dvd len"
  shows "get_reverse_lsw32_offset (get_reverse_lsw32_offset a len) len = a"
proof -
  obtain k where k: "len = 4 * k" using assms by blast
  obtain q r where a: "a = 4 * q + r" "0 \<le> r" "r < 4" by (rule split_word_offset)
  then show ?thesis using k get_reverse_lsw32_offset_eq [of r "k - q - 1" k]
    by (simp add: get_reverse_lsw32_offset_eq)
qed

lemma gtable_box_addr_range:
  assumes "4 dvd len" "0 \<le> box" "box < len"
  shows "0 \<le> gtable_box_addr q len box" "gtable_box_addr q len box < len"
proof -
  have a: "0 \<le> len - box - 1" "len - box - 1 < len" using assms by simp_all
  show "0 \<le> gtable_box_addr q len box" "gtable_box_addr q len box < len"
    unfolding gtable_box_addr_def Let_def
    using a get_le_offset_range [OF assms(1) a] get_reverse_lsw32_offset_range [OF assms(1)]
    by simp_all
qed

lemma inj_get_le_offset: "inj get_le_offset"
  by (rule inj_on_inverseI) (rule get_le_offset_invol)

lemma inj_get_reverse_lsw32_offset: "4 dvd len \<Longrightarrow> inj (\<lambda>a. get_reverse_lsw32_offset a len)"
  by (rule inj_on_inverseI) (rule get_reverse_lsw32_offset_invol)

lemma gtable_box_addr_inj:
  assumes "4 dvd len" "gtable_box_addr q len box = gtable_box_addr q len box'"
  shows "box = box'"
  using assms(2)
  by (auto simp: gtable_box_addr_def Let_def inj_eq [OF inj_get_le_offset]
      inj_eq [OF inj_get_reverse_lsw32_offset [OF assms(1)]] split: if_splits)

section \<open>The logical bits of a table\<close>

text \<open>
  Bit \<open>i\<close> of a table of \<open>L\<close> bytes, where the quirks lay it out in memory. Packing writes such
  bits and unpacking reads them: everything above this level is proved over \<open>tbit\<close>.
\<close>

definition tbit :: "u64 \<Rightarrow> nat \<Rightarrow> u8 list \<Rightarrow> nat \<Rightarrow> bool" where
  "tbit q L t i = bit (t ! nat (gtable_box_addr q (int L) (int (i div 8)))) (i mod 8)"

text \<open>The bits of box \<open>b\<close> that belong to the field from bit \<open>S\<close> down to bit \<open>E\<close>.\<close>

lemma box_bits:
  assumes "E div 8 \<le> b" "b \<le> S div 8" "m < 8" "E \<le> S"
  shows "box_bit_end_of (int E) (int b) \<le> int m \<longleftrightarrow> E \<le> 8 * b + m"
    and "int m \<le> box_bit_start_of (int S) (int b) \<longleftrightarrow> 8 * b + m \<le> S"
    and "0 \<le> box_bit_end_of (int E) (int b)" "box_bit_end_of (int E) (int b) < 8"
    and "0 \<le> box_bit_start_of (int S) (int b)" "box_bit_start_of (int S) (int b) < 8"
    and "int E \<le> int b * 8 + box_bit_end_of (int E) (int b)"
    and "int b * 8 + box_bit_start_of (int S) (int b) \<le> int S"
  using assms unfolding box_bit_end_of_def box_bit_start_of_def
  by (auto split: if_splits) presburger+

lemma box_word_bits:
  assumes "E div 8 \<le> b" "b \<le> S div 8" "m < 8" "E \<le> S" "S - E < 64"
  defines "bs \<equiv> box_bit_start_of (int S) (int b)" and "be \<equiv> box_bit_end_of (int E) (int b)"
  defines "hs \<equiv> int b * 8 + bs - int E" and "he \<equiv> int b * 8 + be - int E"
  shows "bit (ucast (push_bit (nat be) (drop_bit (nat he)
            (va AND (ONES_TO_RIGHT_OF hs AND ONES_TO_LEFT_OF he)))) :: u8) m
         \<longleftrightarrow> E \<le> 8 * b + m \<and> 8 * b + m \<le> S \<and> bit (va :: u64) (8 * b + m - E)"
proof -
  note bb = box_bits [OF assms(1-4), folded bs_def be_def]
  have he0: "0 \<le> he" using bb(7) by (simp add: he_def)
  have "nat be \<le> m \<longleftrightarrow> E \<le> 8 * b + m" using bb(1,3) by (simp add: nat_le_iff)
  moreover have "nat he + (m - nat be) = 8 * b + m - E" if "nat be \<le> m"
    using that bb(3,7) he0 by (simp add: he_def nat_add_distrib [symmetric] nat_eq_iff)
  moreover have "int (8 * b + m - E) \<le> hs \<longleftrightarrow> 8 * b + m \<le> S" if "E \<le> 8 * b + m"
    using that bb(2) by (auto simp: hs_def of_nat_diff)
  moreover have "he \<le> int (8 * b + m - E)" if "E \<le> 8 * b + m"
    using that bb(1) by (simp add: he_def of_nat_diff)
  moreover have "8 * b + m - E < 64" if "8 * b + m \<le> S" using that assms(5) by linarith
  ultimately show ?thesis using assms(3) bb(3) he0
    by (auto simp: bit_ucast_iff bit_push_bit_iff bit_drop_bit_eq bit_and_iff c_bits)
qed


lemma unpack_word_bits:
  assumes "E div 8 \<le> b" "b \<le> S div 8" "E \<le> S" "S - E < 64"
  defines "bs \<equiv> box_bit_start_of (int S) (int b)" and "be \<equiv> box_bit_end_of (int E) (int b)"
  defines "hs \<equiv> int b * 8 + bs - int E" and "he \<equiv> int b * 8 + be - int E"
  shows "bit ((va AND NOT (ONES_TO_RIGHT_OF hs AND ONES_TO_LEFT_OF he)) OR
              push_bit (nat he) (drop_bit (nat be)
                (ucast ((x :: u8) AND ucast (ONES_TO_RIGHT_OF bs AND ONES_TO_LEFT_OF be)) :: u64))) j
         \<longleftrightarrow> j < 64 \<and> (if (E + j) div 8 = b \<and> E + j \<le> S then bit x ((E + j) mod 8)
                       else bit (va :: u64) j)"
proof -
  define m where "m = (E + j) mod 8"
  have m8: "m < 8" by (simp add: m_def)
  note bb0 = box_bits [OF assms(1,2) _ assms(3), folded bs_def be_def]
  have he0: "0 \<le> he" using bb0(7) [of 0] by (simp add: he_def)
  have be: "0 \<le> be" "be < 8" "0 \<le> bs" "bs < 8" using bb0(3-6) [of 0] by simp_all
  show ?thesis
  proof (cases "(E + j) div 8 = b")
    case True
    then have ej: "E + j = 8 * b + m" unfolding m_def by (metis mult_div_mod_eq)
    note bb = bb0 [OF m8]
    have hj: "he \<le> int j \<longleftrightarrow> be \<le> int m" "int j \<le> hs \<longleftrightarrow> int m \<le> bs"
      using ej by (auto simp: he_def hs_def)
    have nh: "nat be + (j - nat he) = m" if "he \<le> int j"
      using that ej be he0 by (simp add: he_def nat_eq_iff of_nat_diff) 
    show ?thesis
      using True hj nh ej bb(1,2) m8 he0 be
      by (auto simp: bit_or_iff bit_and_iff bit_not_iff bit_push_bit_iff bit_drop_bit_eq
          bit_ucast_iff c_bits nat_le_iff m_def [symmetric])
  next
    case False
    have "\<not> (he \<le> int j \<and> int j \<le> hs)"
      using False be bb0(1) [of "nat be"] bb0(2) [of "nat bs"] unfolding he_def hs_def
      by auto
    moreover have "bs < int (nat be + (j - nat he))" if "he \<le> int j" "hs < int j"
      using that he0 be by (simp add: he_def hs_def of_nat_diff)
    ultimately show ?thesis
      using False he0 be
      by (auto simp: bit_or_iff bit_and_iff bit_not_iff bit_push_bit_iff bit_drop_bit_eq
          bit_ucast_iff c_bits nat_le_iff)
  qed
qed

text \<open>One box of each loop, with no quirk that reverses bits.\<close>

lemma gtable_pack_box_tbit:
  assumes "\<not> has_quirk q QUIRK_MSB_ON_THE_RIGHT" "4 dvd L" "E \<le> S" "S - E < 64" "S < 8 * L"
    "E div 8 \<le> b" "b \<le> S div 8" "L \<le> length t"
  obtains t' where
    "gtable_pack_box q (int S) (int E) (int L) va t (int b) = Some t'"
    "length t' = length t" "drop L t' = drop L t"
    "\<And>i. i < 8 * L \<Longrightarrow> tbit q L t' i =
       (if i div 8 = b \<and> E \<le> i \<and> i \<le> S then bit va (i - E) else tbit q L t i)"
proof -
  define bs be where "bs = box_bit_start_of (int S) (int b)" and "be = box_bit_end_of (int E) (int b)"
  define hs he where "hs = int b * 8 + bs - int E" and "he = int b * 8 + be - int E"
  define a where "a = nat (gtable_box_addr q (int L) (int b))"
  define w :: u8 where "w = ucast (push_bit (nat be) (drop_bit (nat he)
      (va AND (ONES_TO_RIGHT_OF hs AND ONES_TO_LEFT_OF he))))"
  define t' where "t' = t[a := (t ! a AND NOT (ucast (ONES_TO_RIGHT_OF bs AND ONES_TO_LEFT_OF be))) OR w]"
  have bL: "b < L" using assms(5,7) by linarith
  have dL: "4 dvd int L" using assms(2) by presburger
  have aL: "a < L"
    using gtable_box_addr_range [OF dL, of "int b" q] bL unfolding a_def by linarith
  have "gtable_pack_box q (int S) (int E) (int L) va t (int b) = Some t'"
    using assms(1) aL assms(8)
    by (simp add: gtable_pack_box_def Let_def bs_def be_def hs_def he_def a_def t'_def w_def)
  moreover have "length t' = length t" by (simp add: t'_def)
  moreover have "drop L t' = drop L t" using aL by (simp add: t'_def)
  moreover have "tbit q L t' i =
      (if i div 8 = b \<and> E \<le> i \<and> i \<le> S then bit va (i - E) else tbit q L t i)"
    if i: "i < 8 * L" for i
  proof (cases "i div 8 = b")
    case True
    define m where "m = i mod 8"
    have m8: "m < 8" and im: "i = 8 * b + m" using True by (auto simp: m_def)
    note bb = box_bits [OF assms(6,7) m8 assms(3), folded bs_def be_def]
    have w: "bit w m \<longleftrightarrow> E \<le> i \<and> i \<le> S \<and> bit va (i - E)"
      using box_word_bits [OF assms(6,7) m8 assms(3,4), of va] im
      unfolding w_def bs_def be_def hs_def he_def by simp
    have "t' ! a = (t ! a AND NOT (ucast (ONES_TO_RIGHT_OF bs AND ONES_TO_LEFT_OF be))) OR w"
      using aL assms(8) by (simp add: t'_def)
    then have "tbit q L t' i \<longleftrightarrow> bit (t ! a) m \<and> \<not> (int m \<le> bs \<and> be \<le> int m) \<or> bit w m"
      using True m8 by (auto simp: tbit_def a_def [symmetric] m_def [symmetric] bit_or_iff bit_and_iff
          bit_not_iff bit_ucast_iff c_bits)
    moreover have "tbit q L t i = bit (t ! a) m" using True by (simp add: tbit_def a_def m_def)
    moreover have "int m \<le> bs \<and> be \<le> int m \<longleftrightarrow> E \<le> i \<and> i \<le> S" using bb(1,2) im by auto
    ultimately show ?thesis using True w by auto
  next
    case False
    have "nat (gtable_box_addr q (int L) (int (i div 8))) \<noteq> a"
    proof
      assume "nat (gtable_box_addr q (int L) (int (i div 8))) = a"
      moreover have "0 \<le> gtable_box_addr q (int L) (int (i div 8))"
        using gtable_box_addr_range(1) [OF dL, of "int (i div 8)" q] i by simp
      moreover have "0 \<le> gtable_box_addr q (int L) (int b)"
        using gtable_box_addr_range(1) [OF dL, of "int b" q] bL by simp
      ultimately have "gtable_box_addr q (int L) (int (i div 8)) = gtable_box_addr q (int L) (int b)"
        unfolding a_def by linarith
      from gtable_box_addr_inj [OF dL this] False show False by simp
    qed
    then show ?thesis using False by (simp add: tbit_def t'_def)
  qed
  ultimately show thesis by (rule that)
qed

lemma gtable_unpack_box_bits:
  assumes "\<not> has_quirk q QUIRK_MSB_ON_THE_RIGHT" "E \<le> S" "S - E < 64"
    "E div 8 \<le> b" "b \<le> S div 8"
  obtains v' where
    "gtable_unpack_box q (int S) (int E) (int L) t va (int b) = Some v'"
    "\<And>j. j < 64 \<Longrightarrow> bit v' j =
       (if (E + j) div 8 = b \<and> E + j \<le> S then tbit q L t (E + j) else bit va j)"
proof -
  define bs be where "bs = box_bit_start_of (int S) (int b)" and "be = box_bit_end_of (int E) (int b)"
  define hs he where "hs = int b * 8 + bs - int E" and "he = int b * 8 + be - int E"
  define x where "x = t ! nat (gtable_box_addr q (int L) (int b))"
  define v' where "v' = (va AND NOT (ONES_TO_RIGHT_OF hs AND ONES_TO_LEFT_OF he)) OR
     push_bit (nat he) (drop_bit (nat be)
       (ucast (x AND ucast (ONES_TO_RIGHT_OF bs AND ONES_TO_LEFT_OF be)) :: u64))"
  have "gtable_unpack_box q (int S) (int E) (int L) t va (int b) = Some v'"
    using assms(1) by (simp add: gtable_unpack_box_def Let_def bs_def be_def hs_def he_def x_def v'_def)
  moreover have "bit v' j =
       (if (E + j) div 8 = b \<and> E + j \<le> S then tbit q L t (E + j) else bit va j)"
    if "j < 64" for j
    using unpack_word_bits [OF assms(4,5,2,3), of va x j] that
    unfolding v'_def bs_def be_def hs_def he_def
    by (auto simp: tbit_def x_def)
  ultimately show thesis by (rule that)
qed

section \<open>What packing and unpacking do to the logical bits\<close>

lemma loop_opt_pack:
  assumes "\<not> has_quirk q QUIRK_MSB_ON_THE_RIGHT" "4 dvd L" "E \<le> S" "S - E < 64" "S < 8 * L"
    "distinct bs" "set bs \<subseteq> {E div 8 .. S div 8}" "L \<le> length t"
  shows "\<exists>t'. loop_opt (gtable_pack_box q (int S) (int E) (int L) va) t (map int bs) = Some t'
     \<and> length t' = length t \<and> drop L t' = drop L t
     \<and> (\<forall>i < 8 * L. tbit q L t' i =
          (if i div 8 \<in> set bs \<and> E \<le> i \<and> i \<le> S then bit va (i - E) else tbit q L t i))"
  using assms(6-8)
proof (induction bs arbitrary: t)
  case Nil
  then show ?case by simp
next
  case (Cons b bs)
  have b: "E div 8 \<le> b" "b \<le> S div 8" using Cons.prems by auto
  from gtable_pack_box_tbit [OF assms(1-5) b Cons.prems(3), where va = va] obtain t1 where t1:
    "gtable_pack_box q (int S) (int E) (int L) va t (int b) = Some t1"
    "length t1 = length t" "drop L t1 = drop L t"
    "\<And>i. i < 8 * L \<Longrightarrow> tbit q L t1 i =
       (if i div 8 = b \<and> E \<le> i \<and> i \<le> S then bit va (i - E) else tbit q L t i)"
    by blast
  from Cons.IH [of t1] Cons.prems t1(2) obtain t' where t':
    "loop_opt (gtable_pack_box q (int S) (int E) (int L) va) t1 (map int bs) = Some t'"
    "length t' = length t1" "drop L t' = drop L t1"
    "\<forall>i < 8 * L. tbit q L t' i =
       (if i div 8 \<in> set bs \<and> E \<le> i \<and> i \<le> S then bit va (i - E) else tbit q L t1 i)"
    by auto
  show ?case using t1 t' by (intro exI [of _ t']) auto
qed

lemma loop_opt_unpack:
  assumes "\<not> has_quirk q QUIRK_MSB_ON_THE_RIGHT" "E \<le> S" "S - E < 64"
    "distinct bs" "set bs \<subseteq> {E div 8 .. S div 8}"
  shows "\<exists>v'. loop_opt (gtable_unpack_box q (int S) (int E) (int L) t) v (map int bs) = Some v'
     \<and> (\<forall>j < 64. bit v' j =
          (if (E + j) div 8 \<in> set bs \<and> E + j \<le> S then tbit q L t (E + j) else bit v j))"
  using assms(4,5)
proof (induction bs arbitrary: v)
  case Nil
  then show ?case by simp
next
  case (Cons b bs)
  have b: "E div 8 \<le> b" "b \<le> S div 8" using Cons.prems by auto
  from gtable_unpack_box_bits [OF assms(1-3) b, where L = L and t = t and va = v] obtain v1 where v1:
    "gtable_unpack_box q (int S) (int E) (int L) t v (int b) = Some v1"
    "\<And>j. j < 64 \<Longrightarrow> bit v1 j =
       (if (E + j) div 8 = b \<and> E + j \<le> S then tbit q L t (E + j) else bit v j)"
    by blast
  from Cons.IH [of v1] Cons.prems obtain v' where v':
    "loop_opt (gtable_unpack_box q (int S) (int E) (int L) t) v1 (map int bs) = Some v'"
    "\<forall>j < 64. bit v' j =
       (if (E + j) div 8 \<in> set bs \<and> E + j \<le> S then tbit q L t (E + j) else bit v1 j)"
    by auto
  show ?case using v1 v' by (intro exI [of _ v']) auto
qed

lemma boxes_eq: "rev [int E div 8 .. int S div 8] = map int (rev [E div 8 ..< S div 8 + 1])"
proof -
  have "map int [a..<b] = [int a .. int b - 1]" for a b
    by (induction b) (auto simp: upto_rec2)
  then show ?thesis by (simp add: rev_map [symmetric] zdiv_int del: upt_Suc)
qed

lemma truncated_value:
  assumes "w \<le> 64" "0 < w"
  shows "(if int w < 64 \<and> v \<ge> push_bit w 1 then v AND (push_bit w 1 - 1) else v)
         = take_bit w (v :: u64)"
proof (cases "w = 64")
  case True
  then show ?thesis by (simp add: take_bit_word_id)
next
  case False
  then have w: "w < 64" using assms by simp
  have m: "v AND (push_bit w 1 - 1) = take_bit w v"
    by (simp add: take_bit_eq_mask mask_eq_exp_minus_1 push_bit_of_1)
  have "take_bit w v = v" if "\<not> push_bit w 1 \<le> v"
  proof -
    have "v < 2 ^ w" using that by (simp add: push_bit_of_1 not_le)
    then have "uint v < uint (2 ^ w :: u64)" by (simp only: word_less_def)
    moreover have "uint (2 ^ w :: u64) = 2 ^ w"
      using w by (simp add: uint_2p word_gt_0)
    ultimately have "uint v < 2 ^ w" by simp
    then show ?thesis
      by (simp add: word_uint_eq_iff unsigned_take_bit_eq take_bit_int_eq_self_iff)
  qed
  then show ?thesis using w m by simp
qed

theorem gtable_pack_bits:
  assumes "\<not> has_quirk q QUIRK_MSB_ON_THE_RIGHT" "4 dvd L" "E \<le> S" "S - E < 64" "S < 8 * L"
    "L \<le> length t"
  obtains t' where
    "gtable_field_access t v (int S) (int E) (int L) GTABLE_PACK q = Some (0, take_bit (S - E + 1) v, t')"
    "length t' = length t" "drop L t' = drop L t"
    "\<And>i. i < 8 * L \<Longrightarrow> tbit q L t' i = (if E \<le> i \<and> i \<le> S then bit v (i - E) else tbit q L t i)"
proof -
  define bs where "bs = rev [E div 8 ..< S div 8 + 1]"
  have bs: "distinct bs" "set bs \<subseteq> {E div 8 .. S div 8}"
    "\<And>i. E \<le> i \<Longrightarrow> i \<le> S \<Longrightarrow> i div 8 \<in> set bs"
    by (auto simp: bs_def div_le_mono)
  define v' where "v' = take_bit (S - E + 1) v"
  have nat1: "nat (int S - int E + 1) = S - E + 1" using assms(3) by simp
  from loop_opt_pack [OF assms(1-5) bs(1,2) assms(6), where va = v'] obtain t' where t':
    "loop_opt (gtable_pack_box q (int S) (int E) (int L) v') t (map int bs) = Some t'"
    "length t' = length t" "drop L t' = drop L t"
    "\<forall>i < 8 * L. tbit q L t' i =
       (if i div 8 \<in> set bs \<and> E \<le> i \<and> i \<le> S then bit v' (i - E) else tbit q L t i)"
    by blast
  have tr: "(if int S - int E + 1 < 64 \<and> push_bit (S - E + 1) 1 \<le> v
              then v AND (push_bit (S - E + 1) 1 - 1) else v) = v'"
    using truncated_value [of "S - E + 1" v] assms(3,4)
    by (simp add: v'_def of_nat_diff algebra_simps del: push_bit_of_1 push_bit_Suc)
  have "gtable_field_access t v (int S) (int E) (int L) GTABLE_PACK q = Some (0, v', t')"
    unfolding gtable_field_access_def Let_def boxes_eq bs_def [symmetric] nat1 tr
    using assms(3,4) t'(1) by simp
  moreover have "tbit q L t' i = (if E \<le> i \<and> i \<le> S then bit v (i - E) else tbit q L t i)"
    if "i < 8 * L" for i
    using t'(4) that bs(3) [of i] by (auto simp: v'_def bit_take_bit_iff)
  ultimately show thesis using t'(2,3) that unfolding v'_def by blast
qed

theorem gtable_unpack_bits:
  assumes "\<not> has_quirk q QUIRK_MSB_ON_THE_RIGHT" "E \<le> S" "S - E < 64"
  obtains v' where
    "gtable_field_access t v (int S) (int E) (int L) GTABLE_UNPACK q = Some (0, v', t)"
    "\<And>j. bit v' j \<longleftrightarrow> j \<le> S - E \<and> tbit q L t (E + j)"
proof -
  define bs where "bs = rev [E div 8 ..< S div 8 + 1]"
  have bs: "distinct bs" "set bs \<subseteq> {E div 8 .. S div 8}"
    "\<And>i. E \<le> i \<Longrightarrow> i \<le> S \<Longrightarrow> i div 8 \<in> set bs"
    by (auto simp: bs_def div_le_mono)
  from loop_opt_unpack [OF assms bs(1,2), where L = L and t = t and v = 0] obtain v' where v':
    "loop_opt (gtable_unpack_box q (int S) (int E) (int L) t) 0 (map int bs) = Some v'"
    "\<forall>j < 64. bit v' j =
       (if (E + j) div 8 \<in> set bs \<and> E + j \<le> S then tbit q L t (E + j) else bit (0::u64) j)"
    by blast
  have "gtable_field_access t v (int S) (int E) (int L) GTABLE_UNPACK q = Some (0, v', t)"
    unfolding gtable_field_access_def Let_def boxes_eq bs_def [symmetric]
    using assms(2,3) v'(1) by simp
  moreover have "bit v' j \<longleftrightarrow> j \<le> S - E \<and> tbit q L t (E + j)" for j
  proof (cases "j < 64")
    case True
    then show ?thesis using v'(2) bs(3) [of "E + j"] assms(2) by (cases "j \<le> S - E") auto
  qed (use assms(3) in auto)
  ultimately show thesis by (rule that)
qed

text \<open>The logical bits determine the bytes of the table: each byte is the image of one box.\<close>

lemma gtable_box_addr_surj:
  assumes "4 dvd L" "a < L"
  shows "\<exists>b < L. nat (gtable_box_addr q (int L) (int b)) = a"
proof -
  let ?f = "\<lambda>b. nat (gtable_box_addr q (int L) (int b))"
  have dL: "4 dvd int L" using assms(1) by presburger
  have "inj_on ?f {..<L}"
  proof (rule inj_onI)
    fix b b' assume b: "b \<in> {..<L}" "b' \<in> {..<L}" "?f b = ?f b'"
    then have "gtable_box_addr q (int L) (int b) = gtable_box_addr q (int L) (int b')"
      using gtable_box_addr_range(1) [OF dL, of "int b" q] gtable_box_addr_range(1) [OF dL, of "int b'" q]
      by auto
    from gtable_box_addr_inj [OF dL this] show "b = b'" by simp
  qed
  moreover have "?f ` {..<L} \<subseteq> {..<L}"
  proof (clarsimp)
    fix b assume "b < L"
    then show "?f b < L"
      using gtable_box_addr_range [OF dL, of "int b" q] by auto
  qed
  ultimately have "?f ` {..<L} = {..<L}" by (simp add: endo_inj_surj)
  then have "a \<in> ?f ` {..<L}" using assms(2) by blast
  then show ?thesis by blast
qed

lemma tbit_determines:
  assumes "4 dvd L" "L \<le> length t" "length t' = length t" "drop L t' = drop L t"
    "\<And>i. i < 8 * L \<Longrightarrow> tbit q L t' i = tbit q L t i"
  shows "t' = t"
proof (rule nth_equalityI)
  fix a assume a: "a < length t'"
  show "t' ! a = t ! a"
  proof (cases "a < L")
    case True
    obtain b where b: "b < L" "nat (gtable_box_addr q (int L) (int b)) = a"
      using gtable_box_addr_surj [OF assms(1) True] by blast
    show ?thesis
    proof (rule word_bits_eqI)
      fix n assume "n < LENGTH(8)"
      then show "bit (t' ! a) n = bit (t ! a) n"
        using assms(5) [of "8 * b + n"] b by (simp add: tbit_def)
    qed
  next
    case False
    then have "t' ! a = drop L t' ! (a - L)" "t ! a = drop L t ! (a - L)"
      using a assms(2,3) by simp_all
    then show ?thesis using assms(4) by simp
  qed
qed (rule assms(3))

lemma tbit_index:
  assumes "4 dvd L" "i < 8 * L"
  shows "nat (gtable_box_addr q (int L) (int (i div 8))) < L"
proof -
  have "4 dvd int L" using assms(1) by presburger
  moreover have "i div 8 < L" using assms(2) by auto
  ultimately show ?thesis using gtable_box_addr_range [of "int L" "int (i div 8)" q] by auto
qed

lemma tbit_take: "4 dvd L \<Longrightarrow> i < 8 * L \<Longrightarrow> tbit q L (take L t) i = tbit q L t i"
  using tbit_index [of L i q] by (simp add: tbit_def)

lemma tbit_replicate_0: "4 dvd L \<Longrightarrow> i < 8 * L \<Longrightarrow> \<not> tbit q L (replicate L 0 @ t) i"
  using tbit_index [of L i q] by (simp add: tbit_def nth_append)

section \<open>The calls the program makes\<close>

text \<open>
  \<^verbatim>\<open>gtable_pack\<close> and \<^verbatim>\<open>gtable_unpack\<close> run with the global quirks, which no caller changes from their
  initial value to one with bit reversal: the access is then never undefined.
\<close>

abbreviation (input) lsw32 :: u64 where "lsw32 \<equiv> word_of_int g_quirks"

lemma not_msb_right [simp]: "\<not> has_quirk lsw32 QUIRK_MSB_ON_THE_RIGHT"
  by (simp add: has_quirk_def quirk_defs g_quirks_def)

definition gtable_pack :: "u8 list \<Rightarrow> u64 \<Rightarrow> int \<Rightarrow> int \<Rightarrow> int \<Rightarrow> int \<times> u64 \<times> u8 list" where
  "gtable_pack buf va start end0 len_bytes =
     the (gtable_field_access buf va start end0 len_bytes GTABLE_PACK lsw32)"

definition gtable_unpack :: "u8 list \<Rightarrow> u64 \<Rightarrow> int \<Rightarrow> int \<Rightarrow> int \<Rightarrow> int \<times> u64 \<times> u8 list" where
  "gtable_unpack buf va start end0 len_bytes =
     the (gtable_field_access buf va start end0 len_bytes GTABLE_UNPACK lsw32)"

lemma loop_opt_total: "(\<And>s x. f s x \<noteq> None) \<Longrightarrow> loop_opt f s xs \<noteq> None"
  by (induction xs arbitrary: s) (auto split: option.splits)

lemma gtable_field_access_defined:
  "\<not> has_quirk q QUIRK_MSB_ON_THE_RIGHT \<Longrightarrow> gtable_field_access buf va s e len op q \<noteq> None"
  using loop_opt_total [of "gtable_pack_box q s e len v'" for v']
    loop_opt_total [of "gtable_unpack_box q s e len buf"]
  by (auto simp: gtable_field_access_def Let_def gtable_pack_box_def gtable_unpack_box_def
      split: gtable_operation.splits)

lemma gtable_pack_total:
  "gtable_field_access buf va s e len GTABLE_PACK lsw32 = Some (gtable_pack buf va s e len)"
  using gtable_field_access_defined [OF not_msb_right] by (auto simp: gtable_pack_def)

lemma gtable_unpack_total:
  "gtable_field_access buf va s e len GTABLE_UNPACK lsw32 = Some (gtable_unpack buf va s e len)"
  using gtable_field_access_defined [OF not_msb_right] by (auto simp: gtable_unpack_def)

text \<open>
  \<^verbatim>\<open>gtable_configure\<close> returns its code and the new global. It shifts one by the masks themselves, not
  by the bit numbers.
\<close>

definition gtable_configure :: "u32 \<Rightarrow> int \<times> u32" where
  "gtable_configure quirks =
     (let q1 = quirks AND NOT (push_bit (nat QUIRK_LSW32_IS_FIRST) 1);
          q2 = q1 AND NOT (push_bit (nat QUIRK_LITTLE_ENDIAN) 1);
          q3 = q2 AND NOT (push_bit (nat QUIRK_MSB_ON_THE_RIGHT) 1)
      in (if q3 = 0 then 0 else - EINVAL, quirks))"

section \<open>The layout of the program's tables\<close>

definition lbit :: "nat \<Rightarrow> u8 list \<Rightarrow> nat \<Rightarrow> bool" where
  "lbit L t i = tbit lsw32 L t i"

lemma lbit_addr:
  assumes "4 dvd L" "i < 8 * L"
  shows "lbit L t i = bit (t ! (4 * (i div 32) + (3 - i div 8 mod 4))) (i mod 8)"
proof -
  define b where "b = i div 8"
  obtain k where L: "L = 4 * k" using assms(1) by blast
  have b: "b < L" using assms(2) by (simp add: b_def)
  define w r where "w = b div 4" and "r = b mod 4"
  have bw: "b = 4 * w + r" "r < 4" "w < k" using b L by (auto simp: w_def r_def)
  have len: "int L - int b - 1 = 4 * int (k - w - 1) + int (3 - r)"
    using L bw by (simp add: of_nat_diff)
  then have "gtable_box_addr lsw32 (int L) (int b) = int (4 * w + (3 - r))"
    using L bw get_reverse_lsw32_offset_eq [of "int (3 - r)" "int (k - w - 1)" "int k"]
    unfolding gtable_box_addr_def Let_def len
    by (simp add: has_quirk_def quirk_defs g_quirks_def of_nat_diff)
  moreover have "i div 32 = w" by (simp add: w_def b_def div_mult2_eq [symmetric])
  ultimately show ?thesis
    unfolding lbit_def tbit_def b_def [symmetric] r_def by (simp only: nat_int)
qed

lemma gtable_pack_lbit:
  fixes v :: u64
  assumes "4 dvd L" "E \<le> S" "S - E < 64" "S < 8 * L" "L \<le> length t"
  defines "r \<equiv> gtable_pack t v (int S) (int E) (int L)"
  shows "fst r = 0" "fst (snd r) = take_bit (S - E + 1) v" "length (snd (snd r)) = length t"
    "drop L (snd (snd r)) = drop L t"
    "i < 8 * L \<Longrightarrow> lbit L (snd (snd r)) i = (if E \<le> i \<and> i \<le> S then bit v (i - E) else lbit L t i)"
proof -
  obtain t' where t':
    "gtable_field_access t v (int S) (int E) (int L) GTABLE_PACK lsw32 = Some (0, take_bit (S - E + 1) v, t')"
    "length t' = length t" "drop L t' = drop L t"
    "\<And>i. i < 8 * L \<Longrightarrow> tbit lsw32 L t' i = (if E \<le> i \<and> i \<le> S then bit v (i - E) else tbit lsw32 L t i)"
    using gtable_pack_bits [OF not_msb_right assms(1-5)] by blast
  have "r = (0, take_bit (S - E + 1) v, t')"
    using t'(1) unfolding r_def gtable_pack_total by simp
  then show "fst r = 0" "fst (snd r) = take_bit (S - E + 1) v" "length (snd (snd r)) = length t"
    "drop L (snd (snd r)) = drop L t"
    "i < 8 * L \<Longrightarrow> lbit L (snd (snd r)) i = (if E \<le> i \<and> i \<le> S then bit v (i - E) else lbit L t i)"
    using t' by (simp_all add: lbit_def)
qed

lemma gtable_unpack_lbit:
  fixes L :: nat and t :: "u8 list" and v :: u64
  assumes "E \<le> S" "S - E < 64"
  defines "r \<equiv> gtable_unpack t v (int S) (int E) (int L)"
  shows "fst r = 0" "snd (snd r) = t"
    "bit (fst (snd r)) j \<longleftrightarrow> j \<le> S - E \<and> lbit L t (E + j)"
proof -
  obtain v' where v':
    "gtable_field_access t v (int S) (int E) (int L) GTABLE_UNPACK lsw32 = Some (0, v', t)"
    "\<And>j. bit v' j \<longleftrightarrow> j \<le> S - E \<and> tbit lsw32 L t (E + j)"
    using gtable_unpack_bits [OF not_msb_right assms(1,2)] by blast
  have "r = (0, v', t)" using v'(1) unfolding r_def gtable_unpack_total by simp
  then show "fst r = 0" "snd (snd r) = t"
    "bit (fst (snd r)) j \<longleftrightarrow> j \<le> S - E \<and> lbit L t (E + j)"
    using v' by (simp_all add: lbit_def)
qed

section \<open>Properties\<close>

text \<open>
  C9: for every layout of quirks without bit reversal, a field packed into a table is read back by
  unpacking as the value truncated to the width of the field.
\<close>

theorem gtable_pack_then_unpack:
  assumes "\<not> has_quirk q QUIRK_MSB_ON_THE_RIGHT" "4 dvd L" "E \<le> S" "S - E < 64" "S < 8 * L"
    "L \<le> length t"
  shows "\<exists>t'. gtable_field_access t v (int S) (int E) (int L) GTABLE_PACK q =
                Some (0, take_bit (S - E + 1) v, t') \<and>
              gtable_field_access t' v0 (int S) (int E) (int L) GTABLE_UNPACK q =
                Some (0, take_bit (S - E + 1) v, t')"
proof -
  obtain t' where p:
    "gtable_field_access t v (int S) (int E) (int L) GTABLE_PACK q = Some (0, take_bit (S - E + 1) v, t')"
    "\<And>i. i < 8 * L \<Longrightarrow> tbit q L t' i = (if E \<le> i \<and> i \<le> S then bit v (i - E) else tbit q L t i)"
    using gtable_pack_bits [OF assms] by blast
  obtain v' where u:
    "gtable_field_access t' v0 (int S) (int E) (int L) GTABLE_UNPACK q = Some (0, v', t')"
    "\<And>j. bit v' j \<longleftrightarrow> j \<le> S - E \<and> tbit q L t' (E + j)"
    using gtable_unpack_bits [OF assms(1,3,4)] by blast
  have "v' = take_bit (S - E + 1) v"
  proof (rule bit_eqI)
    fix n
    show "bit v' n = bit (take_bit (S - E + 1) v) n"
      using u(2) [of n] p(2) [of "E + n"] assms(3,5)
      by (cases "n \<le> S - E") (auto simp: bit_take_bit_iff)
  qed
  then show ?thesis using p(1) u(1) by blast
qed

theorem gtable_pack_then_unpack_witness:
  "\<exists>t'. gtable_field_access [1, 2, 3, 4, 5, 6, 7, 8] 0x1234 37 26 8 GTABLE_PACK 6 = Some (0, 0x234, t') \<and>
        gtable_field_access t' 0 37 26 8 GTABLE_UNPACK 6 = Some (0, 0x234, t')"
  using gtable_pack_then_unpack [of 6 8 26 37 "[1, 2, 3, 4, 5, 6, 7, 8]" "0x1234" 0]
  by (simp add: has_quirk_def quirk_defs)

text \<open>
  C21: packing a field changes nothing else: every disjoint field of the table unpacks to what it held
  before, and the bytes after the table are untouched.
\<close>

theorem gtable_pack_frame:
  assumes "\<not> has_quirk q QUIRK_MSB_ON_THE_RIGHT" "4 dvd L" "E \<le> S" "S - E < 64" "S < 8 * L"
    "L \<le> length t" "E' \<le> S'" "S' - E' < 64" "S' < 8 * L" "S < E' \<or> S' < E"
  shows "\<exists>t'. gtable_field_access t v (int S) (int E) (int L) GTABLE_PACK q =
                Some (0, take_bit (S - E + 1) v, t') \<and>
              map_option fst (map_option snd
                (gtable_field_access t' v0 (int S') (int E') (int L) GTABLE_UNPACK q)) =
              map_option fst (map_option snd
                (gtable_field_access t v0 (int S') (int E') (int L) GTABLE_UNPACK q)) \<and>
              length t' = length t \<and> drop L t' = drop L t"
proof -
  obtain t' where p:
    "gtable_field_access t v (int S) (int E) (int L) GTABLE_PACK q = Some (0, take_bit (S - E + 1) v, t')"
    "length t' = length t" "drop L t' = drop L t"
    "\<And>i. i < 8 * L \<Longrightarrow> tbit q L t' i = (if E \<le> i \<and> i \<le> S then bit v (i - E) else tbit q L t i)"
    using gtable_pack_bits [OF assms(1-6)] by blast
  obtain v' where u:
    "gtable_field_access t' v0 (int S') (int E') (int L) GTABLE_UNPACK q = Some (0, v', t')"
    "\<And>j. bit v' j \<longleftrightarrow> j \<le> S' - E' \<and> tbit q L t' (E' + j)"
    using gtable_unpack_bits [OF assms(1,7,8)] by blast
  obtain v'' where w:
    "gtable_field_access t v0 (int S') (int E') (int L) GTABLE_UNPACK q = Some (0, v'', t)"
    "\<And>j. bit v'' j \<longleftrightarrow> j \<le> S' - E' \<and> tbit q L t (E' + j)"
    using gtable_unpack_bits [OF assms(1,7,8)] by blast
  have "v' = v''"
  proof (rule bit_eqI)
    fix n
    show "bit v' n = bit v'' n"
      using u(2) [of n] w(2) [of n] p(4) [of "E' + n"] assms(7,9,10)
      by (cases "n \<le> S' - E'") auto
  qed
  then show ?thesis using p u(1) w(1) by auto
qed

theorem gtable_pack_frame_witness:
  "\<exists>t'. gtable_field_access [1, 2, 3, 4, 5] 9 11 8 4 GTABLE_PACK 4 = Some (0, 9, t') \<and>
        map_option fst (map_option snd (gtable_field_access t' 0 25 12 4 GTABLE_UNPACK 4)) =
        map_option fst (map_option snd
          (gtable_field_access [1, 2, 3, 4, 5] 0 25 12 4 GTABLE_UNPACK 4)) \<and>
        length t' = length [1, 2, 3, 4, 5 :: u8] \<and> drop 4 t' = [5]"
  using gtable_pack_frame [of 4 4 8 11 "[1, 2, 3, 4, 5]" 12 25 9 0]
  by (simp add: has_quirk_def quirk_defs)



text \<open>
  C18: \<^verbatim>\<open>gtable_configure\<close> accepts a set of quirks exactly when it has no bit but 1, 2 and 4: it shifts
  by the masks 1, 2 and 4, so it rejects the quirk with mask 1 and accepts mask 16.
\<close>

theorem gtable_configure_accepts:
  "fst (gtable_configure quirks) = 0 \<longleftrightarrow> quirks AND NOT (2 OR 4 OR 16) = 0"
  by (auto simp: gtable_configure_def Let_def quirk_defs and.assoc)

text \<open>A packed table is, in memory, a list of 32-bit big-endian words.\<close>

definition be32 :: "u8 \<Rightarrow> u8 \<Rightarrow> u8 \<Rightarrow> u8 \<Rightarrow> u64" where
  "be32 b0 b1 b2 b3 = push_bit 24 (ucast b0) OR push_bit 16 (ucast b1) OR push_bit 8 (ucast b2) OR ucast b3"

lemma gtable_unpack_word:
  "gtable_unpack (b0 # b1 # b2 # b3 # r) v 31 0 4 = (0, be32 b0 b1 b2 b3, b0 # b1 # b2 # b3 # r)"
proof -
  have "fst (snd (gtable_unpack (b0 # b1 # b2 # b3 # r) v 31 0 4)) = be32 b0 b1 b2 b3"
  proof (rule word_bits_eqI)
    fix n assume n: "n < LENGTH(64)"
    have u: "bit (fst (snd (gtable_unpack (b0 # b1 # b2 # b3 # r) v 31 0 4))) n \<longleftrightarrow>
      n < 32 \<and> lbit 4 (b0 # b1 # b2 # b3 # r) n"
      using gtable_unpack_lbit(3) [of 0 31 "b0 # b1 # b2 # b3 # r" v 4 n] by auto
    obtain k m where km: "n = 8 * k + m" "m < 8" by (metis mod_less_divisor mult_div_mod_eq zero_less_numeral)
    show "bit (fst (snd (gtable_unpack (b0 # b1 # b2 # b3 # r) v 31 0 4))) n = bit (be32 b0 b1 b2 b3) n"
    proof (cases "n < 32")
      case True
      then have "k = 0 \<or> k = 1 \<or> k = 2 \<or> k = 3" using km by auto
      then show ?thesis
        unfolding u using True km
        by (auto simp: lbit_addr be32_def bit_ucast_iff bit_or_iff bit_push_bit_iff)
    next
      case False
      then show ?thesis
        unfolding u by (auto simp: be32_def bit_ucast_iff bit_or_iff bit_push_bit_iff)
    qed
  qed
  then show ?thesis
    using gtable_unpack_lbit(1,2) [of 0 31 "b0 # b1 # b2 # b3 # r" v 4] by (simp add: prod_eq_iff)
qed

end
