(* ===== verification/Layout.thy ===== *)
theory Layout
  imports Gtable
begin

unbundle bit_operations_syntax

text \<open>
  The shape that every access function of \<^verbatim>\<open>src/lib/static-config/tables/\<close> has: a list of fields, each
  passed to \<^verbatim>\<open>gtable_pack\<close> or \<^verbatim>\<open>gtable_unpack\<close> with its bit range. The interpreter of such lists is the
  code; the locale \<open>table_codec\<close> says what a table gets from a well-formed layout.
\<close>

section \<open>Layouts and the access function\<close>

text \<open>
  \<open>Fld\<close> is a call on a member of the entry, read and written through the pointer; \<open>Konst\<close> a call on a
  local variable, made only when packing.
\<close>

datatype 'e fld =
    Fld (fget: "'e \<Rightarrow> u64") (fput: "u64 \<Rightarrow> 'e \<Rightarrow> 'e") (hi: nat) (lo: nat)
  | Konst u64 (hi: nat) (lo: nat)

text \<open>A member of the entry, and an element of an array member, by their selector and update.\<close>

definition fld :: "('e \<Rightarrow> u64) \<Rightarrow> ((u64 \<Rightarrow> u64) \<Rightarrow> 'e \<Rightarrow> 'e) \<Rightarrow> nat \<Rightarrow> nat \<Rightarrow> 'e fld" where
  "fld sel upd h l = Fld sel (\<lambda>v. upd (\<lambda>_. v)) h l"

definition afld ::
    "('e \<Rightarrow> u64 list) \<Rightarrow> ((u64 list \<Rightarrow> u64 list) \<Rightarrow> 'e \<Rightarrow> 'e) \<Rightarrow> nat \<Rightarrow> nat \<Rightarrow> nat \<Rightarrow> 'e fld" where
  "afld sel upd i h l = Fld (\<lambda>e. sel e ! i) (\<lambda>v. upd (\<lambda>xs. xs[i := v])) h l"

fun pack_field :: "nat \<Rightarrow> u8 list \<times> 'e \<Rightarrow> 'e fld \<Rightarrow> u8 list \<times> 'e" where
  "pack_field sz (buf, e) (Fld g p h l) =
     (case gtable_pack buf (g e) (int h) (int l) (int sz) of (rc, v, buf') \<Rightarrow> (buf', p v e))"
| "pack_field sz (buf, e) (Konst c h l) =
     (case gtable_pack buf c (int h) (int l) (int sz) of (rc, v, buf') \<Rightarrow> (buf', e))"

fun unpack_field :: "nat \<Rightarrow> u8 list \<times> 'e \<Rightarrow> 'e fld \<Rightarrow> u8 list \<times> 'e" where
  "unpack_field sz (buf, e) (Fld g p h l) =
     (case gtable_unpack buf (g e) (int h) (int l) (int sz) of (rc, v, buf') \<Rightarrow> (buf', p v e))"
| "unpack_field sz (buf, e) (Konst c h l) = (buf, e)"

text \<open>
  The prologue of the access functions: unpacking clears the entry, packing clears the buffer; then the
  calls on the fields.
\<close>

definition access_init :: "bool \<Rightarrow> nat \<Rightarrow> 'e \<Rightarrow> u8 list \<times> 'e \<Rightarrow> u8 list \<times> 'e" where
  "access_init write sz zero = (\<lambda>(buf, e). if write then (memset0 sz buf, e) else (buf, zero))"

definition access_fields :: "bool \<Rightarrow> nat \<Rightarrow> 'e fld list \<Rightarrow> u8 list \<times> 'e \<Rightarrow> u8 list \<times> 'e" where
  "access_fields write sz fs s = foldl (if write then pack_field sz else unpack_field sz) s fs"

definition table_access :: "'e fld list \<Rightarrow> nat \<Rightarrow> 'e \<Rightarrow> bool \<Rightarrow> u8 list \<Rightarrow> 'e \<Rightarrow> u8 list \<times> 'e" where
  "table_access fs sz zero write buf e =
     access_fields write sz fs (access_init write sz zero (buf, e))"

text \<open>The two accessors the macros \<^verbatim>\<open>DEFINE_*_PACK_UNPACK_ACCESSORS\<close> make of an access function.\<close>

definition entry_pack :: "(bool \<Rightarrow> u8 list \<Rightarrow> 'e \<Rightarrow> u8 list \<times> 'e) \<Rightarrow> u8 list \<Rightarrow> 'e \<Rightarrow> u8 list \<times> 'e" where
  "entry_pack acc buf e = acc True buf e"

definition entry_unpack :: "(bool \<Rightarrow> u8 list \<Rightarrow> 'e \<Rightarrow> u8 list \<times> 'e) \<Rightarrow> u8 list \<Rightarrow> 'e \<Rightarrow> 'e" where
  "entry_unpack acc buf e = snd (acc False buf e)"

section \<open>Well-formed layouts\<close>

definition field_ok :: "nat \<Rightarrow> 'e fld \<Rightarrow> bool" where
  "field_ok sz f \<longleftrightarrow> lo f \<le> hi f \<and> hi f - lo f < 64 \<and> hi f < 8 * sz"

definition apart :: "'e fld \<Rightarrow> 'f fld \<Rightarrow> bool" where
  "apart f g \<longleftrightarrow> hi f < lo g \<or> hi g < lo f"

fun layout_ok :: "nat \<Rightarrow> 'e fld list \<Rightarrow> bool" where
  "layout_ok sz [] \<longleftrightarrow> True"
| "layout_ok sz (f # fs) \<longleftrightarrow> field_ok sz f \<and> list_all (apart f) fs \<and> layout_ok sz fs"

text \<open>Two members do not share storage.\<close>

fun separate :: "'e fld \<Rightarrow> 'e fld \<Rightarrow> bool" where
  "separate (Fld g p h l) (Fld g' p' h' l') \<longleftrightarrow>
     (\<forall>v e. g' (p v e) = g' e) \<and> (\<forall>v e. g (p' v e) = g e)"
| "separate f g \<longleftrightarrow> True"

fun all_separate :: "'e fld list \<Rightarrow> bool" where
  "all_separate [] \<longleftrightarrow> True"
| "all_separate (f # fs) \<longleftrightarrow> list_all (separate f) fs \<and> all_separate fs"

text \<open>Writing a member and reading it back, on entries of the right shape.\<close>

fun lens :: "('e \<Rightarrow> bool) \<Rightarrow> 'e fld \<Rightarrow> bool" where
  "lens shape (Fld g p h l) \<longleftrightarrow>
     (\<forall>v e. shape e \<longrightarrow> shape (p v e) \<and> g (p v e) = v) \<and> (\<forall>e. shape e \<longrightarrow> p (g e) e = e)"
| "lens shape (Konst c h l) \<longleftrightarrow> True"

section \<open>What packing and unpacking mean\<close>

fun fval :: "'e \<Rightarrow> 'e fld \<Rightarrow> u64" where
  "fval e (Fld g p h l) = g e"
| "fval e (Konst c h l) = c"

fun fset :: "'e fld \<Rightarrow> u64 \<Rightarrow> 'e \<Rightarrow> 'e" where
  "fset (Fld g p h l) v e = p v e"
| "fset (Konst c h l) v e = e"

text \<open>Bit \<open>i\<close> of the packed entry: the bit of the field that holds it, or 0.\<close>

definition layout_bit :: "'e fld list \<Rightarrow> 'e \<Rightarrow> nat \<Rightarrow> bool" where
  "layout_bit fs e i \<longleftrightarrow> (\<exists>f \<in> set fs. lo f \<le> i \<and> i \<le> hi f \<and> bit (fval e f) (i - lo f))"

text \<open>The number that a field of a packed buffer holds.\<close>

definition field_of :: "nat \<Rightarrow> u8 list \<Rightarrow> 'e fld \<Rightarrow> u64" where
  "field_of sz buf f = fst (snd (gtable_unpack buf 0 (int (hi f)) (int (lo f)) (int sz)))"

definition width :: "'e fld \<Rightarrow> nat" where "width f = hi f - lo f + 1"

text \<open>Every member fits its field.\<close>

definition fits :: "'e fld list \<Rightarrow> 'e \<Rightarrow> bool" where
  "fits fs e \<longleftrightarrow> list_all (\<lambda>f. take_bit (width f) (fval e f) = fval e f) fs"

text \<open>The entry with every member cut to its field.\<close>

definition truncate_fields :: "'e fld list \<Rightarrow> 'e \<Rightarrow> 'e" where
  "truncate_fields fs e = foldl (\<lambda>z f. fset f (take_bit (width f) (fval z f)) z) e fs"

text \<open>The entry with the members of the layout copied, all others zero.\<close>

definition copy_fields :: "'e fld list \<Rightarrow> 'e \<Rightarrow> 'e \<Rightarrow> 'e" where
  "copy_fields fs zero e = foldl (\<lambda>z f. fset f (take_bit (width f) (fval e f)) z) zero fs"

lemma layout_okD: "layout_ok sz fs \<Longrightarrow> f \<in> set fs \<Longrightarrow> field_ok sz f"
  by (induction fs) auto

lemma layout_ok_cases:
  "layout_ok sz fs \<Longrightarrow> f \<in> set fs \<Longrightarrow> g \<in> set fs \<Longrightarrow> f = g \<or> apart f g"
  by (induction fs) (auto simp: list_all_iff apart_def)

lemma width_le_64: "field_ok sz f \<Longrightarrow> width f \<le> 64"
  by (auto simp: field_ok_def width_def)

lemma bit_field_of:
  "field_ok sz f \<Longrightarrow> bit (field_of sz buf f) j \<longleftrightarrow> j < width f \<and> lbit sz buf (lo f + j)"
  unfolding field_of_def field_ok_def width_def
  by (subst gtable_unpack_lbit(3)) (auto simp: less_Suc_eq_le)

lemma gtable_unpack_value:
  "lo f \<le> hi f \<Longrightarrow> hi f - lo f < 64 \<Longrightarrow>
   gtable_unpack buf v (int (hi f)) (int (lo f)) (int sz) = (0, field_of sz buf f, buf)"
  using gtable_unpack_lbit(1,2) [of "lo f" "hi f" buf v sz]
    gtable_unpack_lbit(3) [of "lo f" "hi f" buf v sz]
    gtable_unpack_lbit(3) [of "lo f" "hi f" buf 0 sz]
  unfolding field_of_def
  by (metis (no_types, lifting) bit_eqI prod.collapse)

lemma pack_field_spec:
  assumes "field_ok sz f" "4 dvd sz" "sz \<le> length buf"
  obtains buf' where "pack_field sz (buf, e) f = (buf', fset f (take_bit (width f) (fval e f)) e)"
    "length buf' = length buf" "drop sz buf' = drop sz buf"
    "\<And>i. i < 8 * sz \<Longrightarrow> lbit sz buf' i =
       (if lo f \<le> i \<and> i \<le> hi f then bit (fval e f) (i - lo f) else lbit sz buf i)"
proof -
  note p = gtable_pack_lbit [OF assms(2), where E = "lo f" and S = "hi f" and t = buf and v = "fval e f"]
  have ok: "lo f \<le> hi f" "hi f - lo f < 64" "hi f < 8 * sz" using assms(1) by (auto simp: field_ok_def)
  define r where "r = gtable_pack buf (fval e f) (int (hi f)) (int (lo f)) (int sz)"
  have "pack_field sz (buf, e) f = (snd (snd r), fset f (fst (snd r)) e)"
    by (cases f) (auto simp: r_def split: prod.splits)
  moreover have "fst (snd r) = take_bit (width f) (fval e f)"
    using p(2) ok assms(3) by (simp add: r_def width_def)
  ultimately show thesis
    using p(3-5) ok assms(3) by (intro that [of "snd (snd r)"]) (simp_all add: r_def)
qed

lemma unpack_field_spec:
  "field_ok sz f \<Longrightarrow> unpack_field sz (buf, e) f = (buf, fset f (field_of sz buf f) e)"
  using gtable_unpack_value [of f buf "fval e f" sz] by (cases f) (simp_all add: field_ok_def)

section \<open>Sequences of fields\<close>

definition covered :: "'e fld list \<Rightarrow> nat \<Rightarrow> bool" where
  "covered fs i \<longleftrightarrow> list_ex (\<lambda>f. lo f \<le> i \<and> i \<le> hi f) fs"

lemma covered_simps [simp]:
  "\<not> covered [] i" "covered (f # fs) i \<longleftrightarrow> lo f \<le> i \<and> i \<le> hi f \<or> covered fs i"
  by (auto simp: covered_def)

lemma layout_bit_simps [simp]:
  "\<not> layout_bit [] e i"
  "layout_bit (f # fs) e i \<longleftrightarrow> lo f \<le> i \<and> i \<le> hi f \<and> bit (fval e f) (i - lo f) \<or> layout_bit fs e i"
  by (auto simp: layout_bit_def)

lemma layout_bit_covered: "layout_bit fs e i \<Longrightarrow> covered fs i"
  by (induction fs) auto

lemma apart_covered: "list_all (apart f) fs \<Longrightarrow> covered fs i \<Longrightarrow> \<not> (lo f \<le> i \<and> i \<le> hi f)"
  by (induction fs) (auto simp: apart_def)

lemma fval_fset_separate: "separate f g \<Longrightarrow> fval (fset f v e) g = fval e g"
  by (cases f; cases g) auto

lemma layout_bit_fset: "list_all (separate f) fs \<Longrightarrow> layout_bit fs (fset f v e) i = layout_bit fs e i"
  by (induction fs) (auto simp: fval_fset_separate)

lemma pack_fields_spec:
  assumes "layout_ok sz fs" "all_separate fs" "4 dvd sz" "sz \<le> length buf"
  shows "\<exists>buf'. access_fields True sz fs (buf, e) = (buf', truncate_fields fs e) \<and>
    length buf' = length buf \<and> drop sz buf' = drop sz buf \<and>
    (\<forall>i < 8 * sz. lbit sz buf' i = (if covered fs i then layout_bit fs e i else lbit sz buf i))"
  using assms(1,2,4)
proof (induction fs arbitrary: buf e)
  case Nil
  then show ?case by (simp add: access_fields_def truncate_fields_def)
next
  case (Cons f fs)
  have f: "field_ok sz f" "list_all (apart f) fs" "layout_ok sz fs" "list_all (separate f) fs" "all_separate fs"
    using Cons.prems by simp_all
  define e1 where "e1 = fset f (take_bit (width f) (fval e f)) e"
  obtain buf1 where 1: "pack_field sz (buf, e) f = (buf1, e1)"
    "length buf1 = length buf" "drop sz buf1 = drop sz buf"
    "\<And>i. i < 8 * sz \<Longrightarrow> lbit sz buf1 i =
       (if lo f \<le> i \<and> i \<le> hi f then bit (fval e f) (i - lo f) else lbit sz buf i)"
    using pack_field_spec [OF f(1) assms(3) Cons.prems(3), of e] e1_def by metis
  from Cons.IH [OF f(3,5), of buf1 e1] 1(2) Cons.prems(3) obtain buf' where 2:
    "access_fields True sz fs (buf1, e1) = (buf', truncate_fields fs e1)"
    "length buf' = length buf1" "drop sz buf' = drop sz buf1"
    "\<forall>i < 8 * sz. lbit sz buf' i = (if covered fs i then layout_bit fs e1 i else lbit sz buf1 i)"
    by auto
  have "access_fields True sz (f # fs) (buf, e) = (buf', truncate_fields (f # fs) e)"
    using 1(1) 2(1) by (simp add: access_fields_def truncate_fields_def e1_def)
  moreover have "lbit sz buf' i =
      (if covered (f # fs) i then layout_bit (f # fs) e i else lbit sz buf i)" if "i < 8 * sz" for i
    using 2(4) 1(4) [OF that] that apart_covered [OF f(2), of i] layout_bit_fset [OF f(4), of _ e i]
      layout_bit_covered [of fs e i]
    by (auto simp: e1_def)
  ultimately show ?case using 1(2,3) 2(2,3) by auto
qed

text \<open>Unpacking stores the numbers the fields hold.\<close>

definition read_fields :: "'e fld list \<Rightarrow> nat \<Rightarrow> u8 list \<Rightarrow> 'e \<Rightarrow> 'e" where
  "read_fields fs sz buf e = foldl (\<lambda>z f. fset f (field_of sz buf f) z) e fs"

lemma unpack_fields_spec:
  "layout_ok sz fs \<Longrightarrow> access_fields False sz fs (buf, e) = (buf, read_fields fs sz buf e)"
  by (induction fs arbitrary: e) (auto simp: access_fields_def read_fields_def unpack_field_spec)

lemma table_unpack_read:
  "layout_ok sz fs \<Longrightarrow> entry_unpack (table_access fs sz zero) buf e = read_fields fs sz buf zero"
  by (simp add: entry_unpack_def table_access_def access_init_def unpack_fields_spec)

lemma lbit_memset0: "4 dvd sz \<Longrightarrow> i < 8 * sz \<Longrightarrow> \<not> lbit sz (memset0 sz buf) i"
  by (simp add: memset0_def lbit_def tbit_replicate_0)

lemma lbit_take: "4 dvd sz \<Longrightarrow> i < 8 * sz \<Longrightarrow> lbit sz (take sz t) i = lbit sz t i"
  by (simp add: lbit_def tbit_take)

lemma lbit_append: "4 dvd sz \<Longrightarrow> i < 8 * sz \<Longrightarrow> length b = sz \<Longrightarrow> lbit sz (b @ r) i = lbit sz b i"
  using lbit_take [of sz i "b @ r"] by simp

lemma lbit_determines:
  assumes "4 dvd sz" "length t = sz" "length t' = sz" "\<And>i. i < 8 * sz \<Longrightarrow> lbit sz t' i = lbit sz t i"
  shows "t' = t"
  by (rule tbit_determines [OF assms(1), where q = lsw32]) (use assms in \<open>simp_all add: lbit_def\<close>)

lemma drop_memset0: "drop sz (memset0 sz buf) = drop sz buf"
  by (simp add: memset0_def)

lemma field_of_bits_eq:
  "field_ok sz f \<Longrightarrow> (\<And>i. lo f \<le> i \<Longrightarrow> i \<le> hi f \<Longrightarrow> lbit sz b i = lbit sz b' i) \<Longrightarrow>
   field_of sz b f = field_of sz b' f"
proof (rule bit_eqI)
  fix n assume a: "field_ok sz f" "\<And>i. lo f \<le> i \<Longrightarrow> i \<le> hi f \<Longrightarrow> lbit sz b i = lbit sz b' i"
  show "bit (field_of sz b f) n = bit (field_of sz b' f) n"
    using a(1) a(2) [of "lo f + n"] by (auto simp: bit_field_of width_def field_ok_def)
qed

section \<open>Tables\<close>

text \<open>
  The contract of a table whose access function is one list of fields. \<open>shape\<close> says that the array
  members have their C lengths and that the members outside the layout are zero, as the program's
  \<^verbatim>\<open>memset\<close> leaves them.
\<close>

locale table_codec =
  fixes fs :: "'e fld list" and sz :: nat and zero :: 'e and shape :: "'e \<Rightarrow> bool"
  assumes whole_words: "4 dvd sz"
    and layout: "layout_ok sz fs"
    and members: "all_separate fs"
    and lenses: "list_all (lens shape) fs"
    and shape_zero: "shape zero"
    and rebuild: "shape e \<Longrightarrow> foldl (\<lambda>z f. fset f (fval e f) z) zero fs = e"
begin

definition bytes :: "'e \<Rightarrow> u8 list" where
  "bytes e = fst (entry_pack (table_access fs sz zero) (replicate sz 0) e)"

lemma pack_spec:
  assumes "sz \<le> length buf"
  shows "\<exists>buf'. entry_pack (table_access fs sz zero) buf e = (buf', truncate_fields fs e) \<and>
    length buf' = length buf \<and> drop sz buf' = drop sz buf \<and>
    (\<forall>i < 8 * sz. lbit sz buf' i = layout_bit fs e i)"
  using pack_fields_spec [OF layout members whole_words, of "memset0 sz buf" e] assms
    lbit_memset0 [OF whole_words] layout_bit_covered [of fs e]
  by (auto simp: entry_pack_def table_access_def access_init_def drop_memset0)

lemma length_bytes: "length (bytes e) = sz"
  using pack_spec [of "replicate sz 0" e] by (auto simp: bytes_def)

lemma lbit_bytes: "i < 8 * sz \<Longrightarrow> lbit sz (bytes e) i = layout_bit fs e i"
  using pack_spec [of "replicate sz 0" e] by (auto simp: bytes_def)

text \<open>Packing writes the bytes of the entry, whatever the buffer held.\<close>

lemma pack_eq:
  assumes "sz \<le> length buf"
  shows "entry_pack (table_access fs sz zero) buf e = (bytes e @ drop sz buf, truncate_fields fs e)"
proof -
  obtain buf' where b: "entry_pack (table_access fs sz zero) buf e = (buf', truncate_fields fs e)"
    "length buf' = length buf" "drop sz buf' = drop sz buf"
    "\<forall>i < 8 * sz. lbit sz buf' i = layout_bit fs e i"
    using pack_spec [OF assms] by metis
  have "take sz buf' = bytes e"
    by (rule lbit_determines [OF whole_words])
      (use b(2,4) assms in \<open>simp_all add: length_bytes lbit_bytes lbit_take whole_words\<close>)
  then have "buf' = bytes e @ drop sz buf" using append_take_drop_id [of sz buf'] b(3) by simp
  then show ?thesis using b(1) by simp
qed

lemma field_of_bytes:
  assumes "f \<in> set fs"
  shows "field_of sz (bytes e @ r) f = take_bit (width f) (fval e f)"
proof (rule bit_eqI)
  fix j
  have ok: "field_ok sz f" using layout_okD [OF layout assms] .
  have "lbit sz (bytes e @ r) (lo f + j) = bit (fval e f) j" if "j < width f"
  proof -
    have i: "lo f + j < 8 * sz" "lo f + j \<le> hi f" using that ok by (auto simp: width_def field_ok_def)
    have "lbit sz (bytes e @ r) (lo f + j) = lbit sz (bytes e) (lo f + j)"
      using whole_words i(1) length_bytes by (rule lbit_append)
    also have "\<dots> = layout_bit fs e (lo f + j)" using lbit_bytes i by simp
    also have "\<dots> = bit (fval e f) j"
    proof
      assume "layout_bit fs e (lo f + j)"
      then obtain g where g: "g \<in> set fs" "lo g \<le> lo f + j" "lo f + j \<le> hi g"
        "bit (fval e g) (lo f + j - lo g)" by (auto simp: layout_bit_def)
      have "f = g" using layout_ok_cases [OF layout assms g(1)] g(2,3) i(2) by (auto simp: apart_def)
      then show "bit (fval e f) j" using g(4) by simp
    next
      assume "bit (fval e f) j"
      then show "layout_bit fs e (lo f + j)"
        unfolding layout_bit_def using assms i(2) by (intro bexI [of _ f]) simp_all
    qed
    finally show ?thesis .
  qed
  then show "bit (field_of sz (bytes e @ r) f) j = bit (take_bit (width f) (fval e f)) j"
    using ok by (auto simp: bit_field_of bit_take_bit_iff)
qed

lemma read_bytes: "read_fields fs sz (bytes e @ r) z = foldl (\<lambda>z f. fset f (take_bit (width f) (fval e f)) z) z fs"
proof -
  have "foldl (\<lambda>z f. fset f (field_of sz (bytes e @ r) f) z) z gs =
      foldl (\<lambda>z f. fset f (take_bit (width f) (fval e f)) z) z gs" if "set gs \<subseteq> set fs" for gs
    using that by (induction gs arbitrary: z) (auto simp: field_of_bytes)
  then show ?thesis by (simp add: read_fields_def)
qed

lemma unpack_bytes: "entry_unpack (table_access fs sz zero) (bytes e @ r) x = copy_fields fs zero e"
  by (simp add: table_unpack_read [OF layout] read_bytes copy_fields_def)

lemma fits_copy: "shape e \<Longrightarrow> fits fs e \<Longrightarrow> copy_fields fs zero e = e"
proof -
  assume a: "shape e" "fits fs e"
  have "foldl (\<lambda>z f. fset f (take_bit (width f) (fval e f)) z) z gs = foldl (\<lambda>z f. fset f (fval e f) z) z gs"
    if "set gs \<subseteq> set fs" for gs z
    using that a(2) by (induction gs arbitrary: z) (auto simp: fits_def list_all_iff)
  then show ?thesis using rebuild [OF a(1)] by (simp add: copy_fields_def)
qed

lemma fits_truncate: "shape e \<Longrightarrow> fits fs e \<Longrightarrow> truncate_fields fs e = e"
proof -
  assume a: "shape e" "fits fs e"
  have "foldl (\<lambda>z f. fset f (take_bit (width f) (fval z f)) z) e gs = e" if "set gs \<subseteq> set fs" for gs
    using that
  proof (induction gs)
    case (Cons f gs)
    then have "fset f (fval e f) e = e"
      using lenses a(1) by (cases f) (auto simp: list_all_iff)
    with Cons a(2) show ?case by (simp add: fits_def list_all_iff)
  qed simp
  then show ?thesis by (simp add: truncate_fields_def)
qed

text \<open>An entry that fits its fields survives packing, and is unpacked as it was.\<close>

lemma roundtrip:
  assumes "shape e" "fits fs e" "sz \<le> length buf"
  shows "entry_pack (table_access fs sz zero) buf e = (bytes e @ drop sz buf, e)"
    and "entry_unpack (table_access fs sz zero) (bytes e @ r) x = e"
  using assms by (simp_all add: pack_eq unpack_bytes fits_copy fits_truncate)
end

lemma fval_fset_separate': "separate f g \<Longrightarrow> fval (fset g v e) f = fval e f"
  by (cases f; cases g) auto

lemma fval_foldl_separate:
  "list_all (separate f) gs \<Longrightarrow> fval (foldl (\<lambda>z g. fset g (v g) z) z gs) f = fval z f"
  by (induction gs arbitrary: z) (auto simp: fval_fset_separate')

lemma shape_foldl:
  "list_all (lens shape) gs \<Longrightarrow> shape z \<Longrightarrow> shape (foldl (\<lambda>z g. fset g (v g) z) z gs)"
proof (induction gs arbitrary: z)
  case (Cons g gs)
  then show ?case by (cases g) auto
qed simp

fun is_member :: "'e fld \<Rightarrow> bool" where
  "is_member (Fld g p h l) \<longleftrightarrow> True"
| "is_member (Konst c h l) \<longleftrightarrow> False"

lemma fval_foldl_member:
  "all_separate gs \<Longrightarrow> list_all (lens shape) gs \<Longrightarrow> shape z \<Longrightarrow> f \<in> set gs \<Longrightarrow> is_member f \<Longrightarrow>
   fval (foldl (\<lambda>z g. fset g (v g) z) z gs) f = v f"
proof (induction gs arbitrary: z)
  case (Cons g gs)
  have s: "shape (fset g (v g) z)" using Cons.prems(2,3) by (cases g) auto
  show ?case
  proof (cases "f \<in> set gs")
    case True
    then show ?thesis using Cons.IH [OF _ _ s True] Cons.prems by simp
  next
    case False
    then have "f = g" using Cons.prems(4) by simp
    then show ?thesis
      using Cons.prems fval_foldl_separate [of f gs v "fset g (v g) z"] by (cases g) auto
  qed
qed simp

text \<open>A packed buffer in which nothing lies outside the fields.\<close>

fun holds_konst :: "nat \<Rightarrow> u8 list \<Rightarrow> 'e fld \<Rightarrow> bool" where
  "holds_konst sz b (Fld g p h l) \<longleftrightarrow> True"
| "holds_konst sz b (Konst c h l) \<longleftrightarrow> field_of sz b (Konst c h l :: 'e fld) = c"

definition canonical :: "'e fld list \<Rightarrow> nat \<Rightarrow> u8 list \<Rightarrow> bool" where
  "canonical fs sz b \<longleftrightarrow> list_all (\<lambda>i. covered fs i \<or> \<not> lbit sz b i) [0..<8 * sz] \<and>
     list_all (holds_konst sz b) fs"

lemma fval_konst: "holds_konst sz b f \<Longrightarrow> \<not> is_member f \<Longrightarrow> fval e f = field_of sz b f"
  by (cases f) auto

context table_codec begin

lemma shape_unpack: "shape (entry_unpack (table_access fs sz zero) b x)"
  using shape_foldl [OF lenses shape_zero, of "field_of sz b"]
  by (simp add: table_unpack_read [OF layout] read_fields_def)

lemma fval_unpack:
  "f \<in> set fs \<Longrightarrow> is_member f \<Longrightarrow> fval (entry_unpack (table_access fs sz zero) b x) f = field_of sz b f"
  using fval_foldl_member [OF members lenses shape_zero, of f "field_of sz b"]
  by (simp add: table_unpack_read [OF layout] read_fields_def)

lemma fval_unpack_canonical:
  assumes "canonical fs sz b" "f \<in> set fs"
  shows "fval (entry_unpack (table_access fs sz zero) b x) f = field_of sz b f"
proof (cases "is_member f")
  case False
  have "holds_konst sz b f" using assms by (auto simp: canonical_def list_all_iff)
  then show ?thesis using False by (rule fval_konst)
qed (use assms(2) fval_unpack in blast)

text \<open>Packing what was unpacked gives the bytes back, where the fields cover the buffer.\<close>

lemma pack_unpack:
  assumes "sz \<le> length b" "canonical fs sz b"
  shows "bytes (entry_unpack (table_access fs sz zero) b x) = take sz b"
proof (rule lbit_determines [OF whole_words])
  fix i assume i: "i < 8 * sz"
  define e where "e = entry_unpack (table_access fs sz zero) b x"
  have val: "fval e f = field_of sz b f" if "f \<in> set fs" for f
    using fval_unpack_canonical [OF assms(2) that] by (simp add: e_def)
  have "layout_bit fs e i \<longleftrightarrow> lbit sz b i"
  proof
    assume "layout_bit fs e i"
    then obtain f where f: "f \<in> set fs" "lo f \<le> i" "i \<le> hi f" "bit (fval e f) (i - lo f)"
      by (auto simp: layout_bit_def)
    then show "lbit sz b i"
      using val layout_okD [OF layout f(1)] by (auto simp: bit_field_of)
  next
    assume l: "lbit sz b i"
    then have "covered fs i" using assms(2) i by (auto simp: canonical_def list_all_iff)
    then obtain f where f: "f \<in> set fs" "lo f \<le> i" "i \<le> hi f" by (auto simp: covered_def list_ex_iff)
    then have "bit (fval e f) (i - lo f)"
      using val layout_okD [OF layout f(1)] l by (auto simp: bit_field_of width_def field_ok_def)
    then show "layout_bit fs e i" using f by (auto simp: layout_bit_def)
  qed
  then show "lbit sz (bytes (entry_unpack (table_access fs sz zero) b x)) i = lbit sz (take sz b) i"
    using i by (simp add: lbit_bytes lbit_take whole_words e_def)
qed (use assms(1) in \<open>simp_all add: length_bytes\<close>)

lemma fits_unpack:
  assumes "canonical fs sz b"
  shows "fits fs (entry_unpack (table_access fs sz zero) b x)"
proof -
  have "take_bit (width f) (field_of sz b f) = field_of sz b f" if "f \<in> set fs" for f
    by (rule bit_eqI) (use layout_okD [OF layout that] in \<open>auto simp: bit_take_bit_iff bit_field_of\<close>)
  then show ?thesis by (simp add: fits_def list_all_iff fval_unpack_canonical [OF assms])
qed

end

end
