(* ===== verification/Crc.thy ===== *)
theory Crc
  imports Gtable
begin

unbundle bit_operations_syntax

text \<open>
  The checksums of \<^verbatim>\<open>src/lib/gtable/gtable.c\<close>: the Ethernet CRC-32 over a packed buffer and the
  CRC-8 that hashes a forwarding database key into its bin.
\<close>

section \<open>The code\<close>

text \<open>One turn of the loops: the register and the input, shifted by one.\<close>

definition crc32_add_step :: "u32 \<times> u32 \<Rightarrow> u32 \<times> u32" where
  "crc32_add_step = (\<lambda>(crc, byte32).
     (if (crc XOR byte32) AND push_bit 31 1 \<noteq> 0 then push_bit 1 crc XOR 0x04C11DB7 else push_bit 1 crc,
      push_bit 1 byte32))"

definition crc32_add :: "u32 \<Rightarrow> u8 \<Rightarrow> u32" where
  "crc32_add crc byte = fst ((crc32_add_step ^^ 8) (crc, ucast (bit_reverse (ucast byte) 32)))"

definition crc32_chunk :: "u32 \<Rightarrow> u64 \<Rightarrow> u32" where
  "crc32_chunk crc chunk =
     (let crc = crc32_add crc (ucast (chunk AND 0xFF));
          crc = crc32_add crc (ucast (drop_bit 8 chunk AND 0xFF));
          crc = crc32_add crc (ucast (drop_bit 16 chunk AND 0xFF));
          crc = crc32_add crc (ucast (drop_bit 24 chunk AND 0xFF))
      in crc)"

function ether_crc32_loop :: "u8 list \<Rightarrow> nat \<Rightarrow> nat \<Rightarrow> u32 \<Rightarrow> u32" where
  "ether_crc32_loop buf len i crc =
     (if i < len
      then ether_crc32_loop buf len (i + 4) (crc32_chunk crc (fst (snd (gtable_unpack (drop i buf) 0 31 0 4))))
      else crc)"
  by pat_completeness auto
termination by (relation "measure (\<lambda>(buf, len, i, crc). len - i)") auto

declare ether_crc32_loop.simps [simp del]

definition ether_crc32_le :: "u8 list \<Rightarrow> nat \<Rightarrow> u32" where
  "ether_crc32_le buf len = ucast (bit_reverse (ucast (NOT (ether_crc32_loop buf len 0 0xFFFFFFFF))) 32)"

definition crc8_add_step :: "u8 \<Rightarrow> u8 \<times> u8 \<Rightarrow> u8 \<times> u8" where
  "crc8_add_step poly = (\<lambda>(crc, byte).
     (if (crc XOR byte) AND push_bit 7 1 \<noteq> 0 then push_bit 1 crc XOR poly else push_bit 1 crc,
      push_bit 1 byte))"

definition crc8_add :: "u8 \<Rightarrow> u8 \<Rightarrow> u8 \<Rightarrow> u8" where
  "crc8_add crc byte poly = fst ((crc8_add_step poly ^^ 8) (crc, byte))"

definition fdb_hash :: "u64 \<Rightarrow> u64 \<Rightarrow> u64 \<Rightarrow> u8" where
  "fdb_hash vlanid macaddr poly_koopman =
     (let poly = (ucast (1 + push_bit 1 poly_koopman) :: u8);
          input = push_bit 48 vlanid OR macaddr
      in foldl (\<lambda>crc i. crc8_add crc (ucast (drop_bit i (input AND push_bit i 0xff))) poly) 0
           [56, 48, 40, 32, 24, 16, 8, 0])"

section \<open>Bit reversal\<close>

lemma foldl_or_bits:
  "bit (foldl (bit_reverse_step v w) a [0..<k]) n \<longleftrightarrow>
     bit a n \<or> (\<exists>i < k. (v AND scast (push_bit i 1 :: u32)) \<noteq> 0 \<and> bit (ucast (push_bit (w - i - 1) 1 :: u32) :: u64) n)"
  by (induction k) (auto simp: bit_reverse_step_def Let_def bit_or_iff less_Suc_eq)

lemma and_scast_bit:
  assumes "i < 32" "drop_bit 32 v = 0"
  shows "(v AND scast (2 ^ i :: u32)) \<noteq> 0 \<longleftrightarrow> bit (v :: u64) i"
proof -
  have s: "bit (scast (2 ^ i :: u32) :: u64) j \<longleftrightarrow> (j = i \<or> i = 31 \<and> 31 \<le> j) \<and> j < 64" for j
    unfolding bit_signed_iff bit_2p using assms(1) by (auto simp: min_def)
  have v: "bit v j \<Longrightarrow> j < 32" for j using drop_bit_0_bits [OF assms(2), of j] by linarith
  show ?thesis
  proof
    assume "v AND scast (2 ^ i :: u32) \<noteq> 0"
    then obtain j where "bit v j" "j = i \<or> i = 31 \<and> 31 \<le> j" unfolding and_nonzero_iff s by blast
    moreover from this v [of j] have "j = i" by auto
    ultimately show "bit v i" by simp
  next
    assume "bit v i"
    then show "v AND scast (2 ^ i :: u32) \<noteq> 0" unfolding and_nonzero_iff s using assms(1) by auto
  qed
qed

lemma bit_bit_reverse:
  assumes "w \<le> 32" "drop_bit 32 v = 0"
  shows "bit (bit_reverse v w) n \<longleftrightarrow> n < w \<and> bit v (w - 1 - n)"
proof -
  have t: "(v AND scast (push_bit i 1 :: u32)) \<noteq> 0 \<longleftrightarrow> bit v i" if "i < w" for i
    using and_scast_bit [OF _ assms(2), of i] that assms(1) by (simp add: push_bit_of_1)
  have u: "bit (ucast (push_bit (w - i - 1) 1 :: u32) :: u64) n \<longleftrightarrow> n = w - i - 1" if "i < w" for i
    using that assms(1) by (auto simp: push_bit_of_1 bit_ucast_iff)
  have "bit (bit_reverse v w) n \<longleftrightarrow> (\<exists>i < w. bit v i \<and> n = w - i - 1)"
    unfolding bit_reverse_def foldl_or_bits using t u by (simp cong: conj_cong)
  also have "\<dots> \<longleftrightarrow> n < w \<and> bit v (w - 1 - n)"
    using assms(1) by (auto intro: exI [of _ "w - 1 - n"])
  finally show ?thesis .
qed

definition rev32 :: "u32 \<Rightarrow> u32" where
  "rev32 x = ucast (bit_reverse (ucast x) 32)"

lemma bit_rev32 [c_bits]: "bit (rev32 x) n \<longleftrightarrow> n < 32 \<and> bit x (31 - n)"
proof -
  have "drop_bit 32 (ucast x :: u64) = 0"
    by (rule bit_eqI) (auto simp: bit_drop_bit_eq bit_ucast_iff)
  then show ?thesis by (auto simp: rev32_def bit_ucast_iff bit_bit_reverse)
qed

lemma rev32_rev32 [simp]: "rev32 (rev32 x) = x"
  by (rule word_bits_eqI) (auto simp: c_bits)

lemma rev32_inj [simp]: "rev32 x = rev32 y \<longleftrightarrow> x = y"
  by (metis rev32_rev32)

section \<open>Shift registers with feedback\<close>

text \<open>
  One step of a CRC register of any width. Feeding a symbol adds it to the register and steps it a
  fixed number of times. The locale is the contract both checksums rest on: a feedback polynomial with
  the lowest bit set, so that no step loses information.
\<close>

definition lfsr :: "'a::len word \<Rightarrow> 'a word \<Rightarrow> 'a word" where
  "lfsr poly x = (if bit x (LENGTH('a) - 1) then push_bit 1 x XOR poly else push_bit 1 x)"

definition feed :: "'a::len word \<Rightarrow> nat \<Rightarrow> 'a word \<Rightarrow> 'a word \<Rightarrow> 'a word" where
  "feed poly k c b = (lfsr poly ^^ k) (c XOR b)"

lemma lfsr_bit:
  "bit (lfsr poly x) n \<longleftrightarrow>
     n < LENGTH('a) \<and> (0 < n \<and> bit x (n - 1)) \<noteq> (bit x (LENGTH('a) - 1) \<and> bit poly n)"
  for x poly :: "'a::len word"
  by (auto simp: lfsr_def bit_xor_iff bit_push_bit_iff)

lemma lfsr_xor: "lfsr poly (x XOR y) = lfsr poly x XOR lfsr poly y"
  by (rule word_bits_eqI) (auto simp: lfsr_bit bit_xor_iff)

lemma lfsr_pow_xor: "(lfsr poly ^^ n) (x XOR y) = (lfsr poly ^^ n) x XOR (lfsr poly ^^ n) y"
  by (induction n) (auto simp: lfsr_xor)

lemma lfsr_shift: "\<not> bit x (LENGTH('a) - 1) \<Longrightarrow> lfsr poly x = push_bit 1 x" for x :: "'a::len word"
  by (simp add: lfsr_def)

lemma lfsr_pow_shift:
  "(\<And>j. LENGTH('a) - n \<le> j \<Longrightarrow> \<not> bit x j) \<Longrightarrow> n \<le> LENGTH('a) \<Longrightarrow> (lfsr poly ^^ n) x = push_bit n x"
  for x :: "'a::len word"
proof (induction n)
  case (Suc n)
  then have "(lfsr poly ^^ n) x = push_bit n x" by auto
  moreover have "\<not> bit (push_bit n x) (LENGTH('a) - 1)"
    using Suc.prems(1) [of "LENGTH('a) - 1 - n"] by (auto simp: bit_push_bit_iff)
  ultimately show ?case by (simp add: lfsr_shift push_bit_push_bit)
qed simp

locale shift_register =
  fixes poly :: "'a::len word"
  assumes odd_poly: "bit poly 0"
begin

lemma step_inj: "inj (lfsr poly)"
proof (rule injI)
  fix x y assume e: "lfsr poly x = lfsr poly y"
  then have b: "\<And>n. bit (lfsr poly x) n = bit (lfsr poly y) n" by simp
  have top: "bit x (LENGTH('a) - 1) = bit y (LENGTH('a) - 1)"
    using b [of 0] odd_poly by (simp add: lfsr_bit)
  show "x = y"
  proof (rule word_bits_eqI)
    fix n assume "n < LENGTH('a)"
    then show "bit x n = bit y n"
      using b [of "Suc n"] top by (cases "n = LENGTH('a) - 1") (auto simp: lfsr_bit)
  qed
qed

lemma steps_inj: "inj (lfsr poly ^^ n)"
  using step_inj by (rule inj_fn)

lemma feed_eq_iff: "feed poly k c b = feed poly k c' b' \<longleftrightarrow> c XOR b = c' XOR b'"
  unfolding feed_def by (rule inj_eq [OF steps_inj])

lemma feeds_inj: "foldl (feed poly k) c bs = foldl (feed poly k) c' bs \<longleftrightarrow> c = c'"
proof (induction bs arbitrary: c c')
  case (Cons b bs)
  have "c XOR b = c' XOR b \<longleftrightarrow> c = c'"
    by (auto simp: word_eq_iff_bits bit_xor_iff)
  then show ?case using Cons by (simp add: feed_eq_iff)
qed simp

text \<open>A change of one symbol always changes the register.\<close>

lemma one_change_detected:
  assumes "length bs = length bs'" "i < length bs" "bs ! i \<noteq> bs' ! i"
    "\<And>j. j < length bs \<Longrightarrow> j \<noteq> i \<Longrightarrow> bs ! j = bs' ! j"
  shows "foldl (feed poly k) c bs \<noteq> foldl (feed poly k) c bs'"
proof -
  have pre: "take i bs = take i bs'"
    by (rule nth_equalityI) (use assms in auto)
  have suf: "drop (Suc i) bs = drop (Suc i) bs'"
    by (rule nth_equalityI) (use assms in auto)
  have s: "bs = take i bs @ bs ! i # drop (Suc i) bs" using assms(2) by (rule id_take_nth_drop)
  have s': "bs' = take i bs' @ bs' ! i # drop (Suc i) bs'"
    using assms(1,2) by (intro id_take_nth_drop) simp
  have "c0 XOR b = c0 XOR b' \<longleftrightarrow> b = b'" for c0 b b' :: "'a word"
    by (auto simp: word_eq_iff_bits bit_xor_iff)
  then show ?thesis
    by (subst s, subst s') (simp add: pre suf feeds_inj feed_eq_iff assms(3))
qed

end

text \<open>The registers of the code are such shift registers.\<close>

interpretation crc32: shift_register "0x04C11DB7 :: u32"
  by unfold_locales simp

definition crc8_poly :: "u64 \<Rightarrow> u8" where
  "crc8_poly poly_koopman = ucast (1 + push_bit 1 poly_koopman)"

lemma bit_crc8_poly_0: "bit (crc8_poly k) 0"
proof -
  have "1 + push_bit 1 k = 1 OR push_bit 1 k"
    by (rule disjunctive_add) (auto simp: bit_1_iff bit_push_bit_iff)
  then show ?thesis by (auto simp: crc8_poly_def bit_ucast_iff bit_or_iff)
qed

interpretation crc8: shift_register "crc8_poly k" for k
  by unfold_locales (rule bit_crc8_poly_0)

section \<open>The loops of the code as shift registers\<close>

lemma crc32_add_step_eq:
  "crc32_add_step (c, b) =
     (if bit (c XOR b) 31 then push_bit 1 c XOR 0x04C11DB7 else push_bit 1 c, push_bit 1 b)"
proof -
  have "(c XOR b) AND push_bit 31 1 \<noteq> 0 \<longleftrightarrow> bit (c XOR b) 31"
    using and_2p [of "c XOR b" 31] by (simp only: push_bit_of_1)
  then show ?thesis unfolding crc32_add_step_def by (simp only: split)
qed

lemma crc32_add_step_xor:
  "crc32_add_step (c, b) = (c', b') \<Longrightarrow> c' XOR b' = lfsr 0x04C11DB7 (c XOR b) \<and> b' = push_bit 1 b"
  unfolding crc32_add_step_eq
  by (auto intro!: word_bits_eqI simp: lfsr_bit bit_xor_iff split: if_splits)

lemma crc32_add_steps:
  "(crc32_add_step ^^ n) (c, b) = (c', b') \<Longrightarrow>
   c' XOR b' = (lfsr 0x04C11DB7 ^^ n) (c XOR b) \<and> b' = push_bit n b"
proof (induction n arbitrary: c' b')
  case (Suc n)
  obtain c1 b1 where 1: "(crc32_add_step ^^ n) (c, b) = (c1, b1)" by force
  with Suc.prems have "crc32_add_step (c1, b1) = (c', b')" by simp
  from crc32_add_step_xor [OF this] Suc.IH [OF 1] show ?case
    by (auto intro!: word_bits_eqI simp: bit_push_bit_iff)
qed simp

lemma bit_byte32: "bit (ucast (bit_reverse (ucast (b :: u8)) 32) :: u32) n \<longleftrightarrow> 24 \<le> n \<and> n < 32 \<and> bit b (31 - n)"
proof -
  have "drop_bit 32 (ucast b :: u64) = 0" by (rule bit_eqI) (auto simp: bit_drop_bit_eq bit_ucast_iff)
  then show ?thesis by (auto simp: bit_ucast_iff bit_bit_reverse dest: bit_imp_le_length)
qed

lemma crc32_add_lfsr:
  "crc32_add c b = feed 0x04C11DB7 8 c (ucast (bit_reverse (ucast b) 32))"
proof -
  define b32 :: u32 where "b32 = ucast (bit_reverse (ucast b) 32)"
  obtain c' b' where cb: "(crc32_add_step ^^ 8) (c, b32) = (c', b')" by force
  have "push_bit 8 b32 = 0"
    by (rule word_bits_eqI) (auto simp: b32_def bit_push_bit_iff bit_byte32)
  then have "c' = (lfsr 0x04C11DB7 ^^ 8) (c XOR b32)" using crc32_add_steps [OF cb] by auto
  then show ?thesis by (simp add: crc32_add_def feed_def b32_def [symmetric] cb)
qed

text \<open>A chunk of four bytes is one symbol: the chunk, bit-reversed, enters the register whole.\<close>

lemma crc32_chunk_lfsr: "crc32_chunk c w = feed 0x04C11DB7 32 c (rev32 (ucast w))"
proof -
  let ?S = "lfsr (0x04C11DB7 :: u32)"
  define b where "b i = (ucast (bit_reverse (ucast (ucast (drop_bit (8 * i) w AND 0xFF) :: u8)) 32) :: u32)" for i
  have bb: "bit (b i) n \<longleftrightarrow> 24 \<le> n \<and> n < 32 \<and> bit w (8 * i + (31 - n))" for i n
    unfolding b_def bit_byte32
    by (auto simp: bit_ucast_iff bit_and_iff bit_drop_bit_eq bit_0xFF bit_0xFF_int)
  have in_shift: "(?S ^^ (8 * i)) (drop_bit (8 * i) (b i)) = b i" if "i < 4" for i
  proof -
    have "(?S ^^ (8 * i)) (drop_bit (8 * i) (b i)) = push_bit (8 * i) (drop_bit (8 * i) (b i))"
      by (rule lfsr_pow_shift) (use that in \<open>auto simp: bit_drop_bit_eq dest!: bit_imp_le_length\<close>)
    also have "\<dots> = b i"
      by (rule word_bits_eqI) (use that in \<open>auto simp: bit_push_bit_iff bit_drop_bit_eq bb ac_simps\<close>)
    finally show ?thesis .
  qed
  have "rev32 (ucast w) = b 0 XOR drop_bit 8 (b 1) XOR drop_bit 16 (b 2) XOR drop_bit 24 (b 3)"
  proof (rule word_bits_eqI)
    fix n assume "n < LENGTH(32)"
    then have n: "n < 32" by simp
    consider "n < 8" | "8 \<le> n" "n < 16" | "16 \<le> n" "n < 24" | "24 \<le> n" "n < 32" using n by linarith
    then show "bit (rev32 (ucast w)) n =
      bit (b 0 XOR drop_bit 8 (b 1) XOR drop_bit 16 (b 2) XOR drop_bit 24 (b 3)) n"
      by cases (auto simp: bit_rev32 bit_ucast_iff bit_xor_iff bit_drop_bit_eq bb)
  qed
  then have "feed 0x04C11DB7 32 c (rev32 (ucast w)) =
    (?S ^^ 32) (c XOR b 0 XOR drop_bit 8 (b 1) XOR drop_bit 16 (b 2) XOR drop_bit 24 (b 3))"
    by (simp add: feed_def xor.assoc)
  also have "\<dots> = (?S ^^ 8) ((?S ^^ 8) ((?S ^^ 8) ((?S ^^ 8)
      (c XOR b 0 XOR drop_bit 8 (b 1) XOR drop_bit 16 (b 2) XOR drop_bit 24 (b 3)))))"
    by (simp add: funpow_add [symmetric, THEN fun_cong, unfolded comp_def] del: funpow.simps)
  also have "\<dots> = (?S ^^ 8) ((?S ^^ 8) ((?S ^^ 8) ((?S ^^ 8) (c XOR b 0) XOR b 1) XOR b 2) XOR b 3)"
  proof -
    have "(?S ^^ 8) (drop_bit 8 (b 1)) = b 1" using in_shift [of 1] by simp
    moreover have "(?S ^^ 8) ((?S ^^ 8) (drop_bit 16 (b 2))) = b 2"
      using in_shift [of 2] by (simp add: funpow_add [of 8 8, THEN fun_cong, unfolded comp_def, simplified])
    moreover have "(?S ^^ 8) ((?S ^^ 8) ((?S ^^ 8) (drop_bit 24 (b 3)))) = b 3"
      using in_shift [of 3]
      by (simp add: funpow_add [of 16 8, THEN fun_cong, unfolded comp_def, simplified]
          funpow_add [of 8 8, THEN fun_cong, unfolded comp_def, simplified])
    ultimately show ?thesis by (simp only: lfsr_pow_xor xor.assoc)
  qed
  also have "\<dots> = crc32_chunk c w"
    by (simp add: crc32_chunk_def crc32_add_lfsr feed_def b_def)
  finally show ?thesis by simp
qed

section \<open>The CRC over a buffer\<close>

text \<open>The words of a buffer, and its bytes with each word reversed.\<close>

fun be_words :: "u8 list \<Rightarrow> u64 list" where
  "be_words (b0 # b1 # b2 # b3 # r) = be32 b0 b1 b2 b3 # be_words r"
| "be_words _ = []"

fun swap_words :: "u8 list \<Rightarrow> u8 list" where
  "swap_words (b0 # b1 # b2 # b3 # r) = b3 # b2 # b1 # b0 # swap_words r"
| "swap_words _ = []"

lemma ether_crc32_loop_words:
  "i + 4 * k \<le> length buf \<Longrightarrow>
   ether_crc32_loop buf (i + 4 * k) i c = foldl crc32_chunk c (be_words (take (4 * k) (drop i buf)))"
proof (induction k arbitrary: i c)
  case 0
  then show ?case by (simp add: ether_crc32_loop.simps)
next
  case (Suc k)
  then have "4 \<le> length (drop i buf)" by simp
  then obtain b0 b1 b2 b3 r where d: "drop i buf = b0 # b1 # b2 # b3 # r"
    by (cases "drop i buf" rule: be_words.cases) auto
  have "drop (i + 4) buf = drop 4 (drop i buf)" by (simp add: add.commute)
  then have d4: "drop (i + 4) buf = r" by (simp add: d)
  have t4: "take (4 + n) (b0 # b1 # b2 # b3 # r) = b0 # b1 # b2 # b3 # take n r" for n
    by (simp add: numeral_eq_Suc)
  show ?case
    using Suc.IH [of "i + 4"] Suc.prems d d4
    by (subst ether_crc32_loop.simps) (simp add: gtable_unpack_word t4 algebra_simps)
qed

lemma ether_crc32_le_words:
  "4 * k \<le> length buf \<Longrightarrow>
   ether_crc32_le buf (4 * k) = rev32 (NOT (foldl crc32_chunk 0xFFFFFFFF (be_words (take (4 * k) buf))))"
  using ether_crc32_loop_words [of 0 k buf] by (simp add: ether_crc32_le_def rev32_def)

text \<open>The reflected form of the CRC in the literature, which takes the least significant bit first.\<close>

definition crc32_ieee_bit :: "u32 \<Rightarrow> u32" where
  "crc32_ieee_bit x = (if bit x 0 then drop_bit 1 x XOR 0xEDB88320 else drop_bit 1 x)"

definition crc32_ieee_byte :: "u32 \<Rightarrow> u8 \<Rightarrow> u32" where
  "crc32_ieee_byte c b = (crc32_ieee_bit ^^ 8) (c XOR ucast b)"

definition crc32_ieee :: "u8 list \<Rightarrow> u32" where
  "crc32_ieee bs = NOT (foldl crc32_ieee_byte 0xFFFFFFFF bs)"

lemma rev32_xor: "rev32 (x XOR y) = rev32 x XOR rev32 y"
  by (rule word_bits_eqI) (auto simp: bit_rev32 bit_xor_iff)

lemma rev32_not: "rev32 (NOT x) = NOT (rev32 x)"
  by (rule word_bits_eqI) (auto simp: bit_rev32 bit_not_iff)

lemma poly_reflected: "rev32 0x04C11DB7 = 0xEDB88320"
  by (simp add: rev32_def bit_reverse_def bit_reverse_step_def upt_rec Let_def)

lemma rev32_lfsr: "rev32 (lfsr 0x04C11DB7 x) = crc32_ieee_bit (rev32 x)"
proof -
  have "rev32 (push_bit 1 x) = drop_bit 1 (rev32 x)"
    by (rule word_bits_eqI) (auto simp: bit_rev32 bit_drop_bit_eq)
  then show ?thesis
    by (simp add: lfsr_def crc32_ieee_bit_def bit_rev32 rev32_xor poly_reflected)
qed

lemma rev32_lfsr_pow: "rev32 ((lfsr 0x04C11DB7 ^^ n) x) = (crc32_ieee_bit ^^ n) (rev32 x)"
  by (induction n) (simp_all add: rev32_lfsr)

lemma rev32_crc32_add: "rev32 (crc32_add c b) = crc32_ieee_byte (rev32 c) b"
proof -
  have "rev32 (ucast (bit_reverse (ucast b) 32)) = ucast b"
    by (rule word_bits_eqI, subst bit_rev32, subst bit_byte32)
      (auto simp: bit_ucast_iff dest: bit_imp_le_length)
  then show ?thesis
    by (simp add: crc32_add_lfsr feed_def rev32_lfsr_pow rev32_xor crc32_ieee_byte_def)
qed

lemma be32_bytes:
  "ucast (be32 b0 b1 b2 b3 AND 0xFF) = b3" "ucast (drop_bit 8 (be32 b0 b1 b2 b3) AND 0xFF) = b2"
  "ucast (drop_bit 16 (be32 b0 b1 b2 b3) AND 0xFF) = b1" "ucast (drop_bit 24 (be32 b0 b1 b2 b3) AND 0xFF) = b0"
  by (rule word_bits_eqI; auto simp: be32_def bit_ucast_iff bit_and_iff bit_or_iff bit_push_bit_iff
      bit_drop_bit_eq bit_0xFF bit_0xFF_int dest: bit_imp_le_length)+

lemma rev32_crc32_chunk:
  "rev32 (crc32_chunk c (be32 b0 b1 b2 b3)) = foldl crc32_ieee_byte (rev32 c) [b3, b2, b1, b0]"
  unfolding crc32_chunk_def Let_def be32_bytes by (simp add: rev32_crc32_add)

lemma rev32_crc32_words:
  "rev32 (foldl crc32_chunk c (be_words bs)) = foldl crc32_ieee_byte (rev32 c) (swap_words bs)"
  by (induction bs arbitrary: c rule: be_words.induct) (simp_all add: rev32_crc32_chunk)

lemma rev32_ones: "rev32 0xFFFFFFFF = 0xFFFFFFFF"
proof -
  have m: "(0xFFFFFFFF :: u32) = - 1" by simp
  show ?thesis unfolding m by (rule word_bits_eqI) (auto simp: bit_rev32)
qed

text \<open>
  C10: the checksum the tool computes and expects over a buffer of 32-bit words is the CRC-32 of
  IEEE 802.3 over the bytes of each word taken from the last to the first.
\<close>

theorem ether_crc32_le_ieee:
  assumes "4 * k \<le> length buf"
  shows "ether_crc32_le buf (4 * k) = crc32_ieee (swap_words (take (4 * k) buf))"
  using assms by (simp add: ether_crc32_le_words rev32_not rev32_crc32_words rev32_ones crc32_ieee_def)

theorem ether_crc32_le_ieee_witness:
  "ether_crc32_le [1, 2, 3, 4, 5, 6, 7, 8, 9] 8 = crc32_ieee [4, 3, 2, 1, 8, 7, 6, 5]"
  using ether_crc32_le_ieee [of 2 "[1, 2, 3, 4, 5, 6, 7, 8, 9]"] by simp

section \<open>Errors the CRC detects\<close>

lemma be_words_length: "length (be_words bs) = length bs div 4"
  by (induction bs rule: be_words.induct) auto

lemma be_words_nth:
  "4 * i + 4 \<le> length bs \<Longrightarrow>
   be_words bs ! i = be32 (bs ! (4 * i)) (bs ! (4 * i + 1)) (bs ! (4 * i + 2)) (bs ! (4 * i + 3))"
proof (induction bs arbitrary: i rule: be_words.induct)
  case (1 b0 b1 b2 b3 r)
  show ?case
  proof (cases i)
    case (Suc j)
    have e: "4 * Suc j = Suc (Suc (Suc (Suc (4 * j))))" by simp
    show ?thesis using 1 unfolding Suc e by (simp add: add.commute)
  qed simp
qed auto

lemma be32_eq_iff: "ucast (be32 a b c d) = (ucast (be32 a' b' c' d') :: u32) \<longleftrightarrow> a = a' \<and> b = b' \<and> c = c' \<and> d = d'"
proof
  assume e: "ucast (be32 a b c d) = (ucast (be32 a' b' c' d') :: u32)"
  have u: "ucast (drop_bit k (x :: u64) AND 0xFF) = (ucast (drop_bit k (ucast x :: u32) AND 0xFF) :: u8)"
    if "k \<le> 24" for x k
    by (rule word_bits_eqI) (use that in \<open>auto simp: bit_ucast_iff bit_and_iff bit_drop_bit_eq bit_0xFF bit_0xFF_int\<close>)
  have "ucast (drop_bit k (be32 a b c d) AND 0xFF) = (ucast (drop_bit k (be32 a' b' c' d') AND 0xFF) :: u8)"
    if "k \<le> 24" for k
    by (simp only: u [OF that] e)
  from this [of 0] this [of 8] this [of 16] this [of 24]
  show "a = a' \<and> b = b' \<and> c = c' \<and> d = d'" by (simp add: be32_bytes)
qed simp

lemma foldl_chunk_feed:
  "foldl crc32_chunk c ws = foldl (feed 0x04C11DB7 32) c (map (\<lambda>w. rev32 (ucast w)) ws)"
  by (induction ws arbitrary: c) (simp_all add: crc32_chunk_lfsr)

lemma be_words_append: "4 dvd length xs \<Longrightarrow> be_words (xs @ ys) = be_words xs @ be_words ys"
proof (induction xs rule: be_words.induct)
  case (1 b0 b1 b2 b3 r)
  then have "4 dvd length r" by simp presburger
  with 1 show ?case by simp
qed (auto dest: dvd_imp_le)

lemma list_of_4: "length xs = 4 \<Longrightarrow> \<exists>a b c d. xs = [a, b, c, d]" for xs :: "u8 list"
  by (cases xs rule: be_words.cases) auto

text \<open>
  Two buffers of 32-bit words that differ only within one word, in whatever bits of it, have
  different checksums: such a corruption of a table never goes unnoticed.
\<close>

theorem ether_crc32_le_detects:
  assumes "4 dvd length pre" "length w = 4" "length w' = 4" "4 dvd length post" "w \<noteq> w'"
    "n = length (pre @ w @ post)"
  shows "ether_crc32_le (pre @ w @ post) n \<noteq> ether_crc32_le (pre @ w' @ post) n"
proof -
  obtain k where k: "n = 4 * k" using assms by (metis dvd_add dvd_refl dvd_def length_append)
  have words: "be_words (pre @ x @ post) = be_words pre @ be_words x @ be_words post" if "length x = 4" for x
    using be_words_append [OF assms(1)] be_words_append [of x] that by simp
  obtain a b c d a' b' c' d' where w: "w = [a, b, c, d]" "w' = [a', b', c', d']"
    using assms(2,3) list_of_4 by metis
  have "(ucast (be32 a b c d) :: u32) \<noteq> ucast (be32 a' b' c' d')"
    using assms(5) w by (simp add: be32_eq_iff)
  moreover have "be_words (pre @ w @ post) = be_words pre @ be32 a b c d # be_words post"
    "be_words (pre @ w' @ post) = be_words pre @ be32 a' b' c' d' # be_words post"
    using words [OF assms(2)] words [OF assms(3)] w by simp_all
  moreover have "(x XOR y) = (x XOR z) \<longleftrightarrow> y = z" for x y z :: u32
    by (auto simp: word_eq_iff_bits bit_xor_iff)
  ultimately have "foldl crc32_chunk 0xFFFFFFFF (be_words (pre @ w @ post)) \<noteq>
      foldl crc32_chunk 0xFFFFFFFF (be_words (pre @ w' @ post))"
    by (simp add: foldl_chunk_feed crc32_chunk_lfsr crc32.feeds_inj crc32.feed_eq_iff)
  moreover have "take (4 * k) (pre @ w @ post) = pre @ w @ post" "take (4 * k) (pre @ w' @ post) = pre @ w' @ post"
    using assms(2,3,6) k by simp_all
  ultimately show ?thesis
    using ether_crc32_le_words [of k "pre @ w @ post"] ether_crc32_le_words [of k "pre @ w' @ post"]
      assms(2,3,6) k by simp
qed

theorem ether_crc32_le_detects_witness:
  "ether_crc32_le [1, 2, 3, 4, 5, 6, 7, 8] 8 \<noteq> ether_crc32_le [1, 2, 3, 4, 5, 0, 7, 9] 8"
  using ether_crc32_le_detects [of "[1, 2, 3, 4]" "[5, 6, 7, 8]" "[5, 0, 7, 9]" "[]" 8]
  by (simp add: dvd_def exI [of _ 1])

section \<open>The hash of the forwarding database\<close>

lemma crc8_add_step_eq:
  "crc8_add_step poly (c, b) =
     (if bit (c XOR b) 7 then push_bit 1 c XOR poly else push_bit 1 c, push_bit 1 b)"
proof -
  have "(c XOR b) AND push_bit 7 1 \<noteq> 0 \<longleftrightarrow> bit (c XOR b) 7"
    using and_2p [of "c XOR b" 7] by (simp only: push_bit_of_1)
  then show ?thesis unfolding crc8_add_step_def by (simp only: split)
qed

lemma crc8_add_steps:
  "(crc8_add_step poly ^^ n) (c, b) = (c', b') \<Longrightarrow>
   c' XOR b' = (lfsr poly ^^ n) (c XOR b) \<and> b' = push_bit n b"
proof (induction n arbitrary: c' b')
  case (Suc n)
  obtain c1 b1 where 1: "(crc8_add_step poly ^^ n) (c, b) = (c1, b1)" by force
  with Suc.prems have "crc8_add_step poly (c1, b1) = (c', b')" by simp
  then have "c' XOR b' = lfsr poly (c1 XOR b1)" "b' = push_bit 1 b1"
    unfolding crc8_add_step_eq
    by (auto intro!: word_bits_eqI simp: lfsr_bit bit_xor_iff split: if_splits)
  with Suc.IH [OF 1] show ?case
    by (auto intro!: word_bits_eqI simp: bit_push_bit_iff)
qed simp

lemma crc8_add_feed: "crc8_add c b poly = feed poly 8 c b"
proof -
  obtain c' b' where cb: "(crc8_add_step poly ^^ 8) (c, b) = (c', b')" by force
  have "push_bit 8 b = 0" by (rule word_bits_eqI) (auto simp: bit_push_bit_iff)
  then show ?thesis using crc8_add_steps [OF cb] by (auto simp: crc8_add_def feed_def cb)
qed

text \<open>The eight octets that the hash takes, the VLAN id first.\<close>

definition fdb_key :: "u64 \<Rightarrow> u64 \<Rightarrow> u8 list" where
  "fdb_key vlanid macaddr =
     map (\<lambda>i. ucast (drop_bit i (push_bit 48 vlanid OR macaddr))) [56, 48, 40, 32, 24, 16, 8, 0]"

lemma foldl_octets:
  "foldl (\<lambda>c i. crc8_add c (ucast (drop_bit i (x AND push_bit i 0xff))) poly) c is =
   foldl (feed poly 8) c (map (\<lambda>i. ucast (drop_bit i x)) is)"
proof (induction "is" arbitrary: c)
  case (Cons i "is")
  have "(ucast (drop_bit i (x AND push_bit i 0xff)) :: u8) = ucast (drop_bit i x)"
    by (rule word_bits_eqI)
      (auto simp: bit_ucast_iff bit_drop_bit_eq bit_and_iff bit_push_bit_iff bit_0xFF bit_0xFF_int
        dest: bit_imp_le_length)
  then show ?case using Cons by (simp add: crc8_add_feed)
qed simp

lemma fdb_hash_feed: "fdb_hash vlanid macaddr k = foldl (feed (crc8_poly k) 8) 0 (fdb_key vlanid macaddr)"
  unfolding fdb_hash_def Let_def foldl_octets fdb_key_def crc8_poly_def ..

text \<open>
  For every polynomial, two keys of the forwarding database that differ in a single octet fall into
  different bins.
\<close>

theorem fdb_hash_separates:
  assumes "i < 8" "fdb_key v m ! i \<noteq> fdb_key v' m' ! i"
    "\<forall>j < 8. j \<noteq> i \<longrightarrow> fdb_key v m ! j = fdb_key v' m' ! j"
  shows "fdb_hash v m k \<noteq> fdb_hash v' m' k"
proof -
  have l: "length (fdb_key v m) = 8" "length (fdb_key v' m') = 8" by (simp_all add: fdb_key_def)
  have "foldl (feed (crc8_poly k) 8) 0 (fdb_key v m) \<noteq> foldl (feed (crc8_poly k) 8) 0 (fdb_key v' m')"
    by (rule crc8.one_change_detected [where i = i]) (use l assms in auto)
  then show ?thesis by (simp add: fdb_hash_feed)
qed

lemma all_less_8: "(\<forall>j < 8. P j) \<longleftrightarrow> P 0 \<and> P 1 \<and> P 2 \<and> P 3 \<and> P 4 \<and> P 5 \<and> P 6 \<and> P (7 :: nat)"
  by (simp add: numeral_eq_Suc All_less_Suc conj_ac)

theorem fdb_hash_separates_witness: "fdb_hash 1 0x0180C2000001 0x97 \<noteq> fdb_hash 1 0x0180C2000002 0x97"
proof -
  have "fdb_key 1 0x0180C2000001 = [0, 1, 0x01, 0x80, 0xC2, 0, 0, 1]"
    "fdb_key 1 0x0180C2000002 = [0, 1, 0x01, 0x80, 0xC2, 0, 0, 2]" by code_simp+
  then show ?thesis
    using fdb_hash_separates [of 7 1 "0x0180C2000001" 1 "0x0180C2000002" "0x97"]
    by (simp add: all_less_8)
qed

end
