(* ===== verification/Tables_Base.thy ===== *)
theory Tables_Base
  imports Layout Crc
begin

unbundle bit_operations_syntax

text \<open>
  The constants of \<^verbatim>\<open>src/lib/include/static-config.h\<close> (sizes, block identifiers, table capacities,
  device identifiers), the table header, and the lemmas the tables share.
\<close>

section \<open>Sizes, block identifiers and capacities\<close>

abbreviation (input) SIZE_TABLE_HEADER :: nat where "SIZE_TABLE_HEADER \<equiv> 12"
abbreviation (input) SIZE_SCHEDULE_ENTRY :: nat where "SIZE_SCHEDULE_ENTRY \<equiv> 8"
abbreviation (input) SIZE_SCHEDULE_ENTRY_POINTS_ENTRY :: nat where "SIZE_SCHEDULE_ENTRY_POINTS_ENTRY \<equiv> 4"
abbreviation (input) SIZE_VL_LOOKUP_ENTRY :: nat where "SIZE_VL_LOOKUP_ENTRY \<equiv> 12"
abbreviation (input) SIZE_VL_POLICING_ENTRY :: nat where "SIZE_VL_POLICING_ENTRY \<equiv> 8"
abbreviation (input) SIZE_VL_FORWARDING_ENTRY :: nat where "SIZE_VL_FORWARDING_ENTRY \<equiv> 4"
abbreviation (input) SIZE_L2_LOOKUP_ENTRY_ET :: nat where "SIZE_L2_LOOKUP_ENTRY_ET \<equiv> 12"
abbreviation (input) SIZE_L2_LOOKUP_ENTRY_PQRS :: nat where "SIZE_L2_LOOKUP_ENTRY_PQRS \<equiv> 20"
abbreviation (input) SIZE_L2_POLICING_ENTRY :: nat where "SIZE_L2_POLICING_ENTRY \<equiv> 8"
abbreviation (input) SIZE_VLAN_LOOKUP_ENTRY :: nat where "SIZE_VLAN_LOOKUP_ENTRY \<equiv> 8"
abbreviation (input) SIZE_L2_FORWARDING_ENTRY :: nat where "SIZE_L2_FORWARDING_ENTRY \<equiv> 8"
abbreviation (input) SIZE_MAC_CONFIG_ENTRY_ET :: nat where "SIZE_MAC_CONFIG_ENTRY_ET \<equiv> 28"
abbreviation (input) SIZE_MAC_CONFIG_ENTRY_PQRS :: nat where "SIZE_MAC_CONFIG_ENTRY_PQRS \<equiv> 32"
abbreviation (input) SIZE_SCHEDULE_PARAMS_ENTRY :: nat where "SIZE_SCHEDULE_PARAMS_ENTRY \<equiv> 12"
abbreviation (input) SIZE_SCHEDULE_ENTRY_POINTS_PARAMS_ENTRY :: nat where "SIZE_SCHEDULE_ENTRY_POINTS_PARAMS_ENTRY \<equiv> 4"
abbreviation (input) SIZE_VL_FORWARDING_PARAMS_ENTRY :: nat where "SIZE_VL_FORWARDING_PARAMS_ENTRY \<equiv> 12"
abbreviation (input) SIZE_L2_LOOKUP_PARAMS_ENTRY_ET :: nat where "SIZE_L2_LOOKUP_PARAMS_ENTRY_ET \<equiv> 4"
abbreviation (input) SIZE_L2_LOOKUP_PARAMS_ENTRY_PQRS :: nat where "SIZE_L2_LOOKUP_PARAMS_ENTRY_PQRS \<equiv> 16"
abbreviation (input) SIZE_L2_FORWARDING_PARAMS_ENTRY :: nat where "SIZE_L2_FORWARDING_PARAMS_ENTRY \<equiv> 12"
abbreviation (input) SIZE_CLK_SYNC_PARAMS_ENTRY :: nat where "SIZE_CLK_SYNC_PARAMS_ENTRY \<equiv> 52"
abbreviation (input) SIZE_AVB_PARAMS_ENTRY_ET :: nat where "SIZE_AVB_PARAMS_ENTRY_ET \<equiv> 12"
abbreviation (input) SIZE_AVB_PARAMS_ENTRY_PQRS :: nat where "SIZE_AVB_PARAMS_ENTRY_PQRS \<equiv> 16"
abbreviation (input) SIZE_GENERAL_PARAMS_ENTRY_ET :: nat where "SIZE_GENERAL_PARAMS_ENTRY_ET \<equiv> 40"
abbreviation (input) SIZE_GENERAL_PARAMS_ENTRY_PQRS :: nat where "SIZE_GENERAL_PARAMS_ENTRY_PQRS \<equiv> 44"
abbreviation (input) SIZE_XMII_MODE_PARAMS_ENTRY :: nat where "SIZE_XMII_MODE_PARAMS_ENTRY \<equiv> 4"
abbreviation (input) SIZE_SGMII_ENTRY :: nat where "SIZE_SGMII_ENTRY \<equiv> 144"

abbreviation (input) BLKID_SCHEDULE_TABLE :: u64 where "BLKID_SCHEDULE_TABLE \<equiv> 0x00"
abbreviation (input) BLKID_SCHEDULE_ENTRY_POINTS_TABLE :: u64 where "BLKID_SCHEDULE_ENTRY_POINTS_TABLE \<equiv> 0x01"
abbreviation (input) BLKID_VL_LOOKUP_TABLE :: u64 where "BLKID_VL_LOOKUP_TABLE \<equiv> 0x02"
abbreviation (input) BLKID_VL_POLICING_TABLE :: u64 where "BLKID_VL_POLICING_TABLE \<equiv> 0x03"
abbreviation (input) BLKID_VL_FORWARDING_TABLE :: u64 where "BLKID_VL_FORWARDING_TABLE \<equiv> 0x04"
abbreviation (input) BLKID_L2_LOOKUP_TABLE :: u64 where "BLKID_L2_LOOKUP_TABLE \<equiv> 0x05"
abbreviation (input) BLKID_L2_POLICING_TABLE :: u64 where "BLKID_L2_POLICING_TABLE \<equiv> 0x06"
abbreviation (input) BLKID_VLAN_LOOKUP_TABLE :: u64 where "BLKID_VLAN_LOOKUP_TABLE \<equiv> 0x07"
abbreviation (input) BLKID_L2_FORWARDING_TABLE :: u64 where "BLKID_L2_FORWARDING_TABLE \<equiv> 0x08"
abbreviation (input) BLKID_MAC_CONFIG_TABLE :: u64 where "BLKID_MAC_CONFIG_TABLE \<equiv> 0x09"
abbreviation (input) BLKID_SCHEDULE_PARAMS_TABLE :: u64 where "BLKID_SCHEDULE_PARAMS_TABLE \<equiv> 0x0A"
abbreviation (input) BLKID_SCHEDULE_ENTRY_POINTS_PARAMS_TABLE :: u64 where "BLKID_SCHEDULE_ENTRY_POINTS_PARAMS_TABLE \<equiv> 0x0B"
abbreviation (input) BLKID_VL_FORWARDING_PARAMS_TABLE :: u64 where "BLKID_VL_FORWARDING_PARAMS_TABLE \<equiv> 0x0C"
abbreviation (input) BLKID_L2_LOOKUP_PARAMS_TABLE :: u64 where "BLKID_L2_LOOKUP_PARAMS_TABLE \<equiv> 0x0D"
abbreviation (input) BLKID_L2_FORWARDING_PARAMS_TABLE :: u64 where "BLKID_L2_FORWARDING_PARAMS_TABLE \<equiv> 0x0E"
abbreviation (input) BLKID_CLK_SYNC_PARAMS_TABLE :: u64 where "BLKID_CLK_SYNC_PARAMS_TABLE \<equiv> 0x0F"
abbreviation (input) BLKID_AVB_PARAMS_TABLE :: u64 where "BLKID_AVB_PARAMS_TABLE \<equiv> 0x10"
abbreviation (input) BLKID_GENERAL_PARAMS_TABLE :: u64 where "BLKID_GENERAL_PARAMS_TABLE \<equiv> 0x11"
abbreviation (input) BLKID_XMII_MODE_PARAMS_TABLE :: u64 where "BLKID_XMII_MODE_PARAMS_TABLE \<equiv> 0x4E"
abbreviation (input) BLKID_SGMII_TABLE :: u64 where "BLKID_SGMII_TABLE \<equiv> 0xC8"

abbreviation (input) MAX_SCHEDULE_COUNT :: nat where "MAX_SCHEDULE_COUNT \<equiv> 1024"
abbreviation (input) MAX_SCHEDULE_ENTRY_POINTS_COUNT :: nat where "MAX_SCHEDULE_ENTRY_POINTS_COUNT \<equiv> 2048"
abbreviation (input) MAX_VL_LOOKUP_COUNT :: nat where "MAX_VL_LOOKUP_COUNT \<equiv> 1024"
abbreviation (input) MAX_VL_POLICING_COUNT :: nat where "MAX_VL_POLICING_COUNT \<equiv> 1024"
abbreviation (input) MAX_VL_FORWARDING_COUNT :: nat where "MAX_VL_FORWARDING_COUNT \<equiv> 1024"
abbreviation (input) MAX_L2_LOOKUP_COUNT :: nat where "MAX_L2_LOOKUP_COUNT \<equiv> 1024"
abbreviation (input) MAX_L2_POLICING_COUNT :: nat where "MAX_L2_POLICING_COUNT \<equiv> 45"
abbreviation (input) MAX_VLAN_LOOKUP_COUNT :: nat where "MAX_VLAN_LOOKUP_COUNT \<equiv> 4096"
abbreviation (input) MAX_L2_FORWARDING_COUNT :: nat where "MAX_L2_FORWARDING_COUNT \<equiv> 13"
abbreviation (input) MAX_MAC_CONFIG_COUNT :: nat where "MAX_MAC_CONFIG_COUNT \<equiv> 5"
abbreviation (input) MAX_SCHEDULE_PARAMS_COUNT :: nat where "MAX_SCHEDULE_PARAMS_COUNT \<equiv> 1"
abbreviation (input) MAX_SCHEDULE_ENTRY_POINTS_PARAMS_COUNT :: nat where "MAX_SCHEDULE_ENTRY_POINTS_PARAMS_COUNT \<equiv> 1"
abbreviation (input) MAX_VL_FORWARDING_PARAMS_COUNT :: nat where "MAX_VL_FORWARDING_PARAMS_COUNT \<equiv> 1"
abbreviation (input) MAX_L2_LOOKUP_PARAMS_COUNT :: nat where "MAX_L2_LOOKUP_PARAMS_COUNT \<equiv> 1"
abbreviation (input) MAX_L2_FORWARDING_PARAMS_COUNT :: nat where "MAX_L2_FORWARDING_PARAMS_COUNT \<equiv> 1"
abbreviation (input) MAX_GENERAL_PARAMS_COUNT :: nat where "MAX_GENERAL_PARAMS_COUNT \<equiv> 1"
abbreviation (input) MAX_XMII_PARAMS_COUNT :: nat where "MAX_XMII_PARAMS_COUNT \<equiv> 1"
abbreviation (input) MAX_SGMII_COUNT :: nat where "MAX_SGMII_COUNT \<equiv> 1"
abbreviation (input) MAX_AVB_PARAMS_COUNT :: nat where "MAX_AVB_PARAMS_COUNT \<equiv> 1"
abbreviation (input) MAX_CLK_SYNC_COUNT :: nat where "MAX_CLK_SYNC_COUNT \<equiv> 1"
abbreviation (input) MAX_FRAME_MEMORY :: nat where "MAX_FRAME_MEMORY \<equiv> 929"

abbreviation (input) SJA1105ET_FDB_BIN_SIZE :: nat where "SJA1105ET_FDB_BIN_SIZE \<equiv> 4"

section \<open>Devices\<close>

abbreviation (input) SJA1105E_DEVICE_ID :: u64 where "SJA1105E_DEVICE_ID \<equiv> 0x9C00000C"
abbreviation (input) SJA1105T_DEVICE_ID :: u64 where "SJA1105T_DEVICE_ID \<equiv> 0x9E00030E"
abbreviation (input) SJA1105PR_DEVICE_ID :: u64 where "SJA1105PR_DEVICE_ID \<equiv> 0xAF00030E"
abbreviation (input) SJA1105QS_DEVICE_ID :: u64 where "SJA1105QS_DEVICE_ID \<equiv> 0xAE00030E"
abbreviation (input) SJA1105_NO_DEVICE_ID :: u64 where "SJA1105_NO_DEVICE_ID \<equiv> 0x00000000"

abbreviation (input) SJA1105P_PART_NR :: u64 where "SJA1105P_PART_NR \<equiv> 0x9A84"
abbreviation (input) SJA1105Q_PART_NR :: u64 where "SJA1105Q_PART_NR \<equiv> 0x9A85"
abbreviation (input) SJA1105R_PART_NR :: u64 where "SJA1105R_PART_NR \<equiv> 0x9A86"
abbreviation (input) SJA1105S_PART_NR :: u64 where "SJA1105S_PART_NR \<equiv> 0x9A87"
abbreviation (input) SJA1105_PART_NR_DONT_CARE :: u64 where "SJA1105_PART_NR_DONT_CARE \<equiv> 0xFFFF"

definition IS_PQRS :: "u64 \<Rightarrow> bool" where
  "IS_PQRS device_id \<longleftrightarrow> device_id = SJA1105PR_DEVICE_ID \<or> device_id = SJA1105QS_DEVICE_ID"

definition IS_ET :: "u64 \<Rightarrow> bool" where
  "IS_ET device_id \<longleftrightarrow> device_id = SJA1105E_DEVICE_ID \<or> device_id = SJA1105T_DEVICE_ID"

definition IS_P :: "u64 \<Rightarrow> u64 \<Rightarrow> bool" where
  "IS_P device_id part_nr \<longleftrightarrow> device_id = SJA1105PR_DEVICE_ID \<and> part_nr = SJA1105P_PART_NR"

definition IS_R :: "u64 \<Rightarrow> u64 \<Rightarrow> bool" where
  "IS_R device_id part_nr \<longleftrightarrow> device_id = SJA1105PR_DEVICE_ID \<and> part_nr = SJA1105R_PART_NR"

definition IS_Q :: "u64 \<Rightarrow> u64 \<Rightarrow> bool" where
  "IS_Q device_id part_nr \<longleftrightarrow> device_id = SJA1105QS_DEVICE_ID \<and> part_nr = SJA1105Q_PART_NR"

definition IS_S :: "u64 \<Rightarrow> u64 \<Rightarrow> bool" where
  "IS_S device_id part_nr \<longleftrightarrow> device_id = SJA1105QS_DEVICE_ID \<and> part_nr = SJA1105S_PART_NR"

definition DEVICE_ID_VALID :: "u64 \<Rightarrow> bool" where
  "DEVICE_ID_VALID device_id \<longleftrightarrow> IS_ET device_id \<or> IS_PQRS device_id"

definition SUPPORTS_TSN :: "u64 \<Rightarrow> bool" where
  "SUPPORTS_TSN device_id \<longleftrightarrow> device_id = SJA1105T_DEVICE_ID \<or> device_id = SJA1105QS_DEVICE_ID"

lemma device_families_disjoint: "\<not> (IS_ET d \<and> IS_PQRS d)"
  by (auto simp: IS_ET_def IS_PQRS_def)

section \<open>Lemmas for layouts\<close>

named_theorems table_shapes "definitions of the shapes of the entries"
named_theorems table_zeros "definitions of the cleared entries"

lemma upt_arrays: "[0..<8] = [0, 1, 2, 3, 4, 5, 6, 7]" "[0..<5] = [0, 1, 2, 3, 4]"
  by (simp_all add: upt_rec)

lemma array_8: "length xs = 8 \<Longrightarrow> [xs ! 0, xs ! Suc 0, xs ! 2, xs ! 3, xs ! 4, xs ! 5, xs ! 6, xs ! 7] = xs"
  by (rule nth_equalityI) (auto simp: nth_Cons' numeral_eq_Suc less_Suc_eq)

lemma array_5: "length xs = 5 \<Longrightarrow> [xs ! 0, xs ! Suc 0, xs ! 2, xs ! 3, xs ! 4] = xs"
  by (rule nth_equalityI) (auto simp: nth_Cons' numeral_eq_Suc less_Suc_eq)

lemma array_zero: "replicate 8 x = [x, x, x, x, x, x, x, x]" "replicate 5 x = [x, x, x, x, x]"
  by (simp_all add: numeral_eq_Suc)

lemmas codec_simps = fld_def afld_def field_ok_def apart_def upt_arrays array_8 array_5 array_zero

section \<open>The contract of an entry\<close>

text \<open>
  What the configuration as a whole needs of a table: packing writes \<open>sz\<close> bytes and nothing else, and an
  entry that is \<open>ok\<close> comes back from them, as itself for all tables but the VL lookup table, where \<open>nf\<close>
  clears the format.
\<close>

definition entry_bytes :: "(bool \<Rightarrow> u8 list \<Rightarrow> 'e \<Rightarrow> u8 list \<times> 'e) \<Rightarrow> nat \<Rightarrow> 'e \<Rightarrow> u8 list" where
  "entry_bytes acc sz e = take sz (fst (entry_pack acc (replicate sz 0) e))"

locale entry_codec =
  fixes acc :: "bool \<Rightarrow> u8 list \<Rightarrow> 'e \<Rightarrow> u8 list \<times> 'e" and sz :: nat and ok :: "'e \<Rightarrow> bool"
    and nf :: "'e \<Rightarrow> 'e"
  assumes sz_words: "4 dvd sz" "0 < sz"
    and pack_bytes: "sz \<le> length buf \<Longrightarrow> fst (entry_pack acc buf e) = entry_bytes acc sz e @ drop sz buf"
    and length_entry_bytes: "length (entry_bytes acc sz e) = sz"
    and pack_keeps: "ok e \<Longrightarrow> sz \<le> length buf \<Longrightarrow> snd (entry_pack acc buf e) = e"
    and unpack_packed: "ok e \<Longrightarrow> entry_unpack acc (entry_bytes acc sz e @ r) x = nf e"

context table_codec begin

lemma bytes_entry_bytes: "entry_bytes (table_access fs sz zero) sz e = bytes e"
  by (simp add: entry_bytes_def bytes_def [symmetric] length_bytes)

lemma is_entry_codec:
  "0 < sz \<Longrightarrow> entry_codec (table_access fs sz zero) sz (\<lambda>e. shape e \<and> fits fs e) (\<lambda>e. e)"
  by unfold_locales
    (simp_all add: whole_words bytes_entry_bytes pack_eq length_bytes fits_truncate unpack_bytes fits_copy)

end

section \<open>The table header\<close>

record table_header =
  hdr_block_id :: u64
  hdr_len :: u64
  hdr_crc :: u64

definition table_header_zero :: table_header where [table_zeros]:
  "table_header_zero = \<lparr>hdr_block_id = 0, hdr_len = 0, hdr_crc = 0\<rparr>"

definition table_header_layout :: "table_header fld list" where [table_layouts]:
  "table_header_layout =
    [fld hdr_block_id hdr_block_id_update 31 24,
     fld hdr_len hdr_len_update 55 32,
     fld hdr_crc hdr_crc_update 95 64]"

definition sja1105_table_header_access ::
    "bool \<Rightarrow> u8 list \<Rightarrow> table_header \<Rightarrow> u8 list \<times> table_header" where
  "sja1105_table_header_access = table_access table_header_layout SIZE_TABLE_HEADER table_header_zero"

definition sja1105_table_header_unpack :: "u8 list \<Rightarrow> table_header \<Rightarrow> table_header" where
  "sja1105_table_header_unpack buf hdr = snd (sja1105_table_header_access False buf hdr)"

definition sja1105_table_header_pack :: "u8 list \<Rightarrow> table_header \<Rightarrow> u8 list \<times> table_header" where
  "sja1105_table_header_pack buf hdr = sja1105_table_header_access True buf hdr"

definition sja1105_table_header_pack_with_crc :: "u8 list \<Rightarrow> table_header \<Rightarrow> u8 list \<times> table_header" where
  "sja1105_table_header_pack_with_crc buf hdr =
     (case sja1105_table_header_pack buf hdr of (buf1, hdr1) \<Rightarrow>
        let hdr2 = hdr1\<lparr>hdr_crc := ucast (ether_crc32_le buf1 (SIZE_TABLE_HEADER - 4))\<rparr>
        in case gtable_pack (drop (SIZE_TABLE_HEADER - 4) buf1) (hdr_crc hdr2) 31 0 4 of (rc, crc, tail) \<Rightarrow>
             (take (SIZE_TABLE_HEADER - 4) buf1 @ tail, hdr2\<lparr>hdr_crc := crc\<rparr>))"

definition table_header_shape :: "table_header \<Rightarrow> bool" where [table_shapes]:
  "table_header_shape h \<longleftrightarrow> True"

interpretation table_header: table_codec table_header_layout SIZE_TABLE_HEADER table_header_zero table_header_shape
  by unfold_locales (auto simp: table_layouts table_shapes table_zeros codec_simps)

text \<open>The address of a bit does not depend on the length of the table: words can be read on their own.\<close>

lemma lbit_drop:
  assumes "4 dvd L" "i < 8 * L" "4 dvd L'" "32 * k + i < 8 * L'" "4 * k \<le> length t"
  shows "lbit L (drop (4 * k) t) i = lbit L' t (32 * k + i)"
proof -
  have "(32 * k + i) div 32 = k + i div 32" "(32 * k + i) div 8 = 4 * k + i div 8" "(32 * k + i) mod 8 = i mod 8"
    using div_mult_self2 [of 32 i k] div_mult_self2 [of 8 i "4 * k"] mod_mult_self2 [of i 8 "4 * k"]
    by (simp_all add: add.commute)
  then show ?thesis
    using lbit_addr [OF assms(1,2)] lbit_addr [OF assms(3,4)] assms(5) by (simp add: algebra_simps)
qed

lemma lbit_prefix:
  assumes "4 dvd L" "i < 8 * L" "4 dvd L'" "i < 8 * L'"
  shows "lbit L t i = lbit L' t i"
  using lbit_addr [OF assms(1,2)] lbit_addr [OF assms(3,4)] by simp

lemma header_layout_bit:
  "layout_bit table_header_layout h i \<longleftrightarrow>
     24 \<le> i \<and> i \<le> 31 \<and> bit (hdr_block_id h) (i - 24) \<or> 32 \<le> i \<and> i \<le> 55 \<and> bit (hdr_len h) (i - 32) \<or>
     64 \<le> i \<and> i \<le> 95 \<and> bit (hdr_crc h) (i - 64)"
  by (simp add: table_header_layout_def fld_def)

text \<open>The checksum covers the first two words, which do not hold the checksum.\<close>

lemma header_bytes_prefix:
  assumes "hdr_block_id h = hdr_block_id h'" "hdr_len h = hdr_len h'"
  shows "take 8 (table_header.bytes h) = take 8 (table_header.bytes h')"
proof (rule lbit_determines [where sz = 8])
  fix i :: nat assume i: "i < 8 * 8"
  have "lbit 8 (take 8 (table_header.bytes g)) i = layout_bit table_header_layout g i" for g
    using i lbit_prefix [of 8 i 12 "table_header.bytes g"] table_header.lbit_bytes [of i g]
    by (simp add: lbit_take)
  then show "lbit 8 (take 8 (table_header.bytes h)) i = lbit 8 (take 8 (table_header.bytes h')) i"
    using i assms by (auto simp: header_layout_bit)
qed (simp_all add: table_header.length_bytes)

definition header_crc :: "table_header \<Rightarrow> u32" where
  "header_crc h = ether_crc32_le (table_header.bytes h) 8"

lemma ether_crc32_le_take: "4 dvd n \<Longrightarrow> n \<le> length b \<Longrightarrow> ether_crc32_le b n = ether_crc32_le (take n b) n"
  by (auto simp: dvd_def ether_crc32_le_words)

lemma header_crc_update: "header_crc (h\<lparr>hdr_crc := c\<rparr>) = header_crc h"
  using header_bytes_prefix [of "h\<lparr>hdr_crc := c\<rparr>" h]
    ether_crc32_le_take [of 8 "table_header.bytes h"]
    ether_crc32_le_take [of 8 "table_header.bytes (h\<lparr>hdr_crc := c\<rparr>)"]
  by (simp add: header_crc_def table_header.length_bytes)

definition header_with_crc :: "table_header \<Rightarrow> table_header" where
  "header_with_crc h =
     (truncate_fields table_header_layout h)\<lparr>hdr_crc := ucast (header_crc h)\<rparr>"

lemma truncate_header:
  "truncate_fields table_header_layout h =
     \<lparr>hdr_block_id = take_bit 8 (hdr_block_id h), hdr_len = take_bit 24 (hdr_len h),
      hdr_crc = take_bit 32 (hdr_crc h)\<rparr>"
  by (cases h) (simp add: table_header_layout_def truncate_fields_def fld_def width_def)

lemma header_bytes_truncate: "table_header.bytes (truncate_fields table_header_layout h) = table_header.bytes h"
proof (rule lbit_determines [where sz = 12])
  fix i :: nat assume "i < 8 * 12"
  then show "lbit 12 (table_header.bytes (truncate_fields table_header_layout h)) i = lbit 12 (table_header.bytes h) i"
    by (auto simp: table_header.lbit_bytes truncate_header header_layout_bit bit_take_bit_iff)
qed (simp_all add: table_header.length_bytes)

lemma take_bit_32_ucast [simp]: "take_bit 32 (ucast (x :: u32) :: u64) = ucast x"
  by (rule bit_eqI) (auto simp: bit_take_bit_iff bit_ucast_iff dest: bit_imp_le_length)

lemma pack_with_crc:
  assumes "12 \<le> length buf"
  shows "sja1105_table_header_pack_with_crc buf h =
    (table_header.bytes (header_with_crc h) @ drop 12 buf, header_with_crc h)"
proof -
  define b1 where "b1 = table_header.bytes h @ drop 12 buf"
  define crc where "crc = ether_crc32_le b1 8"
  define h2 where "h2 = (truncate_fields table_header_layout h)\<lparr>hdr_crc := ucast crc\<rparr>"
  define r where "r = gtable_pack (drop 8 b1) (ucast crc) 31 0 4"
  have len: "length b1 = length buf" "4 \<le> length (drop 8 b1)"
    using assms by (simp_all add: b1_def table_header.length_bytes)
  have p: "sja1105_table_header_pack buf h = (b1, truncate_fields table_header_layout h)"
    using assms table_header.pack_eq [of buf h]
    by (simp add: sja1105_table_header_pack_def sja1105_table_header_access_def entry_pack_def b1_def)
  have crc_h: "crc = header_crc h"
    using ether_crc32_le_take [of 8 b1] ether_crc32_le_take [of 8 "table_header.bytes h"] assms
    by (simp add: crc_def header_crc_def b1_def table_header.length_bytes)
  then have h2: "h2 = header_with_crc h" by (simp add: h2_def header_with_crc_def)
  note g = gtable_pack_lbit [where L = 4 and E = 0 and S = 31 and t = "drop 8 b1" and v = "ucast crc"]
  have r: "fst (snd r) = ucast crc" "length (snd (snd r)) = length (drop 8 b1)"
    "drop 4 (snd (snd r)) = drop 12 buf"
    using g(2-4) len by (simp_all add: r_def b1_def table_header.length_bytes)
  have code: "sja1105_table_header_pack_with_crc buf h = (take 8 b1 @ snd (snd r), h2)"
    unfolding sja1105_table_header_pack_with_crc_def p
    by (simp add: Let_def split_beta r_def h2_def crc_def)
      (simp add: r(1) [unfolded r_def crc_def])
  have "take 12 (take 8 b1 @ snd (snd r)) = table_header.bytes h2"
  proof (rule lbit_determines [where sz = 12])
    fix i :: nat assume i: "i < 8 * 12"
    have "lbit 12 (take 12 (take 8 b1 @ snd (snd r))) i = lbit 12 (take 8 b1 @ snd (snd r)) i"
      using i by (intro lbit_take) simp_all
    also have "\<dots> = layout_bit table_header_layout h2 i"
    proof (cases "i < 64")
      case True
      have "lbit 12 (take 8 b1 @ snd (snd r)) i = lbit 8 (take 8 b1 @ snd (snd r)) i"
        using True by (intro lbit_prefix) auto
      also have "\<dots> = lbit 8 (take 8 b1) i" using True len by (intro lbit_append) auto
      also have "\<dots> = lbit 12 b1 i"
        using True lbit_take [of 8 i b1] lbit_prefix [of 8 i 12 b1] by simp
      also have "\<dots> = layout_bit table_header_layout h i"
        using i lbit_append [of 12 i "table_header.bytes h"]
        by (simp add: b1_def table_header.length_bytes table_header.lbit_bytes)
      also have "\<dots> = layout_bit table_header_layout h2 i"
        using True by (auto simp: h2_def truncate_header header_layout_bit bit_take_bit_iff)
      finally show ?thesis .
    next
      case False
      then obtain k where k: "i = 64 + k" by (metis le_add_diff_inverse not_less)
      have "lbit 12 (take 8 b1 @ snd (snd r)) i = lbit 4 (snd (snd r)) k"
        using lbit_drop [of 4 k 12 2 "take 8 b1 @ snd (snd r)"] len i k by simp
      also have "\<dots> = bit (ucast crc :: u64) k" using g(5) [of k] len i k by (simp add: r_def)
      finally show ?thesis
        using k by (auto simp: h2_def truncate_header header_layout_bit bit_take_bit_iff bit_ucast_iff
            dest: bit_imp_le_length)
    qed
    also have "\<dots> = lbit 12 (table_header.bytes h2) i" using i by (simp add: table_header.lbit_bytes)
    finally show "lbit 12 (take 12 (take 8 b1 @ snd (snd r))) i = lbit 12 (table_header.bytes h2) i" .
  qed (use len r in \<open>simp_all add: table_header.length_bytes\<close>)
  moreover have "drop 12 (take 8 b1 @ snd (snd r)) = drop 12 buf" using len r by simp
  ultimately have "take 8 b1 @ snd (snd r) = table_header.bytes h2 @ drop 12 buf"
    by (metis append_take_drop_id)
  then show ?thesis by (simp add: code h2)
qed

end
