(* ===== verification/Tables_L2.thy ===== *)
theory Tables_L2
  imports Tables_Base
begin

unbundle bit_operations_syntax

text \<open>
  The tables of the layer 2 engine: \<^verbatim>\<open>src/lib/static-config/tables/\<close> \<^verbatim>\<open>l2-lookup.c\<close>, \<^verbatim>\<open>l2-policing.c\<close>,
  \<^verbatim>\<open>vlan-lookup.c\<close>, \<^verbatim>\<open>l2-forward.c\<close>, \<^verbatim>\<open>mac-config.c\<close>, \<^verbatim>\<open>l2-lookup-params.c\<close> and \<^verbatim>\<open>l2-forward-params.c\<close>. Each
  has its entry as a record, its layout (one for E/T and one for P/Q/R/S where they differ), its access
  function, and the interpretation of the codec locale that makes packing and unpacking inverse. The
  loops over array members are written with \<open>offset\<close> as a function of \<open>i\<close>.
\<close>

section \<open>L2 address lookup\<close>

record l2_lookup_entry =
  l2l_tsreg :: "u64"
  l2l_mirrvlan :: "u64"
  l2l_takets :: "u64"
  l2l_mirr :: "u64"
  l2l_retag :: "u64"
  l2l_mask_iotag :: "u64"
  l2l_mask_vlanid :: "u64"
  l2l_mask_macaddr :: "u64"
  l2l_iotag :: "u64"
  l2l_vlanid :: "u64"
  l2l_macaddr :: "u64"
  l2l_destports :: "u64"
  l2l_enfport :: "u64"
  l2l_index :: "u64"

definition l2_lookup_zero :: l2_lookup_entry where [table_zeros]:
  "l2_lookup_zero = \<lparr>l2l_tsreg = 0, l2l_mirrvlan = 0, l2l_takets = 0, l2l_mirr = 0,
    l2l_retag = 0, l2l_mask_iotag = 0, l2l_mask_vlanid = 0, l2l_mask_macaddr = 0, l2l_iotag = 0,
    l2l_vlanid = 0, l2l_macaddr = 0, l2l_destports = 0, l2l_enfport = 0, l2l_index = 0\<rparr>"

definition l2_lookup_et_layout :: "l2_lookup_entry fld list" where [table_layouts]:
  "l2_lookup_et_layout =
    [fld l2l_vlanid l2l_vlanid_update 95 84,
     fld l2l_macaddr l2l_macaddr_update 83 36,
     fld l2l_destports l2l_destports_update 35 31,
     fld l2l_enfport l2l_enfport_update 30 30,
     fld l2l_index l2l_index_update 29 20]"

definition sja1105et_l2_lookup_entry_access ::
    "bool \<Rightarrow> u8 list \<Rightarrow> l2_lookup_entry \<Rightarrow> u8 list \<times> l2_lookup_entry" where
  "sja1105et_l2_lookup_entry_access =
     table_access l2_lookup_et_layout SIZE_L2_LOOKUP_ENTRY_ET l2_lookup_zero"

definition l2_lookup_pqrs_layout :: "l2_lookup_entry fld list" where [table_layouts]:
  "l2_lookup_pqrs_layout =
    [fld l2l_tsreg l2l_tsreg_update 159 159,
     fld l2l_mirrvlan l2l_mirrvlan_update 158 147,
     fld l2l_takets l2l_takets_update 146 146,
     fld l2l_mirr l2l_mirr_update 145 145,
     fld l2l_retag l2l_retag_update 144 144,
     fld l2l_mask_iotag l2l_mask_iotag_update 143 143,
     fld l2l_mask_vlanid l2l_mask_vlanid_update 142 131,
     fld l2l_mask_macaddr l2l_mask_macaddr_update 130 83,
     fld l2l_iotag l2l_iotag_update 82 82,
     fld l2l_vlanid l2l_vlanid_update 81 70,
     fld l2l_macaddr l2l_macaddr_update 69 22,
     fld l2l_destports l2l_destports_update 21 17,
     fld l2l_enfport l2l_enfport_update 16 16,
     fld l2l_index l2l_index_update 15 6]"

definition sja1105pqrs_l2_lookup_entry_access ::
    "bool \<Rightarrow> u8 list \<Rightarrow> l2_lookup_entry \<Rightarrow> u8 list \<times> l2_lookup_entry" where
  "sja1105pqrs_l2_lookup_entry_access =
     table_access l2_lookup_pqrs_layout SIZE_L2_LOOKUP_ENTRY_PQRS l2_lookup_zero"

definition l2_lookup_et_shape :: "l2_lookup_entry \<Rightarrow> bool" where [table_shapes]:
  "l2_lookup_et_shape e \<longleftrightarrow> l2l_tsreg e = 0 \<and> l2l_mirrvlan e = 0 \<and>
     l2l_takets e = 0 \<and> l2l_mirr e = 0 \<and> l2l_retag e = 0 \<and> l2l_mask_iotag e = 0
     \<and> l2l_mask_vlanid e = 0 \<and> l2l_mask_macaddr e = 0 \<and> l2l_iotag e = 0"

interpretation l2_lookup_et: table_codec
    l2_lookup_et_layout SIZE_L2_LOOKUP_ENTRY_ET l2_lookup_zero l2_lookup_et_shape
  by unfold_locales (auto simp: table_layouts table_shapes table_zeros codec_simps)

definition l2_lookup_et_ok :: "l2_lookup_entry \<Rightarrow> bool" where
  "l2_lookup_et_ok e \<longleftrightarrow> l2_lookup_et_shape e \<and> fits l2_lookup_et_layout e"

interpretation l2_lookup_et_acc: entry_codec sja1105et_l2_lookup_entry_access SIZE_L2_LOOKUP_ENTRY_ET l2_lookup_et_ok "\<lambda>e. e"
  unfolding sja1105et_l2_lookup_entry_access_def l2_lookup_et_ok_def by (rule l2_lookup_et.is_entry_codec) simp

definition l2_lookup_pqrs_shape :: "l2_lookup_entry \<Rightarrow> bool" where [table_shapes]:
  "l2_lookup_pqrs_shape e \<longleftrightarrow> True"

interpretation l2_lookup_pqrs: table_codec
    l2_lookup_pqrs_layout SIZE_L2_LOOKUP_ENTRY_PQRS l2_lookup_zero l2_lookup_pqrs_shape
  by unfold_locales (auto simp: table_layouts table_shapes table_zeros codec_simps)

definition l2_lookup_pqrs_ok :: "l2_lookup_entry \<Rightarrow> bool" where
  "l2_lookup_pqrs_ok e \<longleftrightarrow> l2_lookup_pqrs_shape e \<and> fits l2_lookup_pqrs_layout e"

interpretation l2_lookup_pqrs_acc: entry_codec sja1105pqrs_l2_lookup_entry_access SIZE_L2_LOOKUP_ENTRY_PQRS l2_lookup_pqrs_ok "\<lambda>e. e"
  unfolding sja1105pqrs_l2_lookup_entry_access_def l2_lookup_pqrs_ok_def by (rule l2_lookup_pqrs.is_entry_codec) simp

section \<open>L2 policing\<close>

record l2_policing_entry =
  l2p_sharindx :: "u64"
  l2p_smax :: "u64"
  l2p_rate :: "u64"
  l2p_maxlen :: "u64"
  l2p_partition :: "u64"

definition l2_policing_zero :: l2_policing_entry where [table_zeros]:
  "l2_policing_zero = \<lparr>l2p_sharindx = 0, l2p_smax = 0, l2p_rate = 0, l2p_maxlen = 0,
    l2p_partition = 0\<rparr>"

definition l2_policing_layout :: "l2_policing_entry fld list" where [table_layouts]:
  "l2_policing_layout =
    [fld l2p_sharindx l2p_sharindx_update 63 58,
     fld l2p_smax l2p_smax_update 57 42,
     fld l2p_rate l2p_rate_update 41 26,
     fld l2p_maxlen l2p_maxlen_update 25 15,
     fld l2p_partition l2p_partition_update 14 12]"

definition sja1105_l2_policing_entry_access ::
    "bool \<Rightarrow> u8 list \<Rightarrow> l2_policing_entry \<Rightarrow> u8 list \<times> l2_policing_entry" where
  "sja1105_l2_policing_entry_access =
     table_access l2_policing_layout SIZE_L2_POLICING_ENTRY l2_policing_zero"

definition l2_policing_shape :: "l2_policing_entry \<Rightarrow> bool" where [table_shapes]:
  "l2_policing_shape e \<longleftrightarrow> True"

interpretation l2_policing: table_codec
    l2_policing_layout SIZE_L2_POLICING_ENTRY l2_policing_zero l2_policing_shape
  by unfold_locales (auto simp: table_layouts table_shapes table_zeros codec_simps)

definition l2_policing_ok :: "l2_policing_entry \<Rightarrow> bool" where
  "l2_policing_ok e \<longleftrightarrow> l2_policing_shape e \<and> fits l2_policing_layout e"

interpretation l2_policing_acc: entry_codec sja1105_l2_policing_entry_access SIZE_L2_POLICING_ENTRY l2_policing_ok "\<lambda>e. e"
  unfolding sja1105_l2_policing_entry_access_def l2_policing_ok_def by (rule l2_policing.is_entry_codec) simp

section \<open>VLAN lookup\<close>

record vlan_lookup_entry =
  vln_ving_mirr :: "u64"
  vln_vegr_mirr :: "u64"
  vln_vmemb_port :: "u64"
  vln_vlan_bc :: "u64"
  vln_tag_port :: "u64"
  vln_vlanid :: "u64"

definition vlan_lookup_zero :: vlan_lookup_entry where [table_zeros]:
  "vlan_lookup_zero = \<lparr>vln_ving_mirr = 0, vln_vegr_mirr = 0, vln_vmemb_port = 0,
    vln_vlan_bc = 0, vln_tag_port = 0, vln_vlanid = 0\<rparr>"

definition vlan_lookup_layout :: "vlan_lookup_entry fld list" where [table_layouts]:
  "vlan_lookup_layout =
    [fld vln_ving_mirr vln_ving_mirr_update 63 59,
     fld vln_vegr_mirr vln_vegr_mirr_update 58 54,
     fld vln_vmemb_port vln_vmemb_port_update 53 49,
     fld vln_vlan_bc vln_vlan_bc_update 48 44,
     fld vln_tag_port vln_tag_port_update 43 39,
     fld vln_vlanid vln_vlanid_update 38 27]"

definition sja1105_vlan_lookup_entry_access ::
    "bool \<Rightarrow> u8 list \<Rightarrow> vlan_lookup_entry \<Rightarrow> u8 list \<times> vlan_lookup_entry" where
  "sja1105_vlan_lookup_entry_access =
     table_access vlan_lookup_layout SIZE_VLAN_LOOKUP_ENTRY vlan_lookup_zero"

definition vlan_lookup_shape :: "vlan_lookup_entry \<Rightarrow> bool" where [table_shapes]:
  "vlan_lookup_shape e \<longleftrightarrow> True"

interpretation vlan_lookup: table_codec
    vlan_lookup_layout SIZE_VLAN_LOOKUP_ENTRY vlan_lookup_zero vlan_lookup_shape
  by unfold_locales (auto simp: table_layouts table_shapes table_zeros codec_simps)

definition vlan_lookup_ok :: "vlan_lookup_entry \<Rightarrow> bool" where
  "vlan_lookup_ok e \<longleftrightarrow> vlan_lookup_shape e \<and> fits vlan_lookup_layout e"

interpretation vlan_lookup_acc: entry_codec sja1105_vlan_lookup_entry_access SIZE_VLAN_LOOKUP_ENTRY vlan_lookup_ok "\<lambda>e. e"
  unfolding sja1105_vlan_lookup_entry_access_def vlan_lookup_ok_def by (rule vlan_lookup.is_entry_codec) simp

section \<open>L2 forwarding\<close>

record l2_forwarding_entry =
  l2f_bc_domain :: "u64"
  l2f_reach_port :: "u64"
  l2f_fl_domain :: "u64"
  l2f_vlan_pmap :: "u64 list"

definition l2_forwarding_zero :: l2_forwarding_entry where [table_zeros]:
  "l2_forwarding_zero = \<lparr>l2f_bc_domain = 0, l2f_reach_port = 0, l2f_fl_domain = 0,
    l2f_vlan_pmap = replicate 8 0\<rparr>"

definition l2_forwarding_layout :: "l2_forwarding_entry fld list" where [table_layouts]:
  "l2_forwarding_layout =
    [fld l2f_bc_domain l2f_bc_domain_update 63 59,
     fld l2f_reach_port l2f_reach_port_update 58 54,
     fld l2f_fl_domain l2f_fl_domain_update 53 49] @
    concat (map (\<lambda>i. let offset = 25 + 3 * i in
     [afld l2f_vlan_pmap l2f_vlan_pmap_update i (offset + 2) (offset + 0)]) [0..<8])"

definition sja1105_l2_forwarding_entry_access ::
    "bool \<Rightarrow> u8 list \<Rightarrow> l2_forwarding_entry \<Rightarrow> u8 list \<times> l2_forwarding_entry" where
  "sja1105_l2_forwarding_entry_access =
     table_access l2_forwarding_layout SIZE_L2_FORWARDING_ENTRY l2_forwarding_zero"

definition l2_forwarding_shape :: "l2_forwarding_entry \<Rightarrow> bool" where [table_shapes]:
  "l2_forwarding_shape e \<longleftrightarrow> length (l2f_vlan_pmap e) = 8"

interpretation l2_forwarding: table_codec
    l2_forwarding_layout SIZE_L2_FORWARDING_ENTRY l2_forwarding_zero l2_forwarding_shape
  by unfold_locales (auto simp: table_layouts table_shapes table_zeros codec_simps)

definition l2_forwarding_ok :: "l2_forwarding_entry \<Rightarrow> bool" where
  "l2_forwarding_ok e \<longleftrightarrow> l2_forwarding_shape e \<and> fits l2_forwarding_layout e"

interpretation l2_forwarding_acc: entry_codec sja1105_l2_forwarding_entry_access SIZE_L2_FORWARDING_ENTRY l2_forwarding_ok "\<lambda>e. e"
  unfolding sja1105_l2_forwarding_entry_access_def l2_forwarding_ok_def by (rule l2_forwarding.is_entry_codec) simp

section \<open>MAC configuration\<close>

record mac_config_entry =
  mac_top :: "u64 list"
  mac_base :: "u64 list"
  mac_enabled :: "u64 list"
  mac_ifg :: "u64"
  mac_speed :: "u64"
  mac_tp_delin :: "u64"
  mac_tp_delout :: "u64"
  mac_maxage :: "u64"
  mac_vlanprio :: "u64"
  mac_vlanid :: "u64"
  mac_ing_mirr :: "u64"
  mac_egr_mirr :: "u64"
  mac_drpnona664 :: "u64"
  mac_drpdtag :: "u64"
  mac_drpsotag :: "u64"
  mac_drpsitag :: "u64"
  mac_drpuntag :: "u64"
  mac_retag :: "u64"
  mac_dyn_learn :: "u64"
  mac_egress :: "u64"
  mac_ingress :: "u64"
  mac_mirrcie :: "u64"
  mac_mirrcetag :: "u64"
  mac_ingmirrvid :: "u64"
  mac_ingmirrpcp :: "u64"
  mac_ingmirrdei :: "u64"

definition mac_config_zero :: mac_config_entry where [table_zeros]:
  "mac_config_zero = \<lparr>mac_top = replicate 8 0, mac_base = replicate 8 0, mac_enabled =
    replicate 8 0, mac_ifg = 0, mac_speed = 0, mac_tp_delin = 0, mac_tp_delout = 0, mac_maxage =
    0, mac_vlanprio = 0, mac_vlanid = 0, mac_ing_mirr = 0, mac_egr_mirr = 0, mac_drpnona664 = 0,
    mac_drpdtag = 0, mac_drpsotag = 0, mac_drpsitag = 0, mac_drpuntag = 0, mac_retag = 0,
    mac_dyn_learn = 0, mac_egress = 0, mac_ingress = 0, mac_mirrcie = 0, mac_mirrcetag = 0,
    mac_ingmirrvid = 0, mac_ingmirrpcp = 0, mac_ingmirrdei = 0\<rparr>"

definition mac_config_et_layout :: "mac_config_entry fld list" where [table_layouts]:
  "mac_config_et_layout =
    concat (map (\<lambda>i. let offset = 72 + 19 * i in
     [afld mac_enabled mac_enabled_update i (offset + 0) (offset + 0),
      afld mac_base mac_base_update i (offset + 9) (offset + 1),
      afld mac_top mac_top_update i (offset + 18) (offset + 10)]) [0..<8]) @
    [fld mac_ifg mac_ifg_update 71 67,
     fld mac_speed mac_speed_update 66 65,
     fld mac_tp_delin mac_tp_delin_update 64 49,
     fld mac_tp_delout mac_tp_delout_update 48 33,
     fld mac_maxage mac_maxage_update 32 25,
     fld mac_vlanprio mac_vlanprio_update 24 22,
     fld mac_vlanid mac_vlanid_update 21 10,
     fld mac_ing_mirr mac_ing_mirr_update 9 9,
     fld mac_egr_mirr mac_egr_mirr_update 8 8,
     fld mac_drpnona664 mac_drpnona664_update 7 7,
     fld mac_drpdtag mac_drpdtag_update 6 6,
     fld mac_drpuntag mac_drpuntag_update 5 5,
     fld mac_retag mac_retag_update 4 4,
     fld mac_dyn_learn mac_dyn_learn_update 3 3,
     fld mac_egress mac_egress_update 2 2,
     fld mac_ingress mac_ingress_update 1 1]"

definition sja1105et_mac_config_entry_access ::
    "bool \<Rightarrow> u8 list \<Rightarrow> mac_config_entry \<Rightarrow> u8 list \<times> mac_config_entry" where
  "sja1105et_mac_config_entry_access =
     table_access mac_config_et_layout SIZE_MAC_CONFIG_ENTRY_ET mac_config_zero"

definition mac_config_pqrs_layout :: "mac_config_entry fld list" where [table_layouts]:
  "mac_config_pqrs_layout =
    concat (map (\<lambda>i. let offset = 104 + 19 * i in
     [afld mac_enabled mac_enabled_update i (offset + 0) (offset + 0),
      afld mac_base mac_base_update i (offset + 9) (offset + 1),
      afld mac_top mac_top_update i (offset + 18) (offset + 10)]) [0..<8]) @
    [fld mac_ifg mac_ifg_update 103 99,
     fld mac_speed mac_speed_update 98 97,
     fld mac_tp_delin mac_tp_delin_update 96 81,
     fld mac_tp_delout mac_tp_delout_update 80 65,
     fld mac_maxage mac_maxage_update 64 57,
     fld mac_vlanprio mac_vlanprio_update 56 54,
     fld mac_vlanid mac_vlanid_update 53 42,
     fld mac_ing_mirr mac_ing_mirr_update 41 41,
     fld mac_egr_mirr mac_egr_mirr_update 40 40,
     fld mac_drpnona664 mac_drpnona664_update 39 39,
     fld mac_drpdtag mac_drpdtag_update 38 38,
     fld mac_drpsotag mac_drpsotag_update 37 37,
     fld mac_drpsitag mac_drpsitag_update 36 36,
     fld mac_drpuntag mac_drpuntag_update 35 35,
     fld mac_retag mac_retag_update 34 34,
     fld mac_dyn_learn mac_dyn_learn_update 33 33,
     fld mac_egress mac_egress_update 32 32,
     fld mac_ingress mac_ingress_update 31 31,
     fld mac_mirrcie mac_mirrcie_update 30 30,
     fld mac_mirrcetag mac_mirrcetag_update 29 29,
     fld mac_ingmirrvid mac_ingmirrvid_update 28 17,
     fld mac_ingmirrpcp mac_ingmirrpcp_update 16 14,
     fld mac_ingmirrdei mac_ingmirrdei_update 13 13]"

definition sja1105pqrs_mac_config_entry_access ::
    "bool \<Rightarrow> u8 list \<Rightarrow> mac_config_entry \<Rightarrow> u8 list \<times> mac_config_entry" where
  "sja1105pqrs_mac_config_entry_access =
     table_access mac_config_pqrs_layout SIZE_MAC_CONFIG_ENTRY_PQRS mac_config_zero"

definition mac_config_et_shape :: "mac_config_entry \<Rightarrow> bool" where [table_shapes]:
  "mac_config_et_shape e \<longleftrightarrow> length (mac_top e) = 8 \<and> length (mac_base e) =
     8 \<and> length (mac_enabled e) = 8 \<and> mac_drpsotag e = 0 \<and> mac_drpsitag e = 0
     \<and> mac_mirrcie e = 0 \<and> mac_mirrcetag e = 0 \<and> mac_ingmirrvid e = 0 \<and>
     mac_ingmirrpcp e = 0 \<and> mac_ingmirrdei e = 0"

interpretation mac_config_et: table_codec
    mac_config_et_layout SIZE_MAC_CONFIG_ENTRY_ET mac_config_zero mac_config_et_shape
  by unfold_locales (auto simp: table_layouts table_shapes table_zeros codec_simps)

definition mac_config_et_ok :: "mac_config_entry \<Rightarrow> bool" where
  "mac_config_et_ok e \<longleftrightarrow> mac_config_et_shape e \<and> fits mac_config_et_layout e"

interpretation mac_config_et_acc: entry_codec sja1105et_mac_config_entry_access SIZE_MAC_CONFIG_ENTRY_ET mac_config_et_ok "\<lambda>e. e"
  unfolding sja1105et_mac_config_entry_access_def mac_config_et_ok_def by (rule mac_config_et.is_entry_codec) simp

definition mac_config_pqrs_shape :: "mac_config_entry \<Rightarrow> bool" where [table_shapes]:
  "mac_config_pqrs_shape e \<longleftrightarrow> length (mac_top e) = 8 \<and> length (mac_base e)
     = 8 \<and> length (mac_enabled e) = 8"

interpretation mac_config_pqrs: table_codec
    mac_config_pqrs_layout SIZE_MAC_CONFIG_ENTRY_PQRS mac_config_zero mac_config_pqrs_shape
  by unfold_locales (auto simp: table_layouts table_shapes table_zeros codec_simps)

definition mac_config_pqrs_ok :: "mac_config_entry \<Rightarrow> bool" where
  "mac_config_pqrs_ok e \<longleftrightarrow> mac_config_pqrs_shape e \<and> fits mac_config_pqrs_layout e"

interpretation mac_config_pqrs_acc: entry_codec sja1105pqrs_mac_config_entry_access SIZE_MAC_CONFIG_ENTRY_PQRS mac_config_pqrs_ok "\<lambda>e. e"
  unfolding sja1105pqrs_mac_config_entry_access_def mac_config_pqrs_ok_def by (rule mac_config_pqrs.is_entry_codec) simp

section \<open>L2 lookup parameters\<close>

record l2_lookup_params_entry =
  l2lp_drpbc :: "u64"
  l2lp_drpmc :: "u64"
  l2lp_drpuni :: "u64"
  l2lp_maxaddrp :: "u64 list"
  l2lp_start_dynspc :: "u64"
  l2lp_drpnolearn :: "u64"
  l2lp_use_static :: "u64"
  l2lp_owr_dyn :: "u64"
  l2lp_learn_once :: "u64"
  l2lp_maxage :: "u64"
  l2lp_dyn_tbsz :: "u64"
  l2lp_poly :: "u64"
  l2lp_shared_learn :: "u64"
  l2lp_no_enf_hostprt :: "u64"
  l2lp_no_mgmt_learn :: "u64"

definition l2_lookup_params_zero :: l2_lookup_params_entry where [table_zeros]:
  "l2_lookup_params_zero = \<lparr>l2lp_drpbc = 0, l2lp_drpmc = 0, l2lp_drpuni = 0, l2lp_maxaddrp
    = replicate 5 0, l2lp_start_dynspc = 0, l2lp_drpnolearn = 0, l2lp_use_static = 0, l2lp_owr_dyn
    = 0, l2lp_learn_once = 0, l2lp_maxage = 0, l2lp_dyn_tbsz = 0, l2lp_poly = 0, l2lp_shared_learn
    = 0, l2lp_no_enf_hostprt = 0, l2lp_no_mgmt_learn = 0\<rparr>"

definition l2_lookup_params_et_layout :: "l2_lookup_params_entry fld list" where [table_layouts]:
  "l2_lookup_params_et_layout =
    [fld l2lp_maxage l2lp_maxage_update 31 17,
     fld l2lp_dyn_tbsz l2lp_dyn_tbsz_update 16 14,
     fld l2lp_poly l2lp_poly_update 13 6,
     fld l2lp_shared_learn l2lp_shared_learn_update 5 5,
     fld l2lp_no_enf_hostprt l2lp_no_enf_hostprt_update 4 4,
     fld l2lp_no_mgmt_learn l2lp_no_mgmt_learn_update 3 3]"

definition sja1105et_l2_lookup_params_entry_access ::
    "bool \<Rightarrow> u8 list \<Rightarrow> l2_lookup_params_entry \<Rightarrow> u8 list \<times> l2_lookup_params_entry" where
  "sja1105et_l2_lookup_params_entry_access =
     table_access l2_lookup_params_et_layout SIZE_L2_LOOKUP_PARAMS_ENTRY_ET l2_lookup_params_zero"

definition l2_lookup_params_pqrs_layout :: "l2_lookup_params_entry fld list" where [table_layouts]:
  "l2_lookup_params_pqrs_layout =
    [fld l2lp_drpbc l2lp_drpbc_update 127 123,
     fld l2lp_drpmc l2lp_drpmc_update 122 118,
     fld l2lp_drpuni l2lp_drpuni_update 117 113] @
    concat (map (\<lambda>i. let offset = 58 + 11 * i in
     [afld l2lp_maxaddrp l2lp_maxaddrp_update i (offset + 10) (offset + 0)]) [0..<5]) @
    [fld l2lp_maxage l2lp_maxage_update 57 43,
     fld l2lp_start_dynspc l2lp_start_dynspc_update 42 33,
     fld l2lp_drpnolearn l2lp_drpnolearn_update 32 28,
     fld l2lp_shared_learn l2lp_shared_learn_update 27 27,
     fld l2lp_no_enf_hostprt l2lp_no_enf_hostprt_update 26 26,
     fld l2lp_no_mgmt_learn l2lp_no_mgmt_learn_update 25 25,
     fld l2lp_use_static l2lp_use_static_update 24 24,
     fld l2lp_owr_dyn l2lp_owr_dyn_update 23 23,
     fld l2lp_learn_once l2lp_learn_once_update 22 22]"

definition sja1105pqrs_l2_lookup_params_entry_access ::
    "bool \<Rightarrow> u8 list \<Rightarrow> l2_lookup_params_entry \<Rightarrow> u8 list \<times> l2_lookup_params_entry" where
  "sja1105pqrs_l2_lookup_params_entry_access =
     table_access l2_lookup_params_pqrs_layout SIZE_L2_LOOKUP_PARAMS_ENTRY_PQRS l2_lookup_params_zero"

definition l2_lookup_params_et_shape :: "l2_lookup_params_entry \<Rightarrow> bool" where [table_shapes]:
  "l2_lookup_params_et_shape e \<longleftrightarrow> l2lp_maxaddrp e = replicate 5 0 \<and>
     l2lp_drpbc e = 0 \<and> l2lp_drpmc e = 0 \<and> l2lp_drpuni e = 0 \<and> l2lp_start_dynspc e
     = 0 \<and> l2lp_drpnolearn e = 0 \<and> l2lp_use_static e = 0 \<and> l2lp_owr_dyn e = 0
     \<and> l2lp_learn_once e = 0"

interpretation l2_lookup_params_et: table_codec
    l2_lookup_params_et_layout SIZE_L2_LOOKUP_PARAMS_ENTRY_ET l2_lookup_params_zero l2_lookup_params_et_shape
  by unfold_locales (auto simp: table_layouts table_shapes table_zeros codec_simps)

definition l2_lookup_params_et_ok :: "l2_lookup_params_entry \<Rightarrow> bool" where
  "l2_lookup_params_et_ok e \<longleftrightarrow> l2_lookup_params_et_shape e \<and> fits l2_lookup_params_et_layout e"

interpretation l2_lookup_params_et_acc: entry_codec sja1105et_l2_lookup_params_entry_access SIZE_L2_LOOKUP_PARAMS_ENTRY_ET l2_lookup_params_et_ok "\<lambda>e. e"
  unfolding sja1105et_l2_lookup_params_entry_access_def l2_lookup_params_et_ok_def by (rule l2_lookup_params_et.is_entry_codec) simp

definition l2_lookup_params_pqrs_shape :: "l2_lookup_params_entry \<Rightarrow> bool" where [table_shapes]:
  "l2_lookup_params_pqrs_shape e \<longleftrightarrow> length (l2lp_maxaddrp e) = 5 \<and>
     l2lp_dyn_tbsz e = 0 \<and> l2lp_poly e = 0"

interpretation l2_lookup_params_pqrs: table_codec
    l2_lookup_params_pqrs_layout SIZE_L2_LOOKUP_PARAMS_ENTRY_PQRS l2_lookup_params_zero l2_lookup_params_pqrs_shape
  by unfold_locales (auto simp: table_layouts table_shapes table_zeros codec_simps)

definition l2_lookup_params_pqrs_ok :: "l2_lookup_params_entry \<Rightarrow> bool" where
  "l2_lookup_params_pqrs_ok e \<longleftrightarrow> l2_lookup_params_pqrs_shape e \<and> fits l2_lookup_params_pqrs_layout e"

interpretation l2_lookup_params_pqrs_acc: entry_codec sja1105pqrs_l2_lookup_params_entry_access SIZE_L2_LOOKUP_PARAMS_ENTRY_PQRS l2_lookup_params_pqrs_ok "\<lambda>e. e"
  unfolding sja1105pqrs_l2_lookup_params_entry_access_def l2_lookup_params_pqrs_ok_def by (rule l2_lookup_params_pqrs.is_entry_codec) simp

section \<open>L2 forwarding parameters\<close>

record l2_forwarding_params_entry =
  l2fp_max_dynp :: "u64"
  l2fp_part_spc :: "u64 list"

definition l2_forwarding_params_zero :: l2_forwarding_params_entry where [table_zeros]:
  "l2_forwarding_params_zero = \<lparr>l2fp_max_dynp = 0, l2fp_part_spc = replicate 8 0\<rparr>"

definition l2_forwarding_params_layout :: "l2_forwarding_params_entry fld list" where [table_layouts]:
  "l2_forwarding_params_layout =
    [fld l2fp_max_dynp l2fp_max_dynp_update 95 93] @
    concat (map (\<lambda>i. let offset = 13 + 10 * i in
     [afld l2fp_part_spc l2fp_part_spc_update i (offset + 9) (offset + 0)]) [0..<8])"

definition sja1105_l2_forwarding_params_entry_access ::
    "bool \<Rightarrow> u8 list \<Rightarrow> l2_forwarding_params_entry \<Rightarrow> u8 list \<times> l2_forwarding_params_entry" where
  "sja1105_l2_forwarding_params_entry_access =
     table_access l2_forwarding_params_layout SIZE_L2_FORWARDING_PARAMS_ENTRY l2_forwarding_params_zero"

definition l2_forwarding_params_shape :: "l2_forwarding_params_entry \<Rightarrow> bool" where [table_shapes]:
  "l2_forwarding_params_shape e \<longleftrightarrow> length (l2fp_part_spc e) = 8"

interpretation l2_forwarding_params: table_codec
    l2_forwarding_params_layout SIZE_L2_FORWARDING_PARAMS_ENTRY l2_forwarding_params_zero l2_forwarding_params_shape
  by unfold_locales (auto simp: table_layouts table_shapes table_zeros codec_simps)

definition l2_forwarding_params_ok :: "l2_forwarding_params_entry \<Rightarrow> bool" where
  "l2_forwarding_params_ok e \<longleftrightarrow> l2_forwarding_params_shape e \<and> fits l2_forwarding_params_layout e"

interpretation l2_forwarding_params_acc: entry_codec sja1105_l2_forwarding_params_entry_access SIZE_L2_FORWARDING_PARAMS_ENTRY l2_forwarding_params_ok "\<lambda>e. e"
  unfolding sja1105_l2_forwarding_params_entry_access_def l2_forwarding_params_ok_def by (rule l2_forwarding_params.is_entry_codec) simp

section \<open>Properties\<close>

text \<open>
  C22: an entry of the MAC configuration of P/Q/R/S whose members fit their fields is packed without change
  to the entry or to the memory behind it, and unpacking the bytes gives exactly this entry.
\<close>

theorem mac_config_pqrs_roundtrip:
  assumes "mac_config_pqrs_ok e" "SIZE_MAC_CONFIG_ENTRY_PQRS \<le> length buf"
  shows "\<exists>b. entry_pack sja1105pqrs_mac_config_entry_access buf e = (b @ drop SIZE_MAC_CONFIG_ENTRY_PQRS buf, e) \<and>
    length b = SIZE_MAC_CONFIG_ENTRY_PQRS \<and>
    entry_unpack sja1105pqrs_mac_config_entry_access (b @ drop SIZE_MAC_CONFIG_ENTRY_PQRS buf) x = e"
  using mac_config_pqrs_acc.pack_bytes [OF assms(2), of e] mac_config_pqrs_acc.pack_keeps [OF assms]
    mac_config_pqrs_acc.unpack_packed [OF assms(1)] mac_config_pqrs_acc.length_entry_bytes [of e]
  by (intro exI [of _ "entry_bytes sja1105pqrs_mac_config_entry_access SIZE_MAC_CONFIG_ENTRY_PQRS e"])
    (simp add: prod_eq_iff)

theorem mac_config_pqrs_roundtrip_witness:
  "\<exists>b. entry_pack sja1105pqrs_mac_config_entry_access (replicate 33 7)
      (mac_config_zero\<lparr>mac_top := [1, 2, 3, 4, 5, 6, 7, 511], mac_speed := 3\<rparr>) =
      (b @ [7], mac_config_zero\<lparr>mac_top := [1, 2, 3, 4, 5, 6, 7, 511], mac_speed := 3\<rparr>) \<and>
    length b = 32 \<and>
    entry_unpack sja1105pqrs_mac_config_entry_access (b @ [7]) mac_config_zero =
      mac_config_zero\<lparr>mac_top := [1, 2, 3, 4, 5, 6, 7, 511], mac_speed := 3\<rparr>"
proof -
  define e where "e = mac_config_zero\<lparr>mac_top := [1, 2, 3, 4, 5, 6, 7, 511], mac_speed := 3\<rparr>"
  have sel: "mac_top e = [1, 2, 3, 4, 5, 6, 7, 511]"
    "mac_base e = [0, 0, 0, 0, 0, 0, 0, 0]"
    "mac_enabled e = [0, 0, 0, 0, 0, 0, 0, 0]"
    "mac_ifg e = 0"
    "mac_speed e = 3"
    "mac_tp_delin e = 0"
    "mac_tp_delout e = 0"
    "mac_maxage e = 0"
    "mac_vlanprio e = 0"
    "mac_vlanid e = 0"
    "mac_ing_mirr e = 0"
    "mac_egr_mirr e = 0"
    "mac_drpnona664 e = 0"
    "mac_drpdtag e = 0"
    "mac_drpsotag e = 0"
    "mac_drpsitag e = 0"
    "mac_drpuntag e = 0"
    "mac_retag e = 0"
    "mac_dyn_learn e = 0"
    "mac_egress e = 0"
    "mac_ingress e = 0"
    "mac_mirrcie e = 0"
    "mac_mirrcetag e = 0"
    "mac_ingmirrvid e = 0"
    "mac_ingmirrpcp e = 0"
    "mac_ingmirrdei e = 0"
    by (simp_all add: e_def mac_config_zero_def array_zero)
  have "mac_config_pqrs_shape e" by (simp add: mac_config_pqrs_shape_def sel)
  moreover have "fits mac_config_pqrs_layout e"
  proof -
    have "\<forall>i < 8. take_bit 9 (mac_top e ! i) = mac_top e ! i \<and> mac_base e ! i = 0 \<and> mac_enabled e ! i = 0"
      unfolding all_less_8 sel by simp
    then have arrays: "list_all (\<lambda>f. take_bit (width f) (fval e f) = fval e f) (concat (map (\<lambda>i. let offset = 104 + 19 * i in
        [afld mac_enabled mac_enabled_update i (offset + 0) (offset + 0),
         afld mac_base mac_base_update i (offset + 9) (offset + 1),
         afld mac_top mac_top_update i (offset + 18) (offset + 10)]) [0..<8]))"
      by (auto simp: list_all_iff afld_def width_def Let_def)
    show ?thesis
      unfolding fits_def mac_config_pqrs_layout_def list_all_append
      apply (rule conjI)
      apply (rule arrays)
      apply (simp only: list.pred_inject fld_def fld.sel width_def sel)
      apply (simp del: One_nat_def)
      apply (simp add: sel)
      done
  qed
  ultimately have "mac_config_pqrs_ok e" by (simp add: mac_config_pqrs_ok_def)
  from mac_config_pqrs_roundtrip [OF this, of "replicate 33 7" mac_config_zero]
  show ?thesis by (simp add: e_def [symmetric])
qed

end
