(* ===== verification/Tables_VL.thy ===== *)
theory Tables_VL
  imports Tables_Base
begin

unbundle bit_operations_syntax

text \<open>
  The tables of the time-triggered engine: \<^verbatim>\<open>src/lib/static-config/tables/\<close> \<^verbatim>\<open>schedule*.c\<close> and \<^verbatim>\<open>vl-*.c\<close>.
  The entry of the virtual link lookup has a union: \<^verbatim>\<open>egrmirr\<close>, \<^verbatim>\<open>ingrmirr\<close> and \<^verbatim>\<open>vlid\<close> are the same storage as
  \<^verbatim>\<open>destports\<close>, \<^verbatim>\<open>iscritical\<close> and \<^verbatim>\<open>macaddr\<close>, and are other names of those members here.
\<close>

section \<open>Schedule\<close>

record schedule_entry =
  sch_winstindex :: "u64"
  sch_winend :: "u64"
  sch_winst :: "u64"
  sch_destports :: "u64"
  sch_setvalid :: "u64"
  sch_txen :: "u64"
  sch_resmedia_en :: "u64"
  sch_resmedia :: "u64"
  sch_vlindex :: "u64"
  sch_delta :: "u64"

definition schedule_zero :: schedule_entry where [table_zeros]:
  "schedule_zero = \<lparr>sch_winstindex = 0, sch_winend = 0, sch_winst = 0, sch_destports = 0,
    sch_setvalid = 0, sch_txen = 0, sch_resmedia_en = 0, sch_resmedia = 0, sch_vlindex = 0,
    sch_delta = 0\<rparr>"

definition schedule_layout :: "schedule_entry fld list" where [table_layouts]:
  "schedule_layout =
    [fld sch_winstindex sch_winstindex_update 63 54,
     fld sch_winend sch_winend_update 53 53,
     fld sch_winst sch_winst_update 52 52,
     fld sch_destports sch_destports_update 51 47,
     fld sch_setvalid sch_setvalid_update 46 46,
     fld sch_txen sch_txen_update 45 45,
     fld sch_resmedia_en sch_resmedia_en_update 44 44,
     fld sch_resmedia sch_resmedia_update 43 36,
     fld sch_vlindex sch_vlindex_update 35 26,
     fld sch_delta sch_delta_update 25 8]"

definition sja1105_schedule_entry_access ::
    "bool \<Rightarrow> u8 list \<Rightarrow> schedule_entry \<Rightarrow> u8 list \<times> schedule_entry" where
  "sja1105_schedule_entry_access =
     table_access schedule_layout SIZE_SCHEDULE_ENTRY schedule_zero"

definition schedule_shape :: "schedule_entry \<Rightarrow> bool" where [table_shapes]:
  "schedule_shape e \<longleftrightarrow> True"

interpretation schedule: table_codec
    schedule_layout SIZE_SCHEDULE_ENTRY schedule_zero schedule_shape
  by unfold_locales (auto simp: table_layouts table_shapes table_zeros codec_simps)

definition schedule_ok :: "schedule_entry \<Rightarrow> bool" where
  "schedule_ok e \<longleftrightarrow> schedule_shape e \<and> fits schedule_layout e"

interpretation schedule_acc: entry_codec sja1105_schedule_entry_access SIZE_SCHEDULE_ENTRY schedule_ok "\<lambda>e. e"
  unfolding sja1105_schedule_entry_access_def schedule_ok_def by (rule schedule.is_entry_codec) simp

section \<open>Schedule entry points\<close>

record schedule_entry_points_entry =
  sep_subschindx :: "u64"
  sep_delta :: "u64"
  sep_address :: "u64"

definition schedule_entry_points_zero :: schedule_entry_points_entry where [table_zeros]:
  "schedule_entry_points_zero = \<lparr>sep_subschindx = 0, sep_delta = 0, sep_address =
    0\<rparr>"

definition schedule_entry_points_layout :: "schedule_entry_points_entry fld list" where [table_layouts]:
  "schedule_entry_points_layout =
    [fld sep_subschindx sep_subschindx_update 31 29,
     fld sep_delta sep_delta_update 28 11,
     fld sep_address sep_address_update 10 1]"

definition sja1105_schedule_entry_points_entry_access ::
    "bool \<Rightarrow> u8 list \<Rightarrow> schedule_entry_points_entry \<Rightarrow> u8 list \<times> schedule_entry_points_entry" where
  "sja1105_schedule_entry_points_entry_access =
     table_access schedule_entry_points_layout SIZE_SCHEDULE_ENTRY_POINTS_ENTRY schedule_entry_points_zero"

definition schedule_entry_points_shape :: "schedule_entry_points_entry \<Rightarrow> bool" where [table_shapes]:
  "schedule_entry_points_shape e \<longleftrightarrow> True"

interpretation schedule_entry_points: table_codec
    schedule_entry_points_layout SIZE_SCHEDULE_ENTRY_POINTS_ENTRY schedule_entry_points_zero schedule_entry_points_shape
  by unfold_locales (auto simp: table_layouts table_shapes table_zeros codec_simps)

definition schedule_entry_points_ok :: "schedule_entry_points_entry \<Rightarrow> bool" where
  "schedule_entry_points_ok e \<longleftrightarrow> schedule_entry_points_shape e \<and> fits schedule_entry_points_layout e"

interpretation schedule_entry_points_acc: entry_codec sja1105_schedule_entry_points_entry_access SIZE_SCHEDULE_ENTRY_POINTS_ENTRY schedule_entry_points_ok "\<lambda>e. e"
  unfolding sja1105_schedule_entry_points_entry_access_def schedule_entry_points_ok_def by (rule schedule_entry_points.is_entry_codec) simp

section \<open>Schedule parameters\<close>

record schedule_params_entry =
  schp_subscheind :: "u64 list"

definition schedule_params_zero :: schedule_params_entry where [table_zeros]:
  "schedule_params_zero = \<lparr>schp_subscheind = replicate 8 0\<rparr>"

definition schedule_params_layout :: "schedule_params_entry fld list" where [table_layouts]:
  "schedule_params_layout =
    concat (map (\<lambda>i. let offset = 16 + 10 * i in
     [afld schp_subscheind schp_subscheind_update i (offset + 9) (offset + 0)]) [0..<8])"

definition sja1105_schedule_params_entry_access ::
    "bool \<Rightarrow> u8 list \<Rightarrow> schedule_params_entry \<Rightarrow> u8 list \<times> schedule_params_entry" where
  "sja1105_schedule_params_entry_access =
     table_access schedule_params_layout SIZE_SCHEDULE_PARAMS_ENTRY schedule_params_zero"

definition schedule_params_shape :: "schedule_params_entry \<Rightarrow> bool" where [table_shapes]:
  "schedule_params_shape e \<longleftrightarrow> length (schp_subscheind e) = 8"

interpretation schedule_params: table_codec
    schedule_params_layout SIZE_SCHEDULE_PARAMS_ENTRY schedule_params_zero schedule_params_shape
  by unfold_locales (auto simp: table_layouts table_shapes table_zeros codec_simps)

definition schedule_params_ok :: "schedule_params_entry \<Rightarrow> bool" where
  "schedule_params_ok e \<longleftrightarrow> schedule_params_shape e \<and> fits schedule_params_layout e"

interpretation schedule_params_acc: entry_codec sja1105_schedule_params_entry_access SIZE_SCHEDULE_PARAMS_ENTRY schedule_params_ok "\<lambda>e. e"
  unfolding sja1105_schedule_params_entry_access_def schedule_params_ok_def by (rule schedule_params.is_entry_codec) simp

section \<open>Schedule entry points parameters\<close>

record schedule_entry_points_params_entry =
  sepp_clksrc :: "u64"
  sepp_actsubsch :: "u64"

definition schedule_entry_points_params_zero :: schedule_entry_points_params_entry where [table_zeros]:
  "schedule_entry_points_params_zero = \<lparr>sepp_clksrc = 0, sepp_actsubsch = 0\<rparr>"

definition schedule_entry_points_params_layout :: "schedule_entry_points_params_entry fld list" where [table_layouts]:
  "schedule_entry_points_params_layout =
    [fld sepp_clksrc sepp_clksrc_update 31 30,
     fld sepp_actsubsch sepp_actsubsch_update 29 27]"

definition sja1105_schedule_entry_points_params_entry_access ::
    "bool \<Rightarrow> u8 list \<Rightarrow> schedule_entry_points_params_entry \<Rightarrow> u8 list \<times> schedule_entry_points_params_entry" where
  "sja1105_schedule_entry_points_params_entry_access =
     table_access schedule_entry_points_params_layout SIZE_SCHEDULE_ENTRY_POINTS_PARAMS_ENTRY schedule_entry_points_params_zero"

definition schedule_entry_points_params_shape :: "schedule_entry_points_params_entry \<Rightarrow> bool" where [table_shapes]:
  "schedule_entry_points_params_shape e \<longleftrightarrow> True"

interpretation schedule_entry_points_params: table_codec
    schedule_entry_points_params_layout SIZE_SCHEDULE_ENTRY_POINTS_PARAMS_ENTRY schedule_entry_points_params_zero schedule_entry_points_params_shape
  by unfold_locales (auto simp: table_layouts table_shapes table_zeros codec_simps)

definition schedule_entry_points_params_ok :: "schedule_entry_points_params_entry \<Rightarrow> bool" where
  "schedule_entry_points_params_ok e \<longleftrightarrow> schedule_entry_points_params_shape e \<and> fits schedule_entry_points_params_layout e"

interpretation schedule_entry_points_params_acc: entry_codec sja1105_schedule_entry_points_params_entry_access SIZE_SCHEDULE_ENTRY_POINTS_PARAMS_ENTRY schedule_entry_points_params_ok "\<lambda>e. e"
  unfolding sja1105_schedule_entry_points_params_entry_access_def schedule_entry_points_params_ok_def by (rule schedule_entry_points_params.is_entry_codec) simp

section \<open>VL lookup\<close>

record vl_lookup_entry =
  vll_format :: "u64"
  vll_port :: "u64"
  vll_destports :: "u64"
  vll_iscritical :: "u64"
  vll_macaddr :: "u64"
  vll_vlanid :: "u64"
  vll_vlanprior :: "u64"

abbreviation (input) "vll_egrmirr \<equiv> vll_destports"
abbreviation (input) "vll_egrmirr_update \<equiv> vll_destports_update"
abbreviation (input) "vll_ingrmirr \<equiv> vll_iscritical"
abbreviation (input) "vll_ingrmirr_update \<equiv> vll_iscritical_update"
abbreviation (input) "vll_vlid \<equiv> vll_macaddr"
abbreviation (input) "vll_vlid_update \<equiv> vll_macaddr_update"

definition vl_lookup_zero :: vl_lookup_entry where [table_zeros]:
  "vl_lookup_zero = \<lparr>vll_format = 0, vll_port = 0, vll_destports = 0, vll_iscritical = 0,
    vll_macaddr = 0, vll_vlanid = 0, vll_vlanprior = 0\<rparr>"

definition vl_lookup_layout0 :: "vl_lookup_entry fld list" where [table_layouts]:
  "vl_lookup_layout0 =
    [fld vll_destports vll_destports_update 95 91,
     fld vll_iscritical vll_iscritical_update 90 90,
     fld vll_macaddr vll_macaddr_update 89 42,
     fld vll_vlanid vll_vlanid_update 41 30,
     fld vll_port vll_port_update 29 27,
     fld vll_vlanprior vll_vlanprior_update 26 24]"

definition vl_lookup_layout1 :: "vl_lookup_entry fld list" where [table_layouts]:
  "vl_lookup_layout1 =
    [fld vll_egrmirr vll_egrmirr_update 95 91,
     fld vll_ingrmirr vll_ingrmirr_update 90 90,
     fld vll_vlid vll_vlid_update 57 42,
     fld vll_port vll_port_update 29 27]"

definition sja1105_vl_lookup_entry_access ::
    "bool \<Rightarrow> u8 list \<Rightarrow> vl_lookup_entry \<Rightarrow> u8 list \<times> vl_lookup_entry" where
  "sja1105_vl_lookup_entry_access write buf entry =
     (let s = access_init write SIZE_VL_LOOKUP_ENTRY vl_lookup_zero (buf, entry)
      in if vll_format (snd s) = 0 then access_fields write SIZE_VL_LOOKUP_ENTRY vl_lookup_layout0 s
         else access_fields write SIZE_VL_LOOKUP_ENTRY vl_lookup_layout1 s)"

section \<open>VL policing\<close>

record vl_policing_entry =
  vlp_type :: "u64"
  vlp_maxlen :: "u64"
  vlp_sharindx :: "u64"
  vlp_bag :: "u64"
  vlp_jitter :: "u64"

definition vl_policing_zero :: vl_policing_entry where [table_zeros]:
  "vl_policing_zero = \<lparr>vlp_type = 0, vlp_maxlen = 0, vlp_sharindx = 0, vlp_bag = 0,
    vlp_jitter = 0\<rparr>"

definition vl_policing_layout :: "vl_policing_entry fld list" where [table_layouts]:
  "vl_policing_layout =
    [fld vlp_type vlp_type_update 63 63,
     fld vlp_maxlen vlp_maxlen_update 62 52,
     fld vlp_sharindx vlp_sharindx_update 51 42]"

definition vl_policing_rate_layout :: "vl_policing_entry fld list" where [table_layouts]:
  "vl_policing_rate_layout =
    [fld vlp_bag vlp_bag_update 41 28,
     fld vlp_jitter vlp_jitter_update 27 18]"

definition sja1105_vl_policing_entry_access ::
    "bool \<Rightarrow> u8 list \<Rightarrow> vl_policing_entry \<Rightarrow> u8 list \<times> vl_policing_entry" where
  "sja1105_vl_policing_entry_access write buf entry =
     (let s = access_fields write SIZE_VL_POLICING_ENTRY vl_policing_layout
                (access_init write SIZE_VL_POLICING_ENTRY vl_policing_zero (buf, entry))
      in if vlp_type (snd s) = 0 then access_fields write SIZE_VL_POLICING_ENTRY vl_policing_rate_layout s
         else s)"

section \<open>VL forwarding\<close>

record vl_forwarding_entry =
  vlf_type :: "u64"
  vlf_priority :: "u64"
  vlf_partition :: "u64"
  vlf_destports :: "u64"

definition vl_forwarding_zero :: vl_forwarding_entry where [table_zeros]:
  "vl_forwarding_zero = \<lparr>vlf_type = 0, vlf_priority = 0, vlf_partition = 0, vlf_destports =
    0\<rparr>"

definition vl_forwarding_layout :: "vl_forwarding_entry fld list" where [table_layouts]:
  "vl_forwarding_layout =
    [fld vlf_type vlf_type_update 31 31,
     fld vlf_priority vlf_priority_update 30 28,
     fld vlf_partition vlf_partition_update 27 25,
     fld vlf_destports vlf_destports_update 24 20]"

definition sja1105_vl_forwarding_entry_access ::
    "bool \<Rightarrow> u8 list \<Rightarrow> vl_forwarding_entry \<Rightarrow> u8 list \<times> vl_forwarding_entry" where
  "sja1105_vl_forwarding_entry_access =
     table_access vl_forwarding_layout SIZE_VL_FORWARDING_ENTRY vl_forwarding_zero"

definition vl_forwarding_shape :: "vl_forwarding_entry \<Rightarrow> bool" where [table_shapes]:
  "vl_forwarding_shape e \<longleftrightarrow> True"

interpretation vl_forwarding: table_codec
    vl_forwarding_layout SIZE_VL_FORWARDING_ENTRY vl_forwarding_zero vl_forwarding_shape
  by unfold_locales (auto simp: table_layouts table_shapes table_zeros codec_simps)

definition vl_forwarding_ok :: "vl_forwarding_entry \<Rightarrow> bool" where
  "vl_forwarding_ok e \<longleftrightarrow> vl_forwarding_shape e \<and> fits vl_forwarding_layout e"

interpretation vl_forwarding_acc: entry_codec sja1105_vl_forwarding_entry_access SIZE_VL_FORWARDING_ENTRY vl_forwarding_ok "\<lambda>e. e"
  unfolding sja1105_vl_forwarding_entry_access_def vl_forwarding_ok_def by (rule vl_forwarding.is_entry_codec) simp

section \<open>VL forwarding parameters\<close>

record vl_forwarding_params_entry =
  vlfp_partspc :: "u64 list"
  vlfp_debugen :: "u64"

definition vl_forwarding_params_zero :: vl_forwarding_params_entry where [table_zeros]:
  "vl_forwarding_params_zero = \<lparr>vlfp_partspc = replicate 8 0, vlfp_debugen = 0\<rparr>"

definition vl_forwarding_params_layout :: "vl_forwarding_params_entry fld list" where [table_layouts]:
  "vl_forwarding_params_layout =
    concat (map (\<lambda>i. let offset = 16 + 10 * i in
     [afld vlfp_partspc vlfp_partspc_update i (offset + 9) (offset + 0)]) [0..<8]) @
    [fld vlfp_debugen vlfp_debugen_update 15 15]"

definition sja1105_vl_forwarding_params_entry_access ::
    "bool \<Rightarrow> u8 list \<Rightarrow> vl_forwarding_params_entry \<Rightarrow> u8 list \<times> vl_forwarding_params_entry" where
  "sja1105_vl_forwarding_params_entry_access =
     table_access vl_forwarding_params_layout SIZE_VL_FORWARDING_PARAMS_ENTRY vl_forwarding_params_zero"

definition vl_forwarding_params_shape :: "vl_forwarding_params_entry \<Rightarrow> bool" where [table_shapes]:
  "vl_forwarding_params_shape e \<longleftrightarrow> length (vlfp_partspc e) = 8"

interpretation vl_forwarding_params: table_codec
    vl_forwarding_params_layout SIZE_VL_FORWARDING_PARAMS_ENTRY vl_forwarding_params_zero vl_forwarding_params_shape
  by unfold_locales (auto simp: table_layouts table_shapes table_zeros codec_simps)

definition vl_forwarding_params_ok :: "vl_forwarding_params_entry \<Rightarrow> bool" where
  "vl_forwarding_params_ok e \<longleftrightarrow> vl_forwarding_params_shape e \<and> fits vl_forwarding_params_layout e"

interpretation vl_forwarding_params_acc: entry_codec sja1105_vl_forwarding_params_entry_access SIZE_VL_FORWARDING_PARAMS_ENTRY vl_forwarding_params_ok "\<lambda>e. e"
  unfolding sja1105_vl_forwarding_params_entry_access_def vl_forwarding_params_ok_def by (rule vl_forwarding_params.is_entry_codec) simp


section \<open>The entries whose layout depends on a member\<close>

text \<open>Virtual link lookup, format 0 and format 1.\<close>

definition vl_lookup0_shape :: "vl_lookup_entry \<Rightarrow> bool" where [table_shapes]:
  "vl_lookup0_shape e \<longleftrightarrow> vll_format e = 0"

interpretation vl_lookup0: table_codec
    vl_lookup_layout0 SIZE_VL_LOOKUP_ENTRY vl_lookup_zero vl_lookup0_shape
  by unfold_locales (auto simp: table_layouts table_shapes table_zeros codec_simps)

definition vl_lookup1_shape :: "vl_lookup_entry \<Rightarrow> bool" where [table_shapes]:
  "vl_lookup1_shape e \<longleftrightarrow> vll_format e = 0 \<and> vll_vlanid e = 0 \<and> vll_vlanprior e = 0"

interpretation vl_lookup1: table_codec
    vl_lookup_layout1 SIZE_VL_LOOKUP_ENTRY vl_lookup_zero vl_lookup1_shape
  by unfold_locales (auto simp: table_layouts table_shapes table_zeros codec_simps)

text \<open>
  Unpacking always takes format 0, since it has just cleared the entry. An entry of format 1 that fits
  its fields has, in the union, the members of format 0 with the same bits.
\<close>

lemma vl_lookup_pack:
  "SIZE_VL_LOOKUP_ENTRY \<le> length buf \<Longrightarrow>
   entry_pack sja1105_vl_lookup_entry_access buf e =
     (if vll_format e = 0
      then (vl_lookup0.bytes e @ drop SIZE_VL_LOOKUP_ENTRY buf, truncate_fields vl_lookup_layout0 e)
      else (vl_lookup1.bytes e @ drop SIZE_VL_LOOKUP_ENTRY buf, truncate_fields vl_lookup_layout1 e))"
  using vl_lookup0.pack_eq [of buf e] vl_lookup1.pack_eq [of buf e]
  by (simp add: sja1105_vl_lookup_entry_access_def entry_pack_def table_access_def access_init_def Let_def)

lemma vl_lookup_unpack:
  "entry_unpack sja1105_vl_lookup_entry_access buf e =
   entry_unpack (table_access vl_lookup_layout0 SIZE_VL_LOOKUP_ENTRY vl_lookup_zero) buf e"
  by (simp add: sja1105_vl_lookup_entry_access_def entry_unpack_def table_access_def access_init_def
      Let_def vl_lookup_zero_def)

definition vl_lookup_ok :: "vl_lookup_entry \<Rightarrow> bool" where
  "vl_lookup_ok e \<longleftrightarrow>
     (if vll_format e = 0 then fits vl_lookup_layout0 e
      else vll_format e = 1 \<and> vll_vlanid e = 0 \<and> vll_vlanprior e = 0 \<and> fits vl_lookup_layout1 e)"

lemma layout_bit_cong:
  "(\<And>f. f \<in> set fs \<Longrightarrow> fval e f = fval e' f) \<Longrightarrow> layout_bit fs e i = layout_bit fs e' i"
  by (simp add: layout_bit_def)

lemma fits_bit:
  assumes "fits fs e" "f \<in> set fs" "bit (fval e f) j"
  shows "j < width f"
proof -
  have "take_bit (width f) (fval e f) = fval e f" using assms(1,2) by (auto simp: fits_def list_all_iff)
  then show ?thesis using assms(3) bit_take_bit_iff [of "width f" "fval e f" j] by simp
qed

lemma vl_lookup1_bytes:
  assumes "fits vl_lookup_layout1 e" "vll_vlanid e = 0" "vll_vlanprior e = 0"
  shows "vl_lookup1.bytes e = vl_lookup0.bytes (e\<lparr>vll_format := 0\<rparr>)"
proof (rule lbit_determines [where sz = 12])
  fix i :: nat assume i: "i < 8 * 12"
  have "\<And>j. bit (vll_vlid e) j \<Longrightarrow> j < 16"
    using fits_bit [OF assms(1), of "fld vll_vlid vll_vlid_update 57 42"]
    by (simp add: vl_lookup_layout1_def fld_def width_def)
  from this [of "i - 42"]
  have "layout_bit vl_lookup_layout1 e i = layout_bit vl_lookup_layout0 (e\<lparr>vll_format := 0\<rparr>) i"
    using assms(2,3) by (auto simp: vl_lookup_layout1_def vl_lookup_layout0_def fld_def)
  then show "lbit 12 (vl_lookup1.bytes e) i = lbit 12 (vl_lookup0.bytes (e\<lparr>vll_format := 0\<rparr>)) i"
    using i by (simp add: vl_lookup0.lbit_bytes vl_lookup1.lbit_bytes)
qed (simp_all add: vl_lookup0.length_bytes vl_lookup1.length_bytes)

text \<open>
  An entry comes back with \<open>format\<close> zero, whichever format it was packed in; the configuration then
  sets the format of all entries.
\<close>

lemma vl_lookup_roundtrip:
  assumes "vl_lookup_ok e" "SIZE_VL_LOOKUP_ENTRY \<le> length buf"
  shows "snd (entry_pack sja1105_vl_lookup_entry_access buf e) = e"
    and "entry_unpack sja1105_vl_lookup_entry_access
           (fst (entry_pack sja1105_vl_lookup_entry_access buf e)) x = e\<lparr>vll_format := 0\<rparr>"
proof -
  define e0 where "e0 = e\<lparr>vll_format := 0\<rparr>"
  have f0: "fits vl_lookup_layout0 e0"
  proof (cases "vll_format e = 0")
    case True
    then show ?thesis using assms(1)
      by (simp add: vl_lookup_ok_def e0_def vl_lookup_layout0_def fits_def fld_def)
  next
    case False
    then have f: "fits vl_lookup_layout1 e" "vll_vlanid e = 0" "vll_vlanprior e = 0"
      using assms(1) by (auto simp: vl_lookup_ok_def split: if_splits)
    have "take_bit 48 (vll_vlid e) = vll_vlid e"
      using fits_bit [OF f(1), of "fld vll_vlid vll_vlid_update 57 42"]
      by (intro bit_eqI) (auto simp: bit_take_bit_iff vl_lookup_layout1_def fld_def width_def, fastforce)
    then show ?thesis using f
      by (simp add: e0_def vl_lookup_layout0_def vl_lookup_layout1_def fits_def fld_def width_def)
  qed
  have e0: "vll_format e = 0 \<Longrightarrow> e\<lparr>vll_format := 0\<rparr> = e" by (cases e) simp
  have s0: "vl_lookup0_shape e0" by (simp add: vl_lookup0_shape_def e0_def)
  have b: "fst (entry_pack sja1105_vl_lookup_entry_access buf e) = vl_lookup0.bytes e0 @ drop 12 buf"
    using assms vl_lookup1_bytes [of e]
    by (cases "vll_format e = 0") (simp_all add: e0 vl_lookup_pack vl_lookup_ok_def e0_def)
  show "entry_unpack sja1105_vl_lookup_entry_access
          (fst (entry_pack sja1105_vl_lookup_entry_access buf e)) x = e\<lparr>vll_format := 0\<rparr>"
    using vl_lookup0.roundtrip(2) [OF s0 f0 _, of "replicate 12 0"]
    by (simp add: vl_lookup_unpack b e0_def [symmetric])
  show "snd (entry_pack sja1105_vl_lookup_entry_access buf e) = e"
    using assms
    by (cases e) (auto simp: vl_lookup_pack vl_lookup_ok_def truncate_fields_def fits_def
        vl_lookup_layout0_def vl_lookup_layout1_def fld_def split: if_splits)
qed

lemma vl_lookup_entry_bytes:
  "entry_bytes sja1105_vl_lookup_entry_access SIZE_VL_LOOKUP_ENTRY e =
     (if vll_format e = 0 then vl_lookup0.bytes e else vl_lookup1.bytes e)"
  by (simp add: entry_bytes_def vl_lookup_pack vl_lookup0.length_bytes vl_lookup1.length_bytes)

interpretation vl_lookup_acc: entry_codec sja1105_vl_lookup_entry_access SIZE_VL_LOOKUP_ENTRY
    vl_lookup_ok "vll_format_update (\<lambda>_. 0)"
proof unfold_locales
  fix e x :: vl_lookup_entry and r :: "u8 list"
  assume ok: "vl_lookup_ok e"
  show "entry_unpack sja1105_vl_lookup_entry_access
      (entry_bytes sja1105_vl_lookup_entry_access SIZE_VL_LOOKUP_ENTRY e @ r) x = e\<lparr>vll_format := 0\<rparr>"
    using vl_lookup_roundtrip(2) [OF ok, of "replicate 12 0 @ r" x]
    by (simp add: vl_lookup_pack vl_lookup_entry_bytes split: if_splits)
qed (auto simp: vl_lookup_pack vl_lookup_entry_bytes vl_lookup0.length_bytes vl_lookup1.length_bytes
    dest: vl_lookup_roundtrip(1))

text \<open>Virtual link policing: the rate fields exist only in entries of type 0.\<close>

definition vl_policing0_shape :: "vl_policing_entry \<Rightarrow> bool" where [table_shapes]:
  "vl_policing0_shape e \<longleftrightarrow> True"

interpretation vl_policing0: table_codec
    "vl_policing_layout @ vl_policing_rate_layout" SIZE_VL_POLICING_ENTRY vl_policing_zero vl_policing0_shape
  by unfold_locales (auto simp: table_layouts table_shapes table_zeros codec_simps)

definition vl_policing1_shape :: "vl_policing_entry \<Rightarrow> bool" where [table_shapes]:
  "vl_policing1_shape e \<longleftrightarrow> vlp_bag e = 0 \<and> vlp_jitter e = 0"

interpretation vl_policing1: table_codec
    vl_policing_layout SIZE_VL_POLICING_ENTRY vl_policing_zero vl_policing1_shape
  by unfold_locales (auto simp: table_layouts table_shapes table_zeros codec_simps)

lemma access_fields_append:
  "access_fields w sz (fs @ gs) s = access_fields w sz gs (access_fields w sz fs s)"
  by (simp add: access_fields_def)

lemma vl_policing_pack:
  assumes "SIZE_VL_POLICING_ENTRY \<le> length buf"
  shows "entry_pack sja1105_vl_policing_entry_access buf e =
     (if take_bit 1 (vlp_type e) = 0
      then (vl_policing0.bytes e @ drop SIZE_VL_POLICING_ENTRY buf,
            truncate_fields (vl_policing_layout @ vl_policing_rate_layout) e)
      else (vl_policing1.bytes e @ drop SIZE_VL_POLICING_ENTRY buf, truncate_fields vl_policing_layout e))"
proof -
  have t: "vlp_type (truncate_fields vl_policing_layout e) = take_bit 1 (vlp_type e)"
    by (simp add: truncate_fields_def vl_policing_layout_def fld_def width_def)
  show ?thesis
    using vl_policing0.pack_eq [OF assms, of e] vl_policing1.pack_eq [OF assms, of e] t
    by (simp add: sja1105_vl_policing_entry_access_def entry_pack_def table_access_def access_fields_append
        Let_def)
qed

lemma vl_policing_unpack:
  "entry_unpack sja1105_vl_policing_entry_access buf x =
     (if vlp_type (entry_unpack (table_access vl_policing_layout SIZE_VL_POLICING_ENTRY vl_policing_zero) buf x) = 0
      then entry_unpack (table_access (vl_policing_layout @ vl_policing_rate_layout)
             SIZE_VL_POLICING_ENTRY vl_policing_zero) buf x
      else entry_unpack (table_access vl_policing_layout SIZE_VL_POLICING_ENTRY vl_policing_zero) buf x)"
  by (simp add: sja1105_vl_policing_entry_access_def entry_unpack_def table_access_def
      access_init_def Let_def access_fields_append)

definition vl_policing_ok :: "vl_policing_entry \<Rightarrow> bool" where
  "vl_policing_ok e \<longleftrightarrow>
     (if vlp_type e = 0 then fits (vl_policing_layout @ vl_policing_rate_layout) e
      else vl_policing1_shape e \<and> fits vl_policing_layout e)"

lemma vl_policing_entry_bytes:
  "entry_bytes sja1105_vl_policing_entry_access SIZE_VL_POLICING_ENTRY e =
     (if take_bit 1 (vlp_type e) = 0 then vl_policing0.bytes e else vl_policing1.bytes e)"
  by (simp add: entry_bytes_def vl_policing_pack vl_policing0.length_bytes vl_policing1.length_bytes)

lemma vl_policing_type:
  "vlp_type (entry_unpack (table_access vl_policing_layout SIZE_VL_POLICING_ENTRY vl_policing_zero) b x) =
   field_of SIZE_VL_POLICING_ENTRY b (fld vlp_type vlp_type_update 63 63 :: vl_policing_entry fld)"
  using vl_policing1.fval_unpack [of "fld vlp_type vlp_type_update 63 63" b x]
  by (simp add: vl_policing_layout_def fld_def)

interpretation vl_policing_acc: entry_codec sja1105_vl_policing_entry_access SIZE_VL_POLICING_ENTRY
    vl_policing_ok "\<lambda>e. e"
proof unfold_locales
  fix e x :: vl_policing_entry and r :: "u8 list"
  assume ok: "vl_policing_ok e"
  let ?f = "fld vlp_type vlp_type_update 63 63 :: vl_policing_entry fld"
  have f: "?f \<in> set vl_policing_layout" "fval e ?f = vlp_type e" "width ?f = 1"
    by (simp_all add: vl_policing_layout_def fld_def width_def)
  show "entry_unpack sja1105_vl_policing_entry_access
      (entry_bytes sja1105_vl_policing_entry_access SIZE_VL_POLICING_ENTRY e @ r) x = e"
  proof (cases "vlp_type e = 0")
    case True
    then have "fits (vl_policing_layout @ vl_policing_rate_layout) e" using ok by (simp add: vl_policing_ok_def)
    from vl_policing0.roundtrip(2) [OF _ this, of "replicate 8 0" r x] True f
      vl_policing0.field_of_bytes [of ?f e r]
    show ?thesis by (simp add: vl_policing_entry_bytes vl_policing_unpack vl_policing_type vl_policing0_shape_def)
  next
    case False
    then have fits: "vl_policing1_shape e" "fits vl_policing_layout e" using ok by (simp_all add: vl_policing_ok_def)
    then have "take_bit 1 (vlp_type e) = vlp_type e" using f by (auto simp: fits_def list_all_iff)
    with vl_policing1.roundtrip(2) [OF fits, of "replicate 8 0" r x] False f
      vl_policing1.field_of_bytes [of ?f e r]
    show ?thesis by (simp add: vl_policing_entry_bytes vl_policing_unpack vl_policing_type)
  qed
next
  fix e :: vl_policing_entry and buf :: "u8 list"
  assume ok: "vl_policing_ok e" and len: "SIZE_VL_POLICING_ENTRY \<le> length buf"
  show "snd (entry_pack sja1105_vl_policing_entry_access buf e) = e"
  proof (cases "vlp_type e = 0")
    case True
    then show ?thesis using ok len vl_policing0.fits_truncate [of e]
      by (simp add: vl_policing_pack vl_policing_ok_def vl_policing0_shape_def)
  next
    case False
    then have fits: "vl_policing1_shape e" "fits vl_policing_layout e" using ok by (simp_all add: vl_policing_ok_def)
    then have "take_bit 1 (vlp_type e) = vlp_type e"
      by (simp add: fits_def vl_policing_layout_def fld_def width_def)
    then show ?thesis using False fits len vl_policing1.fits_truncate [of e] by (simp add: vl_policing_pack)
  qed
qed (auto simp: vl_policing_pack vl_policing_entry_bytes vl_policing0.length_bytes vl_policing1.length_bytes)

section \<open>Properties\<close>

text \<open>
  An entry of the VL lookup table comes back from its packed form in both formats. Unpacking always
  reads format 0, but through the union an entry of format 1 keeps its members; only \<open>format\<close> is reset.
\<close>

theorem vl_lookup_entry_roundtrip:
  assumes "vl_lookup_ok e" "SIZE_VL_LOOKUP_ENTRY \<le> length buf"
  shows "entry_unpack sja1105_vl_lookup_entry_access
      (fst (entry_pack sja1105_vl_lookup_entry_access buf e)) x = e\<lparr>vll_format := 0\<rparr>"
  using vl_lookup_acc.pack_bytes [OF assms(2), of e] vl_lookup_acc.unpack_packed [OF assms(1)] by simp

theorem vl_lookup_entry_roundtrip_witness:
  "entry_unpack sja1105_vl_lookup_entry_access (fst (entry_pack sja1105_vl_lookup_entry_access (replicate 12 0)
      (vl_lookup_zero\<lparr>vll_format := 1, vll_port := 3, vll_destports := 17, vll_macaddr := 0xABCD\<rparr>))) vl_lookup_zero =
    vl_lookup_zero\<lparr>vll_port := 3, vll_destports := 17, vll_macaddr := 0xABCD\<rparr>"
  using vl_lookup_entry_roundtrip [of
      "vl_lookup_zero\<lparr>vll_format := 1, vll_port := 3, vll_destports := 17, vll_macaddr := 0xABCD\<rparr>" "replicate 12 0" vl_lookup_zero]
  by (simp add: vl_lookup_ok_def table_layouts fits_def fld_def width_def table_zeros)

end
