(* ===== verification/Tables_General.thy ===== *)
theory Tables_General
  imports Tables_Base
begin

unbundle bit_operations_syntax

text \<open>
  The remaining tables: \<^verbatim>\<open>src/lib/static-config/tables/\<close> \<^verbatim>\<open>avb-params.c\<close>, \<^verbatim>\<open>general-params.c\<close>,
  \<^verbatim>\<open>xmii-params.c\<close> and \<^verbatim>\<open>sgmii.c\<close>.
\<close>

section \<open>AVB parameters\<close>

record avb_params_entry =
  avb_l2cbs :: "u64"
  avb_cas_master :: "u64"
  avb_destmeta :: "u64"
  avb_srcmeta :: "u64"

definition avb_params_zero :: avb_params_entry where [table_zeros]:
  "avb_params_zero = \<lparr>avb_l2cbs = 0, avb_cas_master = 0, avb_destmeta = 0, avb_srcmeta =
    0\<rparr>"

definition avb_params_et_layout :: "avb_params_entry fld list" where [table_layouts]:
  "avb_params_et_layout =
    [fld avb_destmeta avb_destmeta_update 95 48,
     fld avb_srcmeta avb_srcmeta_update 47 0]"

definition sja1105et_avb_params_entry_access ::
    "bool \<Rightarrow> u8 list \<Rightarrow> avb_params_entry \<Rightarrow> u8 list \<times> avb_params_entry" where
  "sja1105et_avb_params_entry_access =
     table_access avb_params_et_layout SIZE_AVB_PARAMS_ENTRY_ET avb_params_zero"

definition avb_params_pqrs_layout :: "avb_params_entry fld list" where [table_layouts]:
  "avb_params_pqrs_layout =
    [fld avb_l2cbs avb_l2cbs_update 127 127,
     fld avb_cas_master avb_cas_master_update 126 126,
     fld avb_destmeta avb_destmeta_update 125 78,
     fld avb_srcmeta avb_srcmeta_update 77 33]"

definition sja1105pqrs_avb_params_entry_access ::
    "bool \<Rightarrow> u8 list \<Rightarrow> avb_params_entry \<Rightarrow> u8 list \<times> avb_params_entry" where
  "sja1105pqrs_avb_params_entry_access =
     table_access avb_params_pqrs_layout SIZE_AVB_PARAMS_ENTRY_PQRS avb_params_zero"

definition avb_params_et_shape :: "avb_params_entry \<Rightarrow> bool" where [table_shapes]:
  "avb_params_et_shape e \<longleftrightarrow> avb_l2cbs e = 0 \<and> avb_cas_master e = 0"

interpretation avb_params_et: table_codec
    avb_params_et_layout SIZE_AVB_PARAMS_ENTRY_ET avb_params_zero avb_params_et_shape
  by unfold_locales (auto simp: table_layouts table_shapes table_zeros codec_simps)

definition avb_params_et_ok :: "avb_params_entry \<Rightarrow> bool" where
  "avb_params_et_ok e \<longleftrightarrow> avb_params_et_shape e \<and> fits avb_params_et_layout e"

interpretation avb_params_et_acc: entry_codec sja1105et_avb_params_entry_access SIZE_AVB_PARAMS_ENTRY_ET avb_params_et_ok "\<lambda>e. e"
  unfolding sja1105et_avb_params_entry_access_def avb_params_et_ok_def by (rule avb_params_et.is_entry_codec) simp

definition avb_params_pqrs_shape :: "avb_params_entry \<Rightarrow> bool" where [table_shapes]:
  "avb_params_pqrs_shape e \<longleftrightarrow> True"

interpretation avb_params_pqrs: table_codec
    avb_params_pqrs_layout SIZE_AVB_PARAMS_ENTRY_PQRS avb_params_zero avb_params_pqrs_shape
  by unfold_locales (auto simp: table_layouts table_shapes table_zeros codec_simps)

definition avb_params_pqrs_ok :: "avb_params_entry \<Rightarrow> bool" where
  "avb_params_pqrs_ok e \<longleftrightarrow> avb_params_pqrs_shape e \<and> fits avb_params_pqrs_layout e"

interpretation avb_params_pqrs_acc: entry_codec sja1105pqrs_avb_params_entry_access SIZE_AVB_PARAMS_ENTRY_PQRS avb_params_pqrs_ok "\<lambda>e. e"
  unfolding sja1105pqrs_avb_params_entry_access_def avb_params_pqrs_ok_def by (rule avb_params_pqrs.is_entry_codec) simp

section \<open>General parameters\<close>

record general_params_entry =
  gen_vllupformat :: "u64"
  gen_mirr_ptacu :: "u64"
  gen_switchid :: "u64"
  gen_hostprio :: "u64"
  gen_mac_fltres1 :: "u64"
  gen_mac_fltres0 :: "u64"
  gen_mac_flt1 :: "u64"
  gen_mac_flt0 :: "u64"
  gen_incl_srcpt1 :: "u64"
  gen_incl_srcpt0 :: "u64"
  gen_send_meta1 :: "u64"
  gen_send_meta0 :: "u64"
  gen_casc_port :: "u64"
  gen_host_port :: "u64"
  gen_mirr_port :: "u64"
  gen_vlmarker :: "u64"
  gen_vlmask :: "u64"
  gen_tpid :: "u64"
  gen_ignore2stf :: "u64"
  gen_tpid2 :: "u64"
  gen_queue_ts :: "u64"
  gen_egrmirrvid :: "u64"
  gen_egrmirrpcp :: "u64"
  gen_egrmirrdei :: "u64"
  gen_replay_port :: "u64"

definition general_params_zero :: general_params_entry where [table_zeros]:
  "general_params_zero = \<lparr>gen_vllupformat = 0, gen_mirr_ptacu = 0, gen_switchid = 0,
    gen_hostprio = 0, gen_mac_fltres1 = 0, gen_mac_fltres0 = 0, gen_mac_flt1 = 0, gen_mac_flt0 =
    0, gen_incl_srcpt1 = 0, gen_incl_srcpt0 = 0, gen_send_meta1 = 0, gen_send_meta0 = 0,
    gen_casc_port = 0, gen_host_port = 0, gen_mirr_port = 0, gen_vlmarker = 0, gen_vlmask = 0,
    gen_tpid = 0, gen_ignore2stf = 0, gen_tpid2 = 0, gen_queue_ts = 0, gen_egrmirrvid = 0,
    gen_egrmirrpcp = 0, gen_egrmirrdei = 0, gen_replay_port = 0\<rparr>"

definition general_params_et_layout :: "general_params_entry fld list" where [table_layouts]:
  "general_params_et_layout =
    [fld gen_vllupformat gen_vllupformat_update 319 319,
     fld gen_mirr_ptacu gen_mirr_ptacu_update 318 318,
     fld gen_switchid gen_switchid_update 317 315,
     fld gen_hostprio gen_hostprio_update 314 312,
     fld gen_mac_fltres1 gen_mac_fltres1_update 311 264,
     fld gen_mac_fltres0 gen_mac_fltres0_update 263 216,
     fld gen_mac_flt1 gen_mac_flt1_update 215 168,
     fld gen_mac_flt0 gen_mac_flt0_update 167 120,
     fld gen_incl_srcpt1 gen_incl_srcpt1_update 119 119,
     fld gen_incl_srcpt0 gen_incl_srcpt0_update 118 118,
     fld gen_send_meta1 gen_send_meta1_update 117 117,
     fld gen_send_meta0 gen_send_meta0_update 116 116,
     fld gen_casc_port gen_casc_port_update 115 113,
     fld gen_host_port gen_host_port_update 112 110,
     fld gen_mirr_port gen_mirr_port_update 109 107,
     fld gen_vlmarker gen_vlmarker_update 106 75,
     fld gen_vlmask gen_vlmask_update 74 43,
     fld gen_tpid gen_tpid_update 42 27,
     fld gen_ignore2stf gen_ignore2stf_update 26 26,
     fld gen_tpid2 gen_tpid2_update 25 10]"

definition sja1105et_general_params_entry_access ::
    "bool \<Rightarrow> u8 list \<Rightarrow> general_params_entry \<Rightarrow> u8 list \<times> general_params_entry" where
  "sja1105et_general_params_entry_access =
     table_access general_params_et_layout SIZE_GENERAL_PARAMS_ENTRY_ET general_params_zero"

definition general_params_pqrs_layout :: "general_params_entry fld list" where [table_layouts]:
  "general_params_pqrs_layout =
    [fld gen_vllupformat gen_vllupformat_update 351 351,
     fld gen_mirr_ptacu gen_mirr_ptacu_update 350 350,
     fld gen_switchid gen_switchid_update 349 347,
     fld gen_hostprio gen_hostprio_update 346 344,
     fld gen_mac_fltres1 gen_mac_fltres1_update 343 296,
     fld gen_mac_fltres0 gen_mac_fltres0_update 295 248,
     fld gen_mac_flt1 gen_mac_flt1_update 247 200,
     fld gen_mac_flt0 gen_mac_flt0_update 199 152,
     fld gen_incl_srcpt1 gen_incl_srcpt1_update 151 151,
     fld gen_incl_srcpt0 gen_incl_srcpt0_update 150 150,
     fld gen_send_meta1 gen_send_meta1_update 149 149,
     fld gen_send_meta0 gen_send_meta0_update 148 148,
     fld gen_casc_port gen_casc_port_update 147 145,
     fld gen_host_port gen_host_port_update 144 142,
     fld gen_mirr_port gen_mirr_port_update 141 139,
     fld gen_vlmarker gen_vlmarker_update 138 107,
     fld gen_vlmask gen_vlmask_update 106 75,
     fld gen_tpid gen_tpid_update 74 59,
     fld gen_ignore2stf gen_ignore2stf_update 58 58,
     fld gen_tpid2 gen_tpid2_update 57 42,
     fld gen_queue_ts gen_queue_ts_update 41 41,
     fld gen_egrmirrvid gen_egrmirrvid_update 40 29,
     fld gen_egrmirrpcp gen_egrmirrpcp_update 28 26,
     fld gen_egrmirrdei gen_egrmirrdei_update 25 25,
     fld gen_replay_port gen_replay_port_update 24 22]"

definition sja1105pqrs_general_params_entry_access ::
    "bool \<Rightarrow> u8 list \<Rightarrow> general_params_entry \<Rightarrow> u8 list \<times> general_params_entry" where
  "sja1105pqrs_general_params_entry_access =
     table_access general_params_pqrs_layout SIZE_GENERAL_PARAMS_ENTRY_PQRS general_params_zero"

definition general_params_et_shape :: "general_params_entry \<Rightarrow> bool" where [table_shapes]:
  "general_params_et_shape e \<longleftrightarrow> gen_queue_ts e = 0 \<and> gen_egrmirrvid e = 0
     \<and> gen_egrmirrpcp e = 0 \<and> gen_egrmirrdei e = 0 \<and> gen_replay_port e = 0"

interpretation general_params_et: table_codec
    general_params_et_layout SIZE_GENERAL_PARAMS_ENTRY_ET general_params_zero general_params_et_shape
  by unfold_locales (auto simp: table_layouts table_shapes table_zeros codec_simps)

definition general_params_et_ok :: "general_params_entry \<Rightarrow> bool" where
  "general_params_et_ok e \<longleftrightarrow> general_params_et_shape e \<and> fits general_params_et_layout e"

interpretation general_params_et_acc: entry_codec sja1105et_general_params_entry_access SIZE_GENERAL_PARAMS_ENTRY_ET general_params_et_ok "\<lambda>e. e"
  unfolding sja1105et_general_params_entry_access_def general_params_et_ok_def by (rule general_params_et.is_entry_codec) simp

definition general_params_pqrs_shape :: "general_params_entry \<Rightarrow> bool" where [table_shapes]:
  "general_params_pqrs_shape e \<longleftrightarrow> True"

interpretation general_params_pqrs: table_codec
    general_params_pqrs_layout SIZE_GENERAL_PARAMS_ENTRY_PQRS general_params_zero general_params_pqrs_shape
  by unfold_locales (auto simp: table_layouts table_shapes table_zeros codec_simps)

definition general_params_pqrs_ok :: "general_params_entry \<Rightarrow> bool" where
  "general_params_pqrs_ok e \<longleftrightarrow> general_params_pqrs_shape e \<and> fits general_params_pqrs_layout e"

interpretation general_params_pqrs_acc: entry_codec sja1105pqrs_general_params_entry_access SIZE_GENERAL_PARAMS_ENTRY_PQRS general_params_pqrs_ok "\<lambda>e. e"
  unfolding sja1105pqrs_general_params_entry_access_def general_params_pqrs_ok_def by (rule general_params_pqrs.is_entry_codec) simp

section \<open>xMII mode parameters\<close>

record xmii_params_entry =
  xmii_phy_mac :: "u64 list"
  xmii_xmii_mode :: "u64 list"

definition xmii_params_zero :: xmii_params_entry where [table_zeros]:
  "xmii_params_zero = \<lparr>xmii_phy_mac = replicate 5 0, xmii_xmii_mode = replicate 5
    0\<rparr>"

definition xmii_params_layout :: "xmii_params_entry fld list" where [table_layouts]:
  "xmii_params_layout =
    concat (map (\<lambda>i. let offset = 17 + 3 * i in
     [afld xmii_xmii_mode xmii_xmii_mode_update i (offset + 1) (offset + 0),
      afld xmii_phy_mac xmii_phy_mac_update i (offset + 2) (offset + 2)]) [0..<5])"

definition sja1105_xmii_params_entry_access ::
    "bool \<Rightarrow> u8 list \<Rightarrow> xmii_params_entry \<Rightarrow> u8 list \<times> xmii_params_entry" where
  "sja1105_xmii_params_entry_access =
     table_access xmii_params_layout SIZE_XMII_MODE_PARAMS_ENTRY xmii_params_zero"

definition xmii_params_shape :: "xmii_params_entry \<Rightarrow> bool" where [table_shapes]:
  "xmii_params_shape e \<longleftrightarrow> length (xmii_phy_mac e) = 5 \<and> length
     (xmii_xmii_mode e) = 5"

interpretation xmii_params: table_codec
    xmii_params_layout SIZE_XMII_MODE_PARAMS_ENTRY xmii_params_zero xmii_params_shape
  by unfold_locales (auto simp: table_layouts table_shapes table_zeros codec_simps)

definition xmii_params_ok :: "xmii_params_entry \<Rightarrow> bool" where
  "xmii_params_ok e \<longleftrightarrow> xmii_params_shape e \<and> fits xmii_params_layout e"

interpretation xmii_params_acc: entry_codec sja1105_xmii_params_entry_access SIZE_XMII_MODE_PARAMS_ENTRY xmii_params_ok "\<lambda>e. e"
  unfolding sja1105_xmii_params_entry_access_def xmii_params_ok_def by (rule xmii_params.is_entry_codec) simp

section \<open>SGMII\<close>

record sgmii_entry =
  sgmii_digital_error_cnt :: "u64"
  sgmii_digital_control_2 :: "u64"
  sgmii_debug_control :: "u64"
  sgmii_test_control :: "u64"
  sgmii_autoneg_control :: "u64"
  sgmii_digital_control_1 :: "u64"
  sgmii_autoneg_adv :: "u64"
  sgmii_basic_control :: "u64"

definition sgmii_zero :: sgmii_entry where [table_zeros]:
  "sgmii_zero = \<lparr>sgmii_digital_error_cnt = 0, sgmii_digital_control_2 = 0,
    sgmii_debug_control = 0, sgmii_test_control = 0, sgmii_autoneg_control = 0,
    sgmii_digital_control_1 = 0, sgmii_autoneg_adv = 0, sgmii_basic_control = 0\<rparr>"

definition sgmii_layout :: "sgmii_entry fld list" where [table_layouts]:
  "sgmii_layout =
    [fld sgmii_digital_error_cnt sgmii_digital_error_cnt_update 1151 1120,
     fld sgmii_digital_control_2 sgmii_digital_control_2_update 1119 1088,
     fld sgmii_debug_control sgmii_debug_control_update 383 352,
     fld sgmii_test_control sgmii_test_control_update 351 320,
     fld sgmii_autoneg_control sgmii_autoneg_control_update 287 256,
     fld sgmii_digital_control_1 sgmii_digital_control_1_update 255 224,
     fld sgmii_autoneg_adv sgmii_autoneg_adv_update 223 192,
     fld sgmii_basic_control sgmii_basic_control_update 191 160,
     Konst 0x00000000 1087 1056,
     Konst 0x00000000 1055 1024,
     Konst 0x00000000 1023 992,
     Konst 0x00000100 991 960,
     Konst 0x0000023F 959 928,
     Konst 0x0000000A 927 896,
     Konst 0x00001C22 895 864,
     Konst 0x00000001 863 832,
     Konst 0x00000003 831 800,
     Konst 0x00000000 799 768,
     Konst 0x00000001 767 736,
     Konst 0x00000005 735 704,
     Konst 0x00000101 703 672,
     Konst 0x00000000 671 640,
     Konst 0x00000001 639 608,
     Konst 0x00000000 607 576,
     Konst 0x0000000A 575 544,
     Konst 0x00000000 543 512,
     Konst 0x00000000 511 480,
     Konst 0x00000000 479 448,
     Konst 0x00000000 447 416,
     Konst 0x0000899C 415 384,
     Konst 0x0000000A 319 288,
     Konst 0x00000004 159 128,
     Konst 0x00000000 127 96,
     Konst 0x00000000 95 64,
     Konst 0x00000000 63 32,
     Konst 0x00000000 31 0]"

definition sja1105_sgmii_entry_access ::
    "bool \<Rightarrow> u8 list \<Rightarrow> sgmii_entry \<Rightarrow> u8 list \<times> sgmii_entry" where
  "sja1105_sgmii_entry_access =
     table_access sgmii_layout SIZE_SGMII_ENTRY sgmii_zero"

definition sgmii_shape :: "sgmii_entry \<Rightarrow> bool" where [table_shapes]:
  "sgmii_shape e \<longleftrightarrow> True"

interpretation sgmii: table_codec
    sgmii_layout SIZE_SGMII_ENTRY sgmii_zero sgmii_shape
  by unfold_locales (auto simp: table_layouts table_shapes table_zeros codec_simps)

definition sgmii_ok :: "sgmii_entry \<Rightarrow> bool" where
  "sgmii_ok e \<longleftrightarrow> sgmii_shape e \<and> fits sgmii_layout e"

interpretation sgmii_acc: entry_codec sja1105_sgmii_entry_access SIZE_SGMII_ENTRY sgmii_ok "\<lambda>e. e"
  unfolding sja1105_sgmii_entry_access_def sgmii_ok_def by (rule sgmii.is_entry_codec) simp

section \<open>Properties\<close>

text \<open>Fields that follow each other without a gap, from bit \<open>upper - 1\<close> down to bit \<open>lower\<close>.\<close>

fun gapless :: "'e fld list \<Rightarrow> nat \<Rightarrow> nat \<Rightarrow> bool" where
  "gapless [] upper lower \<longleftrightarrow> upper = lower"
| "gapless (f # fs) upper lower \<longleftrightarrow> hi f + 1 = upper \<and> lo f \<le> hi f \<and> gapless fs (lo f) lower"

lemma gapless_covered: "gapless fs upper lower \<Longrightarrow> lower \<le> i \<Longrightarrow> i < upper \<Longrightarrow> covered fs i"
proof (induction fs arbitrary: upper)
  case (Cons f fs)
  then show ?case by (cases "lo f \<le> i") auto
qed simp

text \<open>
  A packed buffer of the general parameters of E/T in which no bit lies outside the fields is
  reproduced exactly by unpacking it and packing the entry again.
\<close>

theorem general_params_et_unpack_then_pack:
  assumes "SIZE_GENERAL_PARAMS_ENTRY_ET \<le> length b" "SIZE_GENERAL_PARAMS_ENTRY_ET \<le> length buf"
    "\<forall>i < 10. \<not> lbit SIZE_GENERAL_PARAMS_ENTRY_ET b i"
  shows "fst (entry_pack sja1105et_general_params_entry_access buf
      (entry_unpack sja1105et_general_params_entry_access b x)) =
    take SIZE_GENERAL_PARAMS_ENTRY_ET b @ drop SIZE_GENERAL_PARAMS_ENTRY_ET buf"
proof -
  have "gapless general_params_et_layout 320 10"
    by (simp add: general_params_et_layout_def fld_def)
  then have "covered general_params_et_layout i \<or> \<not> lbit SIZE_GENERAL_PARAMS_ENTRY_ET b i" if "i < 320" for i
    using assms(3) that gapless_covered [of general_params_et_layout 320 10 i] by (cases "i < 10") auto
  moreover have "list_all (holds_konst SIZE_GENERAL_PARAMS_ENTRY_ET b) general_params_et_layout"
    by (simp add: general_params_et_layout_def fld_def)
  ultimately have "canonical general_params_et_layout SIZE_GENERAL_PARAMS_ENTRY_ET b"
    unfolding canonical_def by (auto simp: list_all_iff)
  from general_params_et.pack_unpack [OF assms(1) this, of x] assms(2) show ?thesis
    by (simp add: sja1105et_general_params_entry_access_def general_params_et.pack_eq)
qed

theorem general_params_et_unpack_then_pack_witness:
  "fst (entry_pack sja1105et_general_params_entry_access (replicate 40 0)
      (entry_unpack sja1105et_general_params_entry_access ([0xFF, 0xFF, 0xFC, 0] @ replicate 36 0xFF @ [9]) general_params_zero)) =
    [0xFF, 0xFF, 0xFC, 0] @ replicate 36 0xFF"
proof -
  have "\<not> lbit 40 ([0xFF, 0xFF, 0xFC, 0] @ replicate 36 0xFF @ [9]) i" if "i < 10" for i
  proof -
    have "i = 0 \<or> i = 1 \<or> i = 2 \<or> i = 3 \<or> i = 4 \<or> i = 5 \<or> i = 6 \<or> i = 7 \<or> i = 8 \<or> i = 9"
      using that by arith
    then show ?thesis by (elim disjE) (simp_all add: lbit_addr nth_append)
  qed
  then show ?thesis
    using general_params_et_unpack_then_pack [of "[0xFF, 0xFF, 0xFC, 0] @ replicate 36 0xFF @ [9]" "replicate 40 0"] by simp
qed

text \<open>
  The field of \<^verbatim>\<open>srcmeta\<close> in the AVB parameters of P/Q/R/S has 45 bits: a source MAC address loses its
  three highest bits.
\<close>

theorem avb_params_pqrs_srcmeta:
  assumes "SIZE_AVB_PARAMS_ENTRY_PQRS \<le> length buf"
  shows "avb_srcmeta (entry_unpack sja1105pqrs_avb_params_entry_access
      (fst (entry_pack sja1105pqrs_avb_params_entry_access buf e)) x) = take_bit 45 (avb_srcmeta e)"
proof -
  have "entry_unpack sja1105pqrs_avb_params_entry_access
      (fst (entry_pack sja1105pqrs_avb_params_entry_access buf e)) x =
    copy_fields avb_params_pqrs_layout avb_params_zero e"
    using assms by (simp add: sja1105pqrs_avb_params_entry_access_def avb_params_pqrs.pack_eq
        avb_params_pqrs.unpack_bytes)
  then show ?thesis by (simp add: copy_fields_def avb_params_pqrs_layout_def fld_def width_def avb_params_zero_def)
qed

theorem avb_params_pqrs_srcmeta_witness:
  "avb_srcmeta (entry_unpack sja1105pqrs_avb_params_entry_access
      (fst (entry_pack sja1105pqrs_avb_params_entry_access (replicate 16 0)
        (avb_params_zero\<lparr>avb_srcmeta := 0xFEDCBA987654\<rparr>))) avb_params_zero) = 0x1EDCBA987654"
  using avb_params_pqrs_srcmeta [of "replicate 16 0" "avb_params_zero\<lparr>avb_srcmeta := 0xFEDCBA987654\<rparr>" avb_params_zero]
  by simp

end
