(* ===== verification/Static_Config.thy ===== *)
theory Static_Config
  imports Tables_L2 Tables_VL Tables_General "HOL-Library.Monad_Syntax"
begin

unbundle bit_operations_syntax

text \<open>
  \<^verbatim>\<open>src/lib/static-config/static-config.c\<close>: the configuration as the program holds it, its packing into
  the buffer that is uploaded to the switch, its unpacking, and the checks made on it. An access
  outside an object (past the end of the buffer, or of the array of a table) is undefined in C; the
  operations that can make one return an \<^typ>\<open>'a option\<close> whose \<open>None\<close> is that access.
\<close>

section \<open>The configuration\<close>

abbreviation (input) SIZE_SJA1105_DEVICE_ID :: nat where "SIZE_SJA1105_DEVICE_ID \<equiv> 4"

text \<open>
  The macro \<^verbatim>\<open>STATIC_CONFIG_MEMBER\<close>: an array and its fill count. The array has the capacity of its
  table; the operations check every index against it.
\<close>

record 'e static_config_member =
  entries :: "nat \<Rightarrow> 'e"
  entry_count :: int

record sja1105_static_config =
  cfg_device_id :: u64
  cfg_entries_in_fdb_bin :: "nat \<Rightarrow> u8"
  cfg_l2_forwarding_params :: "l2_forwarding_params_entry static_config_member"
  cfg_l2_forwarding :: "l2_forwarding_entry static_config_member"
  cfg_l2_lookup :: "l2_lookup_entry static_config_member"
  cfg_l2_lookup_params :: "l2_lookup_params_entry static_config_member"
  cfg_l2_policing :: "l2_policing_entry static_config_member"
  cfg_mac_config :: "mac_config_entry static_config_member"
  cfg_schedule_entry_points_params :: "schedule_entry_points_params_entry static_config_member"
  cfg_schedule_entry_points :: "schedule_entry_points_entry static_config_member"
  cfg_schedule_params :: "schedule_params_entry static_config_member"
  cfg_schedule :: "schedule_entry static_config_member"
  cfg_vlan_lookup :: "vlan_lookup_entry static_config_member"
  cfg_xmii_params :: "xmii_params_entry static_config_member"
  cfg_general_params :: "general_params_entry static_config_member"
  cfg_avb_params :: "avb_params_entry static_config_member"
  cfg_vl_forwarding_params :: "vl_forwarding_params_entry static_config_member"
  cfg_vl_forwarding :: "vl_forwarding_entry static_config_member"
  cfg_vl_policing :: "vl_policing_entry static_config_member"
  cfg_vl_lookup :: "vl_lookup_entry static_config_member"
  cfg_sgmii :: "sgmii_entry static_config_member"

definition no_entries :: "'e \<Rightarrow> 'e static_config_member" where
  "no_entries zero = \<lparr>entries = \<lambda>_. zero, entry_count = 0\<rparr>"

text \<open>\<^verbatim>\<open>memset(config, 0, sizeof(*config))\<close>\<close>

definition static_config_zero :: sja1105_static_config where
  "static_config_zero =
     \<lparr>cfg_device_id = 0, cfg_entries_in_fdb_bin = \<lambda>_. 0,
      cfg_l2_forwarding_params = no_entries l2_forwarding_params_zero,
      cfg_l2_forwarding = no_entries l2_forwarding_zero,
      cfg_l2_lookup = no_entries l2_lookup_zero,
      cfg_l2_lookup_params = no_entries l2_lookup_params_zero,
      cfg_l2_policing = no_entries l2_policing_zero,
      cfg_mac_config = no_entries mac_config_zero,
      cfg_schedule_entry_points_params = no_entries schedule_entry_points_params_zero,
      cfg_schedule_entry_points = no_entries schedule_entry_points_zero,
      cfg_schedule_params = no_entries schedule_params_zero,
      cfg_schedule = no_entries schedule_zero,
      cfg_vlan_lookup = no_entries vlan_lookup_zero,
      cfg_xmii_params = no_entries xmii_params_zero,
      cfg_general_params = no_entries general_params_zero,
      cfg_avb_params = no_entries avb_params_zero,
      cfg_vl_forwarding_params = no_entries vl_forwarding_params_zero,
      cfg_vl_forwarding = no_entries vl_forwarding_zero,
      cfg_vl_policing = no_entries vl_policing_zero,
      cfg_vl_lookup = no_entries vl_lookup_zero,
      cfg_sgmii = no_entries sgmii_zero\<rparr>"

section \<open>Adding an entry\<close>

text \<open>
  The macro \<^verbatim>\<open>POPULATE_CONFIG_TABLE\<close>: the result is the value returned to the caller and the new member.
  The count is only rejected when it is larger than the capacity.
\<close>

definition populate_config_table ::
    "(bool \<Rightarrow> u8 list \<Rightarrow> 'e \<Rightarrow> u8 list \<times> 'e) \<Rightarrow> 'e \<Rightarrow> nat \<Rightarrow> nat \<Rightarrow> u8 list \<Rightarrow>
     'e static_config_member \<Rightarrow> (int \<times> 'e static_config_member) option" where
  "populate_config_table acc zero size_entry max_entry_count buf m =
     (if int max_entry_count < entry_count m then Some (- 1, m)
      else if length buf < size_entry then None
      else let entry = entry_unpack acc buf zero
           in if entry_count m < 0 \<or> int max_entry_count \<le> entry_count m then None
              else Some (int size_entry,
                     m\<lparr>entries := (entries m)(nat (entry_count m) := entry),
                       entry_count := entry_count m + 1\<rparr>))"

definition at_member ::
    "(sja1105_static_config \<Rightarrow> 'm) \<Rightarrow> (('m \<Rightarrow> 'm) \<Rightarrow> sja1105_static_config \<Rightarrow> sja1105_static_config) \<Rightarrow>
     ('m \<Rightarrow> ('a \<times> 'm) option) \<Rightarrow> sja1105_static_config \<Rightarrow> ('a \<times> sja1105_static_config) option" where
  "at_member sel upd f config = map_option (\<lambda>(a, m). (a, upd (\<lambda>_. m) config)) (f (sel config))"

definition sja1105_static_config_add_entry ::
    "table_header \<Rightarrow> u8 list \<Rightarrow> sja1105_static_config \<Rightarrow> (int \<times> sja1105_static_config) option" where
  "sja1105_static_config_add_entry hdr buf config =
     (if hdr_block_id hdr = BLKID_SCHEDULE_TABLE then
          at_member cfg_schedule cfg_schedule_update
            (populate_config_table sja1105_schedule_entry_access schedule_zero
               SIZE_SCHEDULE_ENTRY MAX_SCHEDULE_COUNT buf) config
      else if hdr_block_id hdr = BLKID_SCHEDULE_ENTRY_POINTS_TABLE then
          at_member cfg_schedule_entry_points cfg_schedule_entry_points_update
            (populate_config_table sja1105_schedule_entry_points_entry_access schedule_entry_points_zero
               SIZE_SCHEDULE_ENTRY_POINTS_ENTRY MAX_SCHEDULE_ENTRY_POINTS_COUNT buf) config
      else if hdr_block_id hdr = BLKID_VL_LOOKUP_TABLE then
          at_member cfg_vl_lookup cfg_vl_lookup_update
            (populate_config_table sja1105_vl_lookup_entry_access vl_lookup_zero
               SIZE_VL_LOOKUP_ENTRY MAX_VL_LOOKUP_COUNT buf) config
      else if hdr_block_id hdr = BLKID_VL_POLICING_TABLE then
          at_member cfg_vl_policing cfg_vl_policing_update
            (populate_config_table sja1105_vl_policing_entry_access vl_policing_zero
               SIZE_VL_POLICING_ENTRY MAX_VL_POLICING_COUNT buf) config
      else if hdr_block_id hdr = BLKID_VL_FORWARDING_TABLE then
          at_member cfg_vl_forwarding cfg_vl_forwarding_update
            (populate_config_table sja1105_vl_forwarding_entry_access vl_forwarding_zero
               SIZE_VL_FORWARDING_ENTRY MAX_VL_FORWARDING_COUNT buf) config
      else if hdr_block_id hdr = BLKID_L2_LOOKUP_TABLE then
         (if IS_ET (cfg_device_id config)
          then at_member cfg_l2_lookup cfg_l2_lookup_update
            (populate_config_table sja1105et_l2_lookup_entry_access l2_lookup_zero
               SIZE_L2_LOOKUP_ENTRY_ET MAX_L2_LOOKUP_COUNT buf) config
          else at_member cfg_l2_lookup cfg_l2_lookup_update
            (populate_config_table sja1105pqrs_l2_lookup_entry_access l2_lookup_zero
               SIZE_L2_LOOKUP_ENTRY_PQRS MAX_L2_LOOKUP_COUNT buf) config)
      else if hdr_block_id hdr = BLKID_L2_POLICING_TABLE then
          at_member cfg_l2_policing cfg_l2_policing_update
            (populate_config_table sja1105_l2_policing_entry_access l2_policing_zero
               SIZE_L2_POLICING_ENTRY MAX_L2_POLICING_COUNT buf) config
      else if hdr_block_id hdr = BLKID_VLAN_LOOKUP_TABLE then
          at_member cfg_vlan_lookup cfg_vlan_lookup_update
            (populate_config_table sja1105_vlan_lookup_entry_access vlan_lookup_zero
               SIZE_VLAN_LOOKUP_ENTRY MAX_VLAN_LOOKUP_COUNT buf) config
      else if hdr_block_id hdr = BLKID_L2_FORWARDING_TABLE then
          at_member cfg_l2_forwarding cfg_l2_forwarding_update
            (populate_config_table sja1105_l2_forwarding_entry_access l2_forwarding_zero
               SIZE_L2_FORWARDING_ENTRY MAX_L2_FORWARDING_COUNT buf) config
      else if hdr_block_id hdr = BLKID_MAC_CONFIG_TABLE then
         (if IS_ET (cfg_device_id config)
          then at_member cfg_mac_config cfg_mac_config_update
            (populate_config_table sja1105et_mac_config_entry_access mac_config_zero
               SIZE_MAC_CONFIG_ENTRY_ET MAX_MAC_CONFIG_COUNT buf) config
          else at_member cfg_mac_config cfg_mac_config_update
            (populate_config_table sja1105pqrs_mac_config_entry_access mac_config_zero
               SIZE_MAC_CONFIG_ENTRY_PQRS MAX_MAC_CONFIG_COUNT buf) config)
      else if hdr_block_id hdr = BLKID_SCHEDULE_PARAMS_TABLE then
          at_member cfg_schedule_params cfg_schedule_params_update
            (populate_config_table sja1105_schedule_params_entry_access schedule_params_zero
               SIZE_SCHEDULE_PARAMS_ENTRY MAX_SCHEDULE_PARAMS_COUNT buf) config
      else if hdr_block_id hdr = BLKID_SCHEDULE_ENTRY_POINTS_PARAMS_TABLE then
          at_member cfg_schedule_entry_points_params cfg_schedule_entry_points_params_update
            (populate_config_table sja1105_schedule_entry_points_params_entry_access schedule_entry_points_params_zero
               SIZE_SCHEDULE_ENTRY_POINTS_PARAMS_ENTRY MAX_SCHEDULE_ENTRY_POINTS_PARAMS_COUNT buf) config
      else if hdr_block_id hdr = BLKID_VL_FORWARDING_PARAMS_TABLE then
          at_member cfg_vl_forwarding_params cfg_vl_forwarding_params_update
            (populate_config_table sja1105_vl_forwarding_params_entry_access vl_forwarding_params_zero
               SIZE_VL_FORWARDING_PARAMS_ENTRY MAX_VL_FORWARDING_PARAMS_COUNT buf) config
      else if hdr_block_id hdr = BLKID_L2_LOOKUP_PARAMS_TABLE then
         (if IS_ET (cfg_device_id config)
          then at_member cfg_l2_lookup_params cfg_l2_lookup_params_update
            (populate_config_table sja1105et_l2_lookup_params_entry_access l2_lookup_params_zero
               SIZE_L2_LOOKUP_PARAMS_ENTRY_ET MAX_L2_LOOKUP_PARAMS_COUNT buf) config
          else at_member cfg_l2_lookup_params cfg_l2_lookup_params_update
            (populate_config_table sja1105pqrs_l2_lookup_params_entry_access l2_lookup_params_zero
               SIZE_L2_LOOKUP_PARAMS_ENTRY_PQRS MAX_L2_LOOKUP_PARAMS_COUNT buf) config)
      else if hdr_block_id hdr = BLKID_L2_FORWARDING_PARAMS_TABLE then
          at_member cfg_l2_forwarding_params cfg_l2_forwarding_params_update
            (populate_config_table sja1105_l2_forwarding_params_entry_access l2_forwarding_params_zero
               SIZE_L2_FORWARDING_PARAMS_ENTRY MAX_L2_FORWARDING_PARAMS_COUNT buf) config
      else if hdr_block_id hdr = BLKID_CLK_SYNC_PARAMS_TABLE then
          Some (int SIZE_CLK_SYNC_PARAMS_ENTRY, config)
      else if hdr_block_id hdr = BLKID_AVB_PARAMS_TABLE then
         (if IS_ET (cfg_device_id config)
          then at_member cfg_avb_params cfg_avb_params_update
            (populate_config_table sja1105et_avb_params_entry_access avb_params_zero
               SIZE_AVB_PARAMS_ENTRY_ET MAX_AVB_PARAMS_COUNT buf) config
          else at_member cfg_avb_params cfg_avb_params_update
            (populate_config_table sja1105pqrs_avb_params_entry_access avb_params_zero
               SIZE_AVB_PARAMS_ENTRY_PQRS MAX_AVB_PARAMS_COUNT buf) config)
      else if hdr_block_id hdr = BLKID_GENERAL_PARAMS_TABLE then
         (if IS_ET (cfg_device_id config)
          then at_member cfg_general_params cfg_general_params_update
            (populate_config_table sja1105et_general_params_entry_access general_params_zero
               SIZE_GENERAL_PARAMS_ENTRY_ET MAX_GENERAL_PARAMS_COUNT buf) config
          else at_member cfg_general_params cfg_general_params_update
            (populate_config_table sja1105pqrs_general_params_entry_access general_params_zero
               SIZE_GENERAL_PARAMS_ENTRY_PQRS MAX_GENERAL_PARAMS_COUNT buf) config)
      else if hdr_block_id hdr = BLKID_XMII_MODE_PARAMS_TABLE then
          at_member cfg_xmii_params cfg_xmii_params_update
            (populate_config_table sja1105_xmii_params_entry_access xmii_params_zero
               SIZE_XMII_MODE_PARAMS_ENTRY MAX_XMII_PARAMS_COUNT buf) config
      else if hdr_block_id hdr = BLKID_SGMII_TABLE then
          at_member cfg_sgmii cfg_sgmii_update
            (populate_config_table sja1105_sgmii_entry_access sgmii_zero
               SIZE_SGMII_ENTRY MAX_SGMII_COUNT buf) config
      else Some (- 1, config))"

section \<open>Patches and checks\<close>

fun for_upto :: "nat \<Rightarrow> (nat \<Rightarrow> 's \<Rightarrow> 's) \<Rightarrow> 's \<Rightarrow> 's" where
  "for_upto 0 f s = s"
| "for_upto (Suc n) f s = f n (for_upto n f s)"

definition set_entry :: "nat \<Rightarrow> ('e \<Rightarrow> 'e) \<Rightarrow> 'e static_config_member \<Rightarrow> 'e static_config_member" where
  "set_entry i f m = m\<lparr>entries := (entries m)(i := f (entries m i))\<rparr>"

definition sja1105_static_config_patch_vllupformat ::
    "sja1105_static_config \<Rightarrow> sja1105_static_config" where
  "sja1105_static_config_patch_vllupformat config =
     for_upto (nat (entry_count (cfg_vl_lookup config)))
       (\<lambda>i c. c\<lparr>cfg_vl_lookup := set_entry i
                (\<lambda>e. e\<lparr>vll_format := gen_vllupformat (entries (cfg_general_params c) 0)\<rparr>) (cfg_vl_lookup c)\<rparr>)
       config"

text \<open>
  The sum is an \<^verbatim>\<open>int\<close> to which 64-bit numbers are added: it is computed modulo \<open>2 ^ 32\<close> and compared as a
  signed number.
\<close>

definition sja1105_static_config_check_memory_size :: "sja1105_static_config \<Rightarrow> int" where
  "sja1105_static_config_check_memory_size config =
     (let mem0 = for_upto 8 (\<lambda>i mem. mem + ucast (l2fp_part_spc (entries (cfg_l2_forwarding_params config) 0) ! i))
                   (0 :: u32);
          mem = (if entry_count (cfg_vl_forwarding_params config) \<noteq> 0
                 then for_upto 8 (\<lambda>i mem. mem + ucast (vlfp_partspc (entries (cfg_vl_forwarding_params config) 0) ! i)) mem0
                 else mem0)
      in if int MAX_FRAME_MEMORY < sint mem then - 1 else 0)"

definition sja1105_static_config_check_valid :: "sja1105_static_config \<Rightarrow> int" where
  "sja1105_static_config_check_valid config =
     (if 0 < entry_count (cfg_schedule config) \<and> entry_count (cfg_schedule_entry_points config) = 0 then - 1
      else if 0 < entry_count (cfg_schedule config) \<and>
              entry_count (cfg_schedule_params config) \<noteq> int MAX_SCHEDULE_PARAMS_COUNT then - 1
      else if 0 < entry_count (cfg_schedule config) \<and>
              entry_count (cfg_schedule_entry_points_params config) \<noteq>
                int MAX_SCHEDULE_ENTRY_POINTS_PARAMS_COUNT then - 1
      else if 0 < entry_count (cfg_vl_lookup config) \<and> entry_count (cfg_vl_policing config) = 0 then - 1
      else if 0 < entry_count (cfg_vl_lookup config) \<and> entry_count (cfg_vl_forwarding config) = 0 then - 1
      else if 0 < entry_count (cfg_vl_lookup config) \<and>
              entry_count (cfg_vl_forwarding_params config) \<noteq> int MAX_VL_FORWARDING_PARAMS_COUNT then - 1
      else if entry_count (cfg_l2_policing config) = 0 then - 1
      else if entry_count (cfg_vlan_lookup config) = 0 then - 1
      else if entry_count (cfg_l2_forwarding config) \<noteq> int MAX_L2_FORWARDING_COUNT then - 1
      else if entry_count (cfg_mac_config config) \<noteq> int MAX_MAC_CONFIG_COUNT then - 1
      else if entry_count (cfg_l2_forwarding_params config) \<noteq> int MAX_L2_FORWARDING_PARAMS_COUNT then - 1
      else if entry_count (cfg_general_params config) \<noteq> int MAX_GENERAL_PARAMS_COUNT then - 1
      else if entry_count (cfg_xmii_params config) \<noteq> int MAX_XMII_PARAMS_COUNT then - 1
      else sja1105_static_config_check_memory_size config)"

text \<open>
  \<^verbatim>\<open>patch_fdb\<close> computes the index of every static address from its hash and from the entries already
  counted in the bin; the counters are 8 bits wide.
\<close>

definition patch_fdb_entry :: "nat \<Rightarrow> sja1105_static_config \<Rightarrow> sja1105_static_config" where
  "patch_fdb_entry i config =
     (let entry = entries (cfg_l2_lookup config) i;
          params = entries (cfg_l2_lookup_params config) 0;
          bin = fdb_hash (if l2lp_shared_learn params \<noteq> 0 then 0 else l2l_vlanid entry)
                  (l2l_macaddr entry) (l2lp_poly params);
          index_in_bin = cfg_entries_in_fdb_bin config (unat bin) mod of_nat SJA1105ET_FDB_BIN_SIZE
      in config\<lparr>cfg_l2_lookup := set_entry i
                  (\<lambda>e. e\<lparr>l2l_index := of_nat (SJA1105ET_FDB_BIN_SIZE * unat bin + unat index_in_bin)\<rparr>)
                  (cfg_l2_lookup config),
                cfg_entries_in_fdb_bin := (cfg_entries_in_fdb_bin config)
                  (unat bin := cfg_entries_in_fdb_bin config (unat bin) + 1)\<rparr>)"

definition sja1105_static_config_patch_fdb :: "sja1105_static_config \<Rightarrow> sja1105_static_config" where
  "sja1105_static_config_patch_fdb config =
     for_upto (nat (entry_count (cfg_l2_lookup config))) patch_fdb_entry config"

section \<open>Unpacking\<close>

lemma populate_size:
  "populate_config_table acc zero size_entry n buf m = Some (k, m') \<Longrightarrow> k = - 1 \<or> k = int size_entry"
  by (auto simp: populate_config_table_def Let_def split: if_splits)

lemma at_member_size:
  "at_member sel upd (populate_config_table acc zero size_entry n buf) config = Some (k, config') \<Longrightarrow>
   k = - 1 \<or> k = int size_entry"
  unfolding at_member_def by (auto dest: populate_size)

lemma add_entry_progress:
  "sja1105_static_config_add_entry hdr buf config = Some (k, config') \<Longrightarrow> k = - 1 \<or> 0 < k"
  unfolding sja1105_static_config_add_entry_def
  by (auto split: if_splits dest!: at_member_size)

text \<open>
  The inner loop, over the entries of one table: \<open>left\<close> is \<^verbatim>\<open>table_end - p\<close> and \<open>buf\<close> what starts at \<^verbatim>\<open>p\<close>.
  The result is 0, or -1 for the error exit.
\<close>

function add_entries ::
    "table_header \<Rightarrow> int \<Rightarrow> u8 list \<Rightarrow> sja1105_static_config \<Rightarrow> (int \<times> sja1105_static_config) option" where
  "add_entries hdr left buf config =
     (if left \<le> 0 then Some (0, config)
      else case sja1105_static_config_add_entry hdr buf config of
             None \<Rightarrow> None
           | Some (bytes, config') \<Rightarrow>
               if bytes < 0 then Some (- 1, config')
               else add_entries hdr (left - bytes) (drop (nat bytes) buf) config')"
  by pat_completeness auto
termination
  by (relation "measure (\<lambda>(hdr, left, buf, config). nat left)") (auto dest!: add_entry_progress)

declare add_entries.simps [simp del]

text \<open>
  The outer loop, over the tables: it stops at a header of length 0. The reads of the header, of the
  table for its checksum, and of the checksum must all lie in the buffer.
\<close>

function unpack_tables :: "u8 list \<Rightarrow> sja1105_static_config \<Rightarrow> (int \<times> sja1105_static_config) option" where
  "unpack_tables p config =
     (if length p < SIZE_TABLE_HEADER then None
      else
        let hdr = sja1105_table_header_unpack p table_header_zero
        in if hdr_len hdr = 0 then Some (0, config)
           else if hdr_crc hdr AND 0xFFFFFFFF \<noteq> ucast (ether_crc32_le p (SIZE_TABLE_HEADER - 4)) AND 0xFFFFFFFF
           then Some (- 1, config)
           else
             let p1 = drop SIZE_TABLE_HEADER p;
                 len = unat (hdr_len hdr) * 4
             in if length p1 < len then None
                else
                  let computed_crc = ucast (ether_crc32_le p1 len) :: u64
                  in case add_entries hdr (int len) p1 config of
                       None \<Rightarrow> None
                     | Some (rc, config') \<Rightarrow>
                         if rc < 0 then Some (- 1, config')
                         else
                           let table_end = drop len p1
                           in if length table_end < 4 then None
                              else if computed_crc \<noteq> fst (snd (gtable_unpack table_end 0 31 0 4))
                              then Some (- 1, config')
                              else unpack_tables (drop 4 table_end) config')"
  by pat_completeness auto
termination
  by (relation "measure (\<lambda>(p, config). length p)") auto

declare unpack_tables.simps [simp del]

definition count_fdb_bin :: "nat \<Rightarrow> sja1105_static_config \<Rightarrow> sja1105_static_config" where
  "count_fdb_bin i config =
     (let bin = ucast (l2l_index (entries (cfg_l2_lookup config) i) div of_nat SJA1105ET_FDB_BIN_SIZE) :: u8
      in config\<lparr>cfg_entries_in_fdb_bin := (cfg_entries_in_fdb_bin config)
           (unat bin := cfg_entries_in_fdb_bin config (unat bin) + 1)\<rparr>)"

definition sja1105_static_config_unpack :: "u8 list \<Rightarrow> (int \<times> sja1105_static_config) option" where
  "sja1105_static_config_unpack buf =
     (if length buf < SIZE_SJA1105_DEVICE_ID then None
      else
        let config = static_config_zero\<lparr>cfg_device_id := fst (snd (gtable_unpack buf 0 31 0 4))\<rparr>
        in if \<not> DEVICE_ID_VALID (cfg_device_id config) then Some (- 1, config)
           else case unpack_tables (drop SIZE_SJA1105_DEVICE_ID buf) config of
                  None \<Rightarrow> None
                | Some (rc, config') \<Rightarrow>
                    if rc < 0 then Some (- 1, config')
                    else let config'' = sja1105_static_config_patch_vllupformat config'
                         in Some (0, for_upto (nat (entry_count (cfg_l2_lookup config''))) count_fdb_bin config''))"

section \<open>Packing\<close>

text \<open>The state of the packing function: the buffer, the offset of \<^verbatim>\<open>p\<close> in it, and the header variable.\<close>

record pack_state =
  pk_buf :: "u8 list"
  pk_p :: nat
  pk_header :: table_header

text \<open>A write of \<open>n\<close> bytes at \<^verbatim>\<open>p\<close>, by a function on the memory from there.\<close>

definition write_at :: "nat \<Rightarrow> (u8 list \<Rightarrow> u8 list \<times> 'r) \<Rightarrow> pack_state \<Rightarrow> ('r \<times> pack_state) option" where
  "write_at n f s =
     (if length (pk_buf s) < pk_p s + n then None
      else case f (drop (pk_p s) (pk_buf s)) of
             (tail, r) \<Rightarrow> Some (r, s\<lparr>pk_buf := take (pk_p s) (pk_buf s) @ tail\<rparr>))"

definition advance :: "nat \<Rightarrow> pack_state \<Rightarrow> pack_state" where
  "advance n s = s\<lparr>pk_p := pk_p s + n\<rparr>"

definition gtable_pack_word :: "u64 \<Rightarrow> u8 list \<Rightarrow> u8 list \<times> u64" where
  "gtable_pack_word v buf = (case gtable_pack buf v 31 0 4 of (rc, v', buf') \<Rightarrow> (buf', v'))"

definition sja1105_table_write_crc :: "nat \<Rightarrow> pack_state \<Rightarrow> pack_state option" where
  "sja1105_table_write_crc table_start s =
     (let len_bytes = pk_p s - table_start;
          computed_crc = ucast (ether_crc32_le (drop table_start (pk_buf s)) len_bytes)
      in map_option snd (write_at 4 (gtable_pack_word computed_crc) s))"

text \<open>The loop of the macro \<^verbatim>\<open>PACK_TABLE_IN_BUF_FN\<close>, and the macro.\<close>

fun pack_entries ::
    "(bool \<Rightarrow> u8 list \<Rightarrow> 'e \<Rightarrow> u8 list \<times> 'e) \<Rightarrow> nat \<Rightarrow> nat \<Rightarrow> nat \<Rightarrow>
     'e static_config_member \<times> pack_state \<Rightarrow> ('e static_config_member \<times> pack_state) option" where
  "pack_entries acc entry_size max_entry_count 0 ms = Some ms"
| "pack_entries acc entry_size max_entry_count (Suc i) ms =
     (case pack_entries acc entry_size max_entry_count i ms of
        None \<Rightarrow> None
      | Some (m, s) \<Rightarrow>
          if max_entry_count \<le> i then None
          else case write_at entry_size (\<lambda>buf. entry_pack acc buf (entries m i)) s of
                 None \<Rightarrow> None
               | Some (e, s') \<Rightarrow> Some (set_entry i (\<lambda>_. e) m, advance entry_size s'))"

definition pack_table_in_buf ::
    "(bool \<Rightarrow> u8 list \<Rightarrow> 'e \<Rightarrow> u8 list \<times> 'e) \<Rightarrow> nat \<Rightarrow> nat \<Rightarrow> u64 \<Rightarrow>
     'e static_config_member \<Rightarrow> pack_state \<Rightarrow> ('e static_config_member \<times> pack_state) option" where
  "pack_table_in_buf acc entry_size max_entry_count blk_id m s =
     (if entry_count m = 0 then Some (m, s)
      else do {
        let header = (pk_header s)\<lparr>hdr_block_id := blk_id,
          hdr_len := of_int (entry_count m * int entry_size div 4)\<rparr>;
        (header', s1) \<leftarrow> write_at SIZE_TABLE_HEADER (\<lambda>buf. sja1105_table_header_pack_with_crc buf header) s;
        let s2 = advance SIZE_TABLE_HEADER (s1\<lparr>pk_header := header'\<rparr>);
        (m', s3) \<leftarrow> pack_entries acc entry_size max_entry_count (nat (entry_count m)) (m, s2);
        s4 \<leftarrow> sja1105_table_write_crc (pk_p s2) s3;
        Some (m', advance 4 s4)
      })"

definition pack_member ::
    "(sja1105_static_config \<Rightarrow> 'm) \<Rightarrow> (('m \<Rightarrow> 'm) \<Rightarrow> sja1105_static_config \<Rightarrow> sja1105_static_config) \<Rightarrow>
     ('m \<Rightarrow> pack_state \<Rightarrow> ('m \<times> pack_state) option) \<Rightarrow>
     sja1105_static_config \<times> pack_state \<Rightarrow> (sja1105_static_config \<times> pack_state) option" where
  "pack_member sel upd f cs =
     map_option (\<lambda>(m, s). (upd (\<lambda>_. m) (fst cs), s)) (f (sel (fst cs)) (snd cs))"

text \<open>The device of the configuration does not change while it is packed.\<close>

definition pack_tables ::
    "bool \<Rightarrow> sja1105_static_config \<times> pack_state \<Rightarrow> (sja1105_static_config \<times> pack_state) option" where
  "pack_tables et = (\<lambda>cs. do {
     cs \<leftarrow> pack_member cfg_schedule cfg_schedule_update
       (pack_table_in_buf sja1105_schedule_entry_access
         SIZE_SCHEDULE_ENTRY MAX_SCHEDULE_COUNT BLKID_SCHEDULE_TABLE) cs;
     cs \<leftarrow> pack_member cfg_schedule_entry_points cfg_schedule_entry_points_update
       (pack_table_in_buf sja1105_schedule_entry_points_entry_access
         SIZE_SCHEDULE_ENTRY_POINTS_ENTRY MAX_SCHEDULE_ENTRY_POINTS_COUNT BLKID_SCHEDULE_ENTRY_POINTS_TABLE) cs;
     cs \<leftarrow> pack_member cfg_vl_lookup cfg_vl_lookup_update
       (pack_table_in_buf sja1105_vl_lookup_entry_access
         SIZE_VL_LOOKUP_ENTRY MAX_VL_LOOKUP_COUNT BLKID_VL_LOOKUP_TABLE) cs;
     cs \<leftarrow> pack_member cfg_vl_policing cfg_vl_policing_update
       (pack_table_in_buf sja1105_vl_policing_entry_access
         SIZE_VL_POLICING_ENTRY MAX_VL_POLICING_COUNT BLKID_VL_POLICING_TABLE) cs;
     cs \<leftarrow> pack_member cfg_vl_forwarding cfg_vl_forwarding_update
       (pack_table_in_buf sja1105_vl_forwarding_entry_access
         SIZE_VL_FORWARDING_ENTRY MAX_VL_FORWARDING_COUNT BLKID_VL_FORWARDING_TABLE) cs;
     cs \<leftarrow> pack_member cfg_l2_lookup cfg_l2_lookup_update
       (if et then (pack_table_in_buf sja1105et_l2_lookup_entry_access
         SIZE_L2_LOOKUP_ENTRY_ET MAX_L2_LOOKUP_COUNT BLKID_L2_LOOKUP_TABLE)
        else (pack_table_in_buf sja1105pqrs_l2_lookup_entry_access
         SIZE_L2_LOOKUP_ENTRY_PQRS MAX_L2_LOOKUP_COUNT BLKID_L2_LOOKUP_TABLE)) cs;
     cs \<leftarrow> pack_member cfg_l2_policing cfg_l2_policing_update
       (pack_table_in_buf sja1105_l2_policing_entry_access
         SIZE_L2_POLICING_ENTRY MAX_L2_POLICING_COUNT BLKID_L2_POLICING_TABLE) cs;
     cs \<leftarrow> pack_member cfg_vlan_lookup cfg_vlan_lookup_update
       (pack_table_in_buf sja1105_vlan_lookup_entry_access
         SIZE_VLAN_LOOKUP_ENTRY MAX_VLAN_LOOKUP_COUNT BLKID_VLAN_LOOKUP_TABLE) cs;
     cs \<leftarrow> pack_member cfg_l2_forwarding cfg_l2_forwarding_update
       (pack_table_in_buf sja1105_l2_forwarding_entry_access
         SIZE_L2_FORWARDING_ENTRY MAX_L2_FORWARDING_COUNT BLKID_L2_FORWARDING_TABLE) cs;
     cs \<leftarrow> pack_member cfg_mac_config cfg_mac_config_update
       (if et then (pack_table_in_buf sja1105et_mac_config_entry_access
         SIZE_MAC_CONFIG_ENTRY_ET MAX_MAC_CONFIG_COUNT BLKID_MAC_CONFIG_TABLE)
        else (pack_table_in_buf sja1105pqrs_mac_config_entry_access
         SIZE_MAC_CONFIG_ENTRY_PQRS MAX_MAC_CONFIG_COUNT BLKID_MAC_CONFIG_TABLE)) cs;
     cs \<leftarrow> pack_member cfg_schedule_params cfg_schedule_params_update
       (pack_table_in_buf sja1105_schedule_params_entry_access
         SIZE_SCHEDULE_PARAMS_ENTRY MAX_SCHEDULE_PARAMS_COUNT BLKID_SCHEDULE_PARAMS_TABLE) cs;
     cs \<leftarrow> pack_member cfg_schedule_entry_points_params cfg_schedule_entry_points_params_update
       (pack_table_in_buf sja1105_schedule_entry_points_params_entry_access
         SIZE_SCHEDULE_ENTRY_POINTS_PARAMS_ENTRY MAX_SCHEDULE_ENTRY_POINTS_PARAMS_COUNT BLKID_SCHEDULE_ENTRY_POINTS_PARAMS_TABLE) cs;
     cs \<leftarrow> pack_member cfg_vl_forwarding_params cfg_vl_forwarding_params_update
       (pack_table_in_buf sja1105_vl_forwarding_params_entry_access
         SIZE_VL_FORWARDING_PARAMS_ENTRY MAX_VL_FORWARDING_PARAMS_COUNT BLKID_VL_FORWARDING_PARAMS_TABLE) cs;
     cs \<leftarrow> pack_member cfg_l2_lookup_params cfg_l2_lookup_params_update
       (if et then (pack_table_in_buf sja1105et_l2_lookup_params_entry_access
         SIZE_L2_LOOKUP_PARAMS_ENTRY_ET MAX_L2_LOOKUP_PARAMS_COUNT BLKID_L2_LOOKUP_PARAMS_TABLE)
        else (pack_table_in_buf sja1105pqrs_l2_lookup_params_entry_access
         SIZE_L2_LOOKUP_PARAMS_ENTRY_PQRS MAX_L2_LOOKUP_PARAMS_COUNT BLKID_L2_LOOKUP_PARAMS_TABLE)) cs;
     cs \<leftarrow> pack_member cfg_l2_forwarding_params cfg_l2_forwarding_params_update
       (pack_table_in_buf sja1105_l2_forwarding_params_entry_access
         SIZE_L2_FORWARDING_PARAMS_ENTRY MAX_L2_FORWARDING_PARAMS_COUNT BLKID_L2_FORWARDING_PARAMS_TABLE) cs;
     cs \<leftarrow> pack_member cfg_avb_params cfg_avb_params_update
       (if et then (pack_table_in_buf sja1105et_avb_params_entry_access
         SIZE_AVB_PARAMS_ENTRY_ET MAX_AVB_PARAMS_COUNT BLKID_AVB_PARAMS_TABLE)
        else (pack_table_in_buf sja1105pqrs_avb_params_entry_access
         SIZE_AVB_PARAMS_ENTRY_PQRS MAX_AVB_PARAMS_COUNT BLKID_AVB_PARAMS_TABLE)) cs;
     cs \<leftarrow> pack_member cfg_general_params cfg_general_params_update
       (if et then (pack_table_in_buf sja1105et_general_params_entry_access
         SIZE_GENERAL_PARAMS_ENTRY_ET MAX_GENERAL_PARAMS_COUNT BLKID_GENERAL_PARAMS_TABLE)
        else (pack_table_in_buf sja1105pqrs_general_params_entry_access
         SIZE_GENERAL_PARAMS_ENTRY_PQRS MAX_GENERAL_PARAMS_COUNT BLKID_GENERAL_PARAMS_TABLE)) cs;
     cs \<leftarrow> pack_member cfg_xmii_params cfg_xmii_params_update
       (pack_table_in_buf sja1105_xmii_params_entry_access
         SIZE_XMII_MODE_PARAMS_ENTRY MAX_XMII_PARAMS_COUNT BLKID_XMII_MODE_PARAMS_TABLE) cs;
     pack_member cfg_sgmii cfg_sgmii_update
       (pack_table_in_buf sja1105_sgmii_entry_access
         SIZE_SGMII_ENTRY MAX_SGMII_COUNT BLKID_SGMII_TABLE) cs
   })"

definition sja1105_static_config_pack ::
    "u8 list \<Rightarrow> sja1105_static_config \<Rightarrow> (int \<times> u8 list \<times> sja1105_static_config) option" where
  "sja1105_static_config_pack buf config =
     (if \<not> DEVICE_ID_VALID (cfg_device_id config) then Some (- EINVAL, buf, config)
      else do {
        (device_id, s1) \<leftarrow> write_at 4 (gtable_pack_word (cfg_device_id config))
          \<lparr>pk_buf = buf, pk_p = 0, pk_header = table_header_zero\<rparr>;
        (config', s2) \<leftarrow> pack_tables (IS_ET device_id)
          (sja1105_static_config_patch_fdb (config\<lparr>cfg_device_id := device_id\<rparr>), advance SIZE_SJA1105_DEVICE_ID s1);
        let header = (pk_header s2)\<lparr>hdr_block_id := 0, hdr_len := 0, hdr_crc := 0xDEADBEEF\<rparr>;
        (header', s3) \<leftarrow> write_at SIZE_TABLE_HEADER (\<lambda>buf. sja1105_table_header_pack buf header) s2;
        Some (0, pk_buf s3, config')
      })"

section \<open>Length\<close>

text \<open>The sums are \<^verbatim>\<open>unsigned int\<close>, so modulo \<open>2 ^ 32\<close>.\<close>

definition sja1105_static_config_get_length :: "sja1105_static_config \<Rightarrow> u32" where
  "sja1105_static_config_get_length config =
     (let one = (\<lambda>n :: int. if n \<noteq> 0 then 1 else 0 :: u32);
          pqrs = IS_PQRS (cfg_device_id config);
          header_count =
            one (entry_count (cfg_schedule config)) +
            one (entry_count (cfg_schedule_entry_points config)) +
            one (entry_count (cfg_vl_lookup config)) +
            one (entry_count (cfg_vl_policing config)) +
            one (entry_count (cfg_vl_forwarding config)) +
            one (entry_count (cfg_l2_lookup config)) +
            one (entry_count (cfg_l2_policing config)) +
            one (entry_count (cfg_vlan_lookup config)) +
            one (entry_count (cfg_l2_forwarding config)) +
            one (entry_count (cfg_mac_config config)) +
            one (entry_count (cfg_schedule_params config)) +
            one (entry_count (cfg_schedule_entry_points_params config)) +
            one (entry_count (cfg_vl_forwarding_params config)) +
            one (entry_count (cfg_l2_lookup_params config)) +
            one (entry_count (cfg_l2_forwarding_params config)) +
            one (entry_count (cfg_avb_params config)) +
            one (entry_count (cfg_general_params config)) +
            one (entry_count (cfg_xmii_params config)) +
            one (entry_count (cfg_sgmii config)) +
            1;
          sum = of_nat SIZE_SJA1105_DEVICE_ID + header_count * (of_nat SIZE_TABLE_HEADER + 4) +
            of_int (entry_count (cfg_schedule config)) * of_nat SIZE_SCHEDULE_ENTRY +
            of_int (entry_count (cfg_schedule_entry_points config)) * of_nat SIZE_SCHEDULE_ENTRY_POINTS_ENTRY +
            of_int (entry_count (cfg_vl_lookup config)) * of_nat SIZE_VL_LOOKUP_ENTRY +
            of_int (entry_count (cfg_vl_policing config)) * of_nat SIZE_VL_POLICING_ENTRY +
            of_int (entry_count (cfg_vl_forwarding config)) * of_nat SIZE_VL_FORWARDING_ENTRY +
            of_int (entry_count (cfg_l2_lookup config)) *
              (if pqrs then of_nat SIZE_L2_LOOKUP_ENTRY_PQRS else of_nat SIZE_L2_LOOKUP_ENTRY_ET) +
            of_int (entry_count (cfg_l2_policing config)) * of_nat SIZE_L2_POLICING_ENTRY +
            of_int (entry_count (cfg_vlan_lookup config)) * of_nat SIZE_VLAN_LOOKUP_ENTRY +
            of_int (entry_count (cfg_l2_forwarding config)) * of_nat SIZE_L2_FORWARDING_ENTRY +
            of_int (entry_count (cfg_mac_config config)) *
              (if pqrs then of_nat SIZE_MAC_CONFIG_ENTRY_PQRS else of_nat SIZE_MAC_CONFIG_ENTRY_ET) +
            of_int (entry_count (cfg_schedule_params config)) * of_nat SIZE_SCHEDULE_PARAMS_ENTRY +
            of_int (entry_count (cfg_schedule_entry_points_params config)) * of_nat SIZE_SCHEDULE_ENTRY_POINTS_PARAMS_ENTRY +
            of_int (entry_count (cfg_vl_forwarding_params config)) * of_nat SIZE_VL_FORWARDING_PARAMS_ENTRY +
            of_int (entry_count (cfg_l2_lookup_params config)) *
              (if pqrs then of_nat SIZE_L2_LOOKUP_PARAMS_ENTRY_PQRS else of_nat SIZE_L2_LOOKUP_PARAMS_ENTRY_ET) +
            of_int (entry_count (cfg_l2_forwarding_params config)) * of_nat SIZE_L2_FORWARDING_PARAMS_ENTRY +
            of_int (entry_count (cfg_avb_params config)) *
              (if pqrs then of_nat SIZE_AVB_PARAMS_ENTRY_PQRS else of_nat SIZE_AVB_PARAMS_ENTRY_ET) +
            of_int (entry_count (cfg_general_params config)) *
              (if pqrs then of_nat SIZE_GENERAL_PARAMS_ENTRY_PQRS else of_nat SIZE_GENERAL_PARAMS_ENTRY_ET) +
            of_int (entry_count (cfg_xmii_params config)) * of_nat SIZE_XMII_MODE_PARAMS_ENTRY +
            of_int (entry_count (cfg_sgmii config)) * of_nat SIZE_SGMII_ENTRY
      in sum - 4)"

section \<open>Packing one table\<close>

text \<open>\<open>emits s out s'\<close>: from \<open>s\<close> to \<open>s'\<close>, \<open>out\<close> was written at \<^verbatim>\<open>p\<close>, \<^verbatim>\<open>p\<close> moved behind it, and nothing else changed.\<close>

definition emits :: "pack_state \<Rightarrow> u8 list \<Rightarrow> pack_state \<Rightarrow> bool" where
  "emits s out s' \<longleftrightarrow>
     pk_p s + length out \<le> length (pk_buf s) \<and> pk_p s' = pk_p s + length out \<and>
     pk_buf s' = take (pk_p s) (pk_buf s) @ out @ drop (pk_p s + length out) (pk_buf s)"

lemma emits_Nil: "pk_p s \<le> length (pk_buf s) \<Longrightarrow> emits s [] s"
  by (simp add: emits_def)

lemma emits_trans: "emits s a s1 \<Longrightarrow> emits s1 b s2 \<Longrightarrow> emits s (a @ b) s2"
  by (auto simp: emits_def ac_simps)

lemma emits_length: "emits s a s1 \<Longrightarrow> length (pk_buf s1) = length (pk_buf s)"
  by (auto simp: emits_def)

lemma write_at_emits:
  assumes "pk_p s + n \<le> length (pk_buf s)" "length out = n"
    "f (drop (pk_p s) (pk_buf s)) = (out @ drop n (drop (pk_p s) (pk_buf s)), r)"
  shows "\<exists>s'. write_at n f s = Some (r, s') \<and> emits s out (advance n s') \<and> pk_p s' = pk_p s"
  using assms by (auto simp: write_at_def emits_def advance_def add.commute)

definition word_bytes :: "u64 \<Rightarrow> u8 list" where
  "word_bytes v = fst (gtable_pack_word v (replicate 4 0))"

lemma gtable_pack_word_spec:
  assumes "4 \<le> length buf"
  shows "\<exists>b. gtable_pack_word v buf = (b, take_bit 32 v) \<and> length b = length buf \<and> drop 4 b = drop 4 buf \<and>
     (\<forall>i < 32. lbit 4 b i = bit v i)"
  using gtable_pack_lbit [where L = 4 and E = 0 and S = 31 and t = buf and v = v] assms
  by (auto simp: gtable_pack_word_def split: prod.splits)

lemma word_bytes_spec: "length (word_bytes v) = 4" "i < 32 \<Longrightarrow> lbit 4 (word_bytes v) i = bit v i"
  using gtable_pack_word_spec [of "replicate 4 0" v] by (auto simp: word_bytes_def)

lemma gtable_pack_word_eq:
  assumes "4 \<le> length buf"
  shows "gtable_pack_word v buf = (word_bytes v @ drop 4 buf, take_bit 32 v)"
proof -
  obtain b where b: "gtable_pack_word v buf = (b, take_bit 32 v)" "length b = length buf"
    "drop 4 b = drop 4 buf" "\<forall>i < 32. lbit 4 b i = bit v i"
    using gtable_pack_word_spec [OF assms] by blast
  have "take 4 b = word_bytes v"
    by (rule lbit_determines [where sz = 4]) (use b assms in \<open>auto simp: word_bytes_spec lbit_take\<close>)
  then have "b = word_bytes v @ drop 4 buf" using b(3) append_take_drop_id [of 4 b] by simp
  then show ?thesis using b(1) by simp
qed

lemma read_word_bytes: "fst (snd (gtable_unpack (word_bytes v @ r) x 31 0 4)) = take_bit 32 v"
proof (rule bit_eqI)
  fix i
  have "lbit 4 (word_bytes v @ r) i = bit v i" if "i < 32"
    using that lbit_append [of 4 i "word_bytes v" r] by (simp add: word_bytes_spec)
  then show "bit (fst (snd (gtable_unpack (word_bytes v @ r) x 31 0 4))) i = bit (take_bit 32 v) i"
    using gtable_unpack_lbit(3) [of 0 31 "word_bytes v @ r" x 4 i]
    by (auto simp: bit_take_bit_iff)
qed

text \<open>The bytes of a table in the packed configuration.\<close>

definition section_header :: "u64 \<Rightarrow> nat \<Rightarrow> 'e static_config_member \<Rightarrow> table_header" where
  "section_header blk sz m =
     header_with_crc \<lparr>hdr_block_id = blk, hdr_len = of_int (entry_count m * int sz div 4), hdr_crc = 0\<rparr>"

definition section_body ::
    "(bool \<Rightarrow> u8 list \<Rightarrow> 'e \<Rightarrow> u8 list \<times> 'e) \<Rightarrow> nat \<Rightarrow> nat \<Rightarrow> nat \<Rightarrow> 'e static_config_member \<Rightarrow> u8 list" where
  "section_body acc sz i n m = concat (map (\<lambda>i. entry_bytes acc sz (entries m i)) [i..<n])"

definition section_bytes ::
    "(bool \<Rightarrow> u8 list \<Rightarrow> 'e \<Rightarrow> u8 list \<times> 'e) \<Rightarrow> nat \<Rightarrow> u64 \<Rightarrow> 'e static_config_member \<Rightarrow> u8 list" where
  "section_bytes acc sz blk m =
     (if entry_count m = 0 then []
      else let body = section_body acc sz 0 (nat (entry_count m)) m
           in table_header.bytes (section_header blk sz m) @ body @
              word_bytes (ucast (ether_crc32_le body (length body))))"

lemma header_with_crc_crc: "header_with_crc (h\<lparr>hdr_crc := c\<rparr>) = header_with_crc h"
  by (simp add: header_with_crc_def header_crc_update truncate_header)

lemma set_entry_same: "set_entry i (\<lambda>_. entries m i) m = m"
  by (simp add: set_entry_def)

text \<open>The entries of a table are well-formed, and the unused part of its array is clear.\<close>

definition member_ok :: "('e \<Rightarrow> bool) \<Rightarrow> 'e \<Rightarrow> nat \<Rightarrow> 'e static_config_member \<Rightarrow> bool" where
  "member_ok ok zero n m \<longleftrightarrow> 0 \<le> entry_count m \<and> entry_count m \<le> int n \<and>
     (\<forall>i. if i < nat (entry_count m) then ok (entries m i) else entries m i = zero)"

context entry_codec begin

lemma length_body: "length (section_body acc sz i n m) = (n - i) * sz"
proof -
  have "length (concat (map (\<lambda>i. entry_bytes acc sz (entries m i)) xs)) = length xs * sz" for xs
    by (induction xs) (simp_all add: length_entry_bytes)
  then show ?thesis by (simp add: section_body_def)
qed

lemma pack_entries_emits:
  assumes "\<And>i. i < n \<Longrightarrow> ok (entries m i)" "n \<le> mx" "pk_p s + n * sz \<le> length (pk_buf s)"
  shows "\<exists>s'. pack_entries acc sz mx n (m, s) = Some (m, s') \<and> emits s (section_body acc sz 0 n m) s'"
  using assms
proof (induction n)
  case 0
  then show ?case by (simp add: section_body_def emits_Nil)
next
  case (Suc n)
  then obtain s1 where s1: "pack_entries acc sz mx n (m, s) = Some (m, s1)"
    "emits s (section_body acc sz 0 n m) s1" by auto
  have room: "pk_p s1 + sz \<le> length (pk_buf s1)"
    using s1(2) Suc.prems(3) emits_length [OF s1(2)] by (simp add: emits_def length_body)
  have "entry_pack acc (drop (pk_p s1) (pk_buf s1)) (entries m n) =
      (entry_bytes acc sz (entries m n) @ drop sz (drop (pk_p s1) (pk_buf s1)), entries m n)"
    using pack_bytes [of "drop (pk_p s1) (pk_buf s1)" "entries m n"]
      pack_keeps [of "entries m n" "drop (pk_p s1) (pk_buf s1)"] room Suc.prems(1) [of n]
    by (simp add: prod_eq_iff)
  from write_at_emits [where f = "\<lambda>buf. entry_pack acc buf (entries m n)", OF room length_entry_bytes this] obtain s2 where
    "write_at sz (\<lambda>buf. entry_pack acc buf (entries m n)) s1 = Some (entries m n, s2)"
    "emits s1 (entry_bytes acc sz (entries m n)) (advance sz s2)" by blast
  moreover have "section_body acc sz 0 (Suc n) m = section_body acc sz 0 n m @ entry_bytes acc sz (entries m n)"
    by (simp add: section_body_def)
  ultimately show ?case
    using s1 Suc.prems(2) emits_trans [OF s1(2)] by (auto simp: set_entry_same)
qed

lemma length_section:
  "length (section_bytes acc sz blk m) = (if entry_count m = 0 then 0 else 16 + nat (entry_count m) * sz)"
  by (simp add: section_bytes_def Let_def length_body table_header.length_bytes word_bytes_spec)

lemma pack_table_emits:
  assumes "member_ok ok zero mx m" "pk_p s + length (section_bytes acc sz blk m) \<le> length (pk_buf s)"
  shows "\<exists>s'. pack_table_in_buf acc sz mx blk m s = Some (m, s') \<and> emits s (section_bytes acc sz blk m) s'"
proof (cases "entry_count m = 0")
  case True
  then show ?thesis using assms(2) by (simp add: pack_table_in_buf_def section_bytes_def emits_Nil)
next
  case False
  define n where "n = nat (entry_count m)"
  define body where "body = section_body acc sz 0 n m"
  define hdr where "hdr = (pk_header s)\<lparr>hdr_block_id := blk, hdr_len := of_int (entry_count m * int sz div 4)\<rparr>"
  have n: "n \<le> mx" "\<And>i. i < n \<Longrightarrow> ok (entries m i)"
    using assms(1) by (auto simp: member_ok_def n_def split: if_splits)
  have room: "pk_p s + (16 + n * sz) \<le> length (pk_buf s)"
    using assms(2) False by (simp add: length_section n_def)
  have h: "header_with_crc hdr = section_header blk sz m"
    using header_with_crc_crc [where h = hdr and c = 0]
    by (cases "pk_header s") (simp add: section_header_def hdr_def)
  have "sja1105_table_header_pack_with_crc (drop (pk_p s) (pk_buf s)) hdr =
      (table_header.bytes (section_header blk sz m) @ drop 12 (drop (pk_p s) (pk_buf s)), section_header blk sz m)"
    using pack_with_crc [of "drop (pk_p s) (pk_buf s)" hdr] room h by simp
  then obtain s1 where s1: "write_at 12 (\<lambda>buf. sja1105_table_header_pack_with_crc buf hdr) s =
      Some (section_header blk sz m, s1)"
    "emits s (table_header.bytes (section_header blk sz m)) (advance 12 s1)"
    using write_at_emits [of s 12 "table_header.bytes (section_header blk sz m)"
        "\<lambda>buf. sja1105_table_header_pack_with_crc buf hdr"] room
    by (auto simp: table_header.length_bytes)
  define s2 where "s2 = advance 12 (s1\<lparr>pk_header := section_header blk sz m\<rparr>)"
  have e2: "emits s (table_header.bytes (section_header blk sz m)) s2"
    using s1(2) by (simp add: s2_def emits_def advance_def)
  have room2: "pk_p s2 + (4 + n * sz) \<le> length (pk_buf s2)"
    using e2 room emits_length [OF e2] by (simp add: emits_def table_header.length_bytes)
  obtain s3 where s3: "pack_entries acc sz mx n (m, s2) = Some (m, s3)" "emits s2 body s3"
    using pack_entries_emits [of n m mx s2] n room2 by (auto simp: body_def)
  have lb: "length body = n * sz" by (simp add: body_def length_body)
  have p3: "pk_p s3 = pk_p s2 + n * sz" "drop (pk_p s2) (pk_buf s3) = body @ drop (pk_p s3) (pk_buf s2)"
    using s3(2) lb room2 by (auto simp: emits_def)
  have "4 dvd n * sz" using sz_words(1) by simp
  then have crc: "ether_crc32_le (drop (pk_p s2) (pk_buf s3)) (n * sz) = ether_crc32_le body (length body)"
    using ether_crc32_le_take [of "n * sz" "body @ drop (pk_p s3) (pk_buf s2)"] lb by (simp add: p3(2))
  let ?crc = "ucast (ether_crc32_le body (length body)) :: u64"
  have "pk_p s3 + 4 \<le> length (pk_buf s3)" using room2 p3(1) emits_length [OF s3(2)] by simp
  then obtain r s4 where s4: "write_at 4 (gtable_pack_word ?crc) s3 = Some (r, s4)"
    "emits s3 (word_bytes ?crc) (advance 4 s4)"
    using write_at_emits [of s3 4 "word_bytes ?crc" "gtable_pack_word ?crc"] gtable_pack_word_eq
    by (force simp: word_bytes_spec)
  have "pack_table_in_buf acc sz mx blk m s = Some (m, advance 4 s4)"
    using False s1(1) s3(1) s4(1) p3(1) crc
    by (simp add: pack_table_in_buf_def hdr_def [symmetric] s2_def [symmetric] n_def [symmetric]
        sja1105_table_write_crc_def Let_def)
  moreover have "section_bytes acc sz blk m =
      table_header.bytes (section_header blk sz m) @ body @ word_bytes ?crc"
    using False by (simp add: section_bytes_def Let_def body_def n_def)
  ultimately show ?thesis
    using emits_trans [OF e2 emits_trans [OF s3(2) s4(2)]] by auto
qed

end

section \<open>Unpacking one table\<close>

text \<open>A member as it comes back: its entries in normal form, and nothing behind them.\<close>

definition first_entries :: "('e \<Rightarrow> 'e) \<Rightarrow> 'e \<Rightarrow> nat \<Rightarrow> 'e static_config_member \<Rightarrow> 'e static_config_member" where
  "first_entries nf zero j m =
     \<lparr>entries = (\<lambda>i. if i < j then nf (entries m i) else zero), entry_count = int j\<rparr>"

lemma first_entries_0: "first_entries nf zero 0 m = no_entries zero"
  by (simp add: first_entries_def no_entries_def)

lemma unat_take_bit_of_nat: "x < 2 ^ 24 \<Longrightarrow> unat (take_bit 24 (of_nat x) :: u64) = x"
  by (simp add: unsigned_take_bit_eq unsigned_of_nat take_bit_nat_eq_self)

lemma header_unpack_bytes:
  "sja1105_table_header_unpack (table_header.bytes (header_with_crc h) @ r) x = header_with_crc h"
proof -
  have e: "header_with_crc h = \<lparr>hdr_block_id = take_bit 8 (hdr_block_id h),
      hdr_len = take_bit 24 (hdr_len h), hdr_crc = ucast (header_crc h)\<rparr>"
    by (simp add: header_with_crc_def truncate_header)
  have "fits table_header_layout (header_with_crc h)"
    unfolding e by (simp add: fits_def table_header_layout_def fld_def width_def)
  then show ?thesis
    using table_header.roundtrip(2) [of "header_with_crc h" "replicate 12 0" r x]
    by (simp add: table_header_shape_def sja1105_table_header_unpack_def entry_unpack_def
        sja1105_table_header_access_def)
qed

lemma and_low_32: "ucast (x :: u32) AND 0xFFFFFFFF = (ucast x :: u64)"
proof -
  have m: "(0xFFFFFFFF :: u64) = mask 32" by (simp add: mask_eq_exp_minus_1)
  show ?thesis unfolding m by (simp only: take_bit_eq_mask [symmetric] take_bit_32_ucast)
qed

lemma header_crc_with_crc: "header_crc (header_with_crc h) = header_crc h"
proof -
  have "header_crc (header_with_crc h) = header_crc (truncate_fields table_header_layout h)"
    by (simp add: header_with_crc_def header_crc_update)
  then show ?thesis by (simp add: header_crc_def header_bytes_truncate)
qed

lemma header_crc_checks:
  "ether_crc32_le (table_header.bytes (header_with_crc h) @ r) (SIZE_TABLE_HEADER - 4) = header_crc h"
  using ether_crc32_le_take [of 8 "table_header.bytes (header_with_crc h) @ r"]
    ether_crc32_le_take [of 8 "table_header.bytes (header_with_crc h)"] header_crc_with_crc [of h]
  by (simp add: header_crc_def table_header.length_bytes)

text \<open>
  The contract of a section of the configuration: its entries are a codec, its member is a component of
  the configuration, and \<^verbatim>\<open>add_entry\<close> puts the entries of its block into that member, for the devices
  \<open>dev\<close> that use the codec.
\<close>

locale config_section = entry_codec acc sz ok nf
  for acc :: "bool \<Rightarrow> u8 list \<Rightarrow> 'e \<Rightarrow> u8 list \<times> 'e" and sz :: nat and ok :: "'e \<Rightarrow> bool" and nf :: "'e \<Rightarrow> 'e" +
  fixes zero :: 'e and mx :: nat and blk :: u64
    and sel :: "sja1105_static_config \<Rightarrow> 'e static_config_member"
    and upd :: "('e static_config_member \<Rightarrow> 'e static_config_member) \<Rightarrow>
      sja1105_static_config \<Rightarrow> sja1105_static_config"
    and dev :: "u64 \<Rightarrow> bool"
  assumes sel_upd: "sel (upd f c) = f (sel c)"
    and upd_upd: "upd f (upd g c) = upd (f \<circ> g) c"
    and upd_sel: "upd (\<lambda>_. sel c) c = c"
    and upd_device: "cfg_device_id (upd f c) = cfg_device_id c"
    and small: "mx * sz div 4 < 2 ^ 24" "blk < 256"
    and dispatch: "hdr_block_id hdr = blk \<Longrightarrow> dev (cfg_device_id c) \<Longrightarrow>
      sja1105_static_config_add_entry hdr buf c =
      at_member sel upd (populate_config_table acc zero sz mx buf) c"
begin

lemma add_one:
  assumes "hdr_block_id hdr = blk" "dev (cfg_device_id c)" "j < mx" "ok (entries m j)"
  shows "sja1105_static_config_add_entry hdr (entry_bytes acc sz (entries m j) @ r)
      (upd (\<lambda>_. first_entries nf zero j m) c) =
    Some (int sz, upd (\<lambda>_. first_entries nf zero (Suc j) m) c)"
proof -
  have "(\<lambda>i. if i < j then nf (entries m i) else zero)(j := nf (entries m j)) =
      (\<lambda>i. if i < Suc j then nf (entries m i) else zero)"
    by (auto simp: fun_eq_iff less_Suc_eq)
  then have "populate_config_table acc zero sz mx (entry_bytes acc sz (entries m j) @ r)
      (first_entries nf zero j m) = Some (int sz, first_entries nf zero (Suc j) m)"
    using assms(3) unpack_packed [OF assms(4)]
    by (simp add: populate_config_table_def first_entries_def length_entry_bytes Let_def)
  then show ?thesis
    using assms(1,2) by (simp add: dispatch upd_device at_member_def sel_upd upd_upd comp_def)
qed

lemma add_entries_section:
  assumes "hdr_block_id hdr = blk" "dev (cfg_device_id c)" "n \<le> mx" "\<And>i. i < n \<Longrightarrow> ok (entries m i)" "j \<le> n"
  shows "add_entries hdr (int ((n - j) * sz)) (section_body acc sz j n m @ r)
      (upd (\<lambda>_. first_entries nf zero j m) c) = Some (0, upd (\<lambda>_. first_entries nf zero n m) c)"
  using assms(5)
proof (induction "n - j" arbitrary: j)
  case 0
  then show ?case by (simp add: add_entries.simps)
next
  case (Suc k)
  then have j: "j < n" by simp
  have body: "section_body acc sz j n m = entry_bytes acc sz (entries m j) @ section_body acc sz (Suc j) n m"
    using j by (simp add: section_body_def upt_conv_Cons)
  have "0 < (n - j) * sz" using j sz_words(2) by simp
  then have pos: "\<not> int ((n - j) * sz) \<le> 0" by (simp only: of_nat_le_0_iff)
  have left: "int ((n - j) * sz) - int sz = int ((n - Suc j) * sz)"
    using j by (simp add: Suc_diff_Suc [symmetric] algebra_simps)
  have "sja1105_static_config_add_entry hdr (section_body acc sz j n m @ r)
      (upd (\<lambda>_. first_entries nf zero j m) c) = Some (int sz, upd (\<lambda>_. first_entries nf zero (Suc j) m) c)"
    using add_one [OF assms(1,2) _ assms(4) [OF j], of "section_body acc sz (Suc j) n m @ r"] j assms(3) body
    by simp
  then have "add_entries hdr (int ((n - j) * sz)) (section_body acc sz j n m @ r)
      (upd (\<lambda>_. first_entries nf zero j m) c) =
    add_entries hdr (int ((n - Suc j) * sz)) (section_body acc sz (Suc j) n m @ r)
      (upd (\<lambda>_. first_entries nf zero (Suc j) m) c)"
    using pos left length_entry_bytes by (subst add_entries.simps) (simp add: body del: of_nat_mult of_nat_diff)
  also have "\<dots> = Some (0, upd (\<lambda>_. first_entries nf zero n m) c)"
    using Suc by (intro Suc.hyps(1)) auto
  finally show ?case .
qed

lemma header_len:
  assumes "0 \<le> entry_count m" "entry_count m \<le> int mx"
  shows "unat (hdr_len (section_header blk sz m)) * 4 = nat (entry_count m) * sz"
    and "entry_count m \<noteq> 0 \<Longrightarrow> hdr_len (section_header blk sz m) \<noteq> 0"
    and "hdr_block_id (section_header blk sz m) = blk"
proof -
  define n where "n = nat (entry_count m)"
  have en: "entry_count m = int n" using assms(1) by (simp add: n_def)
  obtain k where k: "sz = 4 * k" "0 < k" using sz_words by (auto simp: dvd_def)
  have le: "n * k < 2 ^ 24"
  proof -
    have "n * k \<le> mx * k" using assms(2) en by simp
    also have "\<dots> = mx * sz div 4" using k(1) by simp
    finally show ?thesis using small(1) by simp
  qed
  define x where "x = n * k"
  have "entry_count m * int sz div 4 = int x" using k en by (simp add: x_def)
  then have len: "hdr_len (section_header blk sz m) = take_bit 24 (of_nat x)"
    by (simp add: section_header_def header_with_crc_def truncate_header)
  have u: "unat (hdr_len (section_header blk sz m)) = n * k"
    using unat_take_bit_of_nat [of x] le by (simp add: len x_def)
  then show "unat (hdr_len (section_header blk sz m)) * 4 = nat (entry_count m) * sz"
    by (simp add: k(1) n_def)
  show "hdr_len (section_header blk sz m) \<noteq> 0" if "entry_count m \<noteq> 0"
  proof
    assume "hdr_len (section_header blk sz m) = 0"
    then have "n * k = 0" using u by simp
    then show False using k(2) en that by simp
  qed
  have "take_bit 8 blk = blk"
    using small(2) by (simp add: word_unat_eq_iff unsigned_take_bit_eq take_bit_nat_eq_self word_less_nat_alt)
  then show "hdr_block_id (section_header blk sz m) = blk"
    by (simp add: section_header_def header_with_crc_def truncate_header)
qed

text \<open>Unpacking the bytes of a section fills its member and goes on with the rest of the buffer.\<close>

lemma unpack_section:
  assumes "member_ok ok zero mx m" "dev (cfg_device_id c)" "sel c = no_entries zero"
  shows "unpack_tables (section_bytes acc sz blk m @ r) c =
    unpack_tables r (upd (\<lambda>_. first_entries nf zero (nat (entry_count m)) m) c)"
proof (cases "entry_count m = 0")
  case True
  then show ?thesis using upd_sel [of c] by (simp add: section_bytes_def first_entries_0 assms(3))
next
  case False
  define n where "n = nat (entry_count m)"
  define body where "body = section_body acc sz 0 n m"
  define crc :: u64 where "crc = ucast (ether_crc32_le body (length body))"
  define h where "h = section_header blk sz m"
  have m: "0 \<le> entry_count m" "entry_count m \<le> int mx" "n \<le> mx" "\<And>i. i < n \<Longrightarrow> ok (entries m i)"
    using assms(1) by (auto simp: member_ok_def n_def split: if_splits)
  note hl = header_len [OF m(1,2), folded n_def h_def]
  have lb: "length body = n * sz" by (simp add: body_def length_body)
  have bytes: "section_bytes acc sz blk m @ r = table_header.bytes h @ body @ word_bytes crc @ r"
    using False by (simp add: section_bytes_def Let_def body_def n_def h_def crc_def)
  have c0: "upd (\<lambda>_. first_entries nf zero 0 m) c = c"
    using upd_sel [of c] by (simp add: first_entries_0 assms(3))
  have add: "add_entries h (int (n * sz)) (body @ word_bytes crc @ r) c =
      Some (0, upd (\<lambda>_. first_entries nf zero n m) c)"
    using add_entries_section [OF hl(3) assms(2) m(3,4), of 0 "word_bytes crc @ r"] c0
    by (simp add: body_def)
  have "4 dvd n * sz" using sz_words(1) by simp
  then have data_crc: "ether_crc32_le (body @ word_bytes crc @ r) (n * sz) = ether_crc32_le body (length body)"
    using ether_crc32_le_take [of "n * sz" "body @ word_bytes crc @ r"] lb by simp
  have hdr: "sja1105_table_header_unpack (table_header.bytes h @ x) y = h"
    "hdr_crc h = ucast (ether_crc32_le (table_header.bytes h @ x) 8)" for x y
    using header_crc_checks [of _ x] unfolding h_def section_header_def header_unpack_bytes
    by (simp_all add: header_with_crc_def)
  have masked: "hdr_crc h AND 0xFFFFFFFF = ucast (ether_crc32_le (table_header.bytes h @ x) 8)" for x
    unfolding hdr(2) [of x] by (rule and_low_32)
  have read: "fst (snd (gtable_unpack (word_bytes crc @ r) 0 31 0 4)) = crc"
    unfolding read_word_bytes by (simp add: crc_def)
  have crc_n: "ucast (ether_crc32_le body (n * sz)) = crc" by (simp add: crc_def lb)
  show ?thesis
    unfolding bytes
    by (subst unpack_tables.simps)
      (simp add: Let_def hdr(1) masked and_low_32 hl False add data_crc crc_n read lb
        table_header.length_bytes word_bytes_spec n_def [symmetric] del: of_nat_mult)
qed

end

section \<open>Counts within capacity\<close>

text \<open>Every table is within its capacity.\<close>

definition counts_within :: "sja1105_static_config \<Rightarrow> bool" where
  "counts_within c \<longleftrightarrow>
     0 \<le> entry_count (cfg_schedule c) \<and> entry_count (cfg_schedule c) \<le> int MAX_SCHEDULE_COUNT \<and>
     0 \<le> entry_count (cfg_schedule_entry_points c) \<and> entry_count (cfg_schedule_entry_points c) \<le> int MAX_SCHEDULE_ENTRY_POINTS_COUNT \<and>
     0 \<le> entry_count (cfg_vl_lookup c) \<and> entry_count (cfg_vl_lookup c) \<le> int MAX_VL_LOOKUP_COUNT \<and>
     0 \<le> entry_count (cfg_vl_policing c) \<and> entry_count (cfg_vl_policing c) \<le> int MAX_VL_POLICING_COUNT \<and>
     0 \<le> entry_count (cfg_vl_forwarding c) \<and> entry_count (cfg_vl_forwarding c) \<le> int MAX_VL_FORWARDING_COUNT \<and>
     0 \<le> entry_count (cfg_l2_lookup c) \<and> entry_count (cfg_l2_lookup c) \<le> int MAX_L2_LOOKUP_COUNT \<and>
     0 \<le> entry_count (cfg_l2_policing c) \<and> entry_count (cfg_l2_policing c) \<le> int MAX_L2_POLICING_COUNT \<and>
     0 \<le> entry_count (cfg_vlan_lookup c) \<and> entry_count (cfg_vlan_lookup c) \<le> int MAX_VLAN_LOOKUP_COUNT \<and>
     0 \<le> entry_count (cfg_l2_forwarding c) \<and> entry_count (cfg_l2_forwarding c) \<le> int MAX_L2_FORWARDING_COUNT \<and>
     0 \<le> entry_count (cfg_mac_config c) \<and> entry_count (cfg_mac_config c) \<le> int MAX_MAC_CONFIG_COUNT \<and>
     0 \<le> entry_count (cfg_schedule_params c) \<and> entry_count (cfg_schedule_params c) \<le> int MAX_SCHEDULE_PARAMS_COUNT \<and>
     0 \<le> entry_count (cfg_schedule_entry_points_params c) \<and> entry_count (cfg_schedule_entry_points_params c) \<le> int MAX_SCHEDULE_ENTRY_POINTS_PARAMS_COUNT \<and>
     0 \<le> entry_count (cfg_vl_forwarding_params c) \<and> entry_count (cfg_vl_forwarding_params c) \<le> int MAX_VL_FORWARDING_PARAMS_COUNT \<and>
     0 \<le> entry_count (cfg_l2_lookup_params c) \<and> entry_count (cfg_l2_lookup_params c) \<le> int MAX_L2_LOOKUP_PARAMS_COUNT \<and>
     0 \<le> entry_count (cfg_l2_forwarding_params c) \<and> entry_count (cfg_l2_forwarding_params c) \<le> int MAX_L2_FORWARDING_PARAMS_COUNT \<and>
     0 \<le> entry_count (cfg_avb_params c) \<and> entry_count (cfg_avb_params c) \<le> int MAX_AVB_PARAMS_COUNT \<and>
     0 \<le> entry_count (cfg_general_params c) \<and> entry_count (cfg_general_params c) \<le> int MAX_GENERAL_PARAMS_COUNT \<and>
     0 \<le> entry_count (cfg_xmii_params c) \<and> entry_count (cfg_xmii_params c) \<le> int MAX_XMII_PARAMS_COUNT \<and>
     0 \<le> entry_count (cfg_sgmii c) \<and> entry_count (cfg_sgmii c) \<le> int MAX_SGMII_COUNT"

lemma populate_within:
  "populate_config_table acc zero sz n buf m = Some (rc, m') \<Longrightarrow> 0 \<le> entry_count m \<and> entry_count m \<le> int n \<Longrightarrow>
   0 \<le> entry_count m' \<and> entry_count m' \<le> int n"
  by (auto simp: populate_config_table_def Let_def split: if_splits)

lemma at_member_within:
  "at_member sel upd (populate_config_table acc zero sz n buf) config = Some (rc, config') \<Longrightarrow>
   \<exists>m. config' = upd (\<lambda>_. m) config \<and>
     (0 \<le> entry_count (sel config) \<and> entry_count (sel config) \<le> int n \<longrightarrow> 0 \<le> entry_count m \<and> entry_count m \<le> int n)"
  unfolding at_member_def by (auto dest: populate_within)

lemma add_entry_within:
  assumes "sja1105_static_config_add_entry hdr buf config = Some (rc, config')" "counts_within config"
  shows "counts_within config'"
proof -
  have same: "Some (k, config) = Some (rc, config') \<Longrightarrow> counts_within config'" for k using assms(2) by simp
  note w = assms(2) [unfolded counts_within_def, simplified]
  show ?thesis
    using assms(1) unfolding sja1105_static_config_add_entry_def
    by (simp only: split: if_split_asm) (erule same | drule at_member_within | elim exE conjE | simp add: counts_within_def w)+
qed

lemma add_entries_within:
  "add_entries hdr left buf config = Some (rc, config') \<Longrightarrow> counts_within config \<Longrightarrow> counts_within config'"
proof (induction hdr left buf config rule: add_entries.induct)
  case (1 hdr left buf config)
  show ?case
  proof (cases "left \<le> 0")
    case True
    then show ?thesis using 1 by (simp add: add_entries.simps)
  next
    case False
    with "1.prems"(1) obtain bytes config1 where e: "sja1105_static_config_add_entry hdr buf config = Some (bytes, config1)"
      by (auto simp: add_entries.simps [of hdr left] split: option.splits)
    then show ?thesis
      using "1.IH" [OF False e refl] "1.prems" False add_entry_within [OF e]
      by (auto simp: add_entries.simps [of hdr left] split: if_splits)
  qed
qed

lemma for_upto_invariant: "(\<And>i s. P s \<Longrightarrow> P (f i s)) \<Longrightarrow> P s \<Longrightarrow> P (for_upto n f s)"
  by (induction n) simp_all

lemma unpack_tables_within:
  "unpack_tables p config = Some (rc, config') \<Longrightarrow> counts_within config \<Longrightarrow> counts_within config'"
proof (induction p config rule: unpack_tables.induct)
  case (1 p config)
  note unf = "1.prems"(1) [unfolded unpack_tables.simps [of p config] Let_def]
  from unf show ?case
    using "1.IH" "1.prems"(2) add_entries_within
    by (simp split: if_splits option.splits prod.splits)
qed

text \<open>
  A configuration that was unpacked has every table within its capacity, whatever the buffer holds and whether
  or not an error is reported. (An entry behind the end of its table makes the result \<open>None\<close>.)
\<close>

lemma unpack_counts_within:
  assumes "sja1105_static_config_unpack buf = Some (rc, config)"
  shows "counts_within config"
proof -
  define start where "start = static_config_zero\<lparr>cfg_device_id := fst (snd (gtable_unpack buf 0 31 0 4))\<rparr>"
  have start: "counts_within start" by (simp add: start_def counts_within_def static_config_zero_def no_entries_def)
  have patch: "counts_within (sja1105_static_config_patch_vllupformat c)" if "counts_within c" for c
    unfolding sja1105_static_config_patch_vllupformat_def
    by (rule for_upto_invariant) (use that in \<open>simp_all add: counts_within_def set_entry_def\<close>)
  have bins: "counts_within (for_upto n count_fdb_bin c)" if "counts_within c" for n c
    by (rule for_upto_invariant) (use that in \<open>simp_all add: counts_within_def count_fdb_bin_def Let_def\<close>)
  show ?thesis
    using assms start patch bins unpack_tables_within [of "drop SIZE_SJA1105_DEVICE_ID buf" start]
    by (auto simp: sja1105_static_config_unpack_def Let_def simp flip: start_def split: if_splits option.splits)
qed

end
