(* ===== verification/Config_Codec.thy ===== *)
theory Config_Codec
  imports Static_Config
begin

unbundle bit_operations_syntax

text \<open>
  The static configuration as a whole: the sections of \<^verbatim>\<open>sja1105_static_config_pack\<close> as instances of one
  contract, the bytes they make, and the theorems on packing followed by unpacking, on the length, on the
  checks and on the indices of the static addresses.
\<close>

section \<open>The sections of the configuration\<close>

interpretation schedule_sec: config_section
    sja1105_schedule_entry_access SIZE_SCHEDULE_ENTRY schedule_ok
    "\<lambda>e. e" schedule_zero MAX_SCHEDULE_COUNT BLKID_SCHEDULE_TABLE
    cfg_schedule cfg_schedule_update "\<lambda>_. True"
  by unfold_locales (auto simp: sja1105_static_config_add_entry_def comp_def)

interpretation schedule_entry_points_sec: config_section
    sja1105_schedule_entry_points_entry_access SIZE_SCHEDULE_ENTRY_POINTS_ENTRY schedule_entry_points_ok
    "\<lambda>e. e" schedule_entry_points_zero MAX_SCHEDULE_ENTRY_POINTS_COUNT BLKID_SCHEDULE_ENTRY_POINTS_TABLE
    cfg_schedule_entry_points cfg_schedule_entry_points_update "\<lambda>_. True"
  by unfold_locales (auto simp: sja1105_static_config_add_entry_def comp_def)

interpretation vl_lookup_sec: config_section
    sja1105_vl_lookup_entry_access SIZE_VL_LOOKUP_ENTRY vl_lookup_ok
    "vll_format_update (\<lambda>_. 0)" vl_lookup_zero MAX_VL_LOOKUP_COUNT BLKID_VL_LOOKUP_TABLE
    cfg_vl_lookup cfg_vl_lookup_update "\<lambda>_. True"
  by unfold_locales (auto simp: sja1105_static_config_add_entry_def comp_def)

interpretation vl_policing_sec: config_section
    sja1105_vl_policing_entry_access SIZE_VL_POLICING_ENTRY vl_policing_ok
    "\<lambda>e. e" vl_policing_zero MAX_VL_POLICING_COUNT BLKID_VL_POLICING_TABLE
    cfg_vl_policing cfg_vl_policing_update "\<lambda>_. True"
  by unfold_locales (auto simp: sja1105_static_config_add_entry_def comp_def)

interpretation vl_forwarding_sec: config_section
    sja1105_vl_forwarding_entry_access SIZE_VL_FORWARDING_ENTRY vl_forwarding_ok
    "\<lambda>e. e" vl_forwarding_zero MAX_VL_FORWARDING_COUNT BLKID_VL_FORWARDING_TABLE
    cfg_vl_forwarding cfg_vl_forwarding_update "\<lambda>_. True"
  by unfold_locales (auto simp: sja1105_static_config_add_entry_def comp_def)

interpretation l2_lookup_et_sec: config_section
    sja1105et_l2_lookup_entry_access SIZE_L2_LOOKUP_ENTRY_ET l2_lookup_et_ok
    "\<lambda>e. e" l2_lookup_zero MAX_L2_LOOKUP_COUNT BLKID_L2_LOOKUP_TABLE
    cfg_l2_lookup cfg_l2_lookup_update IS_ET
  by unfold_locales (auto simp: sja1105_static_config_add_entry_def comp_def)

interpretation l2_lookup_pqrs_sec: config_section
    sja1105pqrs_l2_lookup_entry_access SIZE_L2_LOOKUP_ENTRY_PQRS l2_lookup_pqrs_ok
    "\<lambda>e. e" l2_lookup_zero MAX_L2_LOOKUP_COUNT BLKID_L2_LOOKUP_TABLE
    cfg_l2_lookup cfg_l2_lookup_update "\<lambda>d. \<not> IS_ET d"
  by unfold_locales (auto simp: sja1105_static_config_add_entry_def comp_def)

interpretation l2_policing_sec: config_section
    sja1105_l2_policing_entry_access SIZE_L2_POLICING_ENTRY l2_policing_ok
    "\<lambda>e. e" l2_policing_zero MAX_L2_POLICING_COUNT BLKID_L2_POLICING_TABLE
    cfg_l2_policing cfg_l2_policing_update "\<lambda>_. True"
  by unfold_locales (auto simp: sja1105_static_config_add_entry_def comp_def)

interpretation vlan_lookup_sec: config_section
    sja1105_vlan_lookup_entry_access SIZE_VLAN_LOOKUP_ENTRY vlan_lookup_ok
    "\<lambda>e. e" vlan_lookup_zero MAX_VLAN_LOOKUP_COUNT BLKID_VLAN_LOOKUP_TABLE
    cfg_vlan_lookup cfg_vlan_lookup_update "\<lambda>_. True"
  by unfold_locales (auto simp: sja1105_static_config_add_entry_def comp_def)

interpretation l2_forwarding_sec: config_section
    sja1105_l2_forwarding_entry_access SIZE_L2_FORWARDING_ENTRY l2_forwarding_ok
    "\<lambda>e. e" l2_forwarding_zero MAX_L2_FORWARDING_COUNT BLKID_L2_FORWARDING_TABLE
    cfg_l2_forwarding cfg_l2_forwarding_update "\<lambda>_. True"
  by unfold_locales (auto simp: sja1105_static_config_add_entry_def comp_def)

interpretation mac_config_et_sec: config_section
    sja1105et_mac_config_entry_access SIZE_MAC_CONFIG_ENTRY_ET mac_config_et_ok
    "\<lambda>e. e" mac_config_zero MAX_MAC_CONFIG_COUNT BLKID_MAC_CONFIG_TABLE
    cfg_mac_config cfg_mac_config_update IS_ET
  by unfold_locales (auto simp: sja1105_static_config_add_entry_def comp_def)

interpretation mac_config_pqrs_sec: config_section
    sja1105pqrs_mac_config_entry_access SIZE_MAC_CONFIG_ENTRY_PQRS mac_config_pqrs_ok
    "\<lambda>e. e" mac_config_zero MAX_MAC_CONFIG_COUNT BLKID_MAC_CONFIG_TABLE
    cfg_mac_config cfg_mac_config_update "\<lambda>d. \<not> IS_ET d"
  by unfold_locales (auto simp: sja1105_static_config_add_entry_def comp_def)

interpretation schedule_params_sec: config_section
    sja1105_schedule_params_entry_access SIZE_SCHEDULE_PARAMS_ENTRY schedule_params_ok
    "\<lambda>e. e" schedule_params_zero MAX_SCHEDULE_PARAMS_COUNT BLKID_SCHEDULE_PARAMS_TABLE
    cfg_schedule_params cfg_schedule_params_update "\<lambda>_. True"
  by unfold_locales (auto simp: sja1105_static_config_add_entry_def comp_def)

interpretation schedule_entry_points_params_sec: config_section
    sja1105_schedule_entry_points_params_entry_access SIZE_SCHEDULE_ENTRY_POINTS_PARAMS_ENTRY schedule_entry_points_params_ok
    "\<lambda>e. e" schedule_entry_points_params_zero MAX_SCHEDULE_ENTRY_POINTS_PARAMS_COUNT BLKID_SCHEDULE_ENTRY_POINTS_PARAMS_TABLE
    cfg_schedule_entry_points_params cfg_schedule_entry_points_params_update "\<lambda>_. True"
  by unfold_locales (auto simp: sja1105_static_config_add_entry_def comp_def)

interpretation vl_forwarding_params_sec: config_section
    sja1105_vl_forwarding_params_entry_access SIZE_VL_FORWARDING_PARAMS_ENTRY vl_forwarding_params_ok
    "\<lambda>e. e" vl_forwarding_params_zero MAX_VL_FORWARDING_PARAMS_COUNT BLKID_VL_FORWARDING_PARAMS_TABLE
    cfg_vl_forwarding_params cfg_vl_forwarding_params_update "\<lambda>_. True"
  by unfold_locales (auto simp: sja1105_static_config_add_entry_def comp_def)

interpretation l2_lookup_params_et_sec: config_section
    sja1105et_l2_lookup_params_entry_access SIZE_L2_LOOKUP_PARAMS_ENTRY_ET l2_lookup_params_et_ok
    "\<lambda>e. e" l2_lookup_params_zero MAX_L2_LOOKUP_PARAMS_COUNT BLKID_L2_LOOKUP_PARAMS_TABLE
    cfg_l2_lookup_params cfg_l2_lookup_params_update IS_ET
  by unfold_locales (auto simp: sja1105_static_config_add_entry_def comp_def)

interpretation l2_lookup_params_pqrs_sec: config_section
    sja1105pqrs_l2_lookup_params_entry_access SIZE_L2_LOOKUP_PARAMS_ENTRY_PQRS l2_lookup_params_pqrs_ok
    "\<lambda>e. e" l2_lookup_params_zero MAX_L2_LOOKUP_PARAMS_COUNT BLKID_L2_LOOKUP_PARAMS_TABLE
    cfg_l2_lookup_params cfg_l2_lookup_params_update "\<lambda>d. \<not> IS_ET d"
  by unfold_locales (auto simp: sja1105_static_config_add_entry_def comp_def)

interpretation l2_forwarding_params_sec: config_section
    sja1105_l2_forwarding_params_entry_access SIZE_L2_FORWARDING_PARAMS_ENTRY l2_forwarding_params_ok
    "\<lambda>e. e" l2_forwarding_params_zero MAX_L2_FORWARDING_PARAMS_COUNT BLKID_L2_FORWARDING_PARAMS_TABLE
    cfg_l2_forwarding_params cfg_l2_forwarding_params_update "\<lambda>_. True"
  by unfold_locales (auto simp: sja1105_static_config_add_entry_def comp_def)

interpretation avb_params_et_sec: config_section
    sja1105et_avb_params_entry_access SIZE_AVB_PARAMS_ENTRY_ET avb_params_et_ok
    "\<lambda>e. e" avb_params_zero MAX_AVB_PARAMS_COUNT BLKID_AVB_PARAMS_TABLE
    cfg_avb_params cfg_avb_params_update IS_ET
  by unfold_locales (auto simp: sja1105_static_config_add_entry_def comp_def)

interpretation avb_params_pqrs_sec: config_section
    sja1105pqrs_avb_params_entry_access SIZE_AVB_PARAMS_ENTRY_PQRS avb_params_pqrs_ok
    "\<lambda>e. e" avb_params_zero MAX_AVB_PARAMS_COUNT BLKID_AVB_PARAMS_TABLE
    cfg_avb_params cfg_avb_params_update "\<lambda>d. \<not> IS_ET d"
  by unfold_locales (auto simp: sja1105_static_config_add_entry_def comp_def)

interpretation general_params_et_sec: config_section
    sja1105et_general_params_entry_access SIZE_GENERAL_PARAMS_ENTRY_ET general_params_et_ok
    "\<lambda>e. e" general_params_zero MAX_GENERAL_PARAMS_COUNT BLKID_GENERAL_PARAMS_TABLE
    cfg_general_params cfg_general_params_update IS_ET
  by unfold_locales (auto simp: sja1105_static_config_add_entry_def comp_def)

interpretation general_params_pqrs_sec: config_section
    sja1105pqrs_general_params_entry_access SIZE_GENERAL_PARAMS_ENTRY_PQRS general_params_pqrs_ok
    "\<lambda>e. e" general_params_zero MAX_GENERAL_PARAMS_COUNT BLKID_GENERAL_PARAMS_TABLE
    cfg_general_params cfg_general_params_update "\<lambda>d. \<not> IS_ET d"
  by unfold_locales (auto simp: sja1105_static_config_add_entry_def comp_def)

interpretation xmii_params_sec: config_section
    sja1105_xmii_params_entry_access SIZE_XMII_MODE_PARAMS_ENTRY xmii_params_ok
    "\<lambda>e. e" xmii_params_zero MAX_XMII_PARAMS_COUNT BLKID_XMII_MODE_PARAMS_TABLE
    cfg_xmii_params cfg_xmii_params_update "\<lambda>_. True"
  by unfold_locales (auto simp: sja1105_static_config_add_entry_def comp_def)

interpretation sgmii_sec: config_section
    sja1105_sgmii_entry_access SIZE_SGMII_ENTRY sgmii_ok
    "\<lambda>e. e" sgmii_zero MAX_SGMII_COUNT BLKID_SGMII_TABLE
    cfg_sgmii cfg_sgmii_update "\<lambda>_. True"
  by unfold_locales (auto simp: sja1105_static_config_add_entry_def comp_def)

section \<open>The whole configuration\<close>

text \<open>The bytes of all tables, in the order of the packing function.\<close>

definition tables_bytes :: "sja1105_static_config \<Rightarrow> u8 list" where
  "tables_bytes c =
     (let et = IS_ET (cfg_device_id c) in
      section_bytes sja1105_schedule_entry_access SIZE_SCHEDULE_ENTRY BLKID_SCHEDULE_TABLE (cfg_schedule c) @
      section_bytes sja1105_schedule_entry_points_entry_access SIZE_SCHEDULE_ENTRY_POINTS_ENTRY BLKID_SCHEDULE_ENTRY_POINTS_TABLE (cfg_schedule_entry_points c) @
      section_bytes sja1105_vl_lookup_entry_access SIZE_VL_LOOKUP_ENTRY BLKID_VL_LOOKUP_TABLE (cfg_vl_lookup c) @
      section_bytes sja1105_vl_policing_entry_access SIZE_VL_POLICING_ENTRY BLKID_VL_POLICING_TABLE (cfg_vl_policing c) @
      section_bytes sja1105_vl_forwarding_entry_access SIZE_VL_FORWARDING_ENTRY BLKID_VL_FORWARDING_TABLE (cfg_vl_forwarding c) @
      (if et then section_bytes sja1105et_l2_lookup_entry_access SIZE_L2_LOOKUP_ENTRY_ET BLKID_L2_LOOKUP_TABLE (cfg_l2_lookup c)
       else section_bytes sja1105pqrs_l2_lookup_entry_access SIZE_L2_LOOKUP_ENTRY_PQRS BLKID_L2_LOOKUP_TABLE (cfg_l2_lookup c)) @
      section_bytes sja1105_l2_policing_entry_access SIZE_L2_POLICING_ENTRY BLKID_L2_POLICING_TABLE (cfg_l2_policing c) @
      section_bytes sja1105_vlan_lookup_entry_access SIZE_VLAN_LOOKUP_ENTRY BLKID_VLAN_LOOKUP_TABLE (cfg_vlan_lookup c) @
      section_bytes sja1105_l2_forwarding_entry_access SIZE_L2_FORWARDING_ENTRY BLKID_L2_FORWARDING_TABLE (cfg_l2_forwarding c) @
      (if et then section_bytes sja1105et_mac_config_entry_access SIZE_MAC_CONFIG_ENTRY_ET BLKID_MAC_CONFIG_TABLE (cfg_mac_config c)
       else section_bytes sja1105pqrs_mac_config_entry_access SIZE_MAC_CONFIG_ENTRY_PQRS BLKID_MAC_CONFIG_TABLE (cfg_mac_config c)) @
      section_bytes sja1105_schedule_params_entry_access SIZE_SCHEDULE_PARAMS_ENTRY BLKID_SCHEDULE_PARAMS_TABLE (cfg_schedule_params c) @
      section_bytes sja1105_schedule_entry_points_params_entry_access SIZE_SCHEDULE_ENTRY_POINTS_PARAMS_ENTRY BLKID_SCHEDULE_ENTRY_POINTS_PARAMS_TABLE (cfg_schedule_entry_points_params c) @
      section_bytes sja1105_vl_forwarding_params_entry_access SIZE_VL_FORWARDING_PARAMS_ENTRY BLKID_VL_FORWARDING_PARAMS_TABLE (cfg_vl_forwarding_params c) @
      (if et then section_bytes sja1105et_l2_lookup_params_entry_access SIZE_L2_LOOKUP_PARAMS_ENTRY_ET BLKID_L2_LOOKUP_PARAMS_TABLE (cfg_l2_lookup_params c)
       else section_bytes sja1105pqrs_l2_lookup_params_entry_access SIZE_L2_LOOKUP_PARAMS_ENTRY_PQRS BLKID_L2_LOOKUP_PARAMS_TABLE (cfg_l2_lookup_params c)) @
      section_bytes sja1105_l2_forwarding_params_entry_access SIZE_L2_FORWARDING_PARAMS_ENTRY BLKID_L2_FORWARDING_PARAMS_TABLE (cfg_l2_forwarding_params c) @
      (if et then section_bytes sja1105et_avb_params_entry_access SIZE_AVB_PARAMS_ENTRY_ET BLKID_AVB_PARAMS_TABLE (cfg_avb_params c)
       else section_bytes sja1105pqrs_avb_params_entry_access SIZE_AVB_PARAMS_ENTRY_PQRS BLKID_AVB_PARAMS_TABLE (cfg_avb_params c)) @
      (if et then section_bytes sja1105et_general_params_entry_access SIZE_GENERAL_PARAMS_ENTRY_ET BLKID_GENERAL_PARAMS_TABLE (cfg_general_params c)
       else section_bytes sja1105pqrs_general_params_entry_access SIZE_GENERAL_PARAMS_ENTRY_PQRS BLKID_GENERAL_PARAMS_TABLE (cfg_general_params c)) @
      section_bytes sja1105_xmii_params_entry_access SIZE_XMII_MODE_PARAMS_ENTRY BLKID_XMII_MODE_PARAMS_TABLE (cfg_xmii_params c) @
      section_bytes sja1105_sgmii_entry_access SIZE_SGMII_ENTRY BLKID_SGMII_TABLE (cfg_sgmii c))"

definition config_bytes :: "sja1105_static_config \<Rightarrow> u8 list" where
  "config_bytes c = word_bytes (cfg_device_id c) @ tables_bytes c @
     table_header.bytes \<lparr>hdr_block_id = 0, hdr_len = 0, hdr_crc = 0xDEADBEEF\<rparr>"

text \<open>Every table within its capacity, with well-formed entries for the device.\<close>

definition tables_ok :: "sja1105_static_config \<Rightarrow> bool" where
  "tables_ok c \<longleftrightarrow>
     (let et = IS_ET (cfg_device_id c) in
      member_ok schedule_ok schedule_zero MAX_SCHEDULE_COUNT (cfg_schedule c) \<and>
      member_ok schedule_entry_points_ok schedule_entry_points_zero MAX_SCHEDULE_ENTRY_POINTS_COUNT (cfg_schedule_entry_points c) \<and>
      member_ok vl_lookup_ok vl_lookup_zero MAX_VL_LOOKUP_COUNT (cfg_vl_lookup c) \<and>
      member_ok vl_policing_ok vl_policing_zero MAX_VL_POLICING_COUNT (cfg_vl_policing c) \<and>
      member_ok vl_forwarding_ok vl_forwarding_zero MAX_VL_FORWARDING_COUNT (cfg_vl_forwarding c) \<and>
      (if et then member_ok l2_lookup_et_ok l2_lookup_zero MAX_L2_LOOKUP_COUNT (cfg_l2_lookup c)
       else member_ok l2_lookup_pqrs_ok l2_lookup_zero MAX_L2_LOOKUP_COUNT (cfg_l2_lookup c)) \<and>
      member_ok l2_policing_ok l2_policing_zero MAX_L2_POLICING_COUNT (cfg_l2_policing c) \<and>
      member_ok vlan_lookup_ok vlan_lookup_zero MAX_VLAN_LOOKUP_COUNT (cfg_vlan_lookup c) \<and>
      member_ok l2_forwarding_ok l2_forwarding_zero MAX_L2_FORWARDING_COUNT (cfg_l2_forwarding c) \<and>
      (if et then member_ok mac_config_et_ok mac_config_zero MAX_MAC_CONFIG_COUNT (cfg_mac_config c)
       else member_ok mac_config_pqrs_ok mac_config_zero MAX_MAC_CONFIG_COUNT (cfg_mac_config c)) \<and>
      member_ok schedule_params_ok schedule_params_zero MAX_SCHEDULE_PARAMS_COUNT (cfg_schedule_params c) \<and>
      member_ok schedule_entry_points_params_ok schedule_entry_points_params_zero MAX_SCHEDULE_ENTRY_POINTS_PARAMS_COUNT (cfg_schedule_entry_points_params c) \<and>
      member_ok vl_forwarding_params_ok vl_forwarding_params_zero MAX_VL_FORWARDING_PARAMS_COUNT (cfg_vl_forwarding_params c) \<and>
      (if et then member_ok l2_lookup_params_et_ok l2_lookup_params_zero MAX_L2_LOOKUP_PARAMS_COUNT (cfg_l2_lookup_params c)
       else member_ok l2_lookup_params_pqrs_ok l2_lookup_params_zero MAX_L2_LOOKUP_PARAMS_COUNT (cfg_l2_lookup_params c)) \<and>
      member_ok l2_forwarding_params_ok l2_forwarding_params_zero MAX_L2_FORWARDING_PARAMS_COUNT (cfg_l2_forwarding_params c) \<and>
      (if et then member_ok avb_params_et_ok avb_params_zero MAX_AVB_PARAMS_COUNT (cfg_avb_params c)
       else member_ok avb_params_pqrs_ok avb_params_zero MAX_AVB_PARAMS_COUNT (cfg_avb_params c)) \<and>
      (if et then member_ok general_params_et_ok general_params_zero MAX_GENERAL_PARAMS_COUNT (cfg_general_params c)
       else member_ok general_params_pqrs_ok general_params_zero MAX_GENERAL_PARAMS_COUNT (cfg_general_params c)) \<and>
      member_ok xmii_params_ok xmii_params_zero MAX_XMII_PARAMS_COUNT (cfg_xmii_params c) \<and>
      member_ok sgmii_ok sgmii_zero MAX_SGMII_COUNT (cfg_sgmii c))"

text \<open>A step of the packing function that writes \<open>out\<close> and leaves the configuration as it is.\<close>

definition writes ::
    "(sja1105_static_config \<times> pack_state \<Rightarrow> (sja1105_static_config \<times> pack_state) option) \<Rightarrow>
     sja1105_static_config \<Rightarrow> u8 list \<Rightarrow> bool" where
  "writes f c out \<longleftrightarrow>
     (\<forall>s. pk_p s + length out \<le> length (pk_buf s) \<longrightarrow> (\<exists>s'. f (c, s) = Some (c, s') \<and> emits s out s'))"

lemma writes_bind: "writes f c a \<Longrightarrow> writes g c b \<Longrightarrow> writes (\<lambda>cs. f cs \<bind> g) c (a @ b)"
  unfolding writes_def
proof (intro allI impI)
  fix s :: pack_state
  assume f: "\<forall>s. pk_p s + length a \<le> length (pk_buf s) \<longrightarrow> (\<exists>s'. f (c, s) = Some (c, s') \<and> emits s a s')"
    and g: "\<forall>s. pk_p s + length b \<le> length (pk_buf s) \<longrightarrow> (\<exists>s'. g (c, s) = Some (c, s') \<and> emits s b s')"
    and room: "pk_p s + length (a @ b) \<le> length (pk_buf s)"
  from room have "pk_p s + length a \<le> length (pk_buf s)" by simp
  with f obtain s1 where s1: "f (c, s) = Some (c, s1)" "emits s a s1" by blast
  have "pk_p s1 + length b \<le> length (pk_buf s1)"
    using s1(2) room emits_length [OF s1(2)] by (simp add: emits_def)
  with g obtain s2 where "g (c, s1) = Some (c, s2)" "emits s1 b s2" by blast
  with s1 show "\<exists>s'. f (c, s) \<bind> g = Some (c, s') \<and> emits s (a @ b) s'" by (auto intro: emits_trans)
qed

lemma writes_if: "writes (if p then f else g) c (if p then a else b) \<longleftrightarrow> (if p then writes f c a else writes g c b)"
  by simp

context config_section begin

lemma writes_member:
  "member_ok ok zero mx (sel c) \<Longrightarrow>
   writes (pack_member sel upd (pack_table_in_buf acc sz mx blk)) c (section_bytes acc sz blk (sel c))"
  unfolding writes_def pack_member_def
  using pack_table_emits [of zero mx "sel c" _ blk] upd_sel [of c] by fastforce

end

lemma writes_tables:
  assumes "tables_ok c"
  shows "writes (pack_tables (IS_ET (cfg_device_id c))) c (tables_bytes c)"
proof (cases "IS_ET (cfg_device_id c)")
  case True
  show ?thesis
    unfolding pack_tables_def tables_bytes_def Let_def if_P [OF True]
    by (intro writes_bind
        schedule_sec.writes_member schedule_entry_points_sec.writes_member
        vl_lookup_sec.writes_member vl_policing_sec.writes_member
        vl_forwarding_sec.writes_member l2_lookup_et_sec.writes_member
        l2_policing_sec.writes_member vlan_lookup_sec.writes_member
        l2_forwarding_sec.writes_member mac_config_et_sec.writes_member
        schedule_params_sec.writes_member schedule_entry_points_params_sec.writes_member
        vl_forwarding_params_sec.writes_member l2_lookup_params_et_sec.writes_member
        l2_forwarding_params_sec.writes_member avb_params_et_sec.writes_member
        general_params_et_sec.writes_member xmii_params_sec.writes_member
        sgmii_sec.writes_member)
      (use assms True in \<open>simp_all only: tables_ok_def Let_def if_True simp_thms\<close>)
next
  case False
  show ?thesis
    unfolding pack_tables_def tables_bytes_def Let_def if_not_P [OF False]
    by (intro writes_bind
        schedule_sec.writes_member schedule_entry_points_sec.writes_member
        vl_lookup_sec.writes_member vl_policing_sec.writes_member
        vl_forwarding_sec.writes_member l2_lookup_pqrs_sec.writes_member
        l2_policing_sec.writes_member vlan_lookup_sec.writes_member
        l2_forwarding_sec.writes_member mac_config_pqrs_sec.writes_member
        schedule_params_sec.writes_member schedule_entry_points_params_sec.writes_member
        vl_forwarding_params_sec.writes_member l2_lookup_params_pqrs_sec.writes_member
        l2_forwarding_params_sec.writes_member avb_params_pqrs_sec.writes_member
        general_params_pqrs_sec.writes_member xmii_params_sec.writes_member
        sgmii_sec.writes_member)
      (use assms False in \<open>simp_all only: tables_ok_def Let_def if_False simp_thms\<close>)
qed

section \<open>Reading the configuration back\<close>

lemma first_entries_all:
  assumes "member_ok ok zero mx m"
  shows "first_entries (\<lambda>e. e) zero (nat (entry_count m)) m = m"
proof -
  have "(\<lambda>i. if i < nat (entry_count m) then entries m i else zero) = entries m"
    using assms by (auto simp: member_ok_def fun_eq_iff)
  moreover have "int (nat (entry_count m)) = entry_count m" using assms by (simp add: member_ok_def)
  ultimately show ?thesis unfolding first_entries_def by simp
qed

text \<open>The configuration before its patches: no bins counted, and the formats of the VL lookup entries zero.\<close>

definition as_read :: "sja1105_static_config \<Rightarrow> sja1105_static_config" where
  "as_read c = c\<lparr>cfg_entries_in_fdb_bin := \<lambda>_. 0,
     cfg_vl_lookup := first_entries (vll_format_update (\<lambda>_. 0)) vl_lookup_zero
       (nat (entry_count (cfg_vl_lookup c))) (cfg_vl_lookup c)\<rparr>"

lemma as_read_eq:
  "as_read c = \<lparr>cfg_device_id = cfg_device_id c, cfg_entries_in_fdb_bin = \<lambda>_.
     0, cfg_l2_forwarding_params = cfg_l2_forwarding_params c, cfg_l2_forwarding =
     cfg_l2_forwarding c, cfg_l2_lookup = cfg_l2_lookup c, cfg_l2_lookup_params =
     cfg_l2_lookup_params c, cfg_l2_policing = cfg_l2_policing c, cfg_mac_config =
     cfg_mac_config c, cfg_schedule_entry_points_params = cfg_schedule_entry_points_params c,
     cfg_schedule_entry_points = cfg_schedule_entry_points c, cfg_schedule_params =
     cfg_schedule_params c, cfg_schedule = cfg_schedule c, cfg_vlan_lookup = cfg_vlan_lookup
     c, cfg_xmii_params = cfg_xmii_params c, cfg_general_params = cfg_general_params c,
     cfg_avb_params = cfg_avb_params c, cfg_vl_forwarding_params = cfg_vl_forwarding_params c,
     cfg_vl_forwarding = cfg_vl_forwarding c, cfg_vl_policing = cfg_vl_policing c,
     cfg_vl_lookup = first_entries (vll_format_update (\<lambda>_. 0)) vl_lookup_zero (nat
     (entry_count (cfg_vl_lookup c))) (cfg_vl_lookup c), cfg_sgmii = cfg_sgmii c\<rparr>"
  by (cases c) (simp add: as_read_def)

lemma unpack_tables_bytes:
  assumes "tables_ok c"
  shows "unpack_tables (tables_bytes c @ r) (static_config_zero\<lparr>cfg_device_id := cfg_device_id c\<rparr>) =
    unpack_tables r (as_read c)"
proof (cases "IS_ET (cfg_device_id c)")
  case True
  have ok:
    "member_ok schedule_ok schedule_zero MAX_SCHEDULE_COUNT (cfg_schedule c)"
    "member_ok schedule_entry_points_ok schedule_entry_points_zero MAX_SCHEDULE_ENTRY_POINTS_COUNT (cfg_schedule_entry_points c)"
    "member_ok vl_lookup_ok vl_lookup_zero MAX_VL_LOOKUP_COUNT (cfg_vl_lookup c)"
    "member_ok vl_policing_ok vl_policing_zero MAX_VL_POLICING_COUNT (cfg_vl_policing c)"
    "member_ok vl_forwarding_ok vl_forwarding_zero MAX_VL_FORWARDING_COUNT (cfg_vl_forwarding c)"
    "member_ok l2_lookup_et_ok l2_lookup_zero MAX_L2_LOOKUP_COUNT (cfg_l2_lookup c)"
    "member_ok l2_policing_ok l2_policing_zero MAX_L2_POLICING_COUNT (cfg_l2_policing c)"
    "member_ok vlan_lookup_ok vlan_lookup_zero MAX_VLAN_LOOKUP_COUNT (cfg_vlan_lookup c)"
    "member_ok l2_forwarding_ok l2_forwarding_zero MAX_L2_FORWARDING_COUNT (cfg_l2_forwarding c)"
    "member_ok mac_config_et_ok mac_config_zero MAX_MAC_CONFIG_COUNT (cfg_mac_config c)"
    "member_ok schedule_params_ok schedule_params_zero MAX_SCHEDULE_PARAMS_COUNT (cfg_schedule_params c)"
    "member_ok schedule_entry_points_params_ok schedule_entry_points_params_zero MAX_SCHEDULE_ENTRY_POINTS_PARAMS_COUNT (cfg_schedule_entry_points_params c)"
    "member_ok vl_forwarding_params_ok vl_forwarding_params_zero MAX_VL_FORWARDING_PARAMS_COUNT (cfg_vl_forwarding_params c)"
    "member_ok l2_lookup_params_et_ok l2_lookup_params_zero MAX_L2_LOOKUP_PARAMS_COUNT (cfg_l2_lookup_params c)"
    "member_ok l2_forwarding_params_ok l2_forwarding_params_zero MAX_L2_FORWARDING_PARAMS_COUNT (cfg_l2_forwarding_params c)"
    "member_ok avb_params_et_ok avb_params_zero MAX_AVB_PARAMS_COUNT (cfg_avb_params c)"
    "member_ok general_params_et_ok general_params_zero MAX_GENERAL_PARAMS_COUNT (cfg_general_params c)"
    "member_ok xmii_params_ok xmii_params_zero MAX_XMII_PARAMS_COUNT (cfg_xmii_params c)"
    "member_ok sgmii_ok sgmii_zero MAX_SGMII_COUNT (cfg_sgmii c)"
    using assms True by (simp_all only: tables_ok_def Let_def if_True simp_thms)
  show ?thesis
    unfolding tables_bytes_def Let_def if_P [OF True] append_assoc
    by (simp add: static_config_zero_def as_read_eq True ok first_entries_all [OF ok(1)]
      first_entries_all [OF ok(2)] first_entries_all [OF ok(3)] first_entries_all [OF ok(4)]
      first_entries_all [OF ok(5)] first_entries_all [OF ok(6)] first_entries_all [OF ok(7)]
      first_entries_all [OF ok(8)] first_entries_all [OF ok(9)] first_entries_all [OF
      ok(10)] first_entries_all [OF ok(11)] first_entries_all [OF ok(12)] first_entries_all
      [OF ok(13)] first_entries_all [OF ok(14)] first_entries_all [OF ok(15)]
      first_entries_all [OF ok(16)] first_entries_all [OF ok(17)] first_entries_all [OF
      ok(18)] first_entries_all [OF ok(19)]
      schedule_sec.unpack_section schedule_entry_points_sec.unpack_section
      vl_lookup_sec.unpack_section vl_policing_sec.unpack_section
      vl_forwarding_sec.unpack_section l2_lookup_et_sec.unpack_section
      l2_policing_sec.unpack_section vlan_lookup_sec.unpack_section
      l2_forwarding_sec.unpack_section mac_config_et_sec.unpack_section
      schedule_params_sec.unpack_section schedule_entry_points_params_sec.unpack_section
      vl_forwarding_params_sec.unpack_section l2_lookup_params_et_sec.unpack_section
      l2_forwarding_params_sec.unpack_section avb_params_et_sec.unpack_section
      general_params_et_sec.unpack_section xmii_params_sec.unpack_section
      sgmii_sec.unpack_section del: One_nat_def)
next
  case False
  have ok:
    "member_ok schedule_ok schedule_zero MAX_SCHEDULE_COUNT (cfg_schedule c)"
    "member_ok schedule_entry_points_ok schedule_entry_points_zero MAX_SCHEDULE_ENTRY_POINTS_COUNT (cfg_schedule_entry_points c)"
    "member_ok vl_lookup_ok vl_lookup_zero MAX_VL_LOOKUP_COUNT (cfg_vl_lookup c)"
    "member_ok vl_policing_ok vl_policing_zero MAX_VL_POLICING_COUNT (cfg_vl_policing c)"
    "member_ok vl_forwarding_ok vl_forwarding_zero MAX_VL_FORWARDING_COUNT (cfg_vl_forwarding c)"
    "member_ok l2_lookup_pqrs_ok l2_lookup_zero MAX_L2_LOOKUP_COUNT (cfg_l2_lookup c)"
    "member_ok l2_policing_ok l2_policing_zero MAX_L2_POLICING_COUNT (cfg_l2_policing c)"
    "member_ok vlan_lookup_ok vlan_lookup_zero MAX_VLAN_LOOKUP_COUNT (cfg_vlan_lookup c)"
    "member_ok l2_forwarding_ok l2_forwarding_zero MAX_L2_FORWARDING_COUNT (cfg_l2_forwarding c)"
    "member_ok mac_config_pqrs_ok mac_config_zero MAX_MAC_CONFIG_COUNT (cfg_mac_config c)"
    "member_ok schedule_params_ok schedule_params_zero MAX_SCHEDULE_PARAMS_COUNT (cfg_schedule_params c)"
    "member_ok schedule_entry_points_params_ok schedule_entry_points_params_zero MAX_SCHEDULE_ENTRY_POINTS_PARAMS_COUNT (cfg_schedule_entry_points_params c)"
    "member_ok vl_forwarding_params_ok vl_forwarding_params_zero MAX_VL_FORWARDING_PARAMS_COUNT (cfg_vl_forwarding_params c)"
    "member_ok l2_lookup_params_pqrs_ok l2_lookup_params_zero MAX_L2_LOOKUP_PARAMS_COUNT (cfg_l2_lookup_params c)"
    "member_ok l2_forwarding_params_ok l2_forwarding_params_zero MAX_L2_FORWARDING_PARAMS_COUNT (cfg_l2_forwarding_params c)"
    "member_ok avb_params_pqrs_ok avb_params_zero MAX_AVB_PARAMS_COUNT (cfg_avb_params c)"
    "member_ok general_params_pqrs_ok general_params_zero MAX_GENERAL_PARAMS_COUNT (cfg_general_params c)"
    "member_ok xmii_params_ok xmii_params_zero MAX_XMII_PARAMS_COUNT (cfg_xmii_params c)"
    "member_ok sgmii_ok sgmii_zero MAX_SGMII_COUNT (cfg_sgmii c)"
    using assms False by (simp_all only: tables_ok_def Let_def if_False simp_thms)
  show ?thesis
    unfolding tables_bytes_def Let_def if_not_P [OF False] append_assoc
    by (simp add: static_config_zero_def as_read_eq False ok first_entries_all [OF ok(1)]
      first_entries_all [OF ok(2)] first_entries_all [OF ok(3)] first_entries_all [OF ok(4)]
      first_entries_all [OF ok(5)] first_entries_all [OF ok(6)] first_entries_all [OF ok(7)]
      first_entries_all [OF ok(8)] first_entries_all [OF ok(9)] first_entries_all [OF
      ok(10)] first_entries_all [OF ok(11)] first_entries_all [OF ok(12)] first_entries_all
      [OF ok(13)] first_entries_all [OF ok(14)] first_entries_all [OF ok(15)]
      first_entries_all [OF ok(16)] first_entries_all [OF ok(17)] first_entries_all [OF
      ok(18)] first_entries_all [OF ok(19)]
      schedule_sec.unpack_section schedule_entry_points_sec.unpack_section
      vl_lookup_sec.unpack_section vl_policing_sec.unpack_section
      vl_forwarding_sec.unpack_section l2_lookup_pqrs_sec.unpack_section
      l2_policing_sec.unpack_section vlan_lookup_sec.unpack_section
      l2_forwarding_sec.unpack_section mac_config_pqrs_sec.unpack_section
      schedule_params_sec.unpack_section schedule_entry_points_params_sec.unpack_section
      vl_forwarding_params_sec.unpack_section l2_lookup_params_pqrs_sec.unpack_section
      l2_forwarding_params_sec.unpack_section avb_params_pqrs_sec.unpack_section
      general_params_pqrs_sec.unpack_section xmii_params_sec.unpack_section
      sgmii_sec.unpack_section del: One_nat_def)
qed

section \<open>Packing the whole configuration\<close>

lemma take_bit_valid_device: "DEVICE_ID_VALID d \<Longrightarrow> take_bit 32 d = d"
  by (auto simp: DEVICE_ID_VALID_def IS_ET_def IS_PQRS_def)

lemma final_header:
  "sja1105_table_header_pack buf (h\<lparr>hdr_block_id := 0, hdr_len := 0, hdr_crc := 0xDEADBEEF\<rparr>) =
     (table_header.bytes \<lparr>hdr_block_id = 0, hdr_len = 0, hdr_crc = 0xDEADBEEF\<rparr> @ drop 12 buf,
      \<lparr>hdr_block_id = 0, hdr_len = 0, hdr_crc = 0xDEADBEEF\<rparr>)"
  if "12 \<le> length buf"
proof -
  have h: "h\<lparr>hdr_block_id := 0, hdr_len := 0, hdr_crc := 0xDEADBEEF\<rparr> =
      \<lparr>hdr_block_id = 0, hdr_len = 0, hdr_crc = 0xDEADBEEF\<rparr>" by (cases h) simp
  show ?thesis
    unfolding h using table_header.pack_eq [of buf "\<lparr>hdr_block_id = 0, hdr_len = 0, hdr_crc = 0xDEADBEEF\<rparr>"] that
    by (simp add: sja1105_table_header_pack_def sja1105_table_header_access_def entry_pack_def truncate_header)
qed

lemma pack_config:
  assumes "DEVICE_ID_VALID (cfg_device_id c)" "tables_ok (sja1105_static_config_patch_fdb c)"
    "cfg_device_id (sja1105_static_config_patch_fdb c) = cfg_device_id c"
    "length (config_bytes (sja1105_static_config_patch_fdb c)) \<le> length buf"
  shows "sja1105_static_config_pack buf c =
    Some (0, config_bytes (sja1105_static_config_patch_fdb c) @
            drop (length (config_bytes (sja1105_static_config_patch_fdb c))) buf,
          sja1105_static_config_patch_fdb c)"
proof -
  define c' where "c' = sja1105_static_config_patch_fdb c"
  define hb where "hb = table_header.bytes \<lparr>hdr_block_id = 0, hdr_len = 0, hdr_crc = 0xDEADBEEF\<rparr>"
  define d where "d = cfg_device_id c"
  have d: "cfg_device_id c' = d" "take_bit 32 d = d" "c\<lparr>cfg_device_id := d\<rparr> = c"
    using assms(1,3) take_bit_valid_device by (simp_all add: c'_def d_def)
  have lhb: "length hb = 12" by (simp add: hb_def table_header.length_bytes)
  have bytes: "config_bytes c' = word_bytes d @ tables_bytes c' @ hb"
    by (simp add: config_bytes_def hb_def d)
  have room: "4 + (length (tables_bytes c') + 12) \<le> length buf"
    using assms(4) unfolding c'_def [symmetric] bytes by (simp add: word_bytes_spec lhb)
  define s0 where "s0 = \<lparr>pk_buf = buf, pk_p = 0, pk_header = table_header_zero\<rparr>"
  obtain s1 where s1: "write_at 4 (gtable_pack_word d) s0 = Some (d, s1)" "emits s0 (word_bytes d) (advance 4 s1)"
    using write_at_emits [of s0 4 "word_bytes d" "gtable_pack_word d" d] gtable_pack_word_eq [of buf d] room d(2)
    by (auto simp: s0_def word_bytes_spec)
  have "pk_p (advance 4 s1) + length (tables_bytes c') \<le> length (pk_buf (advance 4 s1))"
    using s1(2) room emits_length [OF s1(2)] by (simp add: emits_def s0_def word_bytes_spec)
  then obtain s2 where s2: "pack_tables (IS_ET d) (c', advance 4 s1) = Some (c', s2)"
    "emits (advance 4 s1) (tables_bytes c') s2"
    using writes_tables [of c'] assms(2) d(1) unfolding c'_def [symmetric] writes_def by auto
  have e2: "emits s0 (word_bytes d @ tables_bytes c') s2" using emits_trans [OF s1(2) s2(2)] .
  have room2: "pk_p s2 + 12 \<le> length (pk_buf s2)"
    using e2 room emits_length [OF e2] by (simp add: emits_def s0_def word_bytes_spec)
  obtain r s3 where s3: "write_at 12 (\<lambda>buf. sja1105_table_header_pack buf
        ((pk_header s2)\<lparr>hdr_block_id := 0, hdr_len := 0, hdr_crc := 0xDEADBEEF\<rparr>)) s2 = Some (r, s3)"
    "emits s2 hb (advance 12 s3)"
    using write_at_emits [of s2 12 hb "\<lambda>buf. sja1105_table_header_pack buf
        ((pk_header s2)\<lparr>hdr_block_id := 0, hdr_len := 0, hdr_crc := 0xDEADBEEF\<rparr>)"]
      final_header [of "drop (pk_p s2) (pk_buf s2)" "pk_header s2"] room2
    by (force simp: hb_def table_header.length_bytes)
  have "emits s0 ((word_bytes d @ tables_bytes c') @ hb) (advance 12 s3)" using emits_trans [OF e2 s3(2)] .
  then have buf: "pk_buf s3 = config_bytes c' @ drop (length (config_bytes c')) buf"
    by (simp add: emits_def advance_def s0_def bytes)
  show ?thesis
    using assms(1) s1(1) s2(1) s3(1) buf
    by (simp add: d(3) sja1105_static_config_pack_def d_def [symmetric] s0_def [symmetric] c'_def [symmetric])
qed

section \<open>Patching the indices of the static addresses\<close>

definition fdb_bin :: "l2_lookup_params_entry \<Rightarrow> l2_lookup_entry \<Rightarrow> u8" where
  "fdb_bin params e = fdb_hash (if l2lp_shared_learn params \<noteq> 0 then 0 else l2l_vlanid e)
     (l2l_macaddr e) (l2lp_poly params)"

text \<open>The number of the entries before \<open>i\<close> in the bin of entry \<open>i\<close>.\<close>

definition fdb_rank :: "l2_lookup_params_entry \<Rightarrow> (nat \<Rightarrow> l2_lookup_entry) \<Rightarrow> nat \<Rightarrow> u8 \<Rightarrow> nat" where
  "fdb_rank params es n b = length (filter (\<lambda>i. fdb_bin params (es i) = b) [0..<n])"

definition fdb_index :: "l2_lookup_params_entry \<Rightarrow> (nat \<Rightarrow> u8) \<Rightarrow> (nat \<Rightarrow> l2_lookup_entry) \<Rightarrow> nat \<Rightarrow> u64" where
  "fdb_index params bins es i =
     (let b = fdb_bin params (es i)
      in of_nat (4 * unat b + unat (bins (unat b) + of_nat (fdb_rank params es i b)) mod 4))"

definition fdb_bins :: "l2_lookup_params_entry \<Rightarrow> (nat \<Rightarrow> u8) \<Rightarrow> (nat \<Rightarrow> l2_lookup_entry) \<Rightarrow> nat \<Rightarrow> nat \<Rightarrow> u8" where
  "fdb_bins params bins es n x =
     (if x < 256 then bins x + of_nat (fdb_rank params es n (of_nat x)) else bins x)"

lemma unat_u8: "unat (b :: u8) < 256" "(of_nat (unat b) :: u8) = b"
  using unsigned_less [of b, where 'a = nat] by simp_all

lemma unat_of_nat_u8: "x < 256 \<Longrightarrow> unat (of_nat x :: u8) = x"
  by (simp add: unsigned_of_nat take_bit_nat_eq_self)

lemma of_nat_u8_eq: "x < 256 \<Longrightarrow> of_nat x = (b :: u8) \<longleftrightarrow> x = unat b"
  using unat_of_nat_u8 [of x] unat_u8(2) [of b] by auto

lemma fdb_bins_Suc:
  "(fdb_bins params bins es n)(unat (fdb_bin params (es n)) :=
       fdb_bins params bins es n (unat (fdb_bin params (es n))) + 1) = fdb_bins params bins es (Suc n)"
proof (rule ext)
  fix x
  define b where "b = fdb_bin params (es n)"
  show "((fdb_bins params bins es n)(unat (fdb_bin params (es n)) :=
       fdb_bins params bins es n (unat (fdb_bin params (es n))) + 1)) x = fdb_bins params bins es (Suc n) x"
    unfolding b_def [symmetric]
    using unat_u8 [of b] of_nat_u8_eq [of x b]
    by (cases "x = unat b") (auto simp: fdb_bins_def fdb_rank_def b_def [symmetric])
qed

text \<open>What the loop computes: only the indices and the counters change.\<close>

definition patched_fdb :: "nat \<Rightarrow> sja1105_static_config \<Rightarrow> sja1105_static_config" where
  "patched_fdb n c =
     (let params = entries (cfg_l2_lookup_params c) 0; es = entries (cfg_l2_lookup c); bins = cfg_entries_in_fdb_bin c
      in c\<lparr>cfg_entries_in_fdb_bin := fdb_bins params bins es n,
           cfg_l2_lookup := (cfg_l2_lookup c)\<lparr>entries :=
             (\<lambda>i. if i < n then (es i)\<lparr>l2l_index := fdb_index params bins es i\<rparr> else es i)\<rparr>\<rparr>)"

lemma patch_fdb_loop: "for_upto n patch_fdb_entry c = patched_fdb n c"
proof (induction n)
  case 0
  have "fdb_bins params bins es 0 = bins" for params bins es
    by (simp add: fun_eq_iff fdb_bins_def fdb_rank_def)
  then show ?case by (simp add: patched_fdb_def Let_def)
next
  case (Suc n)
  define params es bins where d: "params = entries (cfg_l2_lookup_params c) 0" "es = entries (cfg_l2_lookup c)"
    "bins = cfg_entries_in_fdb_bin c"
  define b where "b = fdb_bin params (es n)"
  have idx: "(of_nat (4 * unat b + unat (fdb_bins params bins es n (unat b) mod 4)) :: u64) = fdb_index params bins es n"
    using unat_u8 [of b] by (simp add: fdb_index_def Let_def b_def [symmetric] fdb_bins_def unat_mod)
  have ents: "(\<lambda>i. if i < n then (es i)\<lparr>l2l_index := fdb_index params bins es i\<rparr> else es i)
      (n := (es n)\<lparr>l2l_index := fdb_index params bins es n\<rparr>) =
    (\<lambda>i. if i < Suc n then (es i)\<lparr>l2l_index := fdb_index params bins es i\<rparr> else es i)"
    by (auto simp: fun_eq_iff less_Suc_eq)
  have "patch_fdb_entry n (patched_fdb n c) = patched_fdb (Suc n) c"
    using idx fdb_bins_Suc [of params bins es n] ents
    by (simp add: patch_fdb_entry_def patched_fdb_def Let_def d [symmetric] fdb_bin_def [symmetric]
        b_def [symmetric] set_entry_def)
  then show ?case by (simp add: Suc)
qed

lemma patch_fdb_eq: "sja1105_static_config_patch_fdb c = patched_fdb (nat (entry_count (cfg_l2_lookup c))) c"
  by (simp add: sja1105_static_config_patch_fdb_def patch_fdb_loop)

lemma fdb_index_fits: "take_bit 10 (fdb_index params bins es i) = fdb_index params bins es i"
  "fdb_index params bins es i div 4 = ucast (fdb_bin params (es i))"
proof -
  define b where "b = fdb_bin params (es i)"
  define r where "r = unat (bins (unat b) + of_nat (fdb_rank params es i b)) mod 4"
  have r: "r < 4" by (simp add: r_def)
  have v: "4 * unat b + r < 1024" using unat_u8(1) [of b] r by simp
  have i: "fdb_index params bins es i = of_nat (4 * unat b + r)"
    by (simp add: fdb_index_def Let_def b_def r_def)
  have u: "unat (of_nat (4 * unat b + r) :: u64) = 4 * unat b + r"
    using v by (simp only: unsigned_of_nat) (simp add: take_bit_nat_eq_self)
  show "take_bit 10 (fdb_index params bins es i) = fdb_index params bins es i"
    unfolding i by (simp only: word_unat_eq_iff unsigned_take_bit_eq u) (use v in \<open>simp add: take_bit_nat_eq_self\<close>)
  have "unat (of_nat (4 * unat b + r) div 4 :: u64) = (4 * unat b + r) div 4"
    by (simp only: unat_div u) simp
  also have "\<dots> = unat b" using r by simp
  also have "\<dots> = unat (ucast b :: u64)"
    using unat_u8(1) [of b] by (simp add: unsigned_ucast_eq take_bit_nat_eq_self)
  finally show "fdb_index params bins es i div 4 = ucast (fdb_bin params (es i))"
    unfolding i b_def [symmetric] by (simp only: word_unat_eq_iff)
qed

lemma l2_lookup_ok_index:
  "take_bit 10 v = v \<Longrightarrow> l2_lookup_et_ok e \<Longrightarrow> l2_lookup_et_ok (e\<lparr>l2l_index := v\<rparr>)"
  "take_bit 10 v = v \<Longrightarrow> l2_lookup_pqrs_ok e \<Longrightarrow> l2_lookup_pqrs_ok (e\<lparr>l2l_index := v\<rparr>)"
  by (simp_all add: l2_lookup_et_ok_def l2_lookup_pqrs_ok_def table_shapes fits_def table_layouts fld_def width_def)

lemma member_ok_mapped:
  assumes "member_ok ok zero mx m" "\<And>i. ok (entries m i) \<Longrightarrow> ok (f i (entries m i))"
  shows "member_ok ok zero mx (m\<lparr>entries := (\<lambda>i. if i < nat (entry_count m) then f i (entries m i) else entries m i)\<rparr>)"
  using assms by (auto simp: member_ok_def split: if_splits)

lemma patch_fdb_device [simp]:
  "cfg_device_id (sja1105_static_config_patch_fdb c) = cfg_device_id c"
  by (simp add: patch_fdb_eq patched_fdb_def Let_def)

lemma tables_ok_patch_fdb: "tables_ok c \<Longrightarrow> tables_ok (sja1105_static_config_patch_fdb c)"
proof -
  assume ok: "tables_ok c"
  define m where "m = cfg_l2_lookup c"
  define m' where "m' = m\<lparr>entries := (\<lambda>i. if i < nat (entry_count m)
     then (entries m i)\<lparr>l2l_index := fdb_index (entries (cfg_l2_lookup_params c) 0) (cfg_entries_in_fdb_bin c) (entries m) i\<rparr>
     else entries m i)\<rparr>"
  have "member_ok l2_lookup_et_ok l2_lookup_zero 1024 m \<Longrightarrow> member_ok l2_lookup_et_ok l2_lookup_zero 1024 m'"
    "member_ok l2_lookup_pqrs_ok l2_lookup_zero 1024 m \<Longrightarrow> member_ok l2_lookup_pqrs_ok l2_lookup_zero 1024 m'"
    unfolding m'_def
    by (rule member_ok_mapped, assumption, rule l2_lookup_ok_index, rule fdb_index_fits, assumption)+
  moreover have "sja1105_static_config_patch_fdb c =
      c\<lparr>cfg_entries_in_fdb_bin := cfg_entries_in_fdb_bin (sja1105_static_config_patch_fdb c), cfg_l2_lookup := m'\<rparr>"
    unfolding patch_fdb_eq patched_fdb_def Let_def m'_def m_def by simp
  then obtain bins where "sja1105_static_config_patch_fdb c = c\<lparr>cfg_entries_in_fdb_bin := bins, cfg_l2_lookup := m'\<rparr>"
    by blast
  ultimately show ?thesis using ok
    by (cases "IS_ET (cfg_device_id c)") (simp_all add: tables_ok_def Let_def m_def del: One_nat_def)
qed

section \<open>Unpacking the whole configuration\<close>

lemma patch_vllupformat_loop:
  "for_upto n (\<lambda>i c. c\<lparr>cfg_vl_lookup := set_entry i
      (\<lambda>e. e\<lparr>vll_format := gen_vllupformat (entries (cfg_general_params c) 0)\<rparr>) (cfg_vl_lookup c)\<rparr>) c =
   c\<lparr>cfg_vl_lookup := (cfg_vl_lookup c)\<lparr>entries := (\<lambda>i. if i < n
      then (entries (cfg_vl_lookup c) i)\<lparr>vll_format := gen_vllupformat (entries (cfg_general_params c) 0)\<rparr>
      else entries (cfg_vl_lookup c) i)\<rparr>\<rparr>"
proof (induction n)
  case (Suc n)
  have "(\<lambda>i. if i < n then f i else g i)(n := f n) = (\<lambda>i. if i < Suc n then f i else g i)" for f g :: "nat \<Rightarrow> vl_lookup_entry"
    by (auto simp: fun_eq_iff less_Suc_eq)
  from this [of "\<lambda>i. (entries (cfg_vl_lookup c) i)\<lparr>vll_format := gen_vllupformat (entries (cfg_general_params c) 0)\<rparr>"
      "entries (cfg_vl_lookup c)"] show ?case unfolding for_upto.simps Suc by (simp add: set_entry_def cong del: if_weak_cong)
qed simp

definition formats_agree :: "sja1105_static_config \<Rightarrow> bool" where
  "formats_agree c \<longleftrightarrow> (\<forall>i < nat (entry_count (cfg_vl_lookup c)).
     vll_format (entries (cfg_vl_lookup c) i) = gen_vllupformat (entries (cfg_general_params c) 0))"

lemma patch_vllupformat_as_read:
  assumes "formats_agree c" "member_ok ok vl_lookup_zero mx (cfg_vl_lookup c)"
  shows "sja1105_static_config_patch_vllupformat (as_read c) = c\<lparr>cfg_entries_in_fdb_bin := \<lambda>_. 0\<rparr>"
proof -
  define m where "m = cfg_vl_lookup c"
  define n where "n = nat (entry_count m)"
  define g where "g = gen_vllupformat (entries (cfg_general_params c) 0)"
  have cnt: "int n = entry_count m" "\<And>i. \<not> i < n \<Longrightarrow> entries m i = vl_lookup_zero"
    using assms(2) by (auto simp: member_ok_def m_def n_def split: if_splits)
  have "(if i < n then (entries (first_entries (vll_format_update (\<lambda>_. 0)) vl_lookup_zero n m) i)\<lparr>vll_format := g\<rparr>
      else entries (first_entries (vll_format_update (\<lambda>_. 0)) vl_lookup_zero n m) i) = entries m i" for i
  proof (cases "i < n")
    case True
    then have "vll_format (entries m i) = g" using assms(1) by (simp add: formats_agree_def m_def n_def g_def)
    then show ?thesis using True by (cases "entries m i") (simp add: first_entries_def)
  qed (simp add: first_entries_def cnt(2))
  then have m: "(first_entries (vll_format_update (\<lambda>_. 0)) vl_lookup_zero n m)\<lparr>entries :=
     (\<lambda>i. if i < n then (entries (first_entries (vll_format_update (\<lambda>_. 0)) vl_lookup_zero n m) i)\<lparr>vll_format := g\<rparr>
      else entries (first_entries (vll_format_update (\<lambda>_. 0)) vl_lookup_zero n m) i)\<rparr> = m"
    using cnt(1) by (simp add: first_entries_def)
  have "c\<lparr>cfg_vl_lookup := m\<rparr> = c" by (simp add: m_def)
  have "sja1105_static_config_patch_vllupformat (as_read c) = (as_read c)\<lparr>cfg_vl_lookup := m\<rparr>"
  proof -
    have a: "cfg_vl_lookup (as_read c) = first_entries (vll_format_update (\<lambda>_. 0)) vl_lookup_zero n m"
      "gen_vllupformat (entries (cfg_general_params (as_read c)) 0) = g"
      by (simp_all add: as_read_def m_def n_def g_def)
    have n: "nat (entry_count (first_entries (vll_format_update (\<lambda>_. 0)) vl_lookup_zero n m)) = n"
      by (simp add: first_entries_def)
    show ?thesis
      unfolding sja1105_static_config_patch_vllupformat_def patch_vllupformat_loop a n m ..
  qed
  also have "\<dots> = c\<lparr>cfg_entries_in_fdb_bin := \<lambda>_. 0\<rparr>" by (simp add: as_read_def m_def)
  finally show ?thesis .
qed

text \<open>The counters after unpacking: the number of entries whose index lies in each bin.\<close>

definition bins_counted :: "(nat \<Rightarrow> l2_lookup_entry) \<Rightarrow> nat \<Rightarrow> (nat \<Rightarrow> u8) \<Rightarrow> nat \<Rightarrow> u8" where
  "bins_counted es n bins x =
     (if x < 256
      then bins x + of_nat (length (filter (\<lambda>i. ucast (l2l_index (es i) div 4) = (of_nat x :: u8)) [0..<n]))
      else bins x)"

lemma count_fdb_bin_loop:
  "for_upto n count_fdb_bin c =
     c\<lparr>cfg_entries_in_fdb_bin := bins_counted (entries (cfg_l2_lookup c)) n (cfg_entries_in_fdb_bin c)\<rparr>"
proof (induction n)
  case 0
  then show ?case by (simp add: bins_counted_def cong: if_cong)
next
  case (Suc n)
  define es bins where "es = entries (cfg_l2_lookup c)" and "bins = cfg_entries_in_fdb_bin c"
  define b :: u8 where "b = ucast (l2l_index (es n) div 4)"
  have "((bins_counted es n bins)(unat b := bins_counted es n bins (unat b) + 1)) x = bins_counted es (Suc n) bins x" for x
    using unat_u8 [of b] of_nat_u8_eq [of x b]
    by (cases "x = unat b") (auto simp: bins_counted_def b_def [symmetric])
  then have "(bins_counted es n bins)(unat b := bins_counted es n bins (unat b) + 1) = bins_counted es (Suc n) bins"
    by (rule ext)
  then show ?case
    unfolding for_upto.simps Suc
    by (simp add: count_fdb_bin_def Let_def es_def [symmetric] bins_def [symmetric] b_def [symmetric])
qed

lemma unpack_config:
  assumes "DEVICE_ID_VALID (cfg_device_id c)" "tables_ok c" "formats_agree c"
  shows "sja1105_static_config_unpack (config_bytes c @ r) =
    Some (0, c\<lparr>cfg_entries_in_fdb_bin :=
      bins_counted (entries (cfg_l2_lookup c)) (nat (entry_count (cfg_l2_lookup c))) (\<lambda>_. 0)\<rparr>)"
proof -
  define hb where "hb = table_header.bytes \<lparr>hdr_block_id = 0, hdr_len = 0, hdr_crc = 0xDEADBEEF\<rparr>"
  have bytes: "config_bytes c @ r = word_bytes (cfg_device_id c) @ tables_bytes c @ hb @ r"
    by (simp add: config_bytes_def hb_def)
  have "fits table_header_layout \<lparr>hdr_block_id = 0, hdr_len = 0, hdr_crc = 0xDEADBEEF\<rparr>"
    by (simp add: fits_def table_header_layout_def fld_def width_def)
  from table_header.roundtrip(2) [OF _ this, of "replicate 12 0" r table_header_zero]
  have "hdr_len (sja1105_table_header_unpack (hb @ r) table_header_zero) = 0"
    by (simp add: hb_def table_header_shape_def sja1105_table_header_unpack_def entry_unpack_def
        sja1105_table_header_access_def)
  then have "unpack_tables (hb @ r) (as_read c) = Some (0, as_read c)"
    by (subst unpack_tables.simps) (simp add: hb_def table_header.length_bytes Let_def)
  then have "unpack_tables (tables_bytes c @ hb @ r) (static_config_zero\<lparr>cfg_device_id := cfg_device_id c\<rparr>) =
      Some (0, as_read c)"
    using unpack_tables_bytes [OF assms(2)] by simp
  moreover have "fst (snd (gtable_unpack (config_bytes c @ r) 0 31 0 4)) = cfg_device_id c"
    unfolding bytes read_word_bytes using take_bit_valid_device [OF assms(1)] .
  moreover have "sja1105_static_config_patch_vllupformat (as_read c) = c\<lparr>cfg_entries_in_fdb_bin := \<lambda>_. 0\<rparr>"
    using assms(2) patch_vllupformat_as_read [OF assms(3), of vl_lookup_ok 1024]
    by (simp add: tables_ok_def Let_def)
  moreover have "drop 4 (config_bytes c @ r) = tables_bytes c @ hb @ r" "4 \<le> length (config_bytes c @ r)"
    unfolding bytes by (simp_all add: word_bytes_spec)
  ultimately show ?thesis
    using assms(1) by (simp add: sja1105_static_config_unpack_def Let_def count_fdb_bin_loop)
qed

section \<open>The length of the packed configuration\<close>

text \<open>The number of bytes a table takes.\<close>

definition section_len :: "'e static_config_member \<Rightarrow> nat \<Rightarrow> nat" where
  "section_len m sz = (if entry_count m = 0 then 0 else 16 + nat (entry_count m) * sz)"

lemma section_length_word:
  assumes "0 \<le> entry_count m"
  shows "of_nat (section_len m sz) =
    (if entry_count m \<noteq> 0 then 1 else 0) * 16 + of_int (entry_count m) * (of_nat sz :: u32)"
proof -
  have "(of_int (entry_count m) :: u32) = of_nat (nat (entry_count m))" using assms by simp
  then show ?thesis by (simp add: section_len_def)
qed

lemmas length_sections =
  schedule_acc.length_section [folded section_len_def]
  schedule_entry_points_acc.length_section [folded section_len_def]
  vl_lookup_acc.length_section [folded section_len_def] vl_policing_acc.length_section
  [folded section_len_def] vl_forwarding_acc.length_section [folded section_len_def]
  l2_lookup_et_acc.length_section [folded section_len_def] l2_lookup_pqrs_acc.length_section
  [folded section_len_def] l2_policing_acc.length_section [folded section_len_def]
  vlan_lookup_acc.length_section [folded section_len_def] l2_forwarding_acc.length_section
  [folded section_len_def] mac_config_et_acc.length_section [folded section_len_def]
  mac_config_pqrs_acc.length_section [folded section_len_def]
  schedule_params_acc.length_section [folded section_len_def]
  schedule_entry_points_params_acc.length_section [folded section_len_def]
  vl_forwarding_params_acc.length_section [folded section_len_def]
  l2_lookup_params_et_acc.length_section [folded section_len_def]
  l2_lookup_params_pqrs_acc.length_section [folded section_len_def]
  l2_forwarding_params_acc.length_section [folded section_len_def]
  avb_params_et_acc.length_section [folded section_len_def]
  avb_params_pqrs_acc.length_section [folded section_len_def]
  general_params_et_acc.length_section [folded section_len_def]
  general_params_pqrs_acc.length_section [folded section_len_def]
  xmii_params_acc.length_section [folded section_len_def] sgmii_acc.length_section [folded
  section_len_def]

lemma section_len_bound:
  assumes "entry_count m \<le> 4096" "sz \<le> 144"
  shows "section_len m sz \<le> 589840"
proof -
  have "nat (entry_count m) \<le> 4096" using assms(1) by simp
  from mult_le_mono [OF this assms(2)] show ?thesis by (simp add: section_len_def)
qed

lemma get_length_config:
  assumes "DEVICE_ID_VALID (cfg_device_id c)" "tables_ok c"
  shows "unat (sja1105_static_config_get_length c) = length (config_bytes c)"
proof -
  have pq: "IS_PQRS (cfg_device_id c) \<longleftrightarrow> \<not> IS_ET (cfg_device_id c)"
    using assms(1) device_families_disjoint by (auto simp: DEVICE_ID_VALID_def)
  define et where "et = IS_ET (cfg_device_id c)"
  have nn:
    "0 \<le> entry_count (cfg_schedule c)"
    "0 \<le> entry_count (cfg_schedule_entry_points c)"
    "0 \<le> entry_count (cfg_vl_lookup c)"
    "0 \<le> entry_count (cfg_vl_policing c)"
    "0 \<le> entry_count (cfg_vl_forwarding c)"
    "0 \<le> entry_count (cfg_l2_lookup c)"
    "0 \<le> entry_count (cfg_l2_policing c)"
    "0 \<le> entry_count (cfg_vlan_lookup c)"
    "0 \<le> entry_count (cfg_l2_forwarding c)"
    "0 \<le> entry_count (cfg_mac_config c)"
    "0 \<le> entry_count (cfg_schedule_params c)"
    "0 \<le> entry_count (cfg_schedule_entry_points_params c)"
    "0 \<le> entry_count (cfg_vl_forwarding_params c)"
    "0 \<le> entry_count (cfg_l2_lookup_params c)"
    "0 \<le> entry_count (cfg_l2_forwarding_params c)"
    "0 \<le> entry_count (cfg_avb_params c)"
    "0 \<le> entry_count (cfg_general_params c)"
    "0 \<le> entry_count (cfg_xmii_params c)"
    "0 \<le> entry_count (cfg_sgmii c)"
    using assms(2) by (auto simp: tables_ok_def Let_def member_ok_def split: if_splits)
  have le:
    "entry_count (cfg_schedule c) \<le> 4096"
    "entry_count (cfg_schedule_entry_points c) \<le> 4096"
    "entry_count (cfg_vl_lookup c) \<le> 4096"
    "entry_count (cfg_vl_policing c) \<le> 4096"
    "entry_count (cfg_vl_forwarding c) \<le> 4096"
    "entry_count (cfg_l2_lookup c) \<le> 4096"
    "entry_count (cfg_l2_policing c) \<le> 4096"
    "entry_count (cfg_vlan_lookup c) \<le> 4096"
    "entry_count (cfg_l2_forwarding c) \<le> 4096"
    "entry_count (cfg_mac_config c) \<le> 4096"
    "entry_count (cfg_schedule_params c) \<le> 4096"
    "entry_count (cfg_schedule_entry_points_params c) \<le> 4096"
    "entry_count (cfg_vl_forwarding_params c) \<le> 4096"
    "entry_count (cfg_l2_lookup_params c) \<le> 4096"
    "entry_count (cfg_l2_forwarding_params c) \<le> 4096"
    "entry_count (cfg_avb_params c) \<le> 4096"
    "entry_count (cfg_general_params c) \<le> 4096"
    "entry_count (cfg_xmii_params c) \<le> 4096"
    "entry_count (cfg_sgmii c) \<le> 4096"
    using assms(2) by (auto simp: tables_ok_def Let_def member_ok_def split: if_splits)
  have bound:
    "section_len (cfg_schedule c) SIZE_SCHEDULE_ENTRY \<le> 589840"
    "section_len (cfg_schedule_entry_points c) SIZE_SCHEDULE_ENTRY_POINTS_ENTRY \<le> 589840"
    "section_len (cfg_vl_lookup c) SIZE_VL_LOOKUP_ENTRY \<le> 589840"
    "section_len (cfg_vl_policing c) SIZE_VL_POLICING_ENTRY \<le> 589840"
    "section_len (cfg_vl_forwarding c) SIZE_VL_FORWARDING_ENTRY \<le> 589840"
    "section_len (cfg_l2_lookup c) (if et then SIZE_L2_LOOKUP_ENTRY_ET else SIZE_L2_LOOKUP_ENTRY_PQRS) \<le> 589840"
    "section_len (cfg_l2_policing c) SIZE_L2_POLICING_ENTRY \<le> 589840"
    "section_len (cfg_vlan_lookup c) SIZE_VLAN_LOOKUP_ENTRY \<le> 589840"
    "section_len (cfg_l2_forwarding c) SIZE_L2_FORWARDING_ENTRY \<le> 589840"
    "section_len (cfg_mac_config c) (if et then SIZE_MAC_CONFIG_ENTRY_ET else SIZE_MAC_CONFIG_ENTRY_PQRS) \<le> 589840"
    "section_len (cfg_schedule_params c) SIZE_SCHEDULE_PARAMS_ENTRY \<le> 589840"
    "section_len (cfg_schedule_entry_points_params c) SIZE_SCHEDULE_ENTRY_POINTS_PARAMS_ENTRY \<le> 589840"
    "section_len (cfg_vl_forwarding_params c) SIZE_VL_FORWARDING_PARAMS_ENTRY \<le> 589840"
    "section_len (cfg_l2_lookup_params c) (if et then SIZE_L2_LOOKUP_PARAMS_ENTRY_ET else SIZE_L2_LOOKUP_PARAMS_ENTRY_PQRS) \<le> 589840"
    "section_len (cfg_l2_forwarding_params c) SIZE_L2_FORWARDING_PARAMS_ENTRY \<le> 589840"
    "section_len (cfg_avb_params c) (if et then SIZE_AVB_PARAMS_ENTRY_ET else SIZE_AVB_PARAMS_ENTRY_PQRS) \<le> 589840"
    "section_len (cfg_general_params c) (if et then SIZE_GENERAL_PARAMS_ENTRY_ET else SIZE_GENERAL_PARAMS_ENTRY_PQRS) \<le> 589840"
    "section_len (cfg_xmii_params c) SIZE_XMII_MODE_PARAMS_ENTRY \<le> 589840"
    "section_len (cfg_sgmii c) SIZE_SGMII_ENTRY \<le> 589840"
    using le by (simp_all add: section_len_bound)
  have len: "length (config_bytes c) = 16 + (section_len (cfg_schedule c) SIZE_SCHEDULE_ENTRY +
      section_len (cfg_schedule_entry_points c) SIZE_SCHEDULE_ENTRY_POINTS_ENTRY +
      section_len (cfg_vl_lookup c) SIZE_VL_LOOKUP_ENTRY +
      section_len (cfg_vl_policing c) SIZE_VL_POLICING_ENTRY +
      section_len (cfg_vl_forwarding c) SIZE_VL_FORWARDING_ENTRY +
      section_len (cfg_l2_lookup c) (if et then SIZE_L2_LOOKUP_ENTRY_ET else SIZE_L2_LOOKUP_ENTRY_PQRS) +
      section_len (cfg_l2_policing c) SIZE_L2_POLICING_ENTRY +
      section_len (cfg_vlan_lookup c) SIZE_VLAN_LOOKUP_ENTRY +
      section_len (cfg_l2_forwarding c) SIZE_L2_FORWARDING_ENTRY +
      section_len (cfg_mac_config c) (if et then SIZE_MAC_CONFIG_ENTRY_ET else SIZE_MAC_CONFIG_ENTRY_PQRS) +
      section_len (cfg_schedule_params c) SIZE_SCHEDULE_PARAMS_ENTRY +
      section_len (cfg_schedule_entry_points_params c) SIZE_SCHEDULE_ENTRY_POINTS_PARAMS_ENTRY +
      section_len (cfg_vl_forwarding_params c) SIZE_VL_FORWARDING_PARAMS_ENTRY +
      section_len (cfg_l2_lookup_params c) (if et then SIZE_L2_LOOKUP_PARAMS_ENTRY_ET else SIZE_L2_LOOKUP_PARAMS_ENTRY_PQRS) +
      section_len (cfg_l2_forwarding_params c) SIZE_L2_FORWARDING_PARAMS_ENTRY +
      section_len (cfg_avb_params c) (if et then SIZE_AVB_PARAMS_ENTRY_ET else SIZE_AVB_PARAMS_ENTRY_PQRS) +
      section_len (cfg_general_params c) (if et then SIZE_GENERAL_PARAMS_ENTRY_ET else SIZE_GENERAL_PARAMS_ENTRY_PQRS) +
      section_len (cfg_xmii_params c) SIZE_XMII_MODE_PARAMS_ENTRY +
      section_len (cfg_sgmii c) SIZE_SGMII_ENTRY)"
  proof (cases "IS_ET (cfg_device_id c)")
    case True
    then have "et" by (simp add: et_def)
    then show ?thesis
      unfolding config_bytes_def tables_bytes_def Let_def if_P [OF True]
      by (simp add: word_bytes_spec table_header.length_bytes length_sections)
  next
    case False
    then have "\<not> et" by (simp add: et_def)
    then show ?thesis
      unfolding config_bytes_def tables_bytes_def Let_def if_not_P [OF False]
      by (simp add: word_bytes_spec table_header.length_bytes length_sections)
  qed
  have "length (config_bytes c) < 2 ^ 32" unfolding len using bound by simp
  moreover have "sja1105_static_config_get_length c = of_nat (length (config_bytes c))"
    unfolding len sja1105_static_config_get_length_def Let_def pq et_def [symmetric]
    using nn by (simp add: section_length_word algebra_simps)
  ultimately show ?thesis by (simp add: unsigned_of_nat take_bit_nat_eq_self)
qed

section \<open>Properties of the configuration\<close>

lemma get_length_patch_fdb:
  "sja1105_static_config_get_length (sja1105_static_config_patch_fdb c) = sja1105_static_config_get_length c"
  by (simp add: sja1105_static_config_get_length_def Let_def patch_fdb_eq patched_fdb_def)

lemma formats_agree_patch_fdb: "formats_agree c \<Longrightarrow> formats_agree (sja1105_static_config_patch_fdb c)"
  by (simp add: formats_agree_def patch_fdb_eq patched_fdb_def Let_def)

lemma ucast_ucast_u8: "ucast (ucast (b :: u8) :: u64) = b"
  by (rule word_bits_eqI) (auto simp: bit_ucast_iff dest: bit_imp_le_length)

text \<open>The counters that unpacking makes are those that packing left, when packing started from none.\<close>

lemma bins_counted_patch_fdb:
  assumes "cfg_entries_in_fdb_bin c = (\<lambda>_. 0)"
  shows "bins_counted (entries (cfg_l2_lookup (sja1105_static_config_patch_fdb c)))
      (nat (entry_count (cfg_l2_lookup (sja1105_static_config_patch_fdb c)))) (\<lambda>_. 0) =
    cfg_entries_in_fdb_bin (sja1105_static_config_patch_fdb c)"
proof -
  define n where "n = nat (entry_count (cfg_l2_lookup c))"
  define params es where "params = entries (cfg_l2_lookup_params c) 0" and "es = entries (cfg_l2_lookup c)"
  define es' where "es' = (\<lambda>i. if i < n then (es i)\<lparr>l2l_index := fdb_index params (\<lambda>_. 0) es i\<rparr> else es i)"
  have p: "entries (cfg_l2_lookup (sja1105_static_config_patch_fdb c)) = es'"
    "entry_count (cfg_l2_lookup (sja1105_static_config_patch_fdb c)) = entry_count (cfg_l2_lookup c)"
    "cfg_entries_in_fdb_bin (sja1105_static_config_patch_fdb c) = fdb_bins params (\<lambda>_. 0) es n"
    using assms
    by (simp_all add: patch_fdb_eq patched_fdb_def Let_def n_def params_def es_def es'_def cong del: if_weak_cong)
  have "ucast (l2l_index (es' i) div 4) = fdb_bin params (es i)" if "i < n" for i
    using that fdb_index_fits(2) [of params "\<lambda>_. 0" es i] by (simp add: es'_def ucast_ucast_u8)
  then have "filter (\<lambda>i. ucast (l2l_index (es' i) div 4) = b) [0..<n] = filter (\<lambda>i. fdb_bin params (es i) = b) [0..<n]" for b
    by (intro filter_cong) auto
  then show ?thesis
    unfolding p n_def [symmetric]
    by (simp add: fun_eq_iff bins_counted_def fdb_bins_def fdb_rank_def)
qed

text \<open>A small configuration of an SJA1105T: two static addresses and one VLAN.\<close>

definition example_config :: sja1105_static_config where
  "example_config = static_config_zero\<lparr>
     cfg_device_id := SJA1105T_DEVICE_ID,
     cfg_l2_lookup := \<lparr>entries = (\<lambda>_. l2_lookup_zero)
       (0 := l2_lookup_zero\<lparr>l2l_vlanid := 1, l2l_macaddr := 0x0180C200000E, l2l_destports := 4\<rparr>,
        1 := l2_lookup_zero\<lparr>l2l_vlanid := 1, l2l_macaddr := 0x0180C2000000, l2l_destports := 2\<rparr>), entry_count = 2\<rparr>,
     cfg_vlan_lookup := \<lparr>entries = (\<lambda>_. vlan_lookup_zero)
       (0 := vlan_lookup_zero\<lparr>vln_vlanid := 1, vln_vmemb_port := 31\<rparr>), entry_count = 1\<rparr>\<rparr>"

lemma member_ok_no_entries: "member_ok ok zero n (no_entries zero)"
  by (simp add: member_ok_def no_entries_def)

lemma example_config_ok:
  "DEVICE_ID_VALID (cfg_device_id example_config)" "tables_ok example_config" "formats_agree example_config"
  "cfg_entries_in_fdb_bin example_config = (\<lambda>_. 0)"
  "sja1105_static_config_get_length example_config = 80"
proof -
  have l2: "l2_lookup_et_ok (entries (cfg_l2_lookup example_config) 0)"
    "l2_lookup_et_ok (entries (cfg_l2_lookup example_config) 1)"
    by (simp_all add: example_config_def l2_lookup_et_ok_def table_shapes fits_def table_layouts fld_def width_def
        table_zeros)
  have vlan: "vlan_lookup_ok (entries (cfg_vlan_lookup example_config) 0)"
    by (simp add: example_config_def vlan_lookup_ok_def table_shapes fits_def table_layouts fld_def width_def
        table_zeros)
  have "member_ok l2_lookup_et_ok l2_lookup_zero 1024 (cfg_l2_lookup example_config)"
    "member_ok vlan_lookup_ok vlan_lookup_zero 4096 (cfg_vlan_lookup example_config)"
    using l2 vlan by (auto simp: member_ok_def example_config_def less_2_cases_iff)
  then show "tables_ok example_config"
    by (simp add: tables_ok_def Let_def example_config_def static_config_zero_def member_ok_no_entries IS_ET_def)
qed (simp_all add: example_config_def DEVICE_ID_VALID_def IS_ET_def IS_PQRS_def formats_agree_def
    static_config_zero_def no_entries_def sja1105_static_config_get_length_def Let_def)

text \<open>
  C1: packing a well-formed configuration into a buffer of at least the computed length returns 0, and
  unpacking that buffer gives back exactly the configuration that packing left (the one with patched
  indices of static addresses), whatever follows it in the buffer.
\<close>

theorem static_config_pack_then_unpack:
  assumes "DEVICE_ID_VALID (cfg_device_id c)" "tables_ok c" "formats_agree c"
    "cfg_entries_in_fdb_bin c = (\<lambda>_. 0)" "unat (sja1105_static_config_get_length c) \<le> length buf"
  shows "\<exists>buf'. sja1105_static_config_pack buf c = Some (0, buf', sja1105_static_config_patch_fdb c) \<and>
    sja1105_static_config_unpack (buf' @ r) = Some (0, sja1105_static_config_patch_fdb c)"
proof -
  define c' where "c' = sja1105_static_config_patch_fdb c"
  have c': "DEVICE_ID_VALID (cfg_device_id c')" "tables_ok c'" "formats_agree c'" "cfg_device_id c' = cfg_device_id c"
    using assms(1-3) tables_ok_patch_fdb formats_agree_patch_fdb by (simp_all add: c'_def)
  have len: "length (config_bytes c') \<le> length buf"
    using assms(5) get_length_config [OF c'(1,2)] get_length_patch_fdb [of c] by (simp add: c'_def)
  have "sja1105_static_config_pack buf c =
      Some (0, config_bytes c' @ drop (length (config_bytes c')) buf, c')"
    using pack_config [OF assms(1), of buf] c' len by (simp add: c'_def)
  moreover have "sja1105_static_config_unpack (config_bytes c' @ drop (length (config_bytes c')) buf @ r) = Some (0, c')"
    using unpack_config [OF c'(1-3)] bins_counted_patch_fdb [OF assms(4)] by (simp add: c'_def)
  ultimately show ?thesis by (simp add: c'_def)
qed

theorem static_config_pack_then_unpack_witness:
  "\<exists>buf'. sja1105_static_config_pack (replicate 80 0) example_config =
      Some (0, buf', sja1105_static_config_patch_fdb example_config) \<and>
    sja1105_static_config_unpack (buf' @ [7]) = Some (0, sja1105_static_config_patch_fdb example_config)"
  by (rule static_config_pack_then_unpack [OF example_config_ok(1-4)]) (simp add: example_config_ok)



lemma fdb_rank_mono: "k < l \<Longrightarrow>
    fdb_rank params es k (fdb_bin params (es k)) < fdb_rank params es l (fdb_bin params (es k))"
proof -
  assume "k < l"
  then have "[0..<l] = [0..<Suc k] @ [Suc k..<l]"
    by (metis Suc_leI le0 upt_add_eq_append le_add_diff_inverse)
  then show ?thesis by (simp add: fdb_rank_def)
qed

lemma fdb_index_val:
  assumes "fdb_rank params es k (fdb_bin params (es k)) < 4"
  shows "unat (fdb_index params (\<lambda>_. 0) es k) =
    4 * unat (fdb_bin params (es k)) + fdb_rank params es k (fdb_bin params (es k))"
proof -
  define b r where "b = fdb_bin params (es k)" and "r = fdb_rank params es k b"
  have r: "r < 4" using assms by (simp add: b_def r_def)
  have "4 * unat b + r < 1024" using unat_u8(1) [of b] r by simp
  then have "unat (of_nat (4 * unat b + r) :: u64) = 4 * unat b + r"
    by (simp only: unsigned_of_nat) (simp add: take_bit_nat_eq_self)
  moreover have "unat (0 + of_nat r :: u8) mod 4 = r" using r unat_of_nat_u8 [of r] by simp
  ultimately show ?thesis by (simp add: fdb_index_def Let_def b_def [symmetric] r_def [symmetric])
qed

lemma fdb_index_distinct:
  assumes "\<forall>k < n. fdb_rank params es k (fdb_bin params (es k)) < 4" "i < n" "j < n" "i \<noteq> j"
  shows "fdb_index params (\<lambda>_. 0) es i \<noteq> fdb_index params (\<lambda>_. 0) es j"
proof
  assume "fdb_index params (\<lambda>_. 0) es i = fdb_index params (\<lambda>_. 0) es j"
  then have e: "4 * unat (fdb_bin params (es i)) + fdb_rank params es i (fdb_bin params (es i)) =
      4 * unat (fdb_bin params (es j)) + fdb_rank params es j (fdb_bin params (es j))"
    using fdb_index_val [of params es i] fdb_index_val [of params es j] assms(1,2,3) by simp
  moreover have "fdb_rank params es i (fdb_bin params (es i)) < 4" "fdb_rank params es j (fdb_bin params (es j)) < 4"
    using assms(1,2,3) by simp_all
  ultimately have "unat (fdb_bin params (es i)) = unat (fdb_bin params (es j))" by simp
  then have "fdb_bin params (es i) = fdb_bin params (es j)" by (simp add: word_unat_eq_iff)
  then show False
    using e fdb_rank_mono [of i j params es] fdb_rank_mono [of j i params es] assms(4) by (cases "i < j") auto
qed


lemma fdb_rank_le: "fdb_rank params es n b \<le> n"
  unfolding fdb_rank_def by (rule order_trans [OF length_filter_le]) simp


lemma ucast_ucast_u32: "ucast (ucast (x :: u32) :: u64) = x"
  by (rule word_bits_eqI) (auto simp: bit_ucast_iff dest: bit_imp_le_length)

lemma sum_8: "(\<Sum>i<8. f i) = f 0 + f 1 + f 2 + f 3 + f 4 + f 5 + f 6 + f (7 :: nat)" for f :: "nat \<Rightarrow> nat"
  by (simp add: numeral_eq_Suc)

lemma unpack_tables_first:
  assumes "unpack_tables (h @ body @ crc @ r) c = Some (0, c')" "length h = 12" "length crc = 4"
    "length body = 4 * unat (hdr_len (sja1105_table_header_unpack h table_header_zero))" "body \<noteq> []"
    "sja1105_table_header_unpack (h @ body @ crc @ r) table_header_zero = sja1105_table_header_unpack h table_header_zero"
  shows "ucast (ether_crc32_le body (length body)) = fst (snd (gtable_unpack (crc @ r) 0 31 0 4))"
proof -
  have "ether_crc32_le (body @ crc @ r) (length body) = ether_crc32_le body (length body)"
    using ether_crc32_le_take [of "length body" "body @ crc @ r"] assms(4) by simp
  moreover have "hdr_len (sja1105_table_header_unpack h table_header_zero) \<noteq> 0"
    using assms(4,5) by auto
  ultimately show ?thesis
    using assms by (subst (asm) unpack_tables.simps)
      (auto simp: Let_def mult.commute split: if_splits option.splits prod.splits)
qed

lemma header_unpack_prefix:
  "length h = 12 \<Longrightarrow> sja1105_table_header_unpack (h @ r) x = sja1105_table_header_unpack h x"
proof -
  assume h: "length h = 12"
  have "field_of 12 (h @ r) f = field_of 12 h f" if "f \<in> set table_header_layout" for f
  proof (rule field_of_bits_eq)
    show ok: "field_ok 12 f" using table_header.layout that by (rule layout_okD)
    fix i assume "lo f \<le> i" "i \<le> hi f"
    with ok show "lbit 12 (h @ r) i = lbit 12 h i" using h by (intro lbit_append) (auto simp: field_ok_def)
  qed
  then have "foldl (\<lambda>z f. fset f (field_of 12 (h @ r) f) z) z gs = foldl (\<lambda>z f. fset f (field_of 12 h f) z) z gs"
    if "set gs \<subseteq> set table_header_layout" for gs z
    using that by (induction gs arbitrary: z) auto
  then show ?thesis
    using table_unpack_read [OF table_header.layout, of table_header_zero "h @ r"]
      table_unpack_read [OF table_header.layout, of table_header_zero h]
    by (simp add: sja1105_table_header_unpack_def sja1105_table_header_access_def entry_unpack_def read_fields_def)
qed

text \<open>
  C8: the data checksum is effective. If a table is accepted, then the same table with one 32-bit word of
  its entries replaced by any other word is never accepted, whatever the rest of the buffer.
\<close>

theorem corrupted_table_rejected:
  assumes "unpack_tables (h @ (pre @ w @ post) @ crc @ r) c = Some (0, c')"
    "length h = 12" "length crc = 4" "4 dvd length pre" "length w = 4" "length w' = 4" "w \<noteq> w'"
    "length (pre @ w @ post) = 4 * unat (hdr_len (sja1105_table_header_unpack h table_header_zero))"
  shows "unpack_tables (h @ (pre @ w' @ post) @ crc @ r') d \<noteq> Some (0, d')"
proof
  assume acc: "unpack_tables (h @ (pre @ w' @ post) @ crc @ r') d = Some (0, d')"
  have dvd: "4 dvd length post"
  proof -
    have "4 dvd length pre + (4 + length post)" using assms(8,5) by (metis dvd_triv_left length_append)
    then show ?thesis using assms(4) by (simp add: dvd_add_right_iff)
  qed
  have "ucast (ether_crc32_le (pre @ w @ post) (length (pre @ w @ post))) =
      fst (snd (gtable_unpack (crc @ r) 0 31 0 4))"
    using assms header_unpack_prefix [OF assms(2)] by (intro unpack_tables_first) auto
  moreover have "ucast (ether_crc32_le (pre @ w' @ post) (length (pre @ w' @ post))) =
      fst (snd (gtable_unpack (crc @ r') 0 31 0 4))"
    using assms acc header_unpack_prefix [OF assms(2)] by (intro unpack_tables_first) auto
  moreover have "fst (snd (gtable_unpack (crc @ r) 0 31 0 4)) = fst (snd (gtable_unpack (crc @ r') 0 31 0 4))"
  proof -
    obtain b0 b1 b2 b3 where "crc = [b0, b1, b2, b3]" using list_of_4 [OF assms(3)] by blast
    then show ?thesis by (simp add: gtable_unpack_word)
  qed
  ultimately have "(ucast (ether_crc32_le (pre @ w @ post) (length (pre @ w @ post))) :: u64) =
      ucast (ether_crc32_le (pre @ w' @ post) (length (pre @ w @ post)))"
    using assms(5,6) by simp
  then have "ether_crc32_le (pre @ w @ post) (length (pre @ w @ post)) =
      ether_crc32_le (pre @ w' @ post) (length (pre @ w @ post))"
    by (metis ucast_ucast_u32)
  then show False
    using ether_crc32_le_detects [OF assms(4,5,6) dvd assms(7) refl] by simp
qed



section \<open>The frame memory\<close>

lemma sum_parts_word:
  assumes "\<forall>i < n. unat (f i :: u64) < 1024" "n \<le> 16" "a + 1024 * n < 2 ^ 31"
  shows "for_upto n (\<lambda>i mem. mem + ucast (f i)) (of_nat a :: u32) = of_nat (a + (\<Sum>i<n. unat (f i)))"
  using assms
proof (induction n)
  case (Suc n)
  have "(ucast (f n) :: u32) = of_nat (unat (f n))" by simp
  then show ?case using Suc by simp
qed simp

lemma sum_parts_bound: "\<forall>i < n. unat (f i :: u64) < 1024 \<Longrightarrow> (\<Sum>i<n. unat (f i)) \<le> 1024 * n"
  by (induction n) fastforce+

text \<open>
  For partitions as they come from the packed tables (10-bit fields) the frame memory check accepts
  exactly the configurations whose partitions fit into the 929 blocks; nothing wraps around.
\<close>

theorem check_memory_size_ok:
  assumes "\<forall>i < 8. unat (l2fp_part_spc (entries (cfg_l2_forwarding_params c) 0) ! i) < 1024"
    "\<forall>i < 8. unat (vlfp_partspc (entries (cfg_vl_forwarding_params c) 0) ! i) < 1024"
  shows "sja1105_static_config_check_memory_size c =
    (if (\<Sum>i<8. unat (l2fp_part_spc (entries (cfg_l2_forwarding_params c) 0) ! i)) +
        (if entry_count (cfg_vl_forwarding_params c) \<noteq> 0
         then (\<Sum>i<8. unat (vlfp_partspc (entries (cfg_vl_forwarding_params c) 0) ! i)) else 0) \<le> MAX_FRAME_MEMORY
     then 0 else - 1)"
proof -
  define f where "f i = l2fp_part_spc (entries (cfg_l2_forwarding_params c) 0) ! i" for i
  define g where "g i = vlfp_partspc (entries (cfg_vl_forwarding_params c) 0) ! i" for i
  define a where "a = (\<Sum>i<8. unat (f i))"
  define b where "b = (\<Sum>i<8. unat (g i))"
  have ab: "a \<le> 8192" "b \<le> 8192"
    using sum_parts_bound [of 8 f] sum_parts_bound [of 8 g] assms by (simp_all add: a_def b_def f_def g_def)
  have s1: "for_upto 8 (\<lambda>i mem. mem + ucast (f i)) (0 :: u32) = of_nat a"
    using sum_parts_word [of 8 f 0] assms(1) by (simp add: f_def a_def)
  have s2: "for_upto 8 (\<lambda>i mem. mem + ucast (g i)) (of_nat a :: u32) = of_nat (a + b)"
    using sum_parts_word [of 8 g a] assms(2) ab by (simp add: g_def b_def)
  have sint: "sint (of_nat x :: u32) = int x" if "x \<le> 16384" for x
    using that by (simp add: signed_of_nat signed_take_bit_int_eq_self)
  show ?thesis
    unfolding sja1105_static_config_check_memory_size_def Let_def f_def [symmetric] g_def [symmetric] s1 s2
    unfolding a_def [symmetric] b_def [symmetric]
    using ab sint [of a] sint [of "a + b"] by auto
qed

theorem check_memory_size_ok_witness:
  "sja1105_static_config_check_memory_size
     (static_config_zero\<lparr>cfg_l2_forwarding_params := \<lparr>entries = (\<lambda>_. \<lparr>l2fp_max_dynp = 0,
        l2fp_part_spc = [929, 1, 0, 0, 0, 0, 0, 0]\<rparr>), entry_count = 1\<rparr>\<rparr>) = - 1"
  using check_memory_size_ok [of "static_config_zero\<lparr>cfg_l2_forwarding_params := \<lparr>entries = (\<lambda>_. \<lparr>l2fp_max_dynp = 0,
        l2fp_part_spc = [929, 1, 0, 0, 0, 0, 0, 0]\<rparr>), entry_count = 1\<rparr>\<rparr>"]
  by (simp add: all_less_8 sum_8 static_config_zero_def no_entries_def vl_forwarding_params_zero_def array_zero)

text \<open>
  Packing is not repeatable on a configuration read back from its packed form: the counters of the bins
  are not reset, so the first static address of a bin moves on to the next place in it.
\<close>

theorem patch_fdb_after_unpack_moves:
  assumes "cfg_entries_in_fdb_bin c = (\<lambda>_. 0)" "entry_count (cfg_l2_lookup c) = 1"
  shows "l2l_index (entries (cfg_l2_lookup (sja1105_static_config_patch_fdb (sja1105_static_config_patch_fdb c))) 0) =
    l2l_index (entries (cfg_l2_lookup (sja1105_static_config_patch_fdb c)) 0) + 1"
proof -
  define params es where "params = entries (cfg_l2_lookup_params c) 0" and "es = entries (cfg_l2_lookup c)"
  define b where "b = fdb_bin params (es 0)"
  have b': "fdb_bin params (es 0\<lparr>l2l_index := v\<rparr>) = b" for v by (simp add: b_def fdb_bin_def)
  show ?thesis
    using assms unat_u8 [of b]
    by (simp add: patch_fdb_eq patched_fdb_def Let_def fdb_index_def params_def [symmetric] es_def [symmetric]
        b_def [symmetric] b' fdb_rank_def fdb_bins_def)
qed

theorem patch_fdb_after_unpack_moves_witness:
  "l2l_index (entries (cfg_l2_lookup (sja1105_static_config_patch_fdb (sja1105_static_config_patch_fdb
      (static_config_zero\<lparr>cfg_l2_lookup := \<lparr>entries = (\<lambda>_. l2_lookup_zero), entry_count = 1\<rparr>\<rparr>)))) 0) =
   l2l_index (entries (cfg_l2_lookup (sja1105_static_config_patch_fdb
      (static_config_zero\<lparr>cfg_l2_lookup := \<lparr>entries = (\<lambda>_. l2_lookup_zero), entry_count = 1\<rparr>\<rparr>))) 0) + 1"
  by (rule patch_fdb_after_unpack_moves) (simp_all add: static_config_zero_def)

definition example_body :: "u8 list" where
  "example_body = section_body sja1105_vlan_lookup_entry_access SIZE_VLAN_LOOKUP_ENTRY 0 1 (cfg_vlan_lookup example_config)"

definition example_header :: "u8 list" where
  "example_header = table_header.bytes (section_header BLKID_VLAN_LOOKUP_TABLE SIZE_VLAN_LOOKUP_ENTRY (cfg_vlan_lookup example_config))"

definition example_crc :: "u8 list" where
  "example_crc = word_bytes (ucast (ether_crc32_le example_body (length example_body)))"

lemma example_table_accepted:
  "\<exists>c'. unpack_tables (example_header @ example_body @ example_crc @
     table_header.bytes \<lparr>hdr_block_id = 0, hdr_len = 0, hdr_crc = 0xDEADBEEF\<rparr>) static_config_zero = Some (0, c')"
proof -
  let ?hb = "table_header.bytes \<lparr>hdr_block_id = 0, hdr_len = 0, hdr_crc = 0xDEADBEEF\<rparr>"
  have cnt: "entry_count (cfg_vlan_lookup example_config) = 1" by (simp add: example_config_def)
  have bytes: "example_header @ example_body @ example_crc @ r =
      section_bytes sja1105_vlan_lookup_entry_access SIZE_VLAN_LOOKUP_ENTRY BLKID_VLAN_LOOKUP_TABLE
        (cfg_vlan_lookup example_config) @ r" for r
    using cnt by (simp add: section_bytes_def Let_def example_header_def example_body_def example_crc_def)
  have ok: "member_ok vlan_lookup_ok vlan_lookup_zero MAX_VLAN_LOOKUP_COUNT (cfg_vlan_lookup example_config)"
    using example_config_ok(2) by (simp add: tables_ok_def Let_def)
  have final: "hdr_len (sja1105_table_header_unpack (?hb @ []) table_header_zero) = 0"
    using table_header.roundtrip(2) [of "\<lparr>hdr_block_id = 0, hdr_len = 0, hdr_crc = 0xDEADBEEF\<rparr>" "replicate 12 0" "[]" table_header_zero]
    by (simp add: table_header_shape_def sja1105_table_header_unpack_def entry_unpack_def
        sja1105_table_header_access_def fits_def table_header_layout_def fld_def width_def)
  have "unpack_tables (example_header @ example_body @ example_crc @ ?hb) static_config_zero =
      unpack_tables ?hb (static_config_zero\<lparr>cfg_vlan_lookup := first_entries (\<lambda>e. e) vlan_lookup_zero
        (nat (entry_count (cfg_vlan_lookup example_config))) (cfg_vlan_lookup example_config)\<rparr>)"
    unfolding bytes by (rule vlan_lookup_sec.unpack_section [OF ok]) (simp_all add: static_config_zero_def)
  then show ?thesis using final
    by (simp add: unpack_tables.simps [of ?hb] table_header.length_bytes Let_def)
qed

theorem corrupted_table_rejected_witness:
  "unpack_tables (example_header @ ([] @ map (\<lambda>b. NOT b) (take 4 example_body) @ drop 4 example_body) @ example_crc @ [])
     static_config_zero \<noteq> Some (0, static_config_zero)"
proof -
  obtain c' where acc: "unpack_tables (example_header @ ([] @ take 4 example_body @ drop 4 example_body) @ example_crc @
     table_header.bytes \<lparr>hdr_block_id = 0, hdr_len = 0, hdr_crc = 0xDEADBEEF\<rparr>) static_config_zero = Some (0, c')"
    using example_table_accepted by auto
  have cnt: "entry_count (cfg_vlan_lookup example_config) = 1" by (simp add: example_config_def)
  have lb: "length example_body = 8" by (simp add: example_body_def vlan_lookup_acc.length_body)
  have "sja1105_table_header_unpack example_header table_header_zero =
      section_header BLKID_VLAN_LOOKUP_TABLE SIZE_VLAN_LOOKUP_ENTRY (cfg_vlan_lookup example_config)"
    using header_unpack_bytes [of _ "[]"] by (simp add: example_header_def section_header_def)
  then have "4 * unat (hdr_len (sja1105_table_header_unpack example_header table_header_zero)) = 8"
    using vlan_lookup_sec.header_len(1) [of "cfg_vlan_lookup example_config"] cnt by simp
  then have len: "length ([] @ take 4 example_body @ drop 4 example_body) =
      4 * unat (hdr_len (sja1105_table_header_unpack example_header table_header_zero))"
    using lb by simp
  obtain b0 b1 b2 b3 where "take 4 example_body = [b0, b1, b2, b3]"
    using list_of_4 [of "take 4 example_body"] lb by auto
  moreover have "b0 \<noteq> NOT b0" by (metis bit_not_iff possible_bit_word len_gt_0)
  ultimately have "take 4 example_body \<noteq> map (\<lambda>b. NOT b) (take 4 example_body)" by simp
  then show ?thesis
    by (intro corrupted_table_rejected [OF acc _ _ _ _ _ _ len])
      (simp_all add: lb example_header_def example_crc_def table_header.length_bytes word_bytes_spec)
qed

end
