(* ===== verification/Spi.thy ===== *)
theory Spi
  imports Tables_Base "HOL-Library.State_Monad"
begin

unbundle bit_operations_syntax

text \<open>
  Messages on the SPI bus (\<^verbatim>\<open>lib/spi/spi-message.c\<close>, \<^verbatim>\<open>lib/spi/spi-transfer.c\<close>). The operating system
  below the library is a parameter: a function \<open>kernel\<close> that answers a system call, given the whole
  history of calls and answers before it. The history is the state of the library's functions, so that
  a theorem can speak about what was sent, and in which order.
\<close>

section \<open>System calls\<close>

datatype spi_ioc = SPI_IOC_MODE | SPI_IOC_BITS_PER_WORD | SPI_IOC_MAX_SPEED_HZ

record spi_ioc_transfer =
  tr_tx_buf :: "u8 list"
  tr_len :: int
  tr_delay_usecs :: "16 word"
  tr_speed_hz :: u32
  tr_bits_per_word :: u8
  tr_cs_change :: int

text \<open>
  \<open>Hexdump\<close> stands for the output of \<^verbatim>\<open>gtable_hexdump\<close>, the only output that replaces a message. The
  calls on files are those of the tool: \<open>Open_Read\<close> is \<^verbatim>\<open>open(file, O_RDONLY)\<close>, \<open>Open_Create\<close>
  \<^verbatim>\<open>open(file, O_WRONLY | O_CREAT | O_TRUNC, 0644)\<close>.
\<close>

datatype syscall =
    Open string
  | Close int
  | Flock_Ex int
  | Flock_Un int
  | Ioctl_Write int spi_ioc u64
  | Ioctl_Read int spi_ioc
  | Ioctl_Message int spi_ioc_transfer
  | Hexdump "u8 list"
  | Open_Read string
  | Open_Create string
  | Fstat int
  | Read int nat
  | Write int "u8 list"
  | Usleep nat

text \<open>The answer: the value returned, and the bytes the kernel stored behind the pointer it was given.\<close>

record answer =
  ret :: int
  bytes_read :: "u8 list"

type_synonym history = "(syscall \<times> answer) list"
type_synonym kernel = "history \<Rightarrow> syscall \<Rightarrow> answer"
type_synonym 'a io = "(history, 'a) state"

definition system :: "kernel \<Rightarrow> syscall \<Rightarrow> answer io" where
  "system k c = State (\<lambda>h. (k h c, h @ [(c, k h c)]))"

abbreviation (input) io_return :: "'a \<Rightarrow> 'a io" where "io_return \<equiv> State_Monad.return"

text \<open>Bytes stored by the kernel over the first bytes of a buffer, never behind its end.\<close>

definition overwrite :: "u8 list \<Rightarrow> u8 list \<Rightarrow> u8 list" where
  "overwrite d buf = take (length buf) d @ drop (length d) buf"

lemma length_overwrite [simp]: "length (overwrite d buf) = length buf"
  by (simp add: overwrite_def)

section \<open>Settings\<close>

record sja1105_spi_setup =
  sp_device_id :: u64
  sp_part_nr :: u64
  sp_device :: string
  sp_mode :: u8
  sp_bits :: u8
  sp_speed :: u32
  sp_delay :: "16 word"
  sp_cs_change :: int
  sp_dry_run :: int
  sp_staging_area :: string
  sp_flush :: int
  sp_fd :: int

abbreviation (input) SPI_READ :: int where "SPI_READ \<equiv> 0"
abbreviation (input) SPI_WRITE :: int where "SPI_WRITE \<equiv> 1"

abbreviation (input) SIZE_SJA1105_DEVICE_ID :: nat where "SIZE_SJA1105_DEVICE_ID \<equiv> 4"
abbreviation (input) SIZE_SPI_MSG_HEADER :: nat where "SIZE_SPI_MSG_HEADER \<equiv> 4"
abbreviation (input) SIZE_SPI_MSG_MAXLEN :: nat where "SIZE_SPI_MSG_MAXLEN \<equiv> 256"

abbreviation (input) CORE_ADDR :: u64 where "CORE_ADDR \<equiv> 0x000000"
abbreviation (input) ACU_ADDR :: u64 where "ACU_ADDR \<equiv> 0x100800"

section \<open>The header of a message\<close>

record spi_message =
  msg_access :: u64
  msg_read_count :: u64
  msg_address :: u64

definition spi_message_zero :: spi_message where [table_zeros]:
  "spi_message_zero = \<lparr>msg_access = 0, msg_read_count = 0, msg_address = 0\<rparr>"

definition spi_message_layout :: "spi_message fld list" where [table_layouts]:
  "spi_message_layout =
    [fld msg_access msg_access_update 31 31,
     fld msg_read_count msg_read_count_update 30 25,
     fld msg_address msg_address_update 24 4]"

definition sja1105_spi_message_access :: "bool \<Rightarrow> u8 list \<Rightarrow> spi_message \<Rightarrow> u8 list \<times> spi_message" where
  "sja1105_spi_message_access = table_access spi_message_layout SIZE_SPI_MSG_HEADER spi_message_zero"

definition sja1105_spi_message_unpack :: "u8 list \<Rightarrow> spi_message \<Rightarrow> spi_message" where
  "sja1105_spi_message_unpack buf msg = snd (sja1105_spi_message_access False buf msg)"

definition sja1105_spi_message_pack :: "u8 list \<Rightarrow> spi_message \<Rightarrow> u8 list \<times> spi_message" where
  "sja1105_spi_message_pack buf msg = sja1105_spi_message_access True buf msg"

section \<open>Transfers\<close>

text \<open>The result: the return code and the receive buffer.\<close>

definition sja1105_spi_transfer ::
    "kernel \<Rightarrow> sja1105_spi_setup \<Rightarrow> u8 list \<Rightarrow> u8 list \<Rightarrow> nat \<Rightarrow> (int \<times> u8 list) io" where
  "sja1105_spi_transfer k spi_setup tx rx nbytes =
     (let tr = \<lparr>tr_tx_buf = tx, tr_len = int nbytes, tr_delay_usecs = sp_delay spi_setup,
                tr_speed_hz = sp_speed spi_setup, tr_bits_per_word = sp_bits spi_setup,
                tr_cs_change = sp_cs_change spi_setup\<rparr>
      in if sp_dry_run spi_setup \<noteq> 0 then do {
           system k (Hexdump (take nbytes tx));
           io_return (0, rx)
         } else do {
           let rx0 = memset0 nbytes rx;
           lock \<leftarrow> system k (Flock_Ex (sp_fd spi_setup));
           if ret lock < 0 then io_return (- EAGAIN, rx0)
           else do {
             sent \<leftarrow> system k (Ioctl_Message (sp_fd spi_setup) tr);
             let rx1 = overwrite (bytes_read sent) rx0;
             unlock \<leftarrow> system k (Flock_Un (sp_fd spi_setup));
             io_return (if ret unlock < 0 then - EAGAIN else if ret sent = int nbytes then 0 else - EIO, rx1)
           }
         })"

text \<open>
  One message. The transmit buffer is an uninitialised array that the function fills completely; the
  caller's buffer has at least \<open>size_bytes\<close> bytes at all call sites.
\<close>

definition sja1105_spi_send_packed_buf ::
    "kernel \<Rightarrow> sja1105_spi_setup \<Rightarrow> int \<Rightarrow> u64 \<Rightarrow> u8 list \<Rightarrow> nat \<Rightarrow> (int \<times> u8 list) io" where
  "sja1105_spi_send_packed_buf k spi_setup read_or_write reg_addr packed_buf size_bytes =
     (let msg_len = size_bytes + SIZE_SPI_MSG_HEADER;
          rx_buf = replicate msg_len 0;
          msg = \<lparr>msg_access = of_int read_or_write,
                 msg_read_count = (if read_or_write = SPI_READ then of_nat (size_bytes div 4) else 0),
                 msg_address = reg_addr\<rparr>;
          header = fst (sja1105_spi_message_pack (replicate SIZE_SPI_MSG_HEADER 0) msg)
      in if read_or_write \<noteq> SPI_READ \<and> read_or_write \<noteq> SPI_WRITE then io_return (- EINVAL, packed_buf)
         else do {
           let tx_buf = header @ (if read_or_write = SPI_READ then replicate size_bytes 0
                                  else take size_bytes packed_buf);
           (rc, rx) \<leftarrow> sja1105_spi_transfer k spi_setup tx_buf rx_buf msg_len;
           io_return (rc, if 0 \<le> rc \<and> read_or_write = SPI_READ
                          then drop SIZE_SPI_MSG_HEADER rx @ drop size_bytes packed_buf
                          else packed_buf)
         })"

text \<open>
  A number. \<open>None\<close> is the value of \<^verbatim>\<open>*value\<close> after a failed read: it is unpacked from an array that was
  never written.
\<close>

definition sja1105_spi_send_int ::
    "kernel \<Rightarrow> sja1105_spi_setup \<Rightarrow> int \<Rightarrow> u64 \<Rightarrow> u64 \<Rightarrow> nat \<Rightarrow> (int \<times> u64 option) io" where
  "sja1105_spi_send_int k spi_setup read_or_write reg_addr v size_bytes =
     (let (packed_buf, v') =
            (if read_or_write = SPI_WRITE
             then case gtable_pack (replicate size_bytes 0) v (8 * int size_bytes - 1) 0 (int size_bytes) of
                    (rc, v', b) \<Rightarrow> (b, v')
             else (replicate size_bytes 0, v))
      in do {
        (rc, buf) \<leftarrow> sja1105_spi_send_packed_buf k spi_setup read_or_write reg_addr packed_buf size_bytes;
        io_return (rc,
          if read_or_write \<noteq> SPI_READ then Some v'
          else if rc < 0 then None
          else Some (fst (snd (gtable_unpack buf v' (8 * int size_bytes - 1) 0 (int size_bytes)))))
      })"

text \<open>
  The loop over the chunks of a long buffer; \<open>pos\<close> is \<^verbatim>\<open>chunk.buf_ptr - packed_buf\<close>, from which the length
  of the chunk follows.
\<close>

function send_chunks ::
    "kernel \<Rightarrow> sja1105_spi_setup \<Rightarrow> int \<Rightarrow> nat \<Rightarrow> u64 \<Rightarrow> nat \<Rightarrow> int \<Rightarrow> u8 list \<Rightarrow> history \<Rightarrow> (int \<times> u8 list) \<times> history" where
  "send_chunks k spi_setup read_or_write buf_len spi_address pos rc packed_buf h =
     (let len = min (buf_len - pos) SIZE_SPI_MSG_MAXLEN
      in if len = 0 then ((rc, packed_buf), h)
         else case run_state (sja1105_spi_send_packed_buf k spi_setup read_or_write spi_address
                                (drop pos packed_buf) len) h of
                ((rc', rest), h') \<Rightarrow>
                  if rc' < 0 then ((rc', take pos packed_buf @ rest), h')
                  else send_chunks k spi_setup read_or_write buf_len (spi_address + of_nat (len div 4))
                         (pos + len) rc' (take pos packed_buf @ rest) h')"
  by pat_completeness auto
termination
  by (relation "measure (\<lambda>(k, s, rw, buf_len, a, pos, rc, b, h). buf_len - pos)") auto

declare send_chunks.simps [simp del]

definition sja1105_spi_send_long_packed_buf ::
    "kernel \<Rightarrow> sja1105_spi_setup \<Rightarrow> int \<Rightarrow> u64 \<Rightarrow> u8 list \<Rightarrow> nat \<Rightarrow> (int \<times> u8 list) io" where
  "sja1105_spi_send_long_packed_buf k spi_setup read_or_write base_addr packed_buf buf_len =
     State (send_chunks k spi_setup read_or_write buf_len base_addr 0 0 packed_buf)"

section \<open>The device behind the bus\<close>

definition sja1105_device_id_string_get :: "u64 \<Rightarrow> u64 \<Rightarrow> string" where
  "sja1105_device_id_string_get device_id part_nr =
     (if device_id = SJA1105E_DEVICE_ID then ''SJA1105E''
      else if device_id = SJA1105T_DEVICE_ID then ''SJA1105T''
      else if IS_P device_id part_nr then ''SJA1105P''
      else if IS_Q device_id part_nr then ''SJA1105Q''
      else if IS_R device_id part_nr then ''SJA1105P''
      else if IS_S device_id part_nr then ''SJA1105S''
      else if device_id = SJA1105PR_DEVICE_ID then ''SJA1105P or SJA1105R''
      else if device_id = SJA1105QS_DEVICE_ID then ''SJA1105Q or SJA1105S''
      else ''None'')"

text \<open>The memory of a \<^verbatim>\<open>uint64_t\<close> on a little-endian host.\<close>

definition le_bytes :: "u64 \<Rightarrow> u8 list" where
  "le_bytes v = map (\<lambda>i. ucast (drop_bit (8 * i) v)) [0..<8]"

definition of_le_bytes :: "u8 list \<Rightarrow> u64" where
  "of_le_bytes b = foldr (\<lambda>x v. push_bit 8 v OR ucast x) b 0"

text \<open>
  The result: the return code, \<^verbatim>\<open>*device_id\<close> and \<^verbatim>\<open>*part_nr\<close>. The part number is unpacked from the native
  memory of the number that was read.
\<close>

definition compatible_device_ids :: "u64 list" where
  "compatible_device_ids = [SJA1105E_DEVICE_ID, SJA1105T_DEVICE_ID, SJA1105PR_DEVICE_ID, SJA1105QS_DEVICE_ID]"

definition sja1105_device_id_get ::
    "kernel \<Rightarrow> sja1105_spi_setup \<Rightarrow> u64 \<Rightarrow> u64 \<Rightarrow> (int \<times> u64 \<times> u64) io" where
  "sja1105_device_id_get k spi_setup device_id part_nr =
     (if sp_dry_run spi_setup \<noteq> 0 then io_return (0, device_id, part_nr)
      else do {
        (rc, tmp_device_id) \<leftarrow> sja1105_spi_send_int k spi_setup SPI_READ (CORE_ADDR + 0) 0 SIZE_SJA1105_DEVICE_ID;
        if rc < 0 then io_return (rc, device_id, part_nr)
        else let found = (case find (\<lambda>d. tmp_device_id = Some d) compatible_device_ids of
                            None \<Rightarrow> SJA1105_NO_DEVICE_ID | Some d \<Rightarrow> d)
             in if found = SJA1105_NO_DEVICE_ID then io_return (- EINVAL, found, part_nr)
                else if \<not> IS_PQRS found then io_return (rc, found, part_nr)
                else do {
                  (rc, tmp_part_nr) \<leftarrow> sja1105_spi_send_int k spi_setup SPI_READ (ACU_ADDR + 0x3C3) 0 4;
                  if rc < 0 then io_return (rc, found, part_nr)
                  else io_return (rc, found,
                         fst (snd (gtable_unpack (le_bytes (the tmp_part_nr)) part_nr 19 4 4)))
                }
      })"

text \<open>
  The three settings are written and read back in turn. \<open>Some rc\<close> is an exit from the loop with the value
  of \<^verbatim>\<open>rc\<close> at that point; \<open>tmp\<close> keeps the bytes that a read does not touch.
\<close>

definition spi_cmds :: "sja1105_spi_setup \<Rightarrow> (spi_ioc \<times> u64) list" where
  "spi_cmds spi_setup =
     [(SPI_IOC_MODE, ucast (sp_mode spi_setup)),
      (SPI_IOC_BITS_PER_WORD, ucast (sp_bits spi_setup)),
      (SPI_IOC_MAX_SPEED_HZ, ucast (sp_speed spi_setup))]"

fun spi_configure_cmds ::
    "kernel \<Rightarrow> int \<Rightarrow> (spi_ioc \<times> u64) list \<Rightarrow> u64 \<Rightarrow> int \<Rightarrow> (int \<times> bool) io" where
  "spi_configure_cmds k fd [] tmp rc = io_return (rc, True)"
| "spi_configure_cmds k fd ((ioc, val) # cmds) tmp rc = do {
     wr \<leftarrow> system k (Ioctl_Write fd ioc val);
     if ret wr < 0 then io_return (ret wr, False)
     else do {
       rd \<leftarrow> system k (Ioctl_Read fd ioc);
       let tmp' = of_le_bytes (overwrite (bytes_read rd) (le_bytes tmp));
       if ret rd < 0 then io_return (ret rd, False)
       else if val \<noteq> tmp' then io_return (ret rd, False)
       else spi_configure_cmds k fd cmds tmp' (ret rd)
     }
   }"

definition sja1105_spi_configure :: "kernel \<Rightarrow> sja1105_spi_setup \<Rightarrow> (int \<times> sja1105_spi_setup) io" where
  "sja1105_spi_configure k spi_setup =
     (if sp_dry_run spi_setup \<noteq> 0 then io_return (0, spi_setup\<lparr>sp_fd := - 1\<rparr>)
      else do {
        fd \<leftarrow> system k (Open (sp_device spi_setup));
        if ret fd < 0 then io_return (ret fd, spi_setup)
        else do {
          (rc, done) \<leftarrow> spi_configure_cmds k (ret fd) (spi_cmds spi_setup) 0 0;
          if \<not> done then do {
            system k (Close (ret fd));
            io_return (rc, spi_setup)
          } else do {
            let setup1 = spi_setup\<lparr>sp_fd := ret fd\<rparr>;
            if sp_device_id setup1 \<noteq> SJA1105_NO_DEVICE_ID then io_return (rc, setup1)
            else do {
              (rc, device_id, part_nr) \<leftarrow>
                sja1105_device_id_get k setup1 (sp_device_id setup1) (sp_part_nr setup1);
              let setup2 = setup1\<lparr>sp_device_id := device_id, sp_part_nr := part_nr\<rparr>;
              if rc < 0 then do {
                system k (Close (ret fd));
                io_return (rc, setup2)
              } else io_return (rc, setup2)
            }
          }
        }
      })"

section \<open>The header on the wire\<close>

definition spi_message_shape :: "spi_message \<Rightarrow> bool" where [table_shapes]:
  "spi_message_shape e \<longleftrightarrow> True"

interpretation spi_message: table_codec spi_message_layout SIZE_SPI_MSG_HEADER spi_message_zero spi_message_shape
  by unfold_locales (auto simp: table_layouts table_shapes table_zeros codec_simps)

text \<open>A 32-bit word as it is transmitted, and the parts of a header, as the switch reads them.\<close>

definition wire_word :: "u8 list \<Rightarrow> u64" where
  "wire_word b = be32 (b ! 0) (b ! 1) (b ! 2) (b ! 3)"

definition wire_write :: "u8 list \<Rightarrow> bool" where "wire_write b = bit (wire_word b) 31"
definition wire_count :: "u8 list \<Rightarrow> u64" where "wire_count b = take_bit 6 (drop_bit 25 (wire_word b))"
definition wire_address :: "u8 list \<Rightarrow> nat" where "wire_address b = unat (take_bit 21 (drop_bit 4 (wire_word b)))"

lemma list_from_4: "4 \<le> length b \<Longrightarrow> \<exists>b0 b1 b2 b3 r. b = b0 # b1 # b2 # b3 # r" for b :: "u8 list"
  by (auto simp: Suc_le_length_iff numeral_eq_Suc)

lemma bit_wire_word: "4 \<le> length b \<Longrightarrow> bit (wire_word b) i \<longleftrightarrow> i < 32 \<and> lbit 4 b i"
proof -
  assume "4 \<le> length b"
  then obtain b0 b1 b2 b3 r where b: "b = b0 # b1 # b2 # b3 # r" using list_from_4 by blast
  have "wire_word b = fst (snd (gtable_unpack b 0 31 0 4))"
    unfolding b gtable_unpack_word by (simp add: wire_word_def)
  then show ?thesis using gtable_unpack_lbit(3) [of 0 31 b 0 4 i] by auto
qed

abbreviation (input) spi_header :: "spi_message \<Rightarrow> u8 list" where "spi_header \<equiv> spi_message.bytes"

lemma length_spi_header [simp]: "length (spi_header m) = 4"
  by (rule spi_message.length_bytes)

lemma bit_spi_header:
  "bit (wire_word (spi_header m @ r)) i \<longleftrightarrow> i = 31 \<and> bit (msg_access m) 0 \<or>
     25 \<le> i \<and> i \<le> 30 \<and> bit (msg_read_count m) (i - 25) \<or> 4 \<le> i \<and> i \<le> 24 \<and> bit (msg_address m) (i - 4)"
proof -
  have "bit (wire_word (spi_header m @ r)) i \<longleftrightarrow> i < 32 \<and> layout_bit spi_message_layout m i"
    using bit_wire_word [of "spi_header m @ r" i] lbit_append [of 4 i "spi_header m" r]
      spi_message.lbit_bytes [of i m] by auto
  then show ?thesis by (auto simp: spi_message_layout_def fld_def)
qed

lemma wire_spi_header:
  "wire_write (spi_header m @ r) \<longleftrightarrow> bit (msg_access m) 0"
  "wire_count (spi_header m @ r) = take_bit 6 (msg_read_count m)"
  "wire_address (spi_header m @ r) = unat (take_bit 21 (msg_address m))"
proof -
  show "wire_write (spi_header m @ r) \<longleftrightarrow> bit (msg_access m) 0"
    by (auto simp: wire_write_def bit_spi_header)
  show "wire_count (spi_header m @ r) = take_bit 6 (msg_read_count m)"
    unfolding wire_count_def
    by (rule bit_eqI) (auto simp: bit_take_bit_iff bit_drop_bit_eq bit_spi_header)
  have "take_bit 21 (drop_bit 4 (wire_word (spi_header m @ r))) = take_bit 21 (msg_address m)"
    by (rule bit_eqI) (auto simp: bit_take_bit_iff bit_drop_bit_eq bit_spi_header)
  then show "wire_address (spi_header m @ r) = unat (take_bit 21 (msg_address m))"
    by (simp add: wire_address_def)
qed

lemma message_pack_bytes:
  "fst (sja1105_spi_message_pack (replicate 4 0) m) = spi_header m"
  by (simp add: sja1105_spi_message_pack_def sja1105_spi_message_access_def spi_message.bytes_def entry_pack_def)

section \<open>The discipline of the bus\<close>

text \<open>
  A history of the bus: transactions one after the other, each a message between taking and releasing
  the lock, or a failed attempt to take it; and what else the library asks of the system.
\<close>

fun not_bus :: "syscall \<Rightarrow> bool" where
  "not_bus (Flock_Ex fd) = False"
| "not_bus (Flock_Un fd) = False"
| "not_bus (Ioctl_Message fd tr) = False"
| "not_bus c = True"

inductive bus_trace :: "history \<Rightarrow> bool" where
  idle: "bus_trace []"
| refused: "bus_trace es \<Longrightarrow> ret a < 0 \<Longrightarrow> bus_trace ((Flock_Ex fd, a) # es)"
| message: "bus_trace es \<Longrightarrow> 0 \<le> ret a \<Longrightarrow>
    bus_trace ((Flock_Ex fd, a) # (Ioctl_Message fd tr, b) # (Flock_Un fd, c) # es)"
| other: "bus_trace es \<Longrightarrow> not_bus c \<Longrightarrow> bus_trace ((c, a) # es)"

inductive_cases bus_trace_ConsE: "bus_trace (e # es)"

lemma bus_trace_append: "bus_trace es \<Longrightarrow> bus_trace fs \<Longrightarrow> bus_trace (es @ fs)"
  by (induction rule: bus_trace.induct) (auto intro: bus_trace.intros)

definition keeps_bus :: "'a io \<Rightarrow> bool" where
  "keeps_bus m \<longleftrightarrow> (\<forall>h. \<exists>es. snd (run_state m h) = h @ es \<and> bus_trace es)"

named_theorems bus_intros "functions that leave the bus idle"

lemma keeps_bus_return [bus_intros]: "keeps_bus (io_return x)"
  by (auto simp: keeps_bus_def intro: bus_trace.idle)

lemma keeps_bus_bind [bus_intros]:
  assumes "keeps_bus m" "\<And>x. keeps_bus (f x)"
  shows "keeps_bus (State_Monad.bind m f)"
  unfolding keeps_bus_def
proof
  fix h
  obtain x h1 where m: "run_state m h = (x, h1)" by fastforce
  from assms(1) m obtain es where es: "h1 = h @ es" "bus_trace es" unfolding keeps_bus_def by (metis snd_conv)
  from assms(2) [of x] obtain fs where "snd (run_state (f x) h1) = h1 @ fs" "bus_trace fs"
    unfolding keeps_bus_def by blast
  with m es show "\<exists>es. snd (run_state (State_Monad.bind m f) h) = h @ es \<and> bus_trace es"
    by (auto intro!: bus_trace_append)
qed

lemma keeps_bus_if [bus_intros]: "(b \<Longrightarrow> keeps_bus m) \<Longrightarrow> (\<not> b \<Longrightarrow> keeps_bus n) \<Longrightarrow> keeps_bus (if b then m else n)"
  by simp

lemma keeps_bus_Let [bus_intros]: "(\<And>x. keeps_bus (f x)) \<Longrightarrow> keeps_bus (Let v f)"
  by simp

lemma keeps_bus_case_prod [bus_intros]: "(\<And>x y. keeps_bus (f x y)) \<Longrightarrow> keeps_bus (case_prod f p)"
  by (simp add: split_beta)

lemma keeps_bus_system [bus_intros]: "not_bus c \<Longrightarrow> keeps_bus (system k c)"
  by (auto simp: keeps_bus_def system_def intro: bus_trace.intros)

lemma keeps_bus_transfer [bus_intros]: "keeps_bus (sja1105_spi_transfer k s tx rx n)"
  by (auto simp: keeps_bus_def sja1105_spi_transfer_def system_def Let_def intro: bus_trace.intros)

lemma keeps_bus_send_packed_buf [bus_intros]: "keeps_bus (sja1105_spi_send_packed_buf k s rw a b n)"
  unfolding sja1105_spi_send_packed_buf_def by (intro bus_intros)

lemma keeps_bus_send_int [bus_intros]: "keeps_bus (sja1105_spi_send_int k s rw a v n)"
  unfolding sja1105_spi_send_int_def by (intro bus_intros)

lemma keeps_bus_device_id_get [bus_intros]: "keeps_bus (sja1105_device_id_get k s d p)"
  unfolding sja1105_device_id_get_def by (intro bus_intros)

lemma keeps_bus_configure_cmds [bus_intros]: "keeps_bus (spi_configure_cmds k fd cmds tmp rc)"
proof (induction cmds arbitrary: tmp rc)
  case (Cons c cmds)
  then show ?case by (cases c) (auto intro!: bus_intros)
qed (auto intro!: bus_intros)

lemma keeps_bus_configure [bus_intros]: "keeps_bus (sja1105_spi_configure k s)"
  unfolding sja1105_spi_configure_def by (intro bus_intros) simp_all

lemma send_chunks_bus: "\<exists>es. snd (send_chunks k s rw n a pos rc b h) = h @ es \<and> bus_trace es"
proof (induction k s rw n a pos rc b h rule: send_chunks.induct)
  case (1 k s rw n a pos rc b h)
  define len where "len = min (n - pos) SIZE_SPI_MSG_MAXLEN"
  obtain rc' rest h' where r: "run_state (sja1105_spi_send_packed_buf k s rw a (drop pos b) len) h = ((rc', rest), h')"
    by (metis prod.collapse)
  obtain es where es: "h' = h @ es" "bus_trace es"
    using keeps_bus_send_packed_buf [of k s rw a "drop pos b" len] r unfolding keeps_bus_def by (metis snd_conv)
  have step: "send_chunks k s rw n a pos rc b h =
     (if len = 0 then ((rc, b), h)
      else if rc' < 0 then ((rc', take pos b @ rest), h')
      else send_chunks k s rw n (a + of_nat (len div 4)) (pos + len) rc' (take pos b @ rest) h')"
    by (subst send_chunks.simps, unfold Let_def len_def [symmetric]) (simp add: r)
  show ?case
  proof (cases "len = 0 \<or> rc' < 0")
    case True
    then show ?thesis using es by (auto simp: step intro: bus_trace.idle)
  next
    case False
    then obtain fs where "snd (send_chunks k s rw n (a + of_nat (len div 4)) (pos + len) rc' (take pos b @ rest) h') = h' @ fs"
      "bus_trace fs" using "1" [OF len_def _ r [symmetric]] by auto
    then show ?thesis using False es bus_trace_append by (auto simp: step)
  qed
qed

lemma keeps_bus_send_long [bus_intros]: "keeps_bus (sja1105_spi_send_long_packed_buf k s rw a b n)"
  unfolding keeps_bus_def sja1105_spi_send_long_packed_buf_def using send_chunks_bus by simp

section \<open>A bus that works\<close>

text \<open>The lock is granted and every message is transferred in full.\<close>

definition bus_works :: "kernel \<Rightarrow> bool" where
  "bus_works k \<longleftrightarrow> (\<forall>h fd tr. 0 \<le> ret (k h (Flock_Ex fd)) \<and> 0 \<le> ret (k h (Flock_Un fd)) \<and>
     ret (k h (Ioctl_Message fd tr)) = tr_len tr)"

text \<open>The writes of registers in a history: first address and contents.\<close>

fun sent_writes :: "history \<Rightarrow> (nat \<times> u8 list) list" where
  "sent_writes [] = []"
| "sent_writes ((Ioctl_Message fd tr, a) # es) =
     (if ret a = tr_len tr \<and> wire_write (tr_tx_buf tr)
      then (wire_address (tr_tx_buf tr), drop SIZE_SPI_MSG_HEADER (tr_tx_buf tr)) # sent_writes es
      else sent_writes es)"
| "sent_writes (e # es) = sent_writes es"

lemma sent_writes_append [simp]: "sent_writes (es @ fs) = sent_writes es @ sent_writes fs"
  by (induction es rule: sent_writes.induct) auto

text \<open>A function that gives \<open>v\<close> and performs the writes \<open>ws\<close>, whatever happened before.\<close>

definition performs :: "'a io \<Rightarrow> 'a \<Rightarrow> (nat \<times> u8 list) list \<Rightarrow> bool" where
  "performs m v ws \<longleftrightarrow> (\<forall>h. \<exists>es. run_state m h = (v, h @ es) \<and> sent_writes es = ws)"

lemma performsD: "performs m v ws \<Longrightarrow> \<exists>es. run_state m h = (v, h @ es) \<and> sent_writes es = ws"
  by (simp add: performs_def)

lemma performs_return: "performs (io_return x) x []"
  by (auto simp: performs_def)

lemma performs_bind:
  assumes "performs m x ws" "performs (f x) y vs"
  shows "performs (State_Monad.bind m f) y (ws @ vs)"
  unfolding performs_def
proof
  fix h
  from performsD [OF assms(1)] obtain es where es: "run_state m h = (x, h @ es)" "sent_writes es = ws" by blast
  from performsD [OF assms(2)] obtain fs where "run_state (f x) (h @ es) = (y, (h @ es) @ fs)" "sent_writes fs = vs"
    by blast
  with es show "\<exists>es. run_state (State_Monad.bind m f) h = (y, h @ es) \<and> sent_writes es = ws @ vs" by auto
qed

lemma performs_eq: "performs m x ws \<Longrightarrow> ws = vs \<Longrightarrow> x = y \<Longrightarrow> performs m y vs"
  by simp

lemma transfer_works:
  assumes "bus_works k" "sp_dry_run s = 0" "length rx = n"
  shows "\<exists>es. run_state (sja1105_spi_transfer k s tx rx n) h =
    ((0, overwrite (bytes_read (k (h @ [(Flock_Ex (sp_fd s), k h (Flock_Ex (sp_fd s)))])
        (Ioctl_Message (sp_fd s) \<lparr>tr_tx_buf = tx, tr_len = int n, tr_delay_usecs = sp_delay s,
          tr_speed_hz = sp_speed s, tr_bits_per_word = sp_bits s, tr_cs_change = sp_cs_change s\<rparr>)))
        (memset0 n rx)), h @ es) \<and>
    sent_writes es = (if wire_write tx then [(wire_address tx, drop 4 tx)] else [])"
  using assms by (auto simp: sja1105_spi_transfer_def system_def bus_works_def Let_def not_less)

lemma write_works:
  assumes "bus_works k" "sp_dry_run s = 0" "n \<le> length b"
  shows "performs (sja1105_spi_send_packed_buf k s SPI_WRITE a b n) (0, b) [(unat (take_bit 21 a), take n b)]"
  unfolding performs_def
proof
  fix h
  let ?hdr = "spi_header \<lparr>msg_access = 1, msg_read_count = 0, msg_address = a\<rparr>"
  from transfer_works [OF assms(1,2), of "replicate (n + 4) 0" "n + 4" "?hdr @ take n b" h] obtain es rx where
    "run_state (sja1105_spi_transfer k s (?hdr @ take n b) (replicate (n + 4) 0) (n + 4)) h = ((0, rx), h @ es)"
    "sent_writes es = [(unat (take_bit 21 a), take n b)]"
    by (auto simp: wire_spi_header)
  then show "\<exists>es. run_state (sja1105_spi_send_packed_buf k s SPI_WRITE a b n) h = ((0, b), h @ es) \<and>
      sent_writes es = [(unat (take_bit 21 a), take n b)]"
    by (auto simp: sja1105_spi_send_packed_buf_def message_pack_bytes Let_def)
qed

section \<open>The registers of the switch\<close>

text \<open>Registers are 32-bit words; a write fills consecutive ones.\<close>

type_synonym registers = "nat \<Rightarrow> u8 list"

definition store :: "registers \<Rightarrow> nat \<times> u8 list \<Rightarrow> registers" where
  "store mem w = (\<lambda>x. if fst w \<le> x \<and> x < fst w + length (snd w) div 4
     then take 4 (drop (4 * (x - fst w)) (snd w)) else mem x)"

definition registers_after :: "registers \<Rightarrow> history \<Rightarrow> registers" where
  "registers_after mem h = foldl store mem (sent_writes h)"

definition load :: "registers \<Rightarrow> nat \<Rightarrow> nat \<Rightarrow> u8 list" where
  "load mem a n = concat (map mem [a..<a + n])"

text \<open>
  A switch on the bus: the transfers work, and a read message whose count agrees with its length is
  answered with the registers as the writes before it left them.
\<close>

definition is_switch :: "kernel \<Rightarrow> registers \<Rightarrow> bool" where
  "is_switch k mem \<longleftrightarrow> bus_works k \<and> (\<forall>x. length (mem x) = 4) \<and>
     (\<forall>h fd tr. \<not> wire_write (tr_tx_buf tr) \<and> tr_len tr = 4 + 4 * int (unat (wire_count (tr_tx_buf tr))) \<longrightarrow>
        (\<exists>status. length status = 4 \<and> bytes_read (k h (Ioctl_Message fd tr)) =
           status @ load (registers_after mem h) (wire_address (tr_tx_buf tr)) (unat (wire_count (tr_tx_buf tr)))))"

lemma length_store: "(\<forall>x. length (mem x) = 4) \<Longrightarrow> \<forall>x. length (store mem w x) = 4"
proof
  fix x assume m: "\<forall>x. length (mem x) = 4"
  have "x - fst w < length (snd w) div 4 \<Longrightarrow> 4 * (x - fst w) + 4 \<le> length (snd w)" by presburger
  moreover have "fst w \<le> x \<Longrightarrow> x < fst w + length (snd w) div 4 \<Longrightarrow> x - fst w < length (snd w) div 4" by linarith
  ultimately show "length (store mem w x) = 4" using m by (auto simp: store_def)
qed

lemma length_foldl_store: "(\<forall>x. length (mem x) = 4) \<Longrightarrow> \<forall>x. length (foldl store mem ws x) = 4"
  by (induction ws arbitrary: mem) (simp_all add: length_store)

lemma length_registers_after: "(\<forall>x. length (mem x) = 4) \<Longrightarrow> length (registers_after mem h x) = 4"
  by (simp add: registers_after_def length_foldl_store)

lemma length_load: "(\<forall>x. length (mem x) = 4) \<Longrightarrow> length (load mem a n) = 4 * n"
  by (induction n) (simp_all add: load_def)

lemma load_store:
  assumes "length b = 4 * n"
  shows "load (store mem (a, b)) a n = b"
proof -
  have "concat (map (\<lambda>x. take 4 (drop (4 * (x - a)) b)) [a..<a + m]) = take (4 * m) b" for m
  proof (induction m)
    case (Suc m)
    have "take (4 * Suc m) b = take (4 * m) b @ take 4 (drop (4 * m) b)"
      by (simp add: take_add [symmetric] add.commute)
    with Suc show ?case by simp
  qed simp
  moreover have "map (store mem (a, b)) [a..<a + n] = map (\<lambda>x. take 4 (drop (4 * (x - a)) b)) [a..<a + n]"
    using assms by (auto simp: store_def)
  ultimately have "load (store mem (a, b)) a n = take (4 * n) b" unfolding load_def by (simp only:)
  then show ?thesis using assms by simp
qed

lemma store_append:
  assumes "length b = 4 * n"
  shows "store (store mem (a, b)) (a + n, c) = store mem (a, b @ c)"
  using assms by (rule_tac ext) (auto simp: store_def not_less not_le algebra_simps diff_mult_distrib2)

text \<open>A long buffer is written in pieces of 64 registers.\<close>

function pieces :: "nat \<Rightarrow> u8 list \<Rightarrow> (nat \<times> u8 list) list" where
  "pieces a b = (if b = [] then [] else (a, take SIZE_SPI_MSG_MAXLEN b) # pieces (a + 64) (drop SIZE_SPI_MSG_MAXLEN b))"
  by pat_completeness auto
termination by (relation "measure (\<lambda>(a, b). length b)") auto

declare pieces.simps [simp del]

lemma store_pieces: "foldl store mem (pieces a b) = store mem (a, b)"
proof (induction a b arbitrary: mem rule: pieces.induct)
  case (1 a b)
  show ?case
  proof (cases "b = []")
    case True
    then show ?thesis by (subst pieces.simps) (auto simp: store_def fun_eq_iff)
  next
    case False
    have "store (store mem (a, take 256 b)) (a + 64, drop 256 b) = store mem (a, b)"
    proof (cases "length b \<le> 256")
      case True
      then show ?thesis by (auto simp: store_def fun_eq_iff)
    next
      case F: False
      then have "length (take 256 b) = 4 * 64" by simp
      from store_append [OF this, of mem a "drop 256 b"] show ?thesis by simp
    qed
    with False "1" show ?thesis by (subst pieces.simps) simp
  qed
qed

lemma long_write_works:
  assumes "bus_works k" "sp_dry_run s = 0" "length b = n"
    "unat base + (n + 3) div 4 \<le> 2 ^ 21" "pos = 256 * i" "pos \<le> n" "a = base + of_nat (64 * i)"
  shows "\<exists>es. send_chunks k s SPI_WRITE n a pos 0 b h = ((0, b), h @ es) \<and>
    sent_writes es = pieces (unat base + 64 * i) (drop pos b)"
  using assms(5-7)
proof (induction "n - pos" arbitrary: pos i a h rule: less_induct)
  case less
  define len where "len = min (n - pos) SIZE_SPI_MSG_MAXLEN"
  show ?case
  proof (cases "pos = n")
    case True
    then show ?thesis
      using assms(3) by (subst send_chunks.simps, subst pieces.simps) simp
  next
    case False
    then have pos: "pos < n" "0 < len" "len \<le> n - pos" using less.prems(2) by (auto simp: len_def)
    have addr: "unat (take_bit 21 a) = unat base + 64 * i"
    proof -
      have "64 * i < (n + 3) div 4" using pos(1) less.prems(1) by presburger
      then have lt: "unat base + 64 * i < 2 ^ 21" using assms(4) by simp
      then have "unat a = unat base + 64 * i"
        unfolding less.prems(3) by (simp only: unat_word_ariths unsigned_of_nat) (simp add: take_bit_nat_eq_self)
      then show ?thesis using lt by (simp add: unsigned_take_bit_eq take_bit_nat_eq_self)
    qed
    from performsD [OF write_works [OF assms(1,2), of len "drop pos b" a], of h] pos assms(3) obtain es where es:
      "run_state (sja1105_spi_send_packed_buf k s SPI_WRITE a (drop pos b) len) h = ((0, drop pos b), h @ es)"
      "sent_writes es = [(unat base + 64 * i, take len (drop pos b))]"
      by (auto simp: addr)
    have step: "send_chunks k s SPI_WRITE n a pos 0 b h =
        send_chunks k s SPI_WRITE n (a + of_nat (len div 4)) (pos + len) 0 b (h @ es)"
      using pos(2) by (subst send_chunks.simps, unfold Let_def len_def [symmetric]) (simp add: es(1))
    show ?thesis
    proof (cases "len = 256")
      case True
      then have "pos + len = 256 * Suc i" "a + of_nat (len div 4) = base + of_nat (64 * Suc i)"
        using less.prems by simp_all
      moreover have "n - (pos + len) < n - pos" "pos + len \<le> n" using pos by linarith+
      ultimately obtain fs where
        "send_chunks k s SPI_WRITE n (a + of_nat (len div 4)) (pos + len) 0 b (h @ es) = ((0, b), (h @ es) @ fs)"
        "sent_writes fs = pieces (unat base + 64 * Suc i) (drop (pos + len) b)"
        using less.hyps [of "pos + len" "Suc i" "a + of_nat (len div 4)" "h @ es"] by blast
      then show ?thesis
        using step es(2) True pos(1) assms(3)
        by (subst pieces.simps) (auto simp: algebra_simps)
    next
      case F: False
      then have last_piece: "len = n - pos" "n - pos < 256" using pos by (auto simp: len_def min_def split: if_splits)
      then have "send_chunks k s SPI_WRITE n (a + of_nat (len div 4)) (pos + len) 0 b (h @ es) = ((0, b), h @ es)"
        using pos by (subst send_chunks.simps) simp
      then show ?thesis
        using step es(2) last_piece pos(1) assms(3)
        by (subst pieces.simps, subst pieces.simps) simp
    qed
  qed
qed


text \<open>A read of fewer than 64 registers, from a switch.\<close>

lemma read_area_works:
  assumes "is_switch k mem" "sp_dry_run s = 0" "n < 64"
  shows "\<exists>es. run_state (sja1105_spi_send_packed_buf k s SPI_READ a b (4 * n)) h =
      ((0, load (registers_after mem h) (unat (take_bit 21 a)) n @ drop (4 * n) b), h @ es) \<and> sent_writes es = []"
proof -
  let ?hdr = "spi_header \<lparr>msg_access = 0, msg_read_count = of_nat n, msg_address = a\<rparr>"
  let ?tx = "?hdr @ replicate (4 * n) 0"
  let ?h1 = "h @ [(Flock_Ex (sp_fd s), k h (Flock_Ex (sp_fd s)))]"
  let ?tr = "\<lparr>tr_tx_buf = ?tx, tr_len = int (4 * n + 4), tr_delay_usecs = sp_delay s,
      tr_speed_hz = sp_speed s, tr_bits_per_word = sp_bits s, tr_cs_change = sp_cs_change s\<rparr>"
  have works: "bus_works k" and m4: "\<forall>x. length (mem x) = 4" using assms(1) by (simp_all add: is_switch_def)
  have cnt: "unat (take_bit 6 (of_nat n :: u64)) = n"
    using assms(3) by (simp add: unsigned_take_bit_eq unsigned_of_nat take_bit_nat_eq_self)
  obtain status where st: "length status = 4" "bytes_read (k ?h1 (Ioctl_Message (sp_fd s) ?tr)) =
      status @ load (registers_after mem ?h1) (unat (take_bit 21 a)) n"
    using assms(1) unfolding is_switch_def
    by (elim conjE allE [of _ ?h1] allE [of _ "sp_fd s"] allE [of _ ?tr]) (auto simp: wire_spi_header cnt)
  have "registers_after mem ?h1 = registers_after mem h" by (simp add: registers_after_def)
  then have rx: "drop 4 (overwrite (bytes_read (k ?h1 (Ioctl_Message (sp_fd s) ?tr))) (memset0 (4 * n + 4) (replicate (4 * n + 4) 0))) =
      load (registers_after mem h) (unat (take_bit 21 a)) n"
    using st by (simp add: overwrite_def length_load length_registers_after m4)
  from transfer_works [OF works assms(2), of "replicate (4 * n + 4) 0" "4 * n + 4" ?tx h] rx
  show ?thesis
    by (auto simp: sja1105_spi_send_packed_buf_def message_pack_bytes Let_def wire_spi_header)
qed

lemma read_works:
  assumes "is_switch k mem" "sp_dry_run s = 0" "n < 64" "length b = 4 * n"
  shows "\<exists>es. run_state (sja1105_spi_send_packed_buf k s SPI_READ a b (4 * n)) h =
      ((0, load (registers_after mem h) (unat (take_bit 21 a)) n), h @ es) \<and> sent_writes es = []"
  using read_area_works [OF assms(1-3), of a b h] assms(4) by simp

section \<open>Properties\<close>

text \<open>
  Every function of the library that talks to the switch leaves the bus idle: whatever the kernel
  answers, the calls it makes form transactions in which a message is sent only under the lock, and the lock
  is released after it, also when the message or its length is refused.
\<close>

theorem spi_bus_discipline:
  "(\<exists>es. snd (run_state (sja1105_spi_send_long_packed_buf k s rw a b n) h) = h @ es \<and> bus_trace es) \<and>
   (\<exists>es. snd (run_state (sja1105_spi_configure k s) h) = h @ es \<and> bus_trace es)"
  using keeps_bus_send_long [of k s rw a b n] keeps_bus_configure [of k s] by (simp_all add: keeps_bus_def)

text \<open>
  C25: writing a buffer of any length is one store into the registers of the switch: it returns 0, leaves the
  buffer as it is, and the registers from the base address on hold the buffer, all others what they held.
\<close>

theorem spi_long_write_refines_store:
  assumes "is_switch k mem" "sp_dry_run s = 0" "length b = 4 * n" "unat base + n \<le> 2 ^ 21"
  shows "\<exists>h'. run_state (sja1105_spi_send_long_packed_buf k s SPI_WRITE base b (4 * n)) h = ((0, b), h') \<and>
    registers_after mem h' = store (registers_after mem h) (unat base, b)"
proof -
  have "bus_works k" using assms(1) by (simp add: is_switch_def)
  moreover have "unat base + (4 * n + 3) div 4 \<le> 2 ^ 21" using assms(4) by simp
  ultimately obtain es where "send_chunks k s SPI_WRITE (4 * n) base 0 0 b h = ((0, b), h @ es)"
    "sent_writes es = pieces (unat base) b"
    using long_write_works [of k s b "4 * n" base 0 0 base h] assms(2,3) by auto
  then show ?thesis
    by (auto simp: sja1105_spi_send_long_packed_buf_def registers_after_def store_pieces foldl_append)
qed

text \<open>
  What was written is read back: after a write, a read of the same area, of fewer than 64 registers,
  returns the buffer.
\<close>

theorem spi_write_then_read:
  assumes "is_switch k mem" "sp_dry_run s = 0" "length b = 4 * n" "unat base + n \<le> 2 ^ 21"
    "n < 64" "length c = 4 * n"
  shows "\<exists>h' h''. run_state (sja1105_spi_send_long_packed_buf k s SPI_WRITE base b (4 * n)) h = ((0, b), h') \<and>
    run_state (sja1105_spi_send_packed_buf k s SPI_READ base c (4 * n)) h' = ((0, b), h'')"
proof -
  have works: "bus_works k" using assms(1) by (simp add: is_switch_def)
  have "unat base + (4 * n + 3) div 4 \<le> 2 ^ 21" using assms(4) by simp
  then obtain es where es: "send_chunks k s SPI_WRITE (4 * n) base 0 0 b h = ((0, b), h @ es)"
    "sent_writes es = pieces (unat base) b"
    using long_write_works [of k s b "4 * n" base 0 0 base h] works assms(2,3) by auto
  have "load (registers_after mem (h @ es)) (unat base) n = b"
    using es(2) assms(3) by (simp add: registers_after_def foldl_append store_pieces load_store)
  moreover have "n \<noteq> 0 \<Longrightarrow> unat (take_bit 21 base) = unat base"
    using assms(4) by (simp add: unsigned_take_bit_eq take_bit_nat_eq_self)
  moreover have "n = 0 \<Longrightarrow> load (registers_after mem (h @ es)) x n = b" for x
    using assms(3) by (simp add: load_def)
  ultimately show ?thesis
    using read_works [OF assms(1,2,5,6), of base "h @ es"] es(1)
    by (cases "n = 0") (auto simp: sja1105_spi_send_long_packed_buf_def)
qed


text \<open>A switch that answers at once, for the examples.\<close>

definition switch_kernel :: "registers \<Rightarrow> kernel" where
  "switch_kernel mem h c =
     (case c of
        Ioctl_Message fd tr \<Rightarrow>
          \<lparr>ret = tr_len tr,
           bytes_read = (if wire_write (tr_tx_buf tr) then []
             else replicate 4 0 @ load (registers_after mem h) (wire_address (tr_tx_buf tr)) (unat (wire_count (tr_tx_buf tr))))\<rparr>
      | _ \<Rightarrow> \<lparr>ret = 0, bytes_read = []\<rparr>)"

lemma switch_kernel_is_switch: "\<forall>x. length (mem x) = 4 \<Longrightarrow> is_switch (switch_kernel mem) mem"
  by (auto simp: is_switch_def bus_works_def switch_kernel_def intro!: exI [of _ "replicate 4 0"])

definition example_setup :: sja1105_spi_setup where
  "example_setup = \<lparr>sp_device_id = 0, sp_part_nr = 0, sp_device = ''/dev/spidev0.1'', sp_mode = 1, sp_bits = 8,
     sp_speed = 10000000, sp_delay = 0, sp_cs_change = 0, sp_dry_run = 0, sp_staging_area = ''/lib/firmware/sja1105.bin'',
     sp_flush = 1, sp_fd = 3\<rparr>"

theorem spi_long_write_refines_store_witness:
  "\<exists>h'. run_state (sja1105_spi_send_long_packed_buf (switch_kernel (\<lambda>_. [0, 0, 0, 0])) example_setup SPI_WRITE
      0x20000 (replicate 300 7) 300) [] = ((0, replicate 300 7), h') \<and>
    registers_after (\<lambda>_. [0, 0, 0, 0]) h' = store (\<lambda>_. [0, 0, 0, 0]) (0x20000, replicate 300 7)"
  using spi_long_write_refines_store [OF switch_kernel_is_switch, of "\<lambda>_. [0, 0, 0, 0]" example_setup
      "replicate 300 7" 75 "0x20000" "[]"]
  by (simp add: example_setup_def registers_after_def)

theorem spi_write_then_read_witness:
  "\<exists>h' h''. run_state (sja1105_spi_send_long_packed_buf (switch_kernel (\<lambda>_. [0, 0, 0, 0])) example_setup SPI_WRITE
      0x100013 [0x0A, 0x01, 0x09, 0x41] 4) [] = ((0, [0x0A, 0x01, 0x09, 0x41]), h') \<and>
    run_state (sja1105_spi_send_packed_buf (switch_kernel (\<lambda>_. [0, 0, 0, 0])) example_setup SPI_READ
      0x100013 [0, 0, 0, 0] 4) h' = ((0, [0x0A, 0x01, 0x09, 0x41]), h'')"
  using spi_write_then_read [OF switch_kernel_is_switch, of "\<lambda>_. [0, 0, 0, 0]" example_setup
      "[0x0A, 0x01, 0x09, 0x41]" 1 "0x100013" "[0, 0, 0, 0]" "[]"]
  by (simp add: example_setup_def)

text \<open>
  In a dry run nothing is sent: a message is only printed, the call succeeds, a read returns zeros, and
  configuring the bus and identifying the device do not touch the system at all.
\<close>

theorem spi_dry_run:
  assumes "sp_dry_run s \<noteq> 0" "rw = SPI_READ \<or> rw = SPI_WRITE" "n \<le> length b"
  shows "(\<exists>tx a'. run_state (sja1105_spi_send_packed_buf k s rw a b n) h =
      ((0, if rw = SPI_READ then replicate n 0 @ drop n b else b), h @ [(Hexdump tx, a')])) \<and>
    run_state (sja1105_spi_configure k s) h = ((0, s\<lparr>sp_fd := - 1\<rparr>), h)"
  using assms
  by (auto simp: sja1105_spi_send_packed_buf_def sja1105_spi_transfer_def sja1105_spi_configure_def system_def Let_def)

theorem spi_dry_run_witness:
  "\<exists>tx a'. run_state (sja1105_spi_send_packed_buf (switch_kernel (\<lambda>_. [1, 2, 3, 4])) (example_setup\<lparr>sp_dry_run := 1\<rparr>)
      SPI_READ 0 [9, 9, 9, 9, 9] 4) [] = ((0, [0, 0, 0, 0, 9]), [(Hexdump tx, a')])"
  using spi_dry_run [of "example_setup\<lparr>sp_dry_run := 1\<rparr>" SPI_READ 4 "[9, 9, 9, 9, 9]"
      "switch_kernel (\<lambda>_. [1, 2, 3, 4])" 0 "[]"]
  by (simp add: numeral_eq_Suc)

lemma find_some_equal: "(case find (\<lambda>d. x = Some d) ds of None \<Rightarrow> y | Some d \<Rightarrow> d) =
    (case x of None \<Rightarrow> y | Some d \<Rightarrow> if d \<in> set ds then d else y)"
  by (induction ds) (auto split: option.splits)

text \<open>The device found on the bus, when the call succeeds, is one of the four the tool supports.\<close>

theorem device_id_get_valid:
  assumes "sp_dry_run s = 0" "run_state (sja1105_device_id_get k s d p) h = ((rc, d', p'), h')" "0 \<le> rc"
  shows "DEVICE_ID_VALID d'"
proof -
  obtain rc1 t1 h1 where "run_state (sja1105_spi_send_int k s SPI_READ (CORE_ADDR + 0) 0 SIZE_SJA1105_DEVICE_ID) h = ((rc1, t1), h1)"
    by (metis prod.collapse)
  moreover obtain rc2 t2 h2 where "run_state (sja1105_spi_send_int k s SPI_READ (ACU_ADDR + 0x3C3) 0 4) h1 = ((rc2, t2), h2)"
    by (metis prod.collapse)
  ultimately show ?thesis
    using assms
    by (auto simp: sja1105_device_id_get_def find_some_equal Let_def DEVICE_ID_VALID_def IS_ET_def IS_PQRS_def
        compatible_device_ids_def split: if_splits option.splits)
qed


text \<open>Reading a register as a number, and identifying the device, on a switch.\<close>

lemma read_int_works:
  assumes "is_switch k mem" "sp_dry_run s = 0"
    "registers_after mem h (unat (take_bit 21 a)) = [b0, b1, b2, b3]"
  shows "\<exists>es. run_state (sja1105_spi_send_int k s SPI_READ a v 4) h = ((0, Some (be32 b0 b1 b2 b3)), h @ es) \<and>
    sent_writes es = []"
proof -
  have "load (registers_after mem h) (unat (take_bit 21 a)) 1 = [b0, b1, b2, b3]"
    using assms(3) by (simp add: load_def)
  with read_works [OF assms(1,2), of 1 "replicate 4 0" a h] show ?thesis
    by (auto simp: sja1105_spi_send_int_def gtable_unpack_word)
qed

lemma upt_8: "[0..<8] = [0, 1, 2, 3, 4, 5, 6, 7 :: nat]"
  by (simp add: upt_rec)

lemma be32_octets:
  "(ucast (be32 b0 b1 b2 b3) :: u8) = b3" "(ucast (drop_bit 8 (be32 b0 b1 b2 b3)) :: u8) = b2"
  "(ucast (drop_bit 16 (be32 b0 b1 b2 b3)) :: u8) = b1" "(ucast (drop_bit 24 (be32 b0 b1 b2 b3)) :: u8) = b0"
  by (rule word_bits_eqI, simp add: bit_ucast_iff bit_drop_bit_eq be32_def bit_or_iff bit_push_bit_iff)+

lemma le_bytes_be32: "\<exists>r. le_bytes (be32 b0 b1 b2 b3) = b3 # b2 # b1 # b0 # r"
  by (simp add: le_bytes_def upt_8 be32_octets)

lemma unpack_part_nr:
  "fst (snd (gtable_unpack (b0 # b1 # b2 # b3 # r) v 19 4 4)) = take_bit 16 (drop_bit 4 (be32 b0 b1 b2 b3))"
proof (rule bit_eqI)
  fix i
  have "bit (be32 b0 b1 b2 b3) (i + 4) \<longleftrightarrow> i + 4 < 32 \<and> lbit 4 (b0 # b1 # b2 # b3 # r) (i + 4)"
    using bit_wire_word [of "b0 # b1 # b2 # b3 # r" "i + 4"] by (simp add: wire_word_def)
  then show "bit (fst (snd (gtable_unpack (b0 # b1 # b2 # b3 # r) v 19 4 4))) i =
      bit (take_bit 16 (drop_bit 4 (be32 b0 b1 b2 b3))) i"
    using gtable_unpack_lbit(3) [of 4 19 "b0 # b1 # b2 # b3 # r" v 4 i]
    by (auto simp: bit_take_bit_iff bit_drop_bit_eq add.commute)
qed

text \<open>A switch of the P/R family.\<close>

lemma device_id_get_PR:
  assumes "is_switch k mem" "sp_dry_run s = 0"
    "registers_after mem h 0 = [0xAF, 0x00, 0x03, 0x0E]"
    "registers_after mem h 0x100BC3 = [b0, b1, b2, b3]"
  shows "\<exists>h'. run_state (sja1105_device_id_get k s d p) h =
    ((0, SJA1105PR_DEVICE_ID, take_bit 16 (drop_bit 4 (be32 b3 b2 b1 b0))), h')"
proof -
  obtain es where es: "run_state (sja1105_spi_send_int k s SPI_READ (CORE_ADDR + 0) 0 SIZE_SJA1105_DEVICE_ID) h =
      ((0, Some (be32 0xAF 0x00 0x03 0x0E)), h @ es)" "sent_writes es = []"
    using read_int_works [OF assms(1,2), of h "CORE_ADDR + 0"] assms(3) by auto
  have "registers_after mem (h @ es) = registers_after mem h" using es(2) by (simp add: registers_after_def)
  then obtain fs where fs: "run_state (sja1105_spi_send_int k s SPI_READ (ACU_ADDR + 0x3C3) 0 4) (h @ es) =
      ((0, Some (be32 b0 b1 b2 b3)), h @ es @ fs)"
    using read_int_works [OF assms(1,2), of "h @ es" "ACU_ADDR + 0x3C3"] assms(4) by auto
  obtain r where r: "le_bytes (be32 b0 b1 b2 b3) = b3 # b2 # b1 # b0 # r" using le_bytes_be32 by blast
  have "be32 0xAF 0x00 0x03 0x0E = SJA1105PR_DEVICE_ID" by (simp add: be32_def)
  then show ?thesis
    using es(1) fs assms(2)
    by (simp add: sja1105_device_id_get_def find_some_equal compatible_device_ids_def IS_PQRS_def Let_def r unpack_part_nr)
qed

text \<open>
  The part number that tells P from R and Q from S is taken from the memory of a number in host order: on
  a little-endian host it is read from the bytes of the register in reverse order.
\<close>

theorem device_id_get_part_nr:
  assumes "is_switch k mem" "sp_dry_run s = 0"
    "registers_after mem h 0 = [0xAF, 0x00, 0x03, 0x0E]"
    "registers_after mem h 0x100BC3 = [b0, b1, b2, b3]"
  shows "\<exists>h'. run_state (sja1105_device_id_get k s d p) h =
    ((0, SJA1105PR_DEVICE_ID, take_bit 16 (drop_bit 4 (be32 b3 b2 b1 b0))), h')"
  using device_id_get_PR [OF assms] .

definition example_registers :: registers where
  "example_registers = (\<lambda>x. if x = 0 then [0xAF, 0x00, 0x03, 0x0E]
     else if x = 0x100BC3 then [0x00, 0x09, 0xA8, 0x40] else [0, 0, 0, 0])"

lemma example_is_switch: "is_switch (switch_kernel example_registers) example_registers"
  by (rule switch_kernel_is_switch) (simp add: example_registers_def)

theorem device_id_get_part_nr_witness:
  "\<exists>h'. run_state (sja1105_device_id_get (switch_kernel example_registers) example_setup 0 0) [] =
     ((0, SJA1105PR_DEVICE_ID, 0x8090), h') \<and>
   be32 0x00 0x09 0xA8 0x40 = push_bit 4 SJA1105P_PART_NR"
  using device_id_get_part_nr [OF example_is_switch, of example_setup "[]" "0x00" "0x09" "0xA8" "0x40" 0 0]
  by (simp add: example_setup_def registers_after_def example_registers_def be32_def)

theorem device_id_get_valid_witness: "DEVICE_ID_VALID SJA1105PR_DEVICE_ID"
proof -
  obtain h' where "run_state (sja1105_device_id_get (switch_kernel example_registers) example_setup 0 0) [] =
      ((0, SJA1105PR_DEVICE_ID, take_bit 16 (drop_bit 4 (be32 0x40 0xA8 0x09 0x00))), h')"
    using device_id_get_PR [OF example_is_switch, of example_setup "[]" "0x00" "0x09" "0xA8" "0x40" 0 0]
    by (auto simp: example_setup_def registers_after_def example_registers_def)
  from device_id_get_valid [OF _ this] show ?thesis by (simp add: example_setup_def)
qed

lemma of_le_bytes_octet: "of_le_bytes (overwrite [m] (le_bytes 0)) = ucast m"
  by (simp add: of_le_bytes_def overwrite_def le_bytes_def upt_8)

lemma ucast_u8_u64: "(ucast a :: u64) = ucast b \<longleftrightarrow> a = b" for a b :: u8
proof -
  have "(ucast (ucast x :: u64) :: u8) = x" for x :: u8
    by (rule bit_eqI) (auto simp: bit_ucast_iff dest: bit_imp_le_length)
  then show ?thesis by metis
qed

text \<open>
  When the driver accepts a setting and then reports another, configuring the bus does not fail: it
  returns what the read returned, with the device closed and no file descriptor for the caller.
\<close>

theorem spi_configure_mismatch:
  assumes "sp_dry_run s = 0" "0 \<le> fd" "0 \<le> r" "m \<noteq> sp_mode s"
    "\<forall>h. ret (k h (Open (sp_device s))) = fd"
    "\<forall>h v. 0 \<le> ret (k h (Ioctl_Write fd SPI_IOC_MODE v))"
    "\<forall>h. k h (Ioctl_Read fd SPI_IOC_MODE) = \<lparr>ret = r, bytes_read = [m]\<rparr>"
  shows "\<exists>h'. run_state (sja1105_spi_configure k s) h = ((r, s), h') \<and> fst (last h') = Close fd"
proof -
  have "\<not> ret (k h (Open (sp_device s))) < 0" "\<not> ret (k h (Ioctl_Write fd SPI_IOC_MODE v)) < 0" for h v
    using assms(2,5,6) by (auto simp: not_less)
  then show ?thesis
    using assms(1-5,7)
    by (simp add: sja1105_spi_configure_def spi_cmds_def system_def Let_def of_le_bytes_octet ucast_u8_u64)
qed

definition stubborn_kernel :: kernel where
  "stubborn_kernel h c = (case c of Open d \<Rightarrow> \<lparr>ret = 3, bytes_read = []\<rparr>
     | Ioctl_Read fd ioc \<Rightarrow> \<lparr>ret = 0, bytes_read = [2]\<rparr> | _ \<Rightarrow> \<lparr>ret = 0, bytes_read = []\<rparr>)"

theorem spi_configure_mismatch_witness:
  "\<exists>h'. run_state (sja1105_spi_configure stubborn_kernel example_setup) [] = ((0, example_setup), h') \<and>
    fst (last h') = Close 3"
  using spi_configure_mismatch [of example_setup 3 0 2 stubborn_kernel "[]"]
  by (simp add: example_setup_def stubborn_kernel_def)

text \<open>
  C35: the result of a transfer: 0 exactly when the lock was taken, all bytes of the message went over the
  bus and the lock was released; otherwise -EAGAIN for the lock and -EIO for the message.
\<close>

theorem spi_transfer_result:
  assumes "sp_dry_run s = 0" "run_state (sja1105_spi_transfer k s tx rx n) h = ((rc, rx'), h')"
  shows "(rc = 0 \<or> rc = - EAGAIN \<or> rc = - EIO) \<and>
    (rc = 0 \<longleftrightarrow> (\<exists>lock sent unlock tr. h' = h @ [(Flock_Ex (sp_fd s), lock), (Ioctl_Message (sp_fd s) tr, sent),
        (Flock_Un (sp_fd s), unlock)] \<and> tr_tx_buf tr = tx \<and> tr_len tr = int n \<and>
        0 \<le> ret lock \<and> ret sent = int n \<and> 0 \<le> ret unlock))"
  using assms
  by (auto simp: sja1105_spi_transfer_def system_def Let_def split: if_splits)

theorem spi_transfer_result_witness:
  "\<exists>lock sent unlock tr. snd (run_state (sja1105_spi_transfer (switch_kernel example_registers) example_setup
      [0x80, 0, 0, 0, 1, 2, 3, 4] (replicate 8 0) 8) []) =
    [(Flock_Ex 3, lock), (Ioctl_Message 3 tr, sent), (Flock_Un 3, unlock)] \<and> tr_tx_buf tr = [0x80, 0, 0, 0, 1, 2, 3, 4]"
proof -
  let ?r = "run_state (sja1105_spi_transfer (switch_kernel example_registers) example_setup
      [0x80, 0, 0, 0, 1, 2, 3, 4] (replicate 8 0) 8) []"
  have "fst (fst ?r) = 0"
    by (simp add: sja1105_spi_transfer_def system_def Let_def example_setup_def switch_kernel_def)
  moreover have "?r = ((fst (fst ?r), snd (fst ?r)), snd ?r)" by simp
  ultimately show ?thesis
    using spi_transfer_result [of example_setup "switch_kernel example_registers" "[0x80, 0, 0, 0, 1, 2, 3, 4]"
        "replicate 8 0" 8 "[]" "fst (fst ?r)" "snd (fst ?r)" "snd ?r"]
    by (auto simp: example_setup_def)
qed

end
