(* ===== verification/Registers.thy ===== *)
theory Registers
  imports Spi
begin

unbundle bit_operations_syntax

text \<open>
  Control registers of one 32-bit word: what packing such a register puts on the wire, and the writing
  of a single register, which the control functions of the library all end with.
\<close>

section \<open>Words on the wire\<close>

definition be_bytes :: "u64 \<Rightarrow> u8 list" where
  "be_bytes w = [ucast (drop_bit 24 w), ucast (drop_bit 16 w), ucast (drop_bit 8 w), ucast w]"

lemma length_be_bytes [simp]: "length (be_bytes w) = 4"
  by (simp add: be_bytes_def)

lemma bit_be32: "bit (be32 b0 b1 b2 b3) i \<longleftrightarrow>
    (if i < 8 then bit b3 i else if i < 16 then bit b2 (i - 8)
     else if i < 24 then bit b1 (i - 16) else bit b0 (i - 24))"
proof -
  have *: "bit (b :: u8) j \<Longrightarrow> j < 8" for b j using bit_imp_le_length [of b j] by simp
  consider "i < 8" | "8 \<le> i" "i < 16" | "16 \<le> i" "i < 24" | "24 \<le> i" by linarith
  then show ?thesis
    by cases (use * [of b0 "i - 24"] * [of b1 "i - 16"] * [of b2 "i - 8"] * [of b3 i] in
      \<open>auto simp: be32_def bit_or_iff bit_push_bit_iff bit_ucast_iff\<close>)
qed

lemma wire_be_bytes: "be32 (ucast (drop_bit 24 w)) (ucast (drop_bit 16 w)) (ucast (drop_bit 8 w)) (ucast w) = take_bit 32 w"
proof (rule bit_eqI)
  fix i :: nat
  consider "i < 8" | "8 \<le> i" "i < 16" | "16 \<le> i" "i < 24" | "24 \<le> i" "i < 32" | "32 \<le> i" by linarith
  then show "bit (be32 (ucast (drop_bit 24 w)) (ucast (drop_bit 16 w)) (ucast (drop_bit 8 w)) (ucast w)) i = bit (take_bit 32 w) i"
    by cases (auto simp: bit_be32 bit_ucast_iff bit_drop_bit_eq bit_take_bit_iff)
qed

lemma lbit_be_bytes: "i < 32 \<Longrightarrow> lbit 4 (be_bytes w) i = bit w i"
  using bit_wire_word [of "be_bytes w" i] by (simp add: be_bytes_def wire_word_def wire_be_bytes bit_take_bit_iff)

lemma be_bytes_inj: "be_bytes v = be_bytes w \<longleftrightarrow> take_bit 32 v = take_bit 32 w"
proof
  assume "be_bytes v = be_bytes w"
  then show "take_bit 32 v = take_bit 32 w"
    using wire_be_bytes [of v] wire_be_bytes [of w] by (simp add: be_bytes_def)
next
  assume "take_bit 32 v = take_bit 32 w"
  then have "bit v i = bit w i" if "i < 32" for i using that by (metis bit_take_bit_iff)
  then show "be_bytes v = be_bytes w"
    by (intro lbit_determines [where sz = 4]) (simp_all add: lbit_be_bytes)
qed

text \<open>The number that the fields of a register form.\<close>

definition layout_word :: "'e fld list \<Rightarrow> 'e \<Rightarrow> u64" where
  "layout_word fs e = foldr (\<lambda>f w. push_bit (lo f) (take_bit (width f) (fval e f)) OR w) fs 0"

lemma bit_layout_word:
  "list_all (\<lambda>f. lo f \<le> hi f) fs \<Longrightarrow> i < 64 \<Longrightarrow> bit (layout_word fs e) i = layout_bit fs e i"
proof (induction fs)
  case (Cons f fs)
  then show ?case
    by (auto simp: layout_word_def bit_or_iff bit_push_bit_iff bit_take_bit_iff width_def)
qed (simp add: layout_word_def)

lemma layout_ok_nonempty: "layout_ok sz fs \<Longrightarrow> list_all (\<lambda>f. lo f \<le> hi f) fs"
  by (induction fs) (auto simp: field_ok_def)

context table_codec begin

lemma word_bytes: "sz = 4 \<Longrightarrow> bytes e = be_bytes (layout_word fs e)"
  by (rule lbit_determines [where sz = 4])
    (use length_bytes lbit_bytes [of _ e] bit_layout_word [OF layout_ok_nonempty [OF layout]] in
      \<open>simp_all add: lbit_be_bytes\<close>)

lemma pack_word:
  "sz = 4 \<Longrightarrow> 4 \<le> length buf \<Longrightarrow>
   table_access fs sz zero True buf e = (be_bytes (layout_word fs e) @ drop 4 buf, truncate_fields fs e)"
  using pack_eq [of buf e] word_bytes [of e] by (simp only: entry_pack_def)

end

section \<open>Writing a register\<close>

text \<open>
  The control functions pack a register into an array of four bytes, which packing clears first, write it,
  and return the result of the write.
\<close>

definition write_register :: "kernel \<Rightarrow> sja1105_spi_setup \<Rightarrow> u64 \<Rightarrow> u8 list \<Rightarrow> int io" where
  "write_register k spi_setup addr packed_buf = do {
     (rc, buf) \<leftarrow> sja1105_spi_send_packed_buf k spi_setup SPI_WRITE addr packed_buf 4;
     io_return rc
   }"

lemma keeps_bus_write_register [bus_intros]: "keeps_bus (write_register k s a b)"
  unfolding write_register_def by (intro bus_intros)

named_theorems register_writes "the writes that the control functions perform on a bus that works"

lemma performs_write_register [register_writes]:
  assumes "bus_works k" "sp_dry_run s = 0" "length b = 4"
  shows "performs (write_register k s a b) 0 [(unat (take_bit 21 a), b)]"
proof -
  have "performs (sja1105_spi_send_packed_buf k s SPI_WRITE a b 4) (0, b) [(unat (take_bit 21 a), b)]"
    using write_works [OF assms(1,2), of 4 b a] assms(3) by simp
  from performs_bind [OF this, of "\<lambda>(rc, buf). io_return rc" 0 "[]"] show ?thesis
    by (simp add: write_register_def performs_return)
qed

lemma performs_seq:
  assumes "performs m (0 :: int) ws" "performs n y vs"
  shows "performs (State_Monad.bind m (\<lambda>rc. if rc < 0 then g rc else n)) y (ws @ vs)"
  using performs_bind [of m 0 ws "\<lambda>rc. if rc < 0 then g rc else n" y vs] assms by simp

end
