(* ===== verification/Clocking.thy ===== *)
theory Clocking
  imports Registers Tables_L2 Tables_General
begin

unbundle bit_operations_syntax

text \<open>
  The clock generation unit and the pads (\<^verbatim>\<open>lib/clock/*.c\<close>): the registers, each packed into one 32-bit word,
  and the sequences of register writes that set up the clocks of a port for MII, RMII and RGMII. The
  port is one of 0 to 4 at all call sites, so the tables of offsets are read inside their bounds.
\<close>

section \<open>Constants\<close>

abbreviation (input) AGU_ADDR :: u64 where "AGU_ADDR \<equiv> 0x100800"
abbreviation (input) CGU_ADDR :: u64 where "CGU_ADDR \<equiv> 0x100000"

abbreviation (input) CLKSRC_MII0_TX_CLK :: u64 where "CLKSRC_MII0_TX_CLK \<equiv> 0x00"
abbreviation (input) CLKSRC_MII0_RX_CLK :: u64 where "CLKSRC_MII0_RX_CLK \<equiv> 0x01"
abbreviation (input) CLKSRC_MII1_TX_CLK :: u64 where "CLKSRC_MII1_TX_CLK \<equiv> 0x02"
abbreviation (input) CLKSRC_MII1_RX_CLK :: u64 where "CLKSRC_MII1_RX_CLK \<equiv> 0x03"
abbreviation (input) CLKSRC_MII2_TX_CLK :: u64 where "CLKSRC_MII2_TX_CLK \<equiv> 0x04"
abbreviation (input) CLKSRC_MII2_RX_CLK :: u64 where "CLKSRC_MII2_RX_CLK \<equiv> 0x05"
abbreviation (input) CLKSRC_MII3_TX_CLK :: u64 where "CLKSRC_MII3_TX_CLK \<equiv> 0x06"
abbreviation (input) CLKSRC_MII3_RX_CLK :: u64 where "CLKSRC_MII3_RX_CLK \<equiv> 0x07"
abbreviation (input) CLKSRC_MII4_TX_CLK :: u64 where "CLKSRC_MII4_TX_CLK \<equiv> 0x08"
abbreviation (input) CLKSRC_MII4_RX_CLK :: u64 where "CLKSRC_MII4_RX_CLK \<equiv> 0x09"
abbreviation (input) CLKSRC_PLL0 :: u64 where "CLKSRC_PLL0 \<equiv> 0x0B"
abbreviation (input) CLKSRC_PLL1 :: u64 where "CLKSRC_PLL1 \<equiv> 0x0E"
abbreviation (input) CLKSRC_IDIV0 :: u64 where "CLKSRC_IDIV0 \<equiv> 0x11"
abbreviation (input) CLKSRC_IDIV1 :: u64 where "CLKSRC_IDIV1 \<equiv> 0x12"
abbreviation (input) CLKSRC_IDIV2 :: u64 where "CLKSRC_IDIV2 \<equiv> 0x13"
abbreviation (input) CLKSRC_IDIV3 :: u64 where "CLKSRC_IDIV3 \<equiv> 0x14"
abbreviation (input) CLKSRC_IDIV4 :: u64 where "CLKSRC_IDIV4 \<equiv> 0x15"

abbreviation (input) XMII_MODE_MAC :: int where "XMII_MODE_MAC \<equiv> 0"
abbreviation (input) XMII_MODE_PHY :: int where "XMII_MODE_PHY \<equiv> 1"
abbreviation (input) XMII_SPEED_MII :: u64 where "XMII_SPEED_MII \<equiv> 0"
abbreviation (input) XMII_SPEED_RMII :: u64 where "XMII_SPEED_RMII \<equiv> 1"
abbreviation (input) XMII_SPEED_RGMII :: u64 where "XMII_SPEED_RGMII \<equiv> 2"
abbreviation (input) XMII_SPEED_SGMII :: u64 where "XMII_SPEED_SGMII \<equiv> 3"

section \<open>Registers\<close>

record cgu_idiv =
  idiv_clksrc :: u64
  idiv_autoblock :: u64
  idiv_idiv :: u64
  idiv_pd :: u64

definition cgu_idiv_zero :: cgu_idiv where [table_zeros]:
  "cgu_idiv_zero = \<lparr>idiv_clksrc = 0, idiv_autoblock = 0, idiv_idiv = 0, idiv_pd = 0\<rparr>"

definition cgu_idiv_layout :: "cgu_idiv fld list" where [table_layouts]:
  "cgu_idiv_layout =
    [fld idiv_clksrc idiv_clksrc_update 28 24,
     fld idiv_autoblock idiv_autoblock_update 11 11,
     fld idiv_idiv idiv_idiv_update 5 2,
     fld idiv_pd idiv_pd_update 0 0]"

definition sja1105_cgu_idiv_access :: "bool \<Rightarrow> u8 list \<Rightarrow> cgu_idiv \<Rightarrow> u8 list \<times> cgu_idiv" where
  "sja1105_cgu_idiv_access = table_access cgu_idiv_layout 4 cgu_idiv_zero"

definition sja1105_cgu_idiv_pack :: "u8 list \<Rightarrow> cgu_idiv \<Rightarrow> u8 list \<times> cgu_idiv" where
  "sja1105_cgu_idiv_pack buf idiv = sja1105_cgu_idiv_access True buf idiv"

definition sja1105_cgu_idiv_unpack :: "u8 list \<Rightarrow> cgu_idiv \<Rightarrow> cgu_idiv" where
  "sja1105_cgu_idiv_unpack buf idiv = snd (sja1105_cgu_idiv_access False buf idiv)"

record cgu_pll_control =
  pll_pllclksrc :: u64
  pll_msel :: u64
  pll_nsel :: u64
  pll_autoblock :: u64
  pll_psel :: u64
  pll_direct :: u64
  pll_fbsel :: u64
  pll_p23en :: u64
  pll_bypass :: u64
  pll_pd :: u64

definition cgu_pll_control_zero :: cgu_pll_control where [table_zeros]:
  "cgu_pll_control_zero = \<lparr>pll_pllclksrc = 0, pll_msel = 0, pll_nsel = 0, pll_autoblock = 0, pll_psel = 0,
    pll_direct = 0, pll_fbsel = 0, pll_p23en = 0, pll_bypass = 0, pll_pd = 0\<rparr>"

definition cgu_pll_control_layout :: "cgu_pll_control fld list" where [table_layouts]:
  "cgu_pll_control_layout =
    [fld pll_pllclksrc pll_pllclksrc_update 28 24,
     fld pll_msel pll_msel_update 23 16,
     fld pll_autoblock pll_autoblock_update 11 11,
     fld pll_psel pll_psel_update 9 8,
     fld pll_direct pll_direct_update 7 7,
     fld pll_fbsel pll_fbsel_update 6 6,
     fld pll_bypass pll_bypass_update 1 1,
     fld pll_pd pll_pd_update 0 0]"

definition cgu_pll_control_pqrs_layout :: "cgu_pll_control fld list" where [table_layouts]:
  "cgu_pll_control_pqrs_layout =
    [fld pll_nsel pll_nsel_update 13 12,
     fld pll_p23en pll_p23en_update 2 2]"

definition sja1105_cgu_pll_control_access ::
    "bool \<Rightarrow> u8 list \<Rightarrow> cgu_pll_control \<Rightarrow> u64 \<Rightarrow> u8 list \<times> cgu_pll_control" where
  "sja1105_cgu_pll_control_access write buf pll device_id =
     (let s = access_fields write 4 cgu_pll_control_layout (access_init write 4 cgu_pll_control_zero (buf, pll))
      in if IS_PQRS device_id then access_fields write 4 cgu_pll_control_pqrs_layout s else s)"

definition sja1105_cgu_pll_control_pack ::
    "u8 list \<Rightarrow> cgu_pll_control \<Rightarrow> u64 \<Rightarrow> u8 list \<times> cgu_pll_control" where
  "sja1105_cgu_pll_control_pack buf pll device_id = sja1105_cgu_pll_control_access True buf pll device_id"

definition sja1105_cgu_pll_control_unpack ::
    "u8 list \<Rightarrow> cgu_pll_control \<Rightarrow> u64 \<Rightarrow> cgu_pll_control" where
  "sja1105_cgu_pll_control_unpack buf pll device_id = snd (sja1105_cgu_pll_control_access False buf pll device_id)"

record cgu_mii_control =
  mii_clksrc :: u64
  mii_autoblock :: u64
  mii_pd :: u64

definition cgu_mii_control_zero :: cgu_mii_control where [table_zeros]:
  "cgu_mii_control_zero = \<lparr>mii_clksrc = 0, mii_autoblock = 0, mii_pd = 0\<rparr>"

definition cgu_mii_control_layout :: "cgu_mii_control fld list" where [table_layouts]:
  "cgu_mii_control_layout =
    [fld mii_clksrc mii_clksrc_update 28 24,
     fld mii_autoblock mii_autoblock_update 11 11,
     fld mii_pd mii_pd_update 0 0]"

definition sja1105_cgu_mii_control_access ::
    "bool \<Rightarrow> u8 list \<Rightarrow> cgu_mii_control \<Rightarrow> u8 list \<times> cgu_mii_control" where
  "sja1105_cgu_mii_control_access = table_access cgu_mii_control_layout 4 cgu_mii_control_zero"

definition sja1105_cgu_mii_control_pack :: "u8 list \<Rightarrow> cgu_mii_control \<Rightarrow> u8 list \<times> cgu_mii_control" where
  "sja1105_cgu_mii_control_pack buf mii = sja1105_cgu_mii_control_access True buf mii"

definition sja1105_cgu_mii_control_unpack :: "u8 list \<Rightarrow> cgu_mii_control \<Rightarrow> cgu_mii_control" where
  "sja1105_cgu_mii_control_unpack buf mii = snd (sja1105_cgu_mii_control_access False buf mii)"

record cfg_pad_mii_tx =
  pad_d32_os :: u64
  pad_d32_ipud :: u64
  pad_d10_os :: u64
  pad_d10_ipud :: u64
  pad_ctrl_os :: u64
  pad_ctrl_ipud :: u64
  pad_clk_os :: u64
  pad_clk_ih :: u64
  pad_clk_ipud :: u64

definition cfg_pad_mii_tx_zero :: cfg_pad_mii_tx where [table_zeros]:
  "cfg_pad_mii_tx_zero = \<lparr>pad_d32_os = 0, pad_d32_ipud = 0, pad_d10_os = 0, pad_d10_ipud = 0, pad_ctrl_os = 0,
    pad_ctrl_ipud = 0, pad_clk_os = 0, pad_clk_ih = 0, pad_clk_ipud = 0\<rparr>"

definition cfg_pad_mii_tx_layout :: "cfg_pad_mii_tx fld list" where [table_layouts]:
  "cfg_pad_mii_tx_layout =
    [fld pad_d32_os pad_d32_os_update 28 27,
     fld pad_d32_ipud pad_d32_ipud_update 25 24,
     fld pad_d10_os pad_d10_os_update 20 19,
     fld pad_d10_ipud pad_d10_ipud_update 17 16,
     fld pad_ctrl_os pad_ctrl_os_update 12 11,
     fld pad_ctrl_ipud pad_ctrl_ipud_update 9 8,
     fld pad_clk_os pad_clk_os_update 4 3,
     fld pad_clk_ih pad_clk_ih_update 2 2,
     fld pad_clk_ipud pad_clk_ipud_update 1 0]"

definition sja1105_cfg_pad_mii_tx_access ::
    "bool \<Rightarrow> u8 list \<Rightarrow> cfg_pad_mii_tx \<Rightarrow> u8 list \<times> cfg_pad_mii_tx" where
  "sja1105_cfg_pad_mii_tx_access = table_access cfg_pad_mii_tx_layout 4 cfg_pad_mii_tx_zero"

definition sja1105_cfg_pad_mii_tx_pack :: "u8 list \<Rightarrow> cfg_pad_mii_tx \<Rightarrow> u8 list \<times> cfg_pad_mii_tx" where
  "sja1105_cfg_pad_mii_tx_pack buf pad = sja1105_cfg_pad_mii_tx_access True buf pad"

definition sja1105_cfg_pad_mii_tx_unpack :: "u8 list \<Rightarrow> cfg_pad_mii_tx \<Rightarrow> cfg_pad_mii_tx" where
  "sja1105_cfg_pad_mii_tx_unpack buf pad = snd (sja1105_cfg_pad_mii_tx_access False buf pad)"

section \<open>Single settings\<close>

text \<open>Every setting packs its register into an array of four bytes and writes it.\<close>

definition sja1105_cgu_idiv_config ::
    "kernel \<Rightarrow> sja1105_spi_setup \<Rightarrow> nat \<Rightarrow> int \<Rightarrow> int \<Rightarrow> int io" where
  "sja1105_cgu_idiv_config k spi_setup port enabled factor =
     (let idiv_offsets = [0x0B, 0x0C, 0x0D, 0x0E, 0x0F]
      in if enabled \<noteq> 0 \<and> enabled \<noteq> 1 then io_return (- 1)
         else if enabled = 1 \<and> factor \<noteq> 1 \<and> factor \<noteq> 10 then io_return (- 1)
         else
           let idiv = \<lparr>idiv_clksrc = 0x0A, idiv_autoblock = 1, idiv_idiv = of_int (factor - 1),
                       idiv_pd = (if enabled \<noteq> 0 then 0 else 1)\<rparr>
           in write_register k spi_setup (CGU_ADDR + idiv_offsets ! port)
                (fst (sja1105_cgu_idiv_pack (replicate 4 0) idiv)))"

definition sja1105_cgu_mii_tx_clk_config :: "kernel \<Rightarrow> sja1105_spi_setup \<Rightarrow> nat \<Rightarrow> int \<Rightarrow> int io" where
  "sja1105_cgu_mii_tx_clk_config k spi_setup port mii_mode =
     (let offsets = (if IS_ET (sp_device_id spi_setup) then [0x13, 0x1A, 0x21, 0x28, 0x2F]
                     else [0x13, 0x19, 0x1F, 0x25, 0x2B]);
          mac_clk_sources = [CLKSRC_MII0_TX_CLK, CLKSRC_MII1_TX_CLK, CLKSRC_MII2_TX_CLK, CLKSRC_MII3_TX_CLK,
                             CLKSRC_MII4_TX_CLK];
          phy_clk_sources = [CLKSRC_IDIV0, CLKSRC_IDIV1, CLKSRC_IDIV2, CLKSRC_IDIV3, CLKSRC_IDIV4];
          clksrc = (if mii_mode = XMII_MODE_MAC then mac_clk_sources ! port else phy_clk_sources ! port);
          mii_tx_clk = \<lparr>mii_clksrc = clksrc, mii_autoblock = 1, mii_pd = 0\<rparr>
      in write_register k spi_setup (CGU_ADDR + offsets ! port)
           (fst (sja1105_cgu_mii_control_pack (replicate 4 0) mii_tx_clk)))"

definition sja1105_cgu_mii_rx_clk_config :: "kernel \<Rightarrow> sja1105_spi_setup \<Rightarrow> nat \<Rightarrow> int io" where
  "sja1105_cgu_mii_rx_clk_config k spi_setup port =
     (let offsets = (if IS_ET (sp_device_id spi_setup) then [0x14, 0x1B, 0x22, 0x29, 0x30]
                     else [0x14, 0x1A, 0x20, 0x26, 0x2C]);
          clk_sources = [CLKSRC_MII0_RX_CLK, CLKSRC_MII1_RX_CLK, CLKSRC_MII2_RX_CLK, CLKSRC_MII3_RX_CLK,
                         CLKSRC_MII4_RX_CLK];
          mii_rx_clk = \<lparr>mii_clksrc = clk_sources ! port, mii_autoblock = 1, mii_pd = 0\<rparr>
      in write_register k spi_setup (CGU_ADDR + offsets ! port)
           (fst (sja1105_cgu_mii_control_pack (replicate 4 0) mii_rx_clk)))"

definition sja1105_cgu_mii_ext_tx_clk_config :: "kernel \<Rightarrow> sja1105_spi_setup \<Rightarrow> nat \<Rightarrow> int io" where
  "sja1105_cgu_mii_ext_tx_clk_config k spi_setup port =
     (let offsets = (if IS_ET (sp_device_id spi_setup) then [0x18, 0x1F, 0x26, 0x2D, 0x34]
                     else [0x17, 0x1D, 0x23, 0x29, 0x2F]);
          clk_sources = [CLKSRC_IDIV0, CLKSRC_IDIV1, CLKSRC_IDIV2, CLKSRC_IDIV3, CLKSRC_IDIV4];
          mii_ext_tx_clk = \<lparr>mii_clksrc = clk_sources ! port, mii_autoblock = 1, mii_pd = 0\<rparr>
      in write_register k spi_setup (CGU_ADDR + offsets ! port)
           (fst (sja1105_cgu_mii_control_pack (replicate 4 0) mii_ext_tx_clk)))"

definition sja1105_cgu_mii_ext_rx_clk_config :: "kernel \<Rightarrow> sja1105_spi_setup \<Rightarrow> nat \<Rightarrow> int io" where
  "sja1105_cgu_mii_ext_rx_clk_config k spi_setup port =
     (let offsets = (if IS_ET (sp_device_id spi_setup) then [0x19, 0x20, 0x27, 0x2E, 0x35]
                     else [0x18, 0x1E, 0x24, 0x2A, 0x30]);
          clk_sources = [CLKSRC_IDIV0, CLKSRC_IDIV1, CLKSRC_IDIV2, CLKSRC_IDIV3, CLKSRC_IDIV4];
          mii_ext_rx_clk = \<lparr>mii_clksrc = clk_sources ! port, mii_autoblock = 1, mii_pd = 0\<rparr>
      in write_register k spi_setup (CGU_ADDR + offsets ! port)
           (fst (sja1105_cgu_mii_control_pack (replicate 4 0) mii_ext_rx_clk)))"

definition sja1105_cgu_rmii_ref_clk_config :: "kernel \<Rightarrow> sja1105_spi_setup \<Rightarrow> nat \<Rightarrow> int io" where
  "sja1105_cgu_rmii_ref_clk_config k spi_setup port =
     (let offsets = (if IS_ET (sp_device_id spi_setup) then [0x15, 0x1C, 0x23, 0x2A, 0x31]
                     else [0x15, 0x1B, 0x21, 0x27, 0x2D]);
          clk_sources = [CLKSRC_MII0_TX_CLK, CLKSRC_MII1_TX_CLK, CLKSRC_MII2_TX_CLK, CLKSRC_MII3_TX_CLK,
                         CLKSRC_MII4_TX_CLK];
          ref_clk = \<lparr>mii_clksrc = clk_sources ! port, mii_autoblock = 1, mii_pd = 0\<rparr>
      in write_register k spi_setup (CGU_ADDR + offsets ! port)
           (fst (sja1105_cgu_mii_control_pack (replicate 4 0) ref_clk)))"

definition sja1105_cgu_rmii_ext_tx_clk_config :: "kernel \<Rightarrow> sja1105_spi_setup \<Rightarrow> nat \<Rightarrow> int io" where
  "sja1105_cgu_rmii_ext_tx_clk_config k spi_setup port =
     (let offsets = (if IS_ET (sp_device_id spi_setup) then [0x18, 0x1F, 0x26, 0x2D, 0x34]
                     else [0x17, 0x1D, 0x23, 0x29, 0x2F]);
          ext_tx_clk = \<lparr>mii_clksrc = CLKSRC_PLL1, mii_autoblock = 1, mii_pd = 0\<rparr>
      in write_register k spi_setup (CGU_ADDR + offsets ! port)
           (fst (sja1105_cgu_mii_control_pack (replicate 4 0) ext_tx_clk)))"

definition sja1105_cgu_rmii_pll_config :: "kernel \<Rightarrow> sja1105_spi_setup \<Rightarrow> int io" where
  "sja1105_cgu_rmii_pll_config k spi_setup =
     (let pll = \<lparr>pll_pllclksrc = 0xA, pll_msel = 0x1, pll_nsel = 0x0, pll_autoblock = 0x1, pll_psel = 0x1,
                 pll_direct = 0x0, pll_fbsel = 0x1, pll_p23en = 0x0, pll_bypass = 0x0, pll_pd = 0x1\<rparr>;
          (packed_buf, pll1) = sja1105_cgu_pll_control_pack (replicate 4 0) pll (sp_device_id spi_setup)
      in do {
        rc \<leftarrow> write_register k spi_setup (CGU_ADDR + 0x0A) packed_buf;
        if rc < 0 then io_return rc
        else write_register k spi_setup (CGU_ADDR + 0x0A)
               (fst (sja1105_cgu_pll_control_pack packed_buf (pll1\<lparr>pll_pd := 0x0\<rparr>) (sp_device_id spi_setup)))
      })"

definition sja1105_cgu_rgmii_tx_clk_config :: "kernel \<Rightarrow> sja1105_spi_setup \<Rightarrow> nat \<Rightarrow> int \<Rightarrow> int io" where
  "sja1105_cgu_rgmii_tx_clk_config k spi_setup port speed_mbps =
     (let offsets = (if IS_ET (sp_device_id spi_setup) then [0x16, 0x1D, 0x24, 0x2B, 0x32]
                     else [0x16, 0x1C, 0x22, 0x28, 0x2E]);
          clksrc = (if speed_mbps = 1000 then CLKSRC_PLL0
                    else [CLKSRC_IDIV0, CLKSRC_IDIV1, CLKSRC_IDIV2, CLKSRC_IDIV3, CLKSRC_IDIV4] ! port);
          txc = \<lparr>mii_clksrc = clksrc, mii_autoblock = 1, mii_pd = 0\<rparr>
      in write_register k spi_setup (CGU_ADDR + offsets ! port)
           (fst (sja1105_cgu_mii_control_pack (replicate 4 0) txc)))"

definition sja1105_rgmii_cfg_pad_tx_config :: "kernel \<Rightarrow> sja1105_spi_setup \<Rightarrow> nat \<Rightarrow> int io" where
  "sja1105_rgmii_cfg_pad_tx_config k spi_setup port =
     (let pad_mii_tx_offsets = [0x00, 0x02, 0x04, 0x06, 0x08];
          pad_mii_tx = \<lparr>pad_d32_os = 3, pad_d32_ipud = 2, pad_d10_os = 3, pad_d10_ipud = 2, pad_ctrl_os = 3,
            pad_ctrl_ipud = 2, pad_clk_os = 3, pad_clk_ih = 0, pad_clk_ipud = 2\<rparr>
      in write_register k spi_setup (AGU_ADDR + pad_mii_tx_offsets ! port)
           (fst (sja1105_cfg_pad_mii_tx_pack (replicate 4 0) pad_mii_tx)))"

section \<open>The clocks of a port\<close>

definition mii_clocking_setup :: "kernel \<Rightarrow> sja1105_spi_setup \<Rightarrow> nat \<Rightarrow> int \<Rightarrow> int io" where
  "mii_clocking_setup k spi_setup port mii_mode =
     (if mii_mode \<noteq> XMII_MODE_MAC \<and> mii_mode \<noteq> XMII_MODE_PHY then io_return (- 1)
      else do {
        rc \<leftarrow> sja1105_cgu_idiv_config k spi_setup port (if mii_mode = XMII_MODE_PHY then 1 else 0) 1;
        if rc < 0 then io_return (- 1) else do {
        rc \<leftarrow> sja1105_cgu_mii_tx_clk_config k spi_setup port mii_mode;
        if rc < 0 then io_return (- 1) else do {
        rc \<leftarrow> sja1105_cgu_mii_rx_clk_config k spi_setup port;
        if rc < 0 then io_return (- 1)
        else if mii_mode \<noteq> XMII_MODE_PHY then io_return 0
        else do {
        rc \<leftarrow> sja1105_cgu_mii_ext_tx_clk_config k spi_setup port;
        if rc < 0 then io_return (- 1) else do {
        rc \<leftarrow> sja1105_cgu_mii_ext_rx_clk_config k spi_setup port;
        if rc < 0 then io_return (- 1) else io_return 0
      }}}}})"

definition rmii_clocking_setup :: "kernel \<Rightarrow> sja1105_spi_setup \<Rightarrow> nat \<Rightarrow> int \<Rightarrow> int io" where
  "rmii_clocking_setup k spi_setup port rmii_mode =
     (if rmii_mode \<noteq> XMII_MODE_MAC \<and> rmii_mode \<noteq> XMII_MODE_PHY then io_return (- EINVAL)
      else do {
        rc \<leftarrow> (if rmii_mode = XMII_MODE_MAC then sja1105_cgu_rmii_pll_config k spi_setup else io_return 0);
        if rc < 0 then io_return rc else do {
        rc \<leftarrow> sja1105_cgu_idiv_config k spi_setup port 0 1;
        if rc < 0 then io_return rc else do {
        rc \<leftarrow> sja1105_cgu_rmii_ref_clk_config k spi_setup port;
        if rc < 0 then io_return rc
        else if rmii_mode = XMII_MODE_MAC then sja1105_cgu_rmii_ext_tx_clk_config k spi_setup port
        else io_return rc
      }}})"

definition rgmii_clocking_setup :: "kernel \<Rightarrow> sja1105_spi_setup \<Rightarrow> nat \<Rightarrow> int \<Rightarrow> int io" where
  "rgmii_clocking_setup k spi_setup port speed_mbps = do {
     rc \<leftarrow> (if speed_mbps = 1000 then sja1105_cgu_idiv_config k spi_setup port 0 1
           else if speed_mbps = 100 then sja1105_cgu_idiv_config k spi_setup port 1 1
           else if speed_mbps = 10 then sja1105_cgu_idiv_config k spi_setup port 1 10
           else io_return 0);
     if rc < 0 then io_return rc else do {
     rc \<leftarrow> sja1105_cgu_rgmii_tx_clk_config k spi_setup port speed_mbps;
     if rc < 0 then io_return rc
     else sja1105_rgmii_cfg_pad_tx_config k spi_setup port
   }}"

definition sgmii_clocking_setup :: "kernel \<Rightarrow> sja1105_spi_setup \<Rightarrow> nat \<Rightarrow> int \<Rightarrow> int io" where
  "sgmii_clocking_setup k spi_setup port speed_mbps = io_return 0"

text \<open>
  The loop over the ports. \<^verbatim>\<open>phy_mac\<close> is passed as an \<^verbatim>\<open>int\<close>; the results of the setups are dropped.
\<close>

definition speed_mbps_of :: "u64 \<Rightarrow> int option" where
  "speed_mbps_of speed =
     (if speed = 1 then Some 1000 else if speed = 2 then Some 100 else if speed = 3 then Some 10 else None)"

fun clocking_ports ::
    "kernel \<Rightarrow> sja1105_spi_setup \<Rightarrow> xmii_params_entry \<Rightarrow> mac_config_entry list \<Rightarrow> nat list \<Rightarrow> int io" where
  "clocking_ports k spi_setup params mac_config [] = io_return 0"
| "clocking_ports k spi_setup params mac_config (i # is) =
     (case speed_mbps_of (mac_speed (mac_config ! i)) of
        None \<Rightarrow> io_return (- 1)
      | Some speed_mbps \<Rightarrow>
          let mode = xmii_xmii_mode params ! i;
              phy_mac = sint (ucast (xmii_phy_mac params ! i) :: u32);
              continue = clocking_ports k spi_setup params mac_config is
          in if mode = XMII_SPEED_MII then do {
               mii_clocking_setup k spi_setup i phy_mac; continue }
             else if mode = XMII_SPEED_RMII then do {
               rmii_clocking_setup k spi_setup i phy_mac; continue }
             else if mode = XMII_SPEED_RGMII then do {
               rgmii_clocking_setup k spi_setup i speed_mbps; continue }
             else if mode = XMII_SPEED_SGMII \<and> IS_PQRS (sp_device_id spi_setup) then
               (if i = 4 \<and> (IS_R (sp_device_id spi_setup) (sp_part_nr spi_setup) \<or>
                             IS_S (sp_device_id spi_setup) (sp_part_nr spi_setup))
                then do { sgmii_clocking_setup k spi_setup i speed_mbps; continue }
                else continue)
             else io_return (- EINVAL))"

definition sja1105_clocking_setup ::
    "kernel \<Rightarrow> sja1105_spi_setup \<Rightarrow> xmii_params_entry \<Rightarrow> mac_config_entry list \<Rightarrow> int io" where
  "sja1105_clocking_setup k spi_setup params mac_config = clocking_ports k spi_setup params mac_config [0..<5]"

section \<open>What the settings put on the wire\<close>

definition cgu_idiv_shape :: "cgu_idiv \<Rightarrow> bool" where [table_shapes]: "cgu_idiv_shape e \<longleftrightarrow> True"
definition cgu_mii_control_shape :: "cgu_mii_control \<Rightarrow> bool" where [table_shapes]: "cgu_mii_control_shape e \<longleftrightarrow> True"
definition cfg_pad_mii_tx_shape :: "cfg_pad_mii_tx \<Rightarrow> bool" where [table_shapes]: "cfg_pad_mii_tx_shape e \<longleftrightarrow> True"
definition cgu_pll_control_et_shape :: "cgu_pll_control \<Rightarrow> bool" where [table_shapes]:
  "cgu_pll_control_et_shape e \<longleftrightarrow> pll_nsel e = 0 \<and> pll_p23en e = 0"
definition cgu_pll_control_shape :: "cgu_pll_control \<Rightarrow> bool" where [table_shapes]: "cgu_pll_control_shape e \<longleftrightarrow> True"

interpretation cgu_idiv: table_codec cgu_idiv_layout 4 cgu_idiv_zero cgu_idiv_shape
  by unfold_locales (auto simp: table_layouts table_shapes table_zeros codec_simps)

interpretation cgu_mii_control: table_codec cgu_mii_control_layout 4 cgu_mii_control_zero cgu_mii_control_shape
  by unfold_locales (auto simp: table_layouts table_shapes table_zeros codec_simps)

interpretation cfg_pad_mii_tx: table_codec cfg_pad_mii_tx_layout 4 cfg_pad_mii_tx_zero cfg_pad_mii_tx_shape
  by unfold_locales (auto simp: table_layouts table_shapes table_zeros codec_simps)

interpretation cgu_pll_control_et: table_codec cgu_pll_control_layout 4 cgu_pll_control_zero cgu_pll_control_et_shape
  by unfold_locales (auto simp: table_layouts table_shapes table_zeros codec_simps)

interpretation cgu_pll_control_pqrs: table_codec "cgu_pll_control_layout @ cgu_pll_control_pqrs_layout" 4
    cgu_pll_control_zero cgu_pll_control_shape
  by unfold_locales (auto simp: table_layouts table_shapes table_zeros codec_simps)

lemma pll_control_access:
  "sja1105_cgu_pll_control_access w buf pll d =
     table_access (if IS_PQRS d then cgu_pll_control_layout @ cgu_pll_control_pqrs_layout else cgu_pll_control_layout)
       4 cgu_pll_control_zero w buf pll"
  by (simp add: sja1105_cgu_pll_control_access_def table_access_def access_fields_def)

lemma list_of_length_4: "length buf = 4 \<Longrightarrow> drop 4 buf = []" by simp

lemma idiv_bytes: "fst (sja1105_cgu_idiv_pack (replicate 4 0) e) = be_bytes (layout_word cgu_idiv_layout e)"
  using cgu_idiv.pack_word [of "replicate 4 0" e]
  by (simp add: sja1105_cgu_idiv_pack_def sja1105_cgu_idiv_access_def)

lemma mii_control_bytes:
  "fst (sja1105_cgu_mii_control_pack (replicate 4 0) e) = be_bytes (layout_word cgu_mii_control_layout e)"
  using cgu_mii_control.pack_word [of "replicate 4 0" e]
  by (simp add: sja1105_cgu_mii_control_pack_def sja1105_cgu_mii_control_access_def)

lemma pad_bytes:
  "fst (sja1105_cfg_pad_mii_tx_pack (replicate 4 0) e) = be_bytes (layout_word cfg_pad_mii_tx_layout e)"
  using cfg_pad_mii_tx.pack_word [of "replicate 4 0" e]
  by (simp add: sja1105_cfg_pad_mii_tx_pack_def sja1105_cfg_pad_mii_tx_access_def)

lemma pll_pack:
  "length buf = 4 \<Longrightarrow> sja1105_cgu_pll_control_pack buf e d =
     (be_bytes (layout_word (if IS_PQRS d then cgu_pll_control_layout @ cgu_pll_control_pqrs_layout
                             else cgu_pll_control_layout) e),
      truncate_fields (if IS_PQRS d then cgu_pll_control_layout @ cgu_pll_control_pqrs_layout
                       else cgu_pll_control_layout) e)"
  using cgu_pll_control_et.pack_word [of buf e] cgu_pll_control_pqrs.pack_word [of buf e]
  by (simp add: sja1105_cgu_pll_control_pack_def pll_control_access)

text \<open>The contents of the registers, and their addresses by port.\<close>

definition idiv_word :: "bool \<Rightarrow> int \<Rightarrow> u64" where
  "idiv_word enabled factor = 0x0A000800 OR push_bit 2 (of_int (factor - 1)) OR (if enabled then 0 else 1)"

definition mii_word :: "nat \<Rightarrow> u64" where "mii_word src = push_bit 24 (of_nat src) OR 0x800"

definition mii_register :: "bool \<Rightarrow> nat \<Rightarrow> nat" where
  "mii_register et port = 0x100013 + (if et then 7 else 6) * port"

definition ext_register :: "bool \<Rightarrow> nat \<Rightarrow> nat" where
  "ext_register et port = mii_register et port + (if et then 5 else 4)"

lemma ports_5: "port < 5 \<Longrightarrow> port = 0 \<or> port = 1 \<or> port = 2 \<or> port = 3 \<or> port = (4 :: nat)"
  by arith

lemma performs_register:
  "bus_works k \<Longrightarrow> sp_dry_run s = 0 \<Longrightarrow> length b = 4 \<Longrightarrow> unat (take_bit 21 a) = x \<Longrightarrow>
   performs (write_register k s a b) 0 [(x, b)]"
  using performs_write_register by blast

lemmas clock_registers = mii_register_def ext_register_def

lemma idiv_config_performs:
  assumes "bus_works k" "sp_dry_run s = 0" "port < 5" "factor = 1 \<or> factor = 10" "enabled = 0 \<or> enabled = 1"
  shows "performs (sja1105_cgu_idiv_config k s port enabled factor) 0
    [(0x10000B + port, be_bytes (idiv_word (enabled = 1) factor))]"
proof -
  have w: "layout_word cgu_idiv_layout \<lparr>idiv_clksrc = 0x0A, idiv_autoblock = 1, idiv_idiv = of_int (factor - 1),
      idiv_pd = (if enabled \<noteq> 0 then 0 else 1)\<rparr> = idiv_word (enabled = 1) factor"
    using assms(4,5) by (auto simp: layout_word_def cgu_idiv_layout_def fld_def width_def idiv_word_def)
  have "performs (write_register k s (CGU_ADDR + [0x0B, 0x0C, 0x0D, 0x0E, 0x0F] ! port) (be_bytes w)) 0
      [(0x10000B + port, be_bytes w)]" for w
    using ports_5 [OF assms(3)] by (elim disjE) (simp_all add: performs_register [OF assms(1,2)])
  moreover have "sja1105_cgu_idiv_config k s port enabled factor =
      write_register k s (CGU_ADDR + [0x0B, 0x0C, 0x0D, 0x0E, 0x0F] ! port)
        (be_bytes (idiv_word (enabled = 1) factor))"
    using assms(4,5) w unfolding sja1105_cgu_idiv_config_def idiv_bytes Let_def by auto
  ultimately show ?thesis by simp
qed

lemma mii_control_word:
  "src < 32 \<Longrightarrow> layout_word cgu_mii_control_layout \<lparr>mii_clksrc = of_nat src, mii_autoblock = 1, mii_pd = 0\<rparr> = mii_word src"
  by (simp add: layout_word_def cgu_mii_control_layout_def fld_def width_def mii_word_def
      take_bit_of_nat take_bit_nat_eq_self push_bit_eq_mult or.commute)

lemma mii_control_performs:
  assumes "bus_works k" "sp_dry_run s = 0" "src < 32" "c = of_nat src" "unat (take_bit 21 a) = x"
  shows "performs (write_register k s a (fst (sja1105_cgu_mii_control_pack (replicate 4 0)
      \<lparr>mii_clksrc = c, mii_autoblock = 1, mii_pd = 0\<rparr>))) 0 [(x, be_bytes (mii_word src))]"
  unfolding assms(4) mii_control_bytes mii_control_word [OF assms(3)]
  by (rule performs_register) (use assms in simp_all)

lemma mii_tx_clk_performs:
  assumes "bus_works k" "sp_dry_run s = 0" "port < 5"
  shows "performs (sja1105_cgu_mii_tx_clk_config k s port mode) 0
    [(mii_register (IS_ET (sp_device_id s)) port, be_bytes (mii_word (if mode = 0 then 2 * port else 0x11 + port)))]"
  unfolding sja1105_cgu_mii_tx_clk_config_def Let_def
  by (rule mii_control_performs [OF assms(1,2)]; insert ports_5 [OF assms(3)]; elim disjE; simp add: clock_registers)

lemma mii_rx_clk_performs:
  assumes "bus_works k" "sp_dry_run s = 0" "port < 5"
  shows "performs (sja1105_cgu_mii_rx_clk_config k s port) 0
    [(mii_register (IS_ET (sp_device_id s)) port + 1, be_bytes (mii_word (2 * port + 1)))]"
  unfolding sja1105_cgu_mii_rx_clk_config_def Let_def
  by (rule mii_control_performs [OF assms(1,2)]; insert ports_5 [OF assms(3)]; elim disjE; simp add: clock_registers)

lemma mii_ext_tx_clk_performs:
  assumes "bus_works k" "sp_dry_run s = 0" "port < 5"
  shows "performs (sja1105_cgu_mii_ext_tx_clk_config k s port) 0
    [(ext_register (IS_ET (sp_device_id s)) port, be_bytes (mii_word (0x11 + port)))]"
  unfolding sja1105_cgu_mii_ext_tx_clk_config_def Let_def
  by (rule mii_control_performs [OF assms(1,2)]; insert ports_5 [OF assms(3)]; elim disjE; simp add: clock_registers)

lemma mii_ext_rx_clk_performs:
  assumes "bus_works k" "sp_dry_run s = 0" "port < 5"
  shows "performs (sja1105_cgu_mii_ext_rx_clk_config k s port) 0
    [(ext_register (IS_ET (sp_device_id s)) port + 1, be_bytes (mii_word (0x11 + port)))]"
  unfolding sja1105_cgu_mii_ext_rx_clk_config_def Let_def
  by (rule mii_control_performs [OF assms(1,2)]; insert ports_5 [OF assms(3)]; elim disjE; simp add: clock_registers)

lemma rmii_ref_clk_performs:
  assumes "bus_works k" "sp_dry_run s = 0" "port < 5"
  shows "performs (sja1105_cgu_rmii_ref_clk_config k s port) 0
    [(mii_register (IS_ET (sp_device_id s)) port + 2, be_bytes (mii_word (2 * port)))]"
  unfolding sja1105_cgu_rmii_ref_clk_config_def Let_def
  by (rule mii_control_performs [OF assms(1,2)]; insert ports_5 [OF assms(3)]; elim disjE; simp add: clock_registers)

lemma rmii_ext_tx_clk_performs:
  assumes "bus_works k" "sp_dry_run s = 0" "port < 5"
  shows "performs (sja1105_cgu_rmii_ext_tx_clk_config k s port) 0
    [(ext_register (IS_ET (sp_device_id s)) port, be_bytes (mii_word 0x0E))]"
  unfolding sja1105_cgu_rmii_ext_tx_clk_config_def Let_def
  by (rule mii_control_performs [OF assms(1,2)]; insert ports_5 [OF assms(3)]; elim disjE; simp add: clock_registers)

lemma rgmii_tx_clk_performs:
  assumes "bus_works k" "sp_dry_run s = 0" "port < 5"
  shows "performs (sja1105_cgu_rgmii_tx_clk_config k s port speed) 0
    [(mii_register (IS_ET (sp_device_id s)) port + 3,
      be_bytes (mii_word (if speed = 1000 then 0x0B else 0x11 + port)))]"
  unfolding sja1105_cgu_rgmii_tx_clk_config_def Let_def
  by (rule mii_control_performs [OF assms(1,2)]; insert ports_5 [OF assms(3)]; elim disjE; simp add: clock_registers)

lemma pad_word:
  "layout_word cfg_pad_mii_tx_layout \<lparr>pad_d32_os = 3, pad_d32_ipud = 2, pad_d10_os = 3, pad_d10_ipud = 2,
     pad_ctrl_os = 3, pad_ctrl_ipud = 2, pad_clk_os = 3, pad_clk_ih = 0, pad_clk_ipud = 2\<rparr> = 0x1A1A1A1A"
  by (simp add: layout_word_def cfg_pad_mii_tx_layout_def fld_def width_def del: One_nat_def) simp

lemma pad_tx_performs:
  assumes "bus_works k" "sp_dry_run s = 0" "port < 5"
  shows "performs (sja1105_rgmii_cfg_pad_tx_config k s port) 0 [(0x100800 + 2 * port, be_bytes 0x1A1A1A1A)]"
  unfolding sja1105_rgmii_cfg_pad_tx_config_def Let_def pad_bytes pad_word
  by (rule performs_register [OF assms(1,2)]; insert ports_5 [OF assms(3)]; elim disjE; simp)

text \<open>The words that the comment of the code gives for the PLL, with and without power down.\<close>

lemma pll_words:
  fixes pd :: u64
  assumes "pd = 0 \<or> pd = 1"
  defines "pll \<equiv> \<lparr>pll_pllclksrc = 0xA, pll_msel = 0x1, pll_nsel = 0x0, pll_autoblock = 0x1, pll_psel = 0x1,
    pll_direct = 0x0, pll_fbsel = 0x1, pll_p23en = 0x0, pll_bypass = 0x0, pll_pd = pd\<rparr>"
  shows "layout_word cgu_pll_control_layout pll = 0x0A010940 OR pd"
    "layout_word (cgu_pll_control_layout @ cgu_pll_control_pqrs_layout) pll = 0x0A010940 OR pd"
    "truncate_fields cgu_pll_control_layout pll = pll"
    "truncate_fields (cgu_pll_control_layout @ cgu_pll_control_pqrs_layout) pll = pll"
  using assms(1) unfolding pll_def
  by (auto simp: layout_word_def truncate_fields_def cgu_pll_control_layout_def cgu_pll_control_pqrs_layout_def
      fld_def width_def)

lemma pll_pack_word:
  assumes "length buf = 4" "pd = 0 \<or> pd = 1"
  defines "pll \<equiv> \<lparr>pll_pllclksrc = 0xA, pll_msel = 0x1, pll_nsel = 0x0, pll_autoblock = 0x1, pll_psel = 0x1,
    pll_direct = 0x0, pll_fbsel = 0x1, pll_p23en = 0x0, pll_bypass = 0x0, pll_pd = pd\<rparr>"
  shows "sja1105_cgu_pll_control_pack buf pll d = (be_bytes (0x0A010940 OR pd), pll)"
  unfolding pll_pack [OF assms(1)] pll_def by (simp add: pll_words [OF assms(2)])

lemma rmii_pll_performs:
  assumes "bus_works k" "sp_dry_run s = 0"
  shows "performs (sja1105_cgu_rmii_pll_config k s) 0
    [(0x10000A, be_bytes 0x0A010941), (0x10000A, be_bytes 0x0A010940)]"
proof -
  have w: "performs (write_register k s (CGU_ADDR + 0x0A) (be_bytes w)) 0 [(0x10000A, be_bytes w)]" for w
    by (rule performs_register [OF assms]) simp_all
  show ?thesis
    using performs_seq [OF w [of "0x0A010941"] w [of "0x0A010940"]]
    by (simp add: sja1105_cgu_rmii_pll_config_def pll_pack_word cong del: if_weak_cong)
qed

section \<open>The clocks as a table\<close>

text \<open>
  The specification: for a port, its mode and speed, the registers of the switch that have to be set, in
  order. The clock registers of a port form a block of seven (E/T) or six words (P/Q/R/S).
\<close>

definition mii_clocks :: "bool \<Rightarrow> nat \<Rightarrow> bool \<Rightarrow> (nat \<times> u8 list) list" where
  "mii_clocks et port phy =
     [(0x10000B + port, be_bytes (idiv_word phy 1)),
      (mii_register et port, be_bytes (mii_word (if phy then 0x11 + port else 2 * port))),
      (mii_register et port + 1, be_bytes (mii_word (2 * port + 1)))] @
     (if phy then [(ext_register et port, be_bytes (mii_word (0x11 + port))),
                   (ext_register et port + 1, be_bytes (mii_word (0x11 + port)))] else [])"

definition rmii_clocks :: "bool \<Rightarrow> nat \<Rightarrow> bool \<Rightarrow> (nat \<times> u8 list) list" where
  "rmii_clocks et port phy =
     (if phy then [] else [(0x10000A, be_bytes 0x0A010941), (0x10000A, be_bytes 0x0A010940)]) @
     [(0x10000B + port, be_bytes (idiv_word False 1)),
      (mii_register et port + 2, be_bytes (mii_word (2 * port)))] @
     (if phy then [] else [(ext_register et port, be_bytes (mii_word 0x0E))])"

definition rgmii_clocks :: "bool \<Rightarrow> nat \<Rightarrow> int \<Rightarrow> (nat \<times> u8 list) list" where
  "rgmii_clocks et port speed =
     [(0x10000B + port, be_bytes (idiv_word (speed \<noteq> 1000) (if speed = 10 then 10 else 1))),
      (mii_register et port + 3, be_bytes (mii_word (if speed = 1000 then 0x0B else 0x11 + port))),
      (0x100800 + 2 * port, be_bytes 0x1A1A1A1A)]"

lemma mii_setup_performs:
  assumes "bus_works k" "sp_dry_run s = 0" "port < 5" "mode = 0 \<or> mode = 1"
  shows "performs (mii_clocking_setup k s port mode) 0 (mii_clocks (IS_ET (sp_device_id s)) port (mode = 1))"
proof -
  note p = assms(1-3)
  have seq: "performs m (0 :: int) ws \<Longrightarrow> performs n y vs \<Longrightarrow>
      performs (State_Monad.bind m (\<lambda>rc. if rc < 0 then io_return (- 1) else n)) y (ws @ vs)" for m n ws vs and y :: int
    by (rule performs_seq)
  note i = idiv_config_performs [OF p, of 1 "if mode = 1 then 1 else 0"]
  show ?thesis
  proof (cases "mode = 1")
    case True
    have "performs (sja1105_cgu_idiv_config k s port 1 1) 0 [(0x10000B + port, be_bytes (idiv_word True 1))]"
      using i True by simp
    from seq [OF this seq [OF mii_tx_clk_performs [OF p, of 1] seq [OF mii_rx_clk_performs [OF p]
            seq [OF mii_ext_tx_clk_performs [OF p] seq [OF mii_ext_rx_clk_performs [OF p] performs_return]]]], of 0]
    show ?thesis unfolding True by (simp add: mii_clocking_setup_def mii_clocks_def)
  next
    case False
    then have "mode = 0" using assms(4) by simp
    have "performs (sja1105_cgu_idiv_config k s port 0 1) 0 [(0x10000B + port, be_bytes (idiv_word False 1))]"
      using i False by simp
    from seq [OF this seq [OF mii_tx_clk_performs [OF p, of 0] seq [OF mii_rx_clk_performs [OF p] performs_return]], of 0]
    show ?thesis unfolding \<open>mode = 0\<close> by (simp add: mii_clocking_setup_def mii_clocks_def)
  qed
qed

lemma rmii_setup_performs:
  assumes "bus_works k" "sp_dry_run s = 0" "port < 5" "mode = 0 \<or> mode = 1"
  shows "performs (rmii_clocking_setup k s port mode) 0 (rmii_clocks (IS_ET (sp_device_id s)) port (mode = 1))"
proof -
  note p = assms(1-3)
  note i = idiv_config_performs [OF p, of 1 0, simplified]
  show ?thesis
  proof (cases "mode = 1")
    case True
    have "performs (State_Monad.bind (sja1105_cgu_rmii_ref_clk_config k s port)
        (\<lambda>rc. if rc < 0 then io_return rc else io_return rc)) 0
      [(mii_register (IS_ET (sp_device_id s)) port + 2, be_bytes (mii_word (2 * port)))]"
      using rmii_ref_clk_performs [OF p] by simp
    from performs_seq [OF i this] show ?thesis
      unfolding True by (simp add: rmii_clocking_setup_def rmii_clocks_def cong del: if_weak_cong)
  next
    case False
    then have "mode = 0" using assms(4) by simp
    from performs_seq [OF rmii_pll_performs [OF assms(1,2)] performs_seq [OF i performs_seq [OF rmii_ref_clk_performs [OF p]
            rmii_ext_tx_clk_performs [OF p]]]]
    show ?thesis unfolding \<open>mode = 0\<close>
      by (simp add: rmii_clocking_setup_def rmii_clocks_def cong del: if_weak_cong)
  qed
qed

lemma rgmii_setup_performs:
  assumes "bus_works k" "sp_dry_run s = 0" "port < 5" "speed = 1000 \<or> speed = 100 \<or> speed = 10"
  shows "performs (rgmii_clocking_setup k s port speed) 0 (rgmii_clocks (IS_ET (sp_device_id s)) port speed)"
proof -
  note p = assms(1-3)
  have "performs (if speed = 1000 then sja1105_cgu_idiv_config k s port 0 1
           else if speed = 100 then sja1105_cgu_idiv_config k s port 1 1
           else if speed = 10 then sja1105_cgu_idiv_config k s port 1 10
           else io_return 0) 0
      [(0x10000B + port, be_bytes (idiv_word (speed \<noteq> 1000) (if speed = 10 then 10 else 1)))]"
    using assms(4) idiv_config_performs [OF p, of 1 0] idiv_config_performs [OF p, of 1 1]
      idiv_config_performs [OF p, of 10 1] by auto
  from performs_seq [OF this performs_seq [OF rgmii_tx_clk_performs [OF p] pad_tx_performs [OF p]]]
  show ?thesis by (simp add: rgmii_clocking_setup_def rgmii_clocks_def)
qed


text \<open>A port that the setup accepts, and the registers it sets; an SGMII port sets none.\<close>

definition port_valid :: "sja1105_spi_setup \<Rightarrow> xmii_params_entry \<Rightarrow> mac_config_entry list \<Rightarrow> nat \<Rightarrow> bool" where
  "port_valid s params mac i \<longleftrightarrow> mac_speed (mac ! i) \<in> {1, 2, 3} \<and>
     (xmii_xmii_mode params ! i \<in> {0, 1, 2} \<or> xmii_xmii_mode params ! i = 3 \<and> IS_PQRS (sp_device_id s))"

definition port_mode_valid :: "xmii_params_entry \<Rightarrow> nat \<Rightarrow> bool" where
  "port_mode_valid params i \<longleftrightarrow> xmii_phy_mac params ! i \<in> {0, 1}"

definition port_clocks ::
    "sja1105_spi_setup \<Rightarrow> xmii_params_entry \<Rightarrow> mac_config_entry list \<Rightarrow> nat \<Rightarrow> (nat \<times> u8 list) list" where
  "port_clocks s params mac i =
     (let et = IS_ET (sp_device_id s); phy = (xmii_phy_mac params ! i = 1); mode = xmii_xmii_mode params ! i
      in if mode = 0 then mii_clocks et i phy
         else if mode = 1 then rmii_clocks et i phy
         else if mode = 2 then rgmii_clocks et i (the (speed_mbps_of (mac_speed (mac ! i))))
         else [])"

lemma phy_mac_int: "x \<in> {0, 1} \<Longrightarrow> sint (ucast (x :: u64) :: u32) = (if x = 1 then 1 else 0)"
  by auto

lemma speed_mbps_cases: "x \<in> {1, 2, 3} \<Longrightarrow> \<exists>m. speed_mbps_of x = Some m \<and> (m = 1000 \<or> m = 100 \<or> m = 10)"
  by (auto simp: speed_mbps_of_def)

lemma clocking_ports_performs:
  assumes "bus_works k" "sp_dry_run s = 0"
  shows "\<forall>i \<in> set is. i < 5 \<and> port_valid s params mac i \<and> port_mode_valid params i \<Longrightarrow>
    performs (clocking_ports k s params mac is) 0 (concat (map (port_clocks s params mac) is))"
proof (induction "is")
  case Nil
  then show ?case by (simp add: performs_return)
next
  case (Cons i "is")
  then have i: "i < 5" "port_valid s params mac i" "port_mode_valid params i"
    and ih: "performs (clocking_ports k s params mac is) 0 (concat (map (port_clocks s params mac) is))" by auto
  obtain m where m: "speed_mbps_of (mac_speed (mac ! i)) = Some m" "m = 1000 \<or> m = 100 \<or> m = 10"
    using speed_mbps_cases i(2) by (auto simp: port_valid_def)
  have phy: "sint (ucast (xmii_phy_mac params ! i) :: u32) = (if xmii_phy_mac params ! i = 1 then 1 else 0)"
    using phy_mac_int i(3) by (simp add: port_mode_valid_def)
  have mode: "xmii_xmii_mode params ! i = 0 \<or> xmii_xmii_mode params ! i = 1 \<or> xmii_xmii_mode params ! i = 2 \<or>
      xmii_xmii_mode params ! i = 3 \<and> IS_PQRS (sp_device_id s)"
    using i(2) by (auto simp: port_valid_def)
  have sgmii: "performs (sgmii_clocking_setup k s i m) 0 []" by (simp add: sgmii_clocking_setup_def performs_return)
  have seq: "performs p 0 ws \<Longrightarrow> performs (State_Monad.bind p (\<lambda>_ :: int. clocking_ports k s params mac is)) 0
      (ws @ concat (map (port_clocks s params mac) is))" for p ws
    using performs_bind [of p 0 ws "\<lambda>_. clocking_ports k s params mac is"] ih by blast
  let ?phy = "if xmii_phy_mac params ! i = 1 then 1 else 0 :: int"
  from mode show ?case
  proof (elim disjE conjE)
    assume "xmii_xmii_mode params ! i = 0"
    with seq [OF mii_setup_performs [OF assms i(1), of ?phy]] show ?thesis
      by (cases "xmii_phy_mac params ! i = 1") (simp_all add: m(1) phy port_clocks_def [of s params mac i] Let_def)
  next
    assume "xmii_xmii_mode params ! i = 1"
    with seq [OF rmii_setup_performs [OF assms i(1), of ?phy]] show ?thesis
      by (cases "xmii_phy_mac params ! i = 1") (simp_all add: m(1) phy port_clocks_def [of s params mac i] Let_def)
  next
    assume "xmii_xmii_mode params ! i = 2"
    with seq [OF rgmii_setup_performs [OF assms i(1) m(2)]] show ?thesis
      by (simp add: m(1) port_clocks_def [of s params mac i] Let_def)
  next
    assume "xmii_xmii_mode params ! i = 3" "IS_PQRS (sp_device_id s)"
    with seq [OF sgmii] ih show ?thesis
      by (auto simp: m(1) port_clocks_def [of s params mac i] Let_def)
  qed
qed

lemma clocking_ports_result:
  "fst (run_state (clocking_ports k s params mac is) h) =
     (case find (\<lambda>i. \<not> port_valid s params mac i) is of
        None \<Rightarrow> 0
      | Some i \<Rightarrow> if mac_speed (mac ! i) \<in> {1, 2, 3} then - EINVAL else - 1)"
proof (induction "is" arbitrary: h)
  case (Cons i "is")
  then show ?case
    by (auto simp: port_valid_def speed_mbps_of_def Let_def sgmii_clocking_setup_def split_beta)
qed simp

section \<open>Properties\<close>

text \<open>
  C26: for a configuration whose ports are all valid, on a bus that works, the clock setup returns 0 and
  writes exactly the registers of the clock table, port after port, with the addresses of the device family.
\<close>

theorem clocking_setup_refines_table:
  assumes "bus_works k" "sp_dry_run s = 0" "\<forall>i < 5. port_valid s params mac i \<and> port_mode_valid params i"
  shows "\<exists>es. run_state (sja1105_clocking_setup k s params mac) h = (0, h @ es) \<and>
    sent_writes es = concat (map (port_clocks s params mac) [0, 1, 2, 3, 4])"
proof -
  have "[0..<5] = [0, 1, 2, 3, 4 :: nat]" by (simp add: upt_rec)
  then show ?thesis
    using performsD [OF clocking_ports_performs [OF assms(1,2), of "[0..<5]" params mac]] assms(3)
    by (auto simp: sja1105_clocking_setup_def)
qed

text \<open>
  The setup does not notice a failure on the bus. Its result depends on the configuration alone: it is 0
  when every port is valid, -1 for a speed and -EINVAL for a mode that is not supported, whatever the
  kernel answers.
\<close>

theorem clocking_setup_ignores_failures:
  "fst (run_state (sja1105_clocking_setup k s params mac) h) =
     (case find (\<lambda>i. \<not> port_valid s params mac i) [0..<5] of
        None \<Rightarrow> 0
      | Some i \<Rightarrow> if mac_speed (mac ! i) \<in> {1, 2, 3} then - EINVAL else - 1)"
  unfolding sja1105_clocking_setup_def by (rule clocking_ports_result)

text \<open>
  The PLL for RMII is set up with the two words that the comment in the code gives, 0x0A010941 and then
  0x0A010940, on every device of the family.
\<close>

theorem rmii_pll_writes:
  assumes "bus_works k" "sp_dry_run s = 0"
  shows "\<exists>es. run_state (sja1105_cgu_rmii_pll_config k s) h = (0, h @ es) \<and>
    sent_writes es = [(0x10000A, [0x0A, 0x01, 0x09, 0x41]), (0x10000A, [0x0A, 0x01, 0x09, 0x40])]"
  using performsD [OF rmii_pll_performs [OF assms], of h] by (auto simp: be_bytes_def)

theorem rmii_pll_writes_witness:
  "\<exists>es. run_state (sja1105_cgu_rmii_pll_config (switch_kernel example_registers) example_setup) [] = (0, es) \<and>
    sent_writes es = [(0x10000A, [0x0A, 0x01, 0x09, 0x41]), (0x10000A, [0x0A, 0x01, 0x09, 0x40])]"
  using rmii_pll_writes [of "switch_kernel example_registers" example_setup "[]"] example_is_switch
  by (simp add: is_switch_def example_setup_def)

definition example_params :: xmii_params_entry where
  "example_params = \<lparr>xmii_phy_mac = [0, 1, 0, 1, 0], xmii_xmii_mode = [0, 0, 1, 1, 2]\<rparr>"

theorem clocking_setup_refines_table_witness:
  "\<exists>es. run_state (sja1105_clocking_setup (switch_kernel example_registers) (example_setup\<lparr>sp_device_id := SJA1105T_DEVICE_ID\<rparr>)
      example_params (replicate 5 (mac_config_zero\<lparr>mac_speed := 2\<rparr>))) [] = (0, es) \<and>
    last (sent_writes es) = (0x100808, [0x1A, 0x1A, 0x1A, 0x1A])"
proof -
  let ?s = "example_setup\<lparr>sp_device_id := SJA1105T_DEVICE_ID\<rparr>"
  have valid: "port_valid ?s example_params (replicate 5 (mac_config_zero\<lparr>mac_speed := 2\<rparr>)) i \<and>
      port_mode_valid example_params i" if "i < 5" for i
    using ports_5 [OF that] by (elim disjE) (simp_all add: port_valid_def port_mode_valid_def example_params_def)
  have "bus_works (switch_kernel example_registers)" "sp_dry_run ?s = 0"
    using example_is_switch by (simp_all add: is_switch_def example_setup_def)
  from clocking_setup_refines_table [OF this, of example_params "replicate 5 (mac_config_zero\<lparr>mac_speed := 2\<rparr>)" "[]"] valid
  obtain es where "run_state (sja1105_clocking_setup (switch_kernel example_registers) ?s example_params
      (replicate 5 (mac_config_zero\<lparr>mac_speed := 2\<rparr>))) [] = (0, es)"
    "sent_writes es = concat (map (port_clocks ?s example_params (replicate 5 (mac_config_zero\<lparr>mac_speed := 2\<rparr>))) [0, 1, 2, 3, 4])"
    by auto
  then show ?thesis
    by (simp add: port_clocks_def example_params_def rgmii_clocks_def be_bytes_def last_append Let_def)
qed

end
