(* ===== verification/Control.thy ===== *)
theory Control
  imports Registers
begin

unbundle bit_operations_syntax

text \<open>
  Commands to the switch: the reset generation unit (\<^verbatim>\<open>lib/reset/rgu.c\<close>) and the control of ports and
  credit-based shapers (\<^verbatim>\<open>lib/control/port.c\<close>).
\<close>

section \<open>Resets\<close>

abbreviation (input) RGU_ADDR :: u64 where "RGU_ADDR \<equiv> 0x100440"

record reset_cmd =
  rst_switch_rst :: u64
  rst_cfg_rst :: u64
  rst_car_rst :: u64
  rst_otp_rst :: u64
  rst_warm_rst :: u64
  rst_cold_rst :: u64
  rst_por_rst :: u64

definition reset_cmd_zero :: reset_cmd where [table_zeros]:
  "reset_cmd_zero = \<lparr>rst_switch_rst = 0, rst_cfg_rst = 0, rst_car_rst = 0, rst_otp_rst = 0, rst_warm_rst = 0,
    rst_cold_rst = 0, rst_por_rst = 0\<rparr>"

definition reset_cmd_et_layout :: "reset_cmd fld list" where [table_layouts]:
  "reset_cmd_et_layout =
    [fld rst_cold_rst rst_cold_rst_update 3 3,
     fld rst_warm_rst rst_warm_rst_update 2 2]"

definition reset_cmd_pqrs_layout :: "reset_cmd fld list" where [table_layouts]:
  "reset_cmd_pqrs_layout =
    [fld rst_switch_rst rst_switch_rst_update 8 8,
     fld rst_cfg_rst rst_cfg_rst_update 7 7,
     fld rst_car_rst rst_car_rst_update 5 5,
     fld rst_otp_rst rst_otp_rst_update 4 4,
     fld rst_warm_rst rst_warm_rst_update 3 3,
     fld rst_cold_rst rst_cold_rst_update 2 2,
     fld rst_por_rst rst_por_rst_update 1 1]"

definition sja1105_reset_cmd_access :: "bool \<Rightarrow> u8 list \<Rightarrow> reset_cmd \<Rightarrow> u64 \<Rightarrow> u8 list \<times> reset_cmd" where
  "sja1105_reset_cmd_access write buf reset device_id =
     table_access (if IS_ET device_id then reset_cmd_et_layout else reset_cmd_pqrs_layout) 4 reset_cmd_zero
       write buf reset"

definition sja1105_reset_cmd_pack :: "u8 list \<Rightarrow> reset_cmd \<Rightarrow> u64 \<Rightarrow> u8 list \<times> reset_cmd" where
  "sja1105_reset_cmd_pack buf reset device_id = sja1105_reset_cmd_access True buf reset device_id"

definition sja1105_reset_cmd_unpack :: "u8 list \<Rightarrow> reset_cmd \<Rightarrow> u64 \<Rightarrow> reset_cmd" where
  "sja1105_reset_cmd_unpack buf reset device_id = snd (sja1105_reset_cmd_access False buf reset device_id)"

definition sja1105_reset_cmd_commit :: "kernel \<Rightarrow> sja1105_spi_setup \<Rightarrow> reset_cmd \<Rightarrow> int io" where
  "sja1105_reset_cmd_commit k spi_setup reset =
     (if IS_ET (sp_device_id spi_setup) \<and>
         (rst_switch_rst reset \<noteq> 0 \<or> rst_cfg_rst reset \<noteq> 0 \<or> rst_car_rst reset \<noteq> 0 \<or>
          rst_otp_rst reset \<noteq> 0 \<or> rst_por_rst reset \<noteq> 0)
      then io_return (- EINVAL)
      else write_register k spi_setup RGU_ADDR
             (fst (sja1105_reset_cmd_pack (replicate 4 0) reset (sp_device_id spi_setup))))"

definition sja1105_switch_core_reset :: "kernel \<Rightarrow> sja1105_spi_setup \<Rightarrow> int io" where
  "sja1105_switch_core_reset k spi_setup = sja1105_reset_cmd_commit k spi_setup (reset_cmd_zero\<lparr>rst_switch_rst := 1\<rparr>)"

definition sja1105_config_reset :: "kernel \<Rightarrow> sja1105_spi_setup \<Rightarrow> int io" where
  "sja1105_config_reset k spi_setup = sja1105_reset_cmd_commit k spi_setup (reset_cmd_zero\<lparr>rst_cfg_rst := 1\<rparr>)"

definition sja1105_clocking_reset :: "kernel \<Rightarrow> sja1105_spi_setup \<Rightarrow> int io" where
  "sja1105_clocking_reset k spi_setup = sja1105_reset_cmd_commit k spi_setup (reset_cmd_zero\<lparr>rst_car_rst := 1\<rparr>)"

definition sja1105_otp_reset :: "kernel \<Rightarrow> sja1105_spi_setup \<Rightarrow> int io" where
  "sja1105_otp_reset k spi_setup = sja1105_reset_cmd_commit k spi_setup (reset_cmd_zero\<lparr>rst_otp_rst := 1\<rparr>)"

definition sja1105_warm_reset :: "kernel \<Rightarrow> sja1105_spi_setup \<Rightarrow> int io" where
  "sja1105_warm_reset k spi_setup = sja1105_reset_cmd_commit k spi_setup (reset_cmd_zero\<lparr>rst_warm_rst := 1\<rparr>)"

definition sja1105_cold_reset :: "kernel \<Rightarrow> sja1105_spi_setup \<Rightarrow> int io" where
  "sja1105_cold_reset k spi_setup = sja1105_reset_cmd_commit k spi_setup (reset_cmd_zero\<lparr>rst_cold_rst := 1\<rparr>)"

definition sja1105_por_reset :: "kernel \<Rightarrow> sja1105_spi_setup \<Rightarrow> int io" where
  "sja1105_por_reset k spi_setup = sja1105_reset_cmd_commit k spi_setup (reset_cmd_zero\<lparr>rst_por_rst := 1\<rparr>)"

section \<open>Ports and shapers\<close>

text \<open>
  Two functions send arrays that they have not written completely; \<open>stack\<close> is what an array holds before it
  is written. \<open>pack_word_at\<close> packs into the 32-bit word at a byte offset.
\<close>

abbreviation (input) SJA1105T_NUM_PORTS :: nat where "SJA1105T_NUM_PORTS \<equiv> 5"

definition pack_word_at :: "nat \<Rightarrow> u64 \<Rightarrow> nat \<Rightarrow> nat \<Rightarrow> u8 list \<Rightarrow> u8 list" where
  "pack_word_at off v start end buf =
     take off buf @ snd (snd (gtable_pack (drop off buf) v (int start) (int end) 4))"

record egress_port_mask =
  inhibit_tx :: "u64 list"

definition sja1105_inhibit_tx ::
    "kernel \<Rightarrow> sja1105_spi_setup \<Rightarrow> u8 list \<Rightarrow> egress_port_mask \<Rightarrow> int io" where
  "sja1105_inhibit_tx k spi_setup stack port_mask =
     write_register k spi_setup (CORE_ADDR + 0x11)
       (foldl (\<lambda>buf i. pack_word_at 0 (inhibit_tx port_mask ! i) i i buf) (take 4 stack) [0..<SJA1105T_NUM_PORTS])"

record cbs =
  cbs_index :: u64
  cbs_port :: u64
  cbs_prio :: u64
  cbs_credit_lo :: u64
  cbs_credit_hi :: u64
  cbs_send_slope :: u64
  cbs_idle_slope :: u64

definition cbs_zero :: cbs where [table_zeros]:
  "cbs_zero = \<lparr>cbs_index = 0, cbs_port = 0, cbs_prio = 0, cbs_credit_lo = 0, cbs_credit_hi = 0,
    cbs_send_slope = 0, cbs_idle_slope = 0\<rparr>"

definition cbs_cmd_layout :: "cbs fld list" where [table_layouts]:
  "cbs_cmd_layout =
    [Konst 1 31 31,
     fld cbs_index cbs_index_update 19 16,
     fld cbs_port cbs_port_update 5 3,
     fld cbs_prio cbs_prio_update 2 0]"

definition sja1105_cbs_cmd_access :: "bool \<Rightarrow> u8 list \<Rightarrow> cbs \<Rightarrow> u8 list \<times> cbs" where
  "sja1105_cbs_cmd_access = table_access cbs_cmd_layout 4 cbs_zero"

definition sja1105_cbs_cmd_pack :: "u8 list \<Rightarrow> cbs \<Rightarrow> u8 list \<times> cbs" where
  "sja1105_cbs_cmd_pack buf cbs = sja1105_cbs_cmd_access True buf cbs"

definition sja1105_cbs_cmd_unpack :: "u8 list \<Rightarrow> cbs \<Rightarrow> cbs" where
  "sja1105_cbs_cmd_unpack buf cbs = snd (sja1105_cbs_cmd_access False buf cbs)"

definition sja1105_cbs_commit :: "kernel \<Rightarrow> sja1105_spi_setup \<Rightarrow> u8 list \<Rightarrow> cbs \<Rightarrow> int io" where
  "sja1105_cbs_commit k spi_setup stack cbs =
     (let buf0 = take 32 stack;
          buf1 = pack_word_at 0 (cbs_idle_slope cbs) 31 0 buf0;
          buf2 = pack_word_at 4 (cbs_send_slope cbs) 31 0 buf1;
          buf3 = pack_word_at 8 (cbs_credit_hi cbs) 31 0 buf2;
          buf4 = pack_word_at 12 (cbs_credit_lo cbs) 31 0 buf3
      in do {
        (rc, buf) \<leftarrow> sja1105_spi_send_packed_buf k spi_setup SPI_WRITE (CORE_ADDR + 0x2C) buf4 32;
        if rc < 0 then io_return rc
        else write_register k spi_setup (CORE_ADDR + 0x30) (fst (sja1105_cbs_cmd_pack buf4 cbs))
      })"

section \<open>What is written\<close>

lemma switch_kernel_works: "bus_works (switch_kernel mem)" "sp_dry_run example_setup = 0"
  by (auto simp: bus_works_def switch_kernel_def example_setup_def)

definition reset_cmd_et_shape :: "reset_cmd \<Rightarrow> bool" where [table_shapes]:
  "reset_cmd_et_shape e \<longleftrightarrow> rst_switch_rst e = 0 \<and> rst_cfg_rst e = 0 \<and> rst_car_rst e = 0 \<and>
    rst_otp_rst e = 0 \<and> rst_por_rst e = 0"
definition reset_cmd_pqrs_shape :: "reset_cmd \<Rightarrow> bool" where [table_shapes]: "reset_cmd_pqrs_shape e \<longleftrightarrow> True"
definition cbs_shape :: "cbs \<Rightarrow> bool" where [table_shapes]:
  "cbs_shape e \<longleftrightarrow> cbs_credit_lo e = 0 \<and> cbs_credit_hi e = 0 \<and> cbs_send_slope e = 0 \<and> cbs_idle_slope e = 0"

interpretation reset_cmd_et: table_codec reset_cmd_et_layout 4 reset_cmd_zero reset_cmd_et_shape
  by unfold_locales (auto simp: table_layouts table_shapes table_zeros codec_simps)

interpretation reset_cmd_pqrs: table_codec reset_cmd_pqrs_layout 4 reset_cmd_zero reset_cmd_pqrs_shape
  by unfold_locales (auto simp: table_layouts table_shapes table_zeros codec_simps)

interpretation cbs: table_codec cbs_cmd_layout 4 cbs_zero cbs_shape
  by unfold_locales (auto simp: table_layouts table_shapes table_zeros codec_simps)

lemma performs_write_prefix:
  assumes "bus_works k" "sp_dry_run s = 0" "4 \<le> length b"
  shows "performs (write_register k s a b) 0 [(unat (take_bit 21 a), take 4 b)]"
proof -
  have "performs (sja1105_spi_send_packed_buf k s SPI_WRITE a b 4) (0, b) [(unat (take_bit 21 a), take 4 b)]"
    using write_works [OF assms(1,2), of 4 b a] assms(3) by simp
  from performs_bind [OF this, of "\<lambda>(rc, buf). io_return rc" 0 "[]"] show ?thesis
    by (simp add: write_register_def performs_return)
qed

lemma reset_cmd_bytes:
  "fst (sja1105_reset_cmd_pack (replicate 4 0) r d) =
     be_bytes (layout_word (if IS_ET d then reset_cmd_et_layout else reset_cmd_pqrs_layout) r)"
  using reset_cmd_et.pack_word [of "replicate 4 0" r] reset_cmd_pqrs.pack_word [of "replicate 4 0" r]
  by (simp add: sja1105_reset_cmd_pack_def sja1105_reset_cmd_access_def)

lemma reset_performs:
  assumes "bus_works k" "sp_dry_run s = 0" "IS_ET (sp_device_id s) \<longrightarrow> reset_cmd_et_shape r"
  shows "performs (sja1105_reset_cmd_commit k s r) 0
    [(0x100440, be_bytes (layout_word (if IS_ET (sp_device_id s) then reset_cmd_et_layout else reset_cmd_pqrs_layout) r))]"
proof -
  have "sja1105_reset_cmd_commit k s r = write_register k s RGU_ADDR
      (be_bytes (layout_word (if IS_ET (sp_device_id s) then reset_cmd_et_layout else reset_cmd_pqrs_layout) r))"
    using assms(3) by (auto simp: sja1105_reset_cmd_commit_def reset_cmd_bytes reset_cmd_et_shape_def)
  then show ?thesis using performs_write_register [OF assms(1,2), of "be_bytes w" RGU_ADDR for w] by simp
qed

lemma length_pack_word_at:
  "off + 4 \<le> length buf \<Longrightarrow> start < 32 \<Longrightarrow> end' \<le> start \<Longrightarrow> length (pack_word_at off v start end' buf) = length buf"
  using gtable_pack_lbit(3) [where L = 4 and E = end' and S = start and t = "drop off buf" and v = v]
  by (simp add: pack_word_at_def)

lemma pack_word_at_whole:
  assumes "off + 4 \<le> length buf"
  shows "pack_word_at off v 31 0 buf = take off buf @ be_bytes v @ drop (off + 4) buf"
proof -
  note spec = gtable_pack_lbit [where L = 4 and E = 0 and S = 31 and t = "drop off buf" and v = v]
  let ?b = "snd (snd (gtable_pack (drop off buf) v 31 0 4))"
  have len: "length ?b = length buf - off" "drop 4 ?b = drop (off + 4) buf"
    using spec(3,4) assms by (simp_all add: add.commute)
  have "take 4 ?b = be_bytes v"
    by (rule lbit_determines [where sz = 4])
      (use spec(5) assms len in \<open>auto simp: lbit_be_bytes lbit_take\<close>)
  then have "?b = be_bytes v @ drop (off + 4) buf" using len(2) append_take_drop_id [of 4 ?b] by simp
  then show ?thesis by (simp add: pack_word_at_def)
qed

lemma lbit_pack_bit:
  "length buf = 4 \<Longrightarrow> i < 32 \<Longrightarrow> j < 32 \<Longrightarrow> lbit 4 (pack_word_at 0 v i i buf) j = (if j = i then bit v 0 else lbit 4 buf j)"
  using gtable_pack_lbit(5) [where L = 4 and E = i and S = i and t = buf and v = v and i = j]
  by (auto simp: pack_word_at_def)

lemma inhibit_tx_bits:
  fixes f :: "nat \<Rightarrow> u64"
  assumes "length buf = 4" "n \<le> 32"
  defines "out \<equiv> foldl (\<lambda>buf i. pack_word_at 0 (f i) i i buf) buf [0..<n]"
  shows "length out = 4 \<and> (\<forall>j < 32. lbit 4 out j = (if j < n then bit (f j) 0 else lbit 4 buf j))"
  using assms(2) unfolding out_def
proof (induction n)
  case 0
  then show ?case using assms(1) by simp
next
  case (Suc n)
  then show ?case by (auto simp: length_pack_word_at lbit_pack_bit)
qed

section \<open>Properties\<close>

text \<open>
  On E/T only the warm and the cold reset exist: a command with any other reset is refused with -EINVAL
  and nothing is sent.
\<close>

theorem reset_et_refuses:
  assumes "IS_ET (sp_device_id s)" "\<not> reset_cmd_et_shape r"
  shows "run_state (sja1105_reset_cmd_commit k s r) h = (- EINVAL, h)"
  using assms by (auto simp: sja1105_reset_cmd_commit_def reset_cmd_et_shape_def)

theorem reset_et_refuses_witness:
  "run_state (sja1105_reset_cmd_commit (switch_kernel example_registers) (example_setup\<lparr>sp_device_id := SJA1105T_DEVICE_ID\<rparr>)
     (reset_cmd_zero\<lparr>rst_warm_rst := 1, rst_por_rst := 1\<rparr>)) [] = (- EINVAL, [])"
  by (rule reset_et_refuses) (simp_all add: IS_ET_def reset_cmd_et_shape_def)

lemma reset_words:
  assumes "bus_works k" "sp_dry_run s = 0"
  shows "performs (sja1105_warm_reset k s) 0 [(0x100440, [0, 0, 0, if IS_ET (sp_device_id s) then 4 else 8])]"
    and "performs (sja1105_cold_reset k s) 0 [(0x100440, [0, 0, 0, if IS_ET (sp_device_id s) then 8 else 4])]"
proof -
  have w: "layout_word (if IS_ET (sp_device_id s) then reset_cmd_et_layout else reset_cmd_pqrs_layout)
      (reset_cmd_zero\<lparr>rst_warm_rst := 1\<rparr>) = (if IS_ET (sp_device_id s) then 4 else 8)"
    "layout_word (if IS_ET (sp_device_id s) then reset_cmd_et_layout else reset_cmd_pqrs_layout)
      (reset_cmd_zero\<lparr>rst_cold_rst := 1\<rparr>) = (if IS_ET (sp_device_id s) then 8 else 4)"
    by (simp_all add: layout_word_def reset_cmd_et_layout_def reset_cmd_pqrs_layout_def fld_def width_def reset_cmd_zero_def)
  have sh: "reset_cmd_et_shape (reset_cmd_zero\<lparr>rst_warm_rst := 1\<rparr>)" "reset_cmd_et_shape (reset_cmd_zero\<lparr>rst_cold_rst := 1\<rparr>)"
    by (simp_all add: reset_cmd_et_shape_def reset_cmd_zero_def)
  show "performs (sja1105_warm_reset k s) 0 [(0x100440, [0, 0, 0, if IS_ET (sp_device_id s) then 4 else 8])]"
    "performs (sja1105_cold_reset k s) 0 [(0x100440, [0, 0, 0, if IS_ET (sp_device_id s) then 8 else 4])]"
    using reset_performs [OF assms, of "reset_cmd_zero\<lparr>rst_warm_rst := 1\<rparr>"]
      reset_performs [OF assms, of "reset_cmd_zero\<lparr>rst_cold_rst := 1\<rparr>"] sh
    unfolding w by (auto simp: sja1105_warm_reset_def sja1105_cold_reset_def be_bytes_def split: if_splits)
qed

lemma inhibit_tx_performs:
  assumes "bus_works k" "sp_dry_run s = 0" "4 \<le> length stack"
  shows "\<exists>b. performs (sja1105_inhibit_tx k s stack m) 0 [(0x11, b)] \<and>
    (\<forall>j < 32. bit (wire_word b) j = (if j < 5 then bit (inhibit_tx m ! j) 0 else bit (wire_word stack) j))"
proof -
  define out where "out = foldl (\<lambda>buf i. pack_word_at 0 (inhibit_tx m ! i) i i buf) (take 4 stack) [0..<5]"
  have out: "length out = 4" "\<forall>j < 32. lbit 4 out j = (if j < 5 then bit (inhibit_tx m ! j) 0 else lbit 4 stack j)"
    using inhibit_tx_bits [of "take 4 stack" 5 "\<lambda>i. inhibit_tx m ! i"] assms(3)
    by (simp_all add: out_def lbit_take)
  have "performs (sja1105_inhibit_tx k s stack m) 0 [(0x11, out)]"
    using performs_write_register [OF assms(1,2) out(1), of "CORE_ADDR + 0x11"]
    by (simp add: sja1105_inhibit_tx_def out_def [symmetric])
  then show ?thesis using out assms(3) by (auto simp: bit_wire_word)
qed

text \<open>
  A warm and a cold reset write one word to the reset register, with one bit set; the two bits are
  swapped between E/T and P/Q/R/S.
\<close>

theorem warm_cold_reset_word:
  assumes "bus_works k" "sp_dry_run s = 0"
  shows "\<exists>es fs. run_state (sja1105_warm_reset k s) h = (0, h @ es) \<and>
    sent_writes es = [(0x100440, [0, 0, 0, if IS_ET (sp_device_id s) then 4 else 8])] \<and>
    run_state (sja1105_cold_reset k s) h = (0, h @ fs) \<and>
    sent_writes fs = [(0x100440, [0, 0, 0, if IS_ET (sp_device_id s) then 8 else 4])]"
  using performsD [OF reset_words(1) [OF assms], of h] performsD [OF reset_words(2) [OF assms], of h] by blast

theorem warm_cold_reset_word_witness:
  "\<exists>es. run_state (sja1105_cold_reset (switch_kernel example_registers) (example_setup\<lparr>sp_device_id := SJA1105T_DEVICE_ID\<rparr>)) [] =
     (0, es) \<and> sent_writes es = [(0x100440, [0, 0, 0, 8])]"
  using warm_cold_reset_word [of "switch_kernel example_registers" "example_setup\<lparr>sp_device_id := SJA1105T_DEVICE_ID\<rparr>" "[]"]
    by (auto simp: switch_kernel_works IS_ET_def)

text \<open>
  Inhibiting transmission writes one word whose bits 0 to 4 are the mask of the ports; the upper 27 bits
  are those the uninitialised array happened to hold.
\<close>

theorem inhibit_tx_word:
  assumes "bus_works k" "sp_dry_run s = 0" "4 \<le> length stack"
  shows "\<exists>es b. run_state (sja1105_inhibit_tx k s stack m) h = (0, h @ es) \<and> sent_writes es = [(0x11, b)] \<and>
    (\<forall>j < 32. bit (wire_word b) j = (if j < 5 then bit (inhibit_tx m ! j) 0 else bit (wire_word stack) j))"
proof -
  obtain b where b: "performs (sja1105_inhibit_tx k s stack m) 0 [(0x11, b)]"
    "\<forall>j < 32. bit (wire_word b) j = (if j < 5 then bit (inhibit_tx m ! j) 0 else bit (wire_word stack) j)"
    using inhibit_tx_performs [OF assms, of m] by blast
  from performsD [OF b(1), of h] b(2) show ?thesis by blast
qed

theorem inhibit_tx_word_witness:
  "\<exists>es b. run_state (sja1105_inhibit_tx (switch_kernel example_registers) example_setup [0xDE, 0xAD, 0xBE, 0xEF]
      \<lparr>inhibit_tx = [1, 0, 0, 0, 0]\<rparr>) [] = (0, es) \<and> sent_writes es = [(0x11, b)] \<and> bit (wire_word b) 31"
proof -
  have "bit (wire_word [0xDE, 0xAD, 0xBE, 0xEF]) 31" by (simp add: wire_word_def bit_be32)
  moreover obtain es b where "run_state (sja1105_inhibit_tx (switch_kernel example_registers) example_setup
      [0xDE, 0xAD, 0xBE, 0xEF] \<lparr>inhibit_tx = [1, 0, 0, 0, 0]\<rparr>) [] = (0, es)" "sent_writes es = [(0x11, b)]"
    "\<forall>j < 32. bit (wire_word b) j = (if j < 5 then bit ([1, 0, 0, 0, 0] ! j :: u64) 0
        else bit (wire_word [0xDE, 0xAD, 0xBE, 0xEF]) j)"
    using inhibit_tx_word [of "switch_kernel example_registers" example_setup "[0xDE, 0xAD, 0xBE, 0xEF]" "\<lparr>inhibit_tx = [1, 0, 0, 0, 0]\<rparr>" "[]"]
    by (auto simp: switch_kernel_works)
  ultimately show ?thesis by auto
qed

text \<open>
  Committing a shaper writes its four parameters to the registers 0x2C to 0x2F as documented, but the
  same message goes on and fills the command register 0x30 and the three behind it with sixteen bytes of
  uninitialised memory, before the command itself is written.
\<close>

theorem cbs_commit_writes:
  assumes "bus_works k" "sp_dry_run s = 0" "32 \<le> length stack"
  shows "\<exists>es. run_state (sja1105_cbs_commit k s stack c) h = (0, h @ es) \<and>
    sent_writes es =
      [(0x2C, be_bytes (cbs_idle_slope c) @ be_bytes (cbs_send_slope c) @ be_bytes (cbs_credit_hi c) @
          be_bytes (cbs_credit_lo c) @ take 16 (drop 16 stack)),
       (0x30, be_bytes (layout_word cbs_cmd_layout c))]"
proof -
  define buf where "buf = be_bytes (cbs_idle_slope c) @ be_bytes (cbs_send_slope c) @ be_bytes (cbs_credit_hi c) @
          be_bytes (cbs_credit_lo c) @ take 16 (drop 16 stack)"
  have len: "length buf = 32" using assms(3) by (simp add: buf_def)
  have packed: "pack_word_at 12 (cbs_credit_lo c) 31 0 (pack_word_at 8 (cbs_credit_hi c) 31 0
      (pack_word_at 4 (cbs_send_slope c) 31 0 (pack_word_at 0 (cbs_idle_slope c) 31 0 (take 32 stack)))) = buf"
    using assms(3) by (simp add: pack_word_at_whole buf_def be_bytes_def take_drop)
  have cmd: "fst (sja1105_cbs_cmd_pack buf c) = be_bytes (layout_word cbs_cmd_layout c) @ drop 4 buf"
    using cbs.pack_word [of buf c] len by (simp add: sja1105_cbs_cmd_pack_def sja1105_cbs_cmd_access_def)
  have "performs (sja1105_spi_send_packed_buf k s SPI_WRITE (CORE_ADDR + 0x2C) buf 32) (0, buf) [(0x2C, buf)]"
    using write_works [OF assms(1,2), of 32 buf "CORE_ADDR + 0x2C"] len by simp
  from performs_bind [OF this, of "\<lambda>(rc, b). if rc < 0 then io_return rc
      else write_register k s (CORE_ADDR + 0x30) (be_bytes (layout_word cbs_cmd_layout c) @ drop 4 buf)"]
  have "performs (sja1105_cbs_commit k s stack c) 0 [(0x2C, buf), (0x30, be_bytes (layout_word cbs_cmd_layout c))]"
    using performs_write_prefix [OF assms(1,2), of "be_bytes (layout_word cbs_cmd_layout c) @ drop 4 buf" "CORE_ADDR + 0x30"]
    unfolding sja1105_cbs_commit_def Let_def packed cmd by simp
  from performsD [OF this, of h] show ?thesis by (simp only: buf_def)
qed

theorem cbs_commit_writes_witness:
  "\<exists>es. run_state (sja1105_cbs_commit (switch_kernel example_registers) example_setup (replicate 32 0xCC)
       (cbs_zero\<lparr>cbs_port := 3, cbs_prio := 5, cbs_idle_slope := 0x1234\<rparr>)) [] = (0, es) \<and>
     sent_writes es =
       [(0x2C, [0, 0, 0x12, 0x34, 0, 0, 0, 0, 0, 0, 0, 0, 0, 0, 0, 0] @ replicate 16 0xCC), (0x30, [0x80, 0, 0, 0x1D])]"
proof -
  let ?c = "cbs_zero\<lparr>cbs_port := 3, cbs_prio := 5, cbs_idle_slope := 0x1234\<rparr>"
  have "layout_word cbs_cmd_layout ?c = 0x8000001D"
    by (simp add: layout_word_def cbs_cmd_layout_def fld_def width_def cbs_zero_def)
  then have "be_bytes (layout_word cbs_cmd_layout ?c) = [0x80, 0, 0, 0x1D]" by (simp add: be_bytes_def)
  moreover have "be_bytes (cbs_idle_slope ?c) = [0, 0, 0x12, 0x34]" "be_bytes (cbs_send_slope ?c) = [0, 0, 0, 0]"
    "be_bytes (cbs_credit_hi ?c) = [0, 0, 0, 0]" "be_bytes (cbs_credit_lo ?c) = [0, 0, 0, 0]"
    by (simp_all add: be_bytes_def cbs_zero_def)
  ultimately show ?thesis
    using cbs_commit_writes [OF switch_kernel_works, of "replicate 32 0xCC" example_registers ?c "[]"] by simp
qed

end
