(* ===== verification/Status.thy ===== *)
theory Status
  imports Registers
begin

unbundle bit_operations_syntax

text \<open>
  Reading the state of the switch: the general status (\<^verbatim>\<open>lib/status/general.c\<close>) and the counters
  and flags of a port (\<^verbatim>\<open>lib/status/port.c\<close>). A status is a record whose members are fields of
  consecutive registers.
\<close>

section \<open>Fields of consecutive registers\<close>

named_theorems register_maps "which field of which register holds a member"

text \<open>
  A list of pairs of a register and a field in it. The buffer starts with the register \<open>base\<close>; every call of
  \<^verbatim>\<open>gtable_unpack\<close> is on one word of it.
\<close>

definition unpack_registers :: "nat \<Rightarrow> (nat \<times> 'e fld) list \<Rightarrow> u8 list \<Rightarrow> 'e \<Rightarrow> 'e" where
  "unpack_registers base regs buf e =
     foldl (\<lambda>e (r, f). snd (unpack_field 4 (drop (4 * (r - base)) buf, e) f)) e regs"

section \<open>The general status\<close>

record general_status =
  gs_configs :: u64
  gs_crcchkl :: u64
  gs_ids :: u64
  gs_crcchkg :: u64
  gs_nslot :: u64
  gs_vlind :: u64
  gs_vlparind :: u64
  gs_vlroutes :: u64
  gs_vlparts :: u64
  gs_macaddl :: u64
  gs_portenf :: u64
  gs_fwds_03h :: u64
  gs_macfds :: u64
  gs_enffds :: u64
  gs_l2busyfds :: u64
  gs_l2busys :: u64
  gs_macaddu :: u64
  gs_macaddhcl :: u64
  gs_vlanidhc :: u64
  gs_hashconfs :: u64
  gs_macaddhcu :: u64
  gs_wpvlanid :: u64
  gs_port_07h :: u64
  gs_vlanbusys :: u64
  gs_wrongports :: u64
  gs_vnotfounds :: u64
  gs_vlid :: u64
  gs_portvl :: u64
  gs_vlnotfound :: u64
  gs_emptys :: u64
  gs_buffers :: u64
  gs_buflwmark :: u64
  gs_port_0ah :: u64
  gs_fwds_0ah :: u64
  gs_parts :: u64
  gs_ramparerrl :: u64
  gs_ramparerru :: u64

definition general_status_zero :: general_status where [table_zeros]:
  "general_status_zero =
    \<lparr>gs_configs = 0, gs_crcchkl = 0, gs_ids = 0, gs_crcchkg = 0, gs_nslot = 0, gs_vlind = 0,
     gs_vlparind = 0, gs_vlroutes = 0, gs_vlparts = 0, gs_macaddl = 0, gs_portenf = 0, gs_fwds_03h = 0,
     gs_macfds = 0, gs_enffds = 0, gs_l2busyfds = 0, gs_l2busys = 0, gs_macaddu = 0, gs_macaddhcl = 0,
     gs_vlanidhc = 0, gs_hashconfs = 0, gs_macaddhcu = 0, gs_wpvlanid = 0, gs_port_07h = 0,
     gs_vlanbusys = 0, gs_wrongports = 0, gs_vnotfounds = 0, gs_vlid = 0, gs_portvl = 0,
     gs_vlnotfound = 0, gs_emptys = 0, gs_buffers = 0, gs_buflwmark = 0, gs_port_0ah = 0,
     gs_fwds_0ah = 0, gs_parts = 0, gs_ramparerrl = 0, gs_ramparerru = 0\<rparr>"

definition general_status_common :: "(nat \<times> general_status fld) list" where [register_maps]:
  "general_status_common =
    [(0x1, fld gs_configs gs_configs_update 31 31),
     (0x1, fld gs_crcchkl gs_crcchkl_update 30 30),
     (0x1, fld gs_ids gs_ids_update 29 29),
     (0x1, fld gs_crcchkg gs_crcchkg_update 28 28),
     (0x1, fld gs_nslot gs_nslot_update 3 0),
     (0x2, fld gs_vlind gs_vlind_update 31 16),
     (0x2, fld gs_vlparind gs_vlparind_update 15 8),
     (0x2, fld gs_vlroutes gs_vlroutes_update 1 1),
     (0x2, fld gs_vlparts gs_vlparts_update 0 0),
     (0x3, fld gs_macaddl gs_macaddl_update 31 16),
     (0x3, fld gs_portenf gs_portenf_update 15 8),
     (0x3, fld gs_fwds_03h gs_fwds_03h_update 4 4),
     (0x3, fld gs_macfds gs_macfds_update 3 3),
     (0x3, fld gs_enffds gs_enffds_update 2 2),
     (0x3, fld gs_l2busyfds gs_l2busyfds_update 1 1),
     (0x3, fld gs_l2busys gs_l2busys_update 0 0),
     (0x4, fld gs_macaddu gs_macaddu_update 31 0),
     (0x5, fld gs_macaddhcl gs_macaddhcl_update 31 16),
     (0x5, fld gs_vlanidhc gs_vlanidhc_update 15 4),
     (0x5, fld gs_hashconfs gs_hashconfs_update 0 0),
     (0x6, fld gs_macaddhcu gs_macaddhcu_update 31 0),
     (0x7, fld gs_wpvlanid gs_wpvlanid_update 31 16),
     (0x7, fld gs_port_07h gs_port_07h_update 15 8),
     (0x7, fld gs_vlanbusys gs_vlanbusys_update 4 4),
     (0x7, fld gs_wrongports gs_wrongports_update 3 3),
     (0x7, fld gs_vnotfounds gs_vnotfounds_update 2 2),
     (0x8, fld gs_vlid gs_vlid_update 31 16),
     (0x8, fld gs_portvl gs_portvl_update 15 8),
     (0x8, fld gs_vlnotfound gs_vlnotfound_update 0 0),
     (0x9, fld gs_emptys gs_emptys_update 31 31),
     (0x9, fld gs_buffers gs_buffers_update 30 0)]"

definition general_status_et :: "(nat \<times> general_status fld) list" where [register_maps]:
  "general_status_et =
    [(0xA, fld gs_port_0ah gs_port_0ah_update 15 8),
     (0xA, fld gs_fwds_0ah gs_fwds_0ah_update 1 1),
     (0xA, fld gs_parts gs_parts_update 0 0),
     (0xB, fld gs_ramparerrl gs_ramparerrl_update 20 0),
     (0xC, fld gs_ramparerru gs_ramparerru_update 4 0)]"

definition general_status_pqrs :: "(nat \<times> general_status fld) list" where [register_maps]:
  "general_status_pqrs =
    [(0xA, fld gs_buflwmark gs_buflwmark_update 30 0),
     (0xB, fld gs_port_0ah gs_port_0ah_update 15 8),
     (0xB, fld gs_fwds_0ah gs_fwds_0ah_update 1 1),
     (0xB, fld gs_parts gs_parts_update 0 0),
     (0xC, fld gs_ramparerrl gs_ramparerrl_update 22 0),
     (0xD, fld gs_ramparerru gs_ramparerru_update 4 0)]"

text \<open>The device identifier in register 0 is not read: the buffer starts with register 1.\<close>

definition sja1105_general_status_unpack :: "u8 list \<Rightarrow> u64 \<Rightarrow> general_status" where
  "sja1105_general_status_unpack buf device_id =
     unpack_registers 0x1 (general_status_common @ (if IS_ET device_id then general_status_et else general_status_pqrs))
       buf general_status_zero"

text \<open>
  The buffer is an array that a read overwrites completely before it is unpacked; what it holds before has no
  influence.
\<close>

definition sja1105_general_status_get ::
    "kernel \<Rightarrow> sja1105_spi_setup \<Rightarrow> general_status \<Rightarrow> (int \<times> general_status) io" where
  "sja1105_general_status_get k spi_setup status =
     (let size_general_status = (if IS_ET (sp_device_id spi_setup) then 0x0C * 4 else 0x0D * 4)
      in do {
        (rc, packed_buf) \<leftarrow> sja1105_spi_send_packed_buf k spi_setup SPI_READ (CORE_ADDR + 0x01)
          (replicate size_general_status 0) size_general_status;
        if rc < 0 then io_return (rc, status)
        else io_return (rc, sja1105_general_status_unpack packed_buf (sp_device_id spi_setup))
      })"

section \<open>The status of a port\<close>

record port_status =
  ps_n_runt :: u64
  ps_n_soferr :: u64
  ps_n_alignerr :: u64
  ps_n_miierr :: u64
  ps_typeerr :: u64
  ps_sizeerr :: u64
  ps_tctimeout :: u64
  ps_priorerr :: u64
  ps_nomaster :: u64
  ps_memov :: u64
  ps_memerr :: u64
  ps_invtyp :: u64
  ps_intcyov :: u64
  ps_domerr :: u64
  ps_pcfbagdrop :: u64
  ps_spcprior :: u64
  ps_ageprior :: u64
  ps_portdrop :: u64
  ps_lendrop :: u64
  ps_bagdrop :: u64
  ps_policeerr :: u64
  ps_drpnona664err :: u64
  ps_spcerr :: u64
  ps_agedrp :: u64
  ps_n_n664err :: u64
  ps_n_vlanerr :: u64
  ps_n_unreleased :: u64
  ps_n_sizerr :: u64
  ps_n_crcerr :: u64
  ps_n_vlnotfound :: u64
  ps_n_bepolerr :: u64
  ps_n_polerr :: u64
  ps_n_rxfrmsh :: u64
  ps_n_rxfrm :: u64
  ps_n_rxbytesh :: u64
  ps_n_rxbyte :: u64
  ps_n_txfrmsh :: u64
  ps_n_txfrm :: u64
  ps_n_txbytesh :: u64
  ps_n_txbyte :: u64
  ps_n_qfull :: u64
  ps_n_part_drop :: u64
  ps_n_egr_disabled :: u64
  ps_n_not_reach :: u64
  ps_qlevel_hwm :: "u64 list"
  ps_qlevel :: "u64 list"

definition port_status_zero :: port_status where [table_zeros]:
  "port_status_zero =
    \<lparr>ps_n_runt = 0, ps_n_soferr = 0, ps_n_alignerr = 0, ps_n_miierr = 0, ps_typeerr = 0, ps_sizeerr = 0,
     ps_tctimeout = 0, ps_priorerr = 0, ps_nomaster = 0, ps_memov = 0, ps_memerr = 0, ps_invtyp = 0,
     ps_intcyov = 0, ps_domerr = 0, ps_pcfbagdrop = 0, ps_spcprior = 0, ps_ageprior = 0,
     ps_portdrop = 0, ps_lendrop = 0, ps_bagdrop = 0, ps_policeerr = 0, ps_drpnona664err = 0,
     ps_spcerr = 0, ps_agedrp = 0, ps_n_n664err = 0, ps_n_vlanerr = 0, ps_n_unreleased = 0,
     ps_n_sizerr = 0, ps_n_crcerr = 0, ps_n_vlnotfound = 0, ps_n_bepolerr = 0, ps_n_polerr = 0,
     ps_n_rxfrmsh = 0, ps_n_rxfrm = 0, ps_n_rxbytesh = 0, ps_n_rxbyte = 0, ps_n_txfrmsh = 0,
     ps_n_txfrm = 0, ps_n_txbytesh = 0, ps_n_txbyte = 0, ps_n_qfull = 0, ps_n_part_drop = 0,
     ps_n_egr_disabled = 0, ps_n_not_reach = 0, ps_qlevel_hwm = replicate 8 0,
     ps_qlevel = replicate 8 0\<rparr>"

definition port_status_mac :: "(nat \<times> port_status fld) list" where [register_maps]:
  "port_status_mac =
    [(0x0, fld ps_n_runt ps_n_runt_update 31 24),
     (0x0, fld ps_n_soferr ps_n_soferr_update 23 16),
     (0x0, fld ps_n_alignerr ps_n_alignerr_update 15 8),
     (0x0, fld ps_n_miierr ps_n_miierr_update 7 0),
     (0x1, fld ps_typeerr ps_typeerr_update 27 27),
     (0x1, fld ps_sizeerr ps_sizeerr_update 26 26),
     (0x1, fld ps_tctimeout ps_tctimeout_update 25 25),
     (0x1, fld ps_priorerr ps_priorerr_update 24 24),
     (0x1, fld ps_nomaster ps_nomaster_update 23 23),
     (0x1, fld ps_memov ps_memov_update 22 22),
     (0x1, fld ps_memerr ps_memerr_update 21 21),
     (0x1, fld ps_invtyp ps_invtyp_update 19 19),
     (0x1, fld ps_intcyov ps_intcyov_update 18 18),
     (0x1, fld ps_domerr ps_domerr_update 17 17),
     (0x1, fld ps_pcfbagdrop ps_pcfbagdrop_update 16 16),
     (0x1, fld ps_spcprior ps_spcprior_update 15 12),
     (0x1, fld ps_ageprior ps_ageprior_update 11 8),
     (0x1, fld ps_portdrop ps_portdrop_update 6 6),
     (0x1, fld ps_lendrop ps_lendrop_update 5 5),
     (0x1, fld ps_bagdrop ps_bagdrop_update 4 4),
     (0x1, fld ps_policeerr ps_policeerr_update 3 3),
     (0x1, fld ps_drpnona664err ps_drpnona664err_update 2 2),
     (0x1, fld ps_spcerr ps_spcerr_update 1 1),
     (0x1, fld ps_agedrp ps_agedrp_update 0 0)]"

definition port_status_hl1 :: "(nat \<times> port_status fld) list" where [register_maps]:
  "port_status_hl1 =
    [(0xF, fld ps_n_n664err ps_n_n664err_update 31 0),
     (0xE, fld ps_n_vlanerr ps_n_vlanerr_update 31 0),
     (0xD, fld ps_n_unreleased ps_n_unreleased_update 31 0),
     (0xC, fld ps_n_sizerr ps_n_sizerr_update 31 0),
     (0xB, fld ps_n_crcerr ps_n_crcerr_update 31 0),
     (0xA, fld ps_n_vlnotfound ps_n_vlnotfound_update 31 0),
     (0x9, fld ps_n_bepolerr ps_n_bepolerr_update 31 0),
     (0x8, fld ps_n_polerr ps_n_polerr_update 31 0),
     (0x7, fld ps_n_rxfrmsh ps_n_rxfrmsh_update 31 0),
     (0x6, fld ps_n_rxfrm ps_n_rxfrm_update 31 0),
     (0x5, fld ps_n_rxbytesh ps_n_rxbytesh_update 31 0),
     (0x4, fld ps_n_rxbyte ps_n_rxbyte_update 31 0),
     (0x3, fld ps_n_txfrmsh ps_n_txfrmsh_update 31 0),
     (0x2, fld ps_n_txfrm ps_n_txfrm_update 31 0),
     (0x1, fld ps_n_txbytesh ps_n_txbytesh_update 31 0),
     (0x0, fld ps_n_txbyte ps_n_txbyte_update 31 0)]"

definition port_status_hl2 :: "(nat \<times> port_status fld) list" where [register_maps]:
  "port_status_hl2 =
    [(0x3, fld ps_n_qfull ps_n_qfull_update 31 0),
     (0x2, fld ps_n_part_drop ps_n_part_drop_update 31 0),
     (0x1, fld ps_n_egr_disabled ps_n_egr_disabled_update 31 0),
     (0x0, fld ps_n_not_reach ps_n_not_reach_update 31 0)]"

definition port_status_qlevel :: "(nat \<times> port_status fld) list" where [register_maps]:
  "port_status_qlevel =
     concat (map (\<lambda>i. [(i, afld ps_qlevel_hwm ps_qlevel_hwm_update i 24 16), (i, afld ps_qlevel ps_qlevel_update i 8 0)]) [0..<8])"

definition sja1105_port_status_mac_unpack :: "u8 list \<Rightarrow> port_status \<Rightarrow> port_status" where
  "sja1105_port_status_mac_unpack buf status = unpack_registers 0 port_status_mac buf status"

definition sja1105_port_status_hl1_unpack :: "u8 list \<Rightarrow> port_status \<Rightarrow> port_status" where
  "sja1105_port_status_hl1_unpack buf status0 =
     (let status = unpack_registers 0 port_status_hl1 buf status0
      in status\<lparr>ps_n_rxfrm := ps_n_rxfrm status + push_bit 32 (ps_n_rxfrmsh status),
                ps_n_rxbyte := ps_n_rxbyte status + push_bit 32 (ps_n_rxbytesh status),
                ps_n_txfrm := ps_n_txfrm status + push_bit 32 (ps_n_txfrmsh status),
                ps_n_txbyte := ps_n_txbyte status + push_bit 32 (ps_n_txbytesh status)\<rparr>)"

definition sja1105_port_status_hl2_unpack :: "u8 list \<Rightarrow> port_status \<Rightarrow> port_status" where
  "sja1105_port_status_hl2_unpack buf status = unpack_registers 0 port_status_hl2 buf status"

definition sja1105pqrs_port_status_qlevel_unpack :: "u8 list \<Rightarrow> port_status \<Rightarrow> port_status" where
  "sja1105pqrs_port_status_qlevel_unpack buf status = unpack_registers 0 port_status_qlevel buf status"

text \<open>
  The port indexes arrays of five addresses: the functions are defined for the ports 0 to 4, as the C code is.
\<close>

definition mac_base_addr :: "u64 list" where "mac_base_addr = [0x200, 0x202, 0x204, 0x206, 0x208]"
definition high_level_1_base_addr :: "u64 list" where "high_level_1_base_addr = [0x400, 0x410, 0x420, 0x430, 0x440]"
definition high_level_2_base_addr :: "u64 list" where "high_level_2_base_addr = [0x600, 0x610, 0x620, 0x630, 0x640]"
definition qlevel_base_addr :: "u64 list" where "qlevel_base_addr = [0x604, 0x614, 0x624, 0x634, 0x644]"

definition sja1105_port_status_get ::
    "kernel \<Rightarrow> sja1105_spi_setup \<Rightarrow> nat \<Rightarrow> (int \<times> port_status) io" where
  "sja1105_port_status_get k spi_setup port =
     (let size_mac_area = 0x02 * 4; size_hl_area = 0x10 * 4; size_qlevel_area = 0x8 * 4;
          status0 = port_status_zero
      in do {
        (rc, buf1) \<leftarrow> sja1105_spi_send_packed_buf k spi_setup SPI_READ (CORE_ADDR + mac_base_addr ! port)
          (replicate size_hl_area 0) size_mac_area;
        if rc < 0 then io_return (rc, status0)
        else do {
          let status1 = sja1105_port_status_mac_unpack buf1 status0;
          (rc, buf2) \<leftarrow> sja1105_spi_send_packed_buf k spi_setup SPI_READ (CORE_ADDR + high_level_1_base_addr ! port)
            buf1 size_hl_area;
          if rc < 0 then io_return (rc, status1)
          else do {
            let status2 = sja1105_port_status_hl1_unpack buf2 status1;
            (rc, buf3) \<leftarrow> sja1105_spi_send_packed_buf k spi_setup SPI_READ (CORE_ADDR + high_level_2_base_addr ! port)
              buf2 size_hl_area;
            if rc < 0 then io_return (rc, status2)
            else do {
              let status3 = sja1105_port_status_hl2_unpack buf3 status2;
              if IS_ET (sp_device_id spi_setup) then io_return (rc, status3)
              else do {
                (rc, buf4) \<leftarrow> sja1105_spi_send_packed_buf k spi_setup SPI_READ (CORE_ADDR + qlevel_base_addr ! port)
                  buf3 size_qlevel_area;
                if rc < 0 then io_return (rc, status3)
                else io_return (rc, sja1105pqrs_port_status_qlevel_unpack buf4 status3)
              }
            }
          }
        }
      })"

text \<open>The command has one bit per port; the port -1 stands for all of them. For other negative numbers the shift
  of the C code is undefined, and so is what the model gives for them of no interest.\<close>

definition sja1105_port_status_clear :: "kernel \<Rightarrow> sja1105_spi_setup \<Rightarrow> int \<Rightarrow> int io" where
  "sja1105_port_status_clear k spi_setup port =
     (let port_status_ctrl_addr = (if IS_ET (sp_device_id spi_setup) then 0xf else 0x10)
      in if port \<noteq> - 1 \<and> \<not> port < 5 then io_return (- EINVAL)
         else do {
           let clearport = (if port = - 1 then 0x1f else push_bit (nat port) 1);
           let packed_buf = snd (snd (gtable_pack (memset0 4 []) clearport 4 0 4));
           (rc, buf) \<leftarrow> sja1105_spi_send_packed_buf k spi_setup SPI_READ (CORE_ADDR + port_status_ctrl_addr) packed_buf 4;
           io_return rc
         })"

section \<open>What is read\<close>

text \<open>The value of a field of a register.\<close>

definition reg_field :: "u8 list \<Rightarrow> 'e fld \<Rightarrow> u64" where
  "reg_field b f = take_bit (width f) (drop_bit (lo f) (wire_word b))"

lemma field_of_register:
  assumes "field_ok 4 f" "length b = 4"
  shows "field_of 4 (b @ r) f = reg_field b f"
proof (rule bit_eqI)
  fix i
  have "i < width f \<Longrightarrow> lo f + i < 32" using assms(1) by (auto simp: field_ok_def width_def)
  then show "bit (field_of 4 (b @ r) f) i = bit (reg_field b f) i"
    using assms lbit_append [of 4 "lo f + i" b r]
    by (auto simp: bit_field_of reg_field_def bit_take_bit_iff bit_drop_bit_eq bit_wire_word add.commute)
qed

lemma drop_load:
  assumes "\<forall>x. length (mem x) = 4" "i < n"
  shows "\<exists>r. drop (4 * i) (load mem a n @ t) = mem (a + i) @ r"
  using assms
proof (induction i arbitrary: a n)
  case 0
  then obtain m where "n = Suc m" by (cases n) auto
  then show ?case by (auto simp: load_def upt_rec)
next
  case (Suc i)
  then obtain m where m: "n = Suc m" by (cases n) auto
  then have "load mem a n = mem a @ load mem (Suc a) m" by (simp add: load_def upt_rec)
  moreover obtain r where "drop (4 * i) (load mem (Suc a) m @ t) = mem (Suc a + i) @ r"
    using Suc.IH [of m "Suc a"] Suc.prems m by auto
  ultimately show ?case using Suc.prems(1) by auto
qed

text \<open>Unpacking what a read returned takes the fields of the registers.\<close>

lemma unpack_registers_load:
  assumes "\<forall>x. length (mem x) = 4" "list_all (\<lambda>(r, f). field_ok 4 f \<and> base \<le> r \<and> r < base + n) regs"
  shows "unpack_registers base regs (load mem a n @ t) e =
    foldl (\<lambda>e (r, f). fset f (reg_field (mem (a + (r - base))) f) e) e regs"
  using assms(2) unfolding unpack_registers_def
proof (induction regs arbitrary: e)
  case (Cons x regs)
  obtain r f where x: "x = (r, f)" by (cases x)
  with Cons.prems have f: "field_ok 4 f" "r - base < n" by auto
  then obtain u where "drop (4 * (r - base)) (load mem a n @ t) = mem (a + (r - base)) @ u"
    using drop_load [OF assms(1)] by blast
  then have "snd (unpack_field 4 (drop (4 * (r - base)) (load mem a n @ t), e) f) =
      fset f (reg_field (mem (a + (r - base))) f) e"
    using f(1) assms(1) by (simp add: unpack_field_spec field_of_register)
  then show ?case using Cons x by simp
qed simp

lemma registers_length: "is_switch k mem \<Longrightarrow> \<forall>x. length (registers_after mem h x) = 4"
  by (simp add: length_registers_after is_switch_def)

lemma registers_after_quiet: "sent_writes es = [] \<Longrightarrow> registers_after mem (h @ es) = registers_after mem h"
  by (simp add: registers_after_def)

text \<open>The members of a status are the fields of the registers, counted from \<open>a\<close>.\<close>

definition shows_registers :: "registers \<Rightarrow> nat \<Rightarrow> (nat \<times> 'e fld) list \<Rightarrow> 'e \<Rightarrow> bool" where
  "shows_registers mem a regs e \<longleftrightarrow> list_all (\<lambda>(r, f). fval e f = reg_field (mem (a + r)) f) regs"

lemma shape_unpack_registers:
  "list_all (lens shape) (map snd rs) \<Longrightarrow> list_all (\<lambda>(r, f). field_ok 4 f) rs \<Longrightarrow> shape e \<Longrightarrow>
   shape (unpack_registers base rs b e)"
  unfolding unpack_registers_def
proof (induction rs arbitrary: e)
  case (Cons x rs)
  obtain r f where x: "x = (r, f)" by (cases x)
  have "shape (fset f v e)" for v using Cons.prems x by (cases f) simp_all
  then show ?case using Cons x by (simp add: unpack_field_spec)
qed simp

lemma unpack_registers_other:
  "list_all (separate f) (map snd rs) \<Longrightarrow> list_all (\<lambda>(r, f). field_ok 4 f) rs \<Longrightarrow>
   fval (unpack_registers base rs b e) f = fval e f"
  unfolding unpack_registers_def
  by (induction rs arbitrary: e) (auto simp: unpack_field_spec fval_fset_separate')

lemma shows_unpack_other:
  assumes "list_all (\<lambda>f. list_all (separate f) (map snd rs)) (map snd regs)" "list_all (\<lambda>(r, f). field_ok 4 f) rs"
    "shows_registers mem a regs e"
  shows "shows_registers mem a regs (unpack_registers base rs b e)"
  unfolding shows_registers_def list_all_iff
proof (intro ballI, clarify)
  fix r f assume f: "(r, f) \<in> set regs"
  then have "list_all (separate f) (map snd rs)" using assms(1) by (force simp: list_all_iff)
  then show "fval (unpack_registers base rs b e) f = reg_field (mem (a + r)) f"
    using f assms(3) by (auto simp: unpack_registers_other [OF _ assms(2)] shows_registers_def list_all_iff)
qed

text \<open>The contract of a map of registers: distinct members, fields of existing registers.\<close>

locale register_map =
  fixes base :: nat and n :: nat and regs :: "(nat \<times> 'e fld) list" and shape :: "'e \<Rightarrow> bool"
  assumes fields: "list_all (\<lambda>(r, f). field_ok 4 f \<and> base \<le> r \<and> r < base + n \<and> is_member f) regs"
    and members: "all_separate (map snd regs)" "list_all (lens shape) (map snd regs)"
begin

lemma unpack_eq:
  "(\<forall>x. length (mem x) = 4) \<Longrightarrow> unpack_registers base regs (load mem a n @ t) e =
    foldl (\<lambda>e (r, f). fset f (reg_field (mem (a + (r - base))) f) e) e regs"
  using fields by (intro unpack_registers_load) (auto simp: list_all_iff)

lemma fields_ok: "list_all (\<lambda>(r, f). field_ok 4 f) regs"
  using fields by (auto simp: list_all_iff)

lemma shape_unpack: "shape e \<Longrightarrow> shape (unpack_registers base regs b e)"
  using shape_unpack_registers [OF members(2) fields_ok] .

lemma unpack_other:
  "list_all (separate f) (map snd regs) \<Longrightarrow> fval (unpack_registers base regs b e) f = fval e f"
  using unpack_registers_other [OF _ fields_ok] .

lemma fval_fold:
  "all_separate (map snd rs) \<Longrightarrow> list_all (lens shape) (map snd rs) \<Longrightarrow> shape e \<Longrightarrow>
   list_all (\<lambda>(r, f). is_member f) rs \<Longrightarrow>
   list_all (\<lambda>(r, f). fval (foldl (\<lambda>e (r, f). fset f (v r f) e) e rs) f = v r f) rs"
proof (induction rs arbitrary: e)
  case (Cons x rs)
  obtain r f where x: "x = (r, f)" by (cases x)
  have sep: "list_all (separate f) (map snd rs)" using Cons.prems x by simp
  have "fval (foldl (\<lambda>e (r, f). fset f (v r f) e) z rs) f = fval z f" for z
    using sep by (induction rs arbitrary: z) (auto simp: fval_fset_separate')
  moreover have "shape (fset f (v r f) e)" "fval (fset f (v r f) e) f = v r f"
    using Cons.prems x by (cases f; simp)+
  ultimately show ?case using Cons x by simp
qed simp

lemma unpack_shows:
  assumes "\<forall>x. length (mem x) = 4" "shape e" "base \<le> a"
  shows "shows_registers mem (a - base) regs (unpack_registers base regs (load mem a n @ t) e)"
proof -
  have "list_all (\<lambda>(r, f). fval (unpack_registers base regs (load mem a n @ t) e) f = reg_field (mem (a + (r - base))) f) regs"
    unfolding unpack_eq [OF assms(1)]
    by (rule fval_fold [OF members assms(2), where v = "\<lambda>r f. reg_field (mem (a + (r - base))) f"])
      (use fields in \<open>auto simp: list_all_iff\<close>)
  moreover have "a + (r - base) = a - base + r" if "(r, f) \<in> set regs" for r f
    using that fields assms(3) by (auto simp: list_all_iff)
  ultimately show ?thesis by (fastforce simp: shows_registers_def list_all_iff)
qed

end

interpretation general_et: register_map 1 12 "general_status_common @ general_status_et" "\<lambda>_. True"
  by unfold_locales (simp_all add: register_maps codec_simps)

interpretation general_pqrs: register_map 1 13 "general_status_common @ general_status_pqrs" "\<lambda>_. True"
  by unfold_locales (simp_all add: register_maps codec_simps)

definition port_status_shape :: "port_status \<Rightarrow> bool" where
  "port_status_shape st \<longleftrightarrow> length (ps_qlevel st) = 8 \<and> length (ps_qlevel_hwm st) = 8"

interpretation port_mac: register_map 0 2 port_status_mac port_status_shape
  by unfold_locales (simp_all add: register_maps codec_simps port_status_shape_def)

interpretation port_hl1: register_map 0 16 port_status_hl1 port_status_shape
  by unfold_locales (simp_all add: register_maps codec_simps port_status_shape_def)

interpretation port_hl2: register_map 0 16 port_status_hl2 port_status_shape
  by unfold_locales (simp_all add: register_maps codec_simps port_status_shape_def)

interpretation port_qlevel: register_map 0 8 port_status_qlevel port_status_shape
  by unfold_locales (simp_all add: register_maps codec_simps port_status_shape_def)

lemma general_status_works:
  assumes "is_switch k mem" "sp_dry_run s = 0"
  shows "\<exists>st es. run_state (sja1105_general_status_get k s st0) h = ((0, st), h @ es) \<and> sent_writes es = [] \<and>
    shows_registers (registers_after mem h) 0
      (general_status_common @ (if IS_ET (sp_device_id s) then general_status_et else general_status_pqrs)) st"
proof -
  define m where "m = registers_after mem h"
  define n :: nat where "n = (if IS_ET (sp_device_id s) then 0x0C else 0x0D)"
  define regs where "regs = general_status_common @ (if IS_ET (sp_device_id s) then general_status_et else general_status_pqrs)"
  have map: "register_map 1 n regs (\<lambda>_. True)"
    using general_et.register_map_axioms general_pqrs.register_map_axioms by (simp add: regs_def n_def)
  define st where "st = unpack_registers 1 regs (load m 1 n) general_status_zero"
  have "n < 64" by (simp add: n_def)
  then obtain es where es: "run_state (sja1105_spi_send_packed_buf k s SPI_READ (CORE_ADDR + 0x01) (replicate (n * 4) 0) (n * 4)) h =
      ((0, load m 1 n), h @ es)" "sent_writes es = []"
    using read_works [OF assms, of n "replicate (n * 4) 0" "CORE_ADDR + 0x01" h] by (auto simp: m_def mult.commute)
  have size: "(if IS_ET (sp_device_id s) then 0x0C * 4 else 0x0D * 4) = n * 4" by (simp add: n_def)
  have "run_state (sja1105_general_status_get k s st0) h = ((0, st), h @ es)"
    using es(1) unfolding sja1105_general_status_get_def size Let_def
    by (simp add: sja1105_general_status_unpack_def regs_def st_def)
  moreover have "shows_registers m 0 regs st"
    using register_map.unpack_shows [OF map, where mem = m and e = general_status_zero and a = 1 and t = "[]"]
      registers_length [OF assms(1)] by (simp add: st_def m_def)
  ultimately show ?thesis using es(2) by (auto simp: m_def regs_def)
qed

section \<open>Properties\<close>

text \<open>
  On a switch the general status is read in one message that changes no register, and every member is
  its field of its register, from the registers 1 to 12, or to 13 on P/Q/R/S.
\<close>

theorem general_status_get_fields:
  assumes "is_switch k mem" "sp_dry_run s = 0"
  shows "\<exists>st es. run_state (sja1105_general_status_get k s st0) h = ((0, st), h @ es) \<and> sent_writes es = [] \<and>
    shows_registers (registers_after mem h) 0
      (general_status_common @ (if IS_ET (sp_device_id s) then general_status_et else general_status_pqrs)) st"
  by (rule general_status_works [OF assms])

theorem general_status_get_fields_witness:
  "\<exists>st es. run_state (sja1105_general_status_get (switch_kernel (\<lambda>_. [0xA0, 0, 0, 5])) example_setup general_status_zero) [] =
     ((0, st), es) \<and> gs_configs st = 1 \<and> gs_crcchkl st = 0 \<and> gs_ids st = 1 \<and> gs_nslot st = 5"
proof -
  obtain st es where "run_state (sja1105_general_status_get (switch_kernel (\<lambda>_. [0xA0, 0, 0, 5])) example_setup general_status_zero) [] =
     ((0, st), es)" and st: "shows_registers (registers_after (\<lambda>_. [0xA0, 0, 0, 5]) []) 0
      (general_status_common @ (if IS_ET (sp_device_id example_setup) then general_status_et else general_status_pqrs)) st"
    using general_status_get_fields [OF switch_kernel_is_switch, of "\<lambda>_. [0xA0, 0, 0, 5]" example_setup general_status_zero "[]"]
    by (auto simp: example_setup_def)
  moreover have "wire_word [0xA0, 0, 0, 5] = 0xA0000005" by (simp add: wire_word_def be32_def)
  then have "gs_configs st = 1 \<and> gs_crcchkl st = 0 \<and> gs_ids st = 1 \<and> gs_nslot st = 5"
    using st by (simp add: shows_registers_def registers_after_def general_status_common_def fld_def reg_field_def width_def)
  ultimately show ?thesis by blast
qed

section \<open>The areas of a port\<close>

text \<open>The members of the first high-level area but those that are halves of a 64-bit counter.\<close>

definition plain_hl1 :: "(nat \<times> port_status fld) list" where
  "plain_hl1 = filter (\<lambda>(r, f). r \<notin> {0, 2, 4, 6}) port_status_hl1"

definition wide_hl1 :: "(nat \<times> (port_status \<Rightarrow> u64)) list" where
  "wide_hl1 = [(0, ps_n_txbyte), (2, ps_n_txfrm), (4, ps_n_rxbyte), (6, ps_n_rxfrm)]"

lemma all_separate_append:
  "all_separate (xs @ ys) \<longleftrightarrow> all_separate xs \<and> all_separate ys \<and> list_all (\<lambda>f. list_all (separate f) ys) xs"
  by (induction xs) auto

lemma port_members_separate:
  "all_separate (map snd (port_status_mac @ port_status_hl1 @ port_status_hl2 @ port_status_qlevel))"
  by (simp add: register_maps codec_simps)

lemma port_areas_separate:
  "list_all (\<lambda>f. list_all (separate f) (map snd rs')) (map snd rs)"
  if "(rs, rs') \<in> {(port_status_mac, port_status_hl1), (port_status_mac, port_status_hl2), (port_status_mac, port_status_qlevel),
    (port_status_hl1, port_status_hl2), (port_status_hl1, port_status_qlevel), (plain_hl1, port_status_hl2),
    (plain_hl1, port_status_qlevel), (port_status_hl2, port_status_qlevel)}"
proof -
  have "\<forall>p \<in> set port_status_mac. \<forall>q \<in> set (port_status_hl1 @ port_status_hl2 @ port_status_qlevel). separate (snd p) (snd q)"
    "\<forall>p \<in> set port_status_hl1. \<forall>q \<in> set (port_status_hl2 @ port_status_qlevel). separate (snd p) (snd q)"
    "\<forall>p \<in> set port_status_hl2. \<forall>q \<in> set port_status_qlevel. separate (snd p) (snd q)"
    using port_members_separate unfolding map_append all_separate_append by (simp_all add: list_all_iff ball_Un)
  moreover from this(2) have "\<forall>p \<in> set plain_hl1. \<forall>q \<in> set (port_status_hl2 @ port_status_qlevel). separate (snd p) (snd q)"
    by (simp add: plain_hl1_def)
  ultimately have "\<forall>p \<in> set rs. \<forall>q \<in> set rs'. separate (snd p) (snd q)"
    using that by (elim insertE; (elim emptyE)?) simp_all
  then show ?thesis by (simp add: list_all_iff)
qed

lemma unat_wide:
  fixes v w :: u64
  assumes "v < 2 ^ 32" "w < 2 ^ 32"
  shows "unat (v + push_bit 32 w) = unat v + 2 ^ 32 * unat w"
proof -
  have b: "unat v < 2 ^ 32" "unat w < 2 ^ 32" using assms by (simp_all add: word_less_nat_alt)
  then have p: "unat (push_bit 32 w) = 2 ^ 32 * unat w"
    by (simp add: push_bit_eq_mult unat_mult_lem [THEN iffD1] mult.commute)
  have "unat v + unat (push_bit 32 w) < 2 ^ 64" using b unfolding p by simp
  then show ?thesis using p by (simp add: unat_add_lem [THEN iffD1])
qed

lemma wire_word_less: "length b = 4 \<Longrightarrow> wire_word b < 2 ^ 32"
proof -
  assume "length b = 4"
  then have "take_bit 32 (wire_word b) = wire_word b"
    by (intro bit_eqI) (auto simp: bit_take_bit_iff bit_wire_word)
  then have "unat (wire_word b) mod 2 ^ 32 = unat (wire_word b)"
    by (metis take_bit_eq_mod unsigned_take_bit_eq)
  then have "unat (wire_word b) < 2 ^ 32" by (metis mod_less_divisor zero_less_numeral zero_less_power)
  then show ?thesis by (simp add: word_less_nat_alt)
qed

lemma reg_field_word: "length b = 4 \<Longrightarrow> width f = 32 \<Longrightarrow> lo f = 0 \<Longrightarrow> reg_field b f = wire_word b"
  by (rule bit_eqI) (auto simp: reg_field_def bit_take_bit_iff bit_wire_word)

lemma shows_wide_members:
  "shows_registers mem a port_status_hl1 st \<Longrightarrow> shows_registers mem a plain_hl1 st"
  by (auto simp: shows_registers_def plain_hl1_def list_all_iff)

text \<open>The sums of the halves do not touch the members of other areas.\<close>

lemma shows_sums [simp]:
  "shows_registers mem a rs (st\<lparr>ps_n_rxfrm := v1, ps_n_rxbyte := v2, ps_n_txfrm := v3, ps_n_txbyte := v4\<rparr>) =
     shows_registers mem a rs st"
  if "rs = port_status_mac \<or> rs = port_status_hl2 \<or> rs = port_status_qlevel \<or> rs = plain_hl1"
  using that by (elim disjE; simp add: shows_registers_def register_maps plain_hl1_def codec_simps)

lemma hl1_shows:
  fixes a :: nat and t :: "u8 list"
  assumes "\<forall>x. length (mem x) = 4" "port_status_shape st"
  defines "st' \<equiv> sja1105_port_status_hl1_unpack (load mem a 16 @ t) st"
  shows "shows_registers mem a plain_hl1 st'" "port_status_shape st'"
    "\<forall>(r, g) \<in> set wide_hl1. unat (g st') = unat (wire_word (mem (a + r))) + 2 ^ 32 * unat (wire_word (mem (a + (r + 1))))"
    "rs = port_status_mac \<or> rs = port_status_hl2 \<or> rs = port_status_qlevel \<Longrightarrow>
     list_all (\<lambda>f. list_all (separate f) (map snd port_status_hl1)) (map snd rs) \<Longrightarrow>
     shows_registers mem b rs st \<Longrightarrow> shows_registers mem b rs st'"
proof -
  let ?u = "unpack_registers 0 port_status_hl1 (load mem a 16 @ t) st"
  have st': "st' = ?u\<lparr>ps_n_rxfrm := ps_n_rxfrm ?u + push_bit 32 (ps_n_rxfrmsh ?u),
      ps_n_rxbyte := ps_n_rxbyte ?u + push_bit 32 (ps_n_rxbytesh ?u),
      ps_n_txfrm := ps_n_txfrm ?u + push_bit 32 (ps_n_txfrmsh ?u),
      ps_n_txbyte := ps_n_txbyte ?u + push_bit 32 (ps_n_txbytesh ?u)\<rparr>"
    by (simp add: st'_def sja1105_port_status_hl1_unpack_def Let_def)
  have u: "shows_registers mem a port_status_hl1 ?u"
    using port_hl1.unpack_shows [OF assms(1,2), of a t] by simp
  then show "shows_registers mem a plain_hl1 st'" by (simp add: st' shows_wide_members)
  show "port_status_shape st'" using port_hl1.shape_unpack [OF assms(2)] by (simp add: st' port_status_shape_def)
  have halves: "ps_n_txbyte ?u = wire_word (mem (a + 0))" "ps_n_txbytesh ?u = wire_word (mem (a + 1))"
    "ps_n_txfrm ?u = wire_word (mem (a + 2))" "ps_n_txfrmsh ?u = wire_word (mem (a + 3))"
    "ps_n_rxbyte ?u = wire_word (mem (a + 4))" "ps_n_rxbytesh ?u = wire_word (mem (a + 5))"
    "ps_n_rxfrm ?u = wire_word (mem (a + 6))" "ps_n_rxfrmsh ?u = wire_word (mem (a + 7))"
    using u assms(1) by (simp_all add: shows_registers_def port_status_hl1_def fld_def reg_field_word width_def)
  show "\<forall>(r, g) \<in> set wide_hl1. unat (g st') = unat (wire_word (mem (a + r))) + 2 ^ 32 * unat (wire_word (mem (a + (r + 1))))"
    using unat_wide [OF wire_word_less wire_word_less, OF assms(1) [rule_format] assms(1) [rule_format]]
    by (simp add: wide_hl1_def st' halves numeral_3_eq_3 add.commute [of 5 a] add.commute [of 7 a])
  show "shows_registers mem b rs st'" if "rs = port_status_mac \<or> rs = port_status_hl2 \<or> rs = port_status_qlevel"
    "list_all (\<lambda>f. list_all (separate f) (map snd port_status_hl1)) (map snd rs)" "shows_registers mem b rs st"
    using shows_unpack_other [OF that(2) port_hl1.fields_ok that(3)] shows_sums [of rs] that(1)
    unfolding st' by blast
qed

text \<open>The addresses of the areas of a port.\<close>

lemma port_addresses:
  assumes "port < 5"
  shows "unat (take_bit 21 (CORE_ADDR + mac_base_addr ! port)) = 0x200 + 2 * port"
    "unat (take_bit 21 (CORE_ADDR + high_level_1_base_addr ! port)) = 0x400 + 16 * port"
    "unat (take_bit 21 (CORE_ADDR + high_level_2_base_addr ! port)) = 0x600 + 16 * port"
    "unat (take_bit 21 (CORE_ADDR + qlevel_base_addr ! port)) = 0x604 + 16 * port"
proof -
  have "port = 0 \<or> port = 1 \<or> port = 2 \<or> port = 3 \<or> port = 4" using assms by linarith
  then show "unat (take_bit 21 (CORE_ADDR + mac_base_addr ! port)) = 0x200 + 2 * port"
    "unat (take_bit 21 (CORE_ADDR + high_level_1_base_addr ! port)) = 0x400 + 16 * port"
    "unat (take_bit 21 (CORE_ADDR + high_level_2_base_addr ! port)) = 0x600 + 16 * port"
    "unat (take_bit 21 (CORE_ADDR + qlevel_base_addr ! port)) = 0x604 + 16 * port"
    by (auto simp: mac_base_addr_def high_level_1_base_addr_def high_level_2_base_addr_def qlevel_base_addr_def)
qed

lemma wide_other:
  assumes "rs = port_status_hl2 \<or> rs = port_status_qlevel" "(r, g) \<in> set wide_hl1"
  shows "g (unpack_registers base rs b e) = g e"
proof -
  have ok: "list_all (\<lambda>(r, f). field_ok 4 f) rs" using assms(1) port_hl2.fields_ok port_qlevel.fields_ok by auto
  have "list_all (\<lambda>f. list_all (separate f) (map snd rs)) (map snd port_status_hl1)"
    using port_areas_separate assms(1) by blast
  then have "list_all (\<lambda>(r, f). fval (unpack_registers base rs b e) f = fval e f) port_status_hl1"
    using unpack_registers_other [OF _ ok] by (fastforce simp: list_all_iff)
  then show ?thesis using assms(2) by (auto simp: wide_hl1_def port_status_hl1_def fld_def)
qed

text \<open>One of the reads, when the registers are known.\<close>

lemma read_area_at:
  assumes "is_switch k mem" "sp_dry_run s = 0" "registers_after mem h = m" "unat (take_bit 21 a) = x"
    "n < 64" "4 * n = len"
  shows "\<exists>c es. run_state (sja1105_spi_send_packed_buf k s SPI_READ a b len) h = ((0, load m x n @ c), h @ es) \<and>
    sent_writes es = [] \<and> registers_after mem (h @ es) = m"
  using read_area_works [OF assms(1,2,5), of a b h] assms(3,4) unfolding assms(6) by (auto simp: registers_after_quiet)

text \<open>The messages that read the status of a port.\<close>

lemma port_status_reads:
  assumes "is_switch k mem" "sp_dry_run s = 0" "port < 5" "registers_after mem h = m"
  obtains b1 b2 b3 b4 es1 es2 es3 es4 where
    "run_state (sja1105_spi_send_packed_buf k s SPI_READ (CORE_ADDR + mac_base_addr ! port)
       (replicate (0x10 * 4) 0) (0x02 * 4)) h = ((0, load m (0x200 + 2 * port) 2 @ b1), h @ es1)"
    "run_state (sja1105_spi_send_packed_buf k s SPI_READ (CORE_ADDR + high_level_1_base_addr ! port)
       (load m (0x200 + 2 * port) 2 @ b1) (0x10 * 4)) (h @ es1) = ((0, load m (0x400 + 16 * port) 16 @ b2), (h @ es1) @ es2)"
    "run_state (sja1105_spi_send_packed_buf k s SPI_READ (CORE_ADDR + high_level_2_base_addr ! port)
       (load m (0x400 + 16 * port) 16 @ b2) (0x10 * 4)) ((h @ es1) @ es2) =
         ((0, load m (0x600 + 16 * port) 16 @ b3), ((h @ es1) @ es2) @ es3)"
    "run_state (sja1105_spi_send_packed_buf k s SPI_READ (CORE_ADDR + qlevel_base_addr ! port)
       (load m (0x600 + 16 * port) 16 @ b3) (0x8 * 4)) (((h @ es1) @ es2) @ es3) =
         ((0, load m (0x604 + 16 * port) 8 @ b4), (((h @ es1) @ es2) @ es3) @ es4)"
    "sent_writes (es1 @ es2 @ es3 @ es4) = []"
proof -
  note read = read_area_at [OF assms(1,2)] and addr = port_addresses [OF assms(3)]
  obtain b1 es1 where b1: "run_state (sja1105_spi_send_packed_buf k s SPI_READ (CORE_ADDR + mac_base_addr ! port)
      (replicate (0x10 * 4) 0) (0x02 * 4)) h = ((0, load m (0x200 + 2 * port) 2 @ b1), h @ es1)"
      "sent_writes es1 = []" "registers_after mem (h @ es1) = m"
    using read [OF assms(4) addr(1), of 2 8 "replicate (0x10 * 4) 0"] by auto
  obtain b2 es2 where b2: "run_state (sja1105_spi_send_packed_buf k s SPI_READ (CORE_ADDR + high_level_1_base_addr ! port)
      (load m (0x200 + 2 * port) 2 @ b1) (0x10 * 4)) (h @ es1) = ((0, load m (0x400 + 16 * port) 16 @ b2), (h @ es1) @ es2)"
      "sent_writes es2 = []" "registers_after mem ((h @ es1) @ es2) = m"
    using read [OF b1(3) addr(2), of 16 64 "load m (0x200 + 2 * port) 2 @ b1"] by auto
  obtain b3 es3 where b3: "run_state (sja1105_spi_send_packed_buf k s SPI_READ (CORE_ADDR + high_level_2_base_addr ! port)
      (load m (0x400 + 16 * port) 16 @ b2) (0x10 * 4)) ((h @ es1) @ es2) =
        ((0, load m (0x600 + 16 * port) 16 @ b3), ((h @ es1) @ es2) @ es3)"
      "sent_writes es3 = []" "registers_after mem (((h @ es1) @ es2) @ es3) = m"
    using read [OF b2(3) addr(3), of 16 64 "load m (0x400 + 16 * port) 16 @ b2"] by auto
  obtain b4 es4 where b4: "run_state (sja1105_spi_send_packed_buf k s SPI_READ (CORE_ADDR + qlevel_base_addr ! port)
      (load m (0x600 + 16 * port) 16 @ b3) (0x8 * 4)) (((h @ es1) @ es2) @ es3) =
        ((0, load m (0x604 + 16 * port) 8 @ b4), (((h @ es1) @ es2) @ es3) @ es4)" "sent_writes es4 = []"
    using read [OF b3(3) addr(4), of 8 32 "load m (0x600 + 16 * port) 16 @ b3"] by auto
  show thesis by (rule that [OF b1(1) b2(1) b3(1) b4(1)]) (simp add: b1(2) b2(2) b3(2) b4(2))
qed

definition shows_wide :: "registers \<Rightarrow> nat \<Rightarrow> port_status \<Rightarrow> bool" where
  "shows_wide m a st \<longleftrightarrow> (\<forall>(r, g) \<in> set wide_hl1. unat (g st) = unat (wire_word (m (a + r))) +
     2 ^ 32 * unat (wire_word (m (a + (r + 1)))))"

text \<open>The members that a status shows once the first three areas are unpacked, and those that stay when the levels are.\<close>

definition shows_port :: "registers \<Rightarrow> nat \<Rightarrow> port_status \<Rightarrow> bool" where
  "shows_port m port st \<longleftrightarrow>
    shows_registers m (0x200 + 2 * port) port_status_mac st \<and>
    shows_registers m (0x400 + 16 * port) plain_hl1 st \<and>
    shows_wide m (0x400 + 16 * port) st \<and>
    shows_registers m (0x600 + 16 * port) port_status_hl2 st"

lemma wide_same:
  assumes "shows_wide m a st" "\<And>r g. (r, g) \<in> set wide_hl1 \<Longrightarrow> g st' = g st"
  shows "shows_wide m a st'"
  unfolding shows_wide_def
proof clarify
  fix r g assume "(r, g) \<in> set wide_hl1"
  from bspec [OF assms(1) [unfolded shows_wide_def] this] assms(2) [OF this]
  show "unat (g st') = unat (wire_word (m (a + r))) + 2 ^ 32 * unat (wire_word (m (a + (r + 1))))" by simp
qed

lemma port_areas_unpack:
  fixes port :: nat and b1 b2 b3 :: "u8 list"
  assumes m4: "\<forall>x. length (m x) = 4"
  defines "st1 \<equiv> sja1105_port_status_mac_unpack (load m (0x200 + 2 * port) 2 @ b1) port_status_zero"
  defines "st2 \<equiv> sja1105_port_status_hl1_unpack (load m (0x400 + 16 * port) 16 @ b2) st1"
  defines "st3 \<equiv> sja1105_port_status_hl2_unpack (load m (0x600 + 16 * port) 16 @ b3) st2"
  shows "shows_port m port st3 \<and> port_status_shape st3"
proof -
  have z: "port_status_shape port_status_zero" by (simp add: port_status_shape_def port_status_zero_def)
  have s1: "shows_registers m (0x200 + 2 * port) port_status_mac st1" "port_status_shape st1"
    using port_mac.unpack_shows [OF m4 z, of "0x200 + 2 * port" b1] port_mac.shape_unpack [OF z]
    by (simp_all add: st1_def sja1105_port_status_mac_unpack_def)
  note h1 = hl1_shows [OF m4 s1(2), where a = "0x400 + 16 * port" and t = b2, folded st2_def]
  have mac2: "shows_registers m (0x200 + 2 * port) port_status_mac st2"
    using h1(4) [OF _ _ s1(1)] port_areas_separate by blast
  have s3: "shows_registers m (0x600 + 16 * port) port_status_hl2 st3" "port_status_shape st3"
    "shows_registers m (0x200 + 2 * port) port_status_mac st3" "shows_registers m (0x400 + 16 * port) plain_hl1 st3"
    using port_hl2.unpack_shows [OF m4 h1(2), of "0x600 + 16 * port" b3] port_hl2.shape_unpack [OF h1(2)]
      shows_unpack_other [OF port_areas_separate port_hl2.fields_ok] h1(1) mac2
    by (simp_all add: st3_def sja1105_port_status_hl2_unpack_def)
  have "shows_wide m (0x400 + 16 * port) st3"
  proof (rule wide_same)
    show "shows_wide m (0x400 + 16 * port) st2" using h1(3) unfolding shows_wide_def .
    show "g st3 = g st2" if "(r, g) \<in> set wide_hl1" for r g
      using wide_other [OF _ that] by (simp add: st3_def sja1105_port_status_hl2_unpack_def)
  qed
  with s3 show ?thesis by (simp add: shows_port_def)
qed

lemma port_levels_unpack:
  fixes port :: nat and b4 :: "u8 list"
  assumes m4: "\<forall>x. length (m x) = 4" and st3: "shows_port m port st3 \<and> port_status_shape st3"
  defines "st4 \<equiv> sja1105pqrs_port_status_qlevel_unpack (load m (0x604 + 16 * port) 8 @ b4) st3"
  shows "shows_port m port st4 \<and> shows_registers m (0x604 + 16 * port) port_status_qlevel st4"
proof -
  have "shows_registers m (0x604 + 16 * port) port_status_qlevel st4" "shows_registers m (0x600 + 16 * port) port_status_hl2 st4"
    "shows_registers m (0x200 + 2 * port) port_status_mac st4" "shows_registers m (0x400 + 16 * port) plain_hl1 st4"
    using port_qlevel.unpack_shows [OF m4, of st3 "0x604 + 16 * port" b4] st3
      shows_unpack_other [OF port_areas_separate port_qlevel.fields_ok]
    by (simp_all add: st4_def sja1105pqrs_port_status_qlevel_unpack_def shows_port_def)
  moreover have "shows_wide m (0x400 + 16 * port) st4"
  proof (rule wide_same)
    show "shows_wide m (0x400 + 16 * port) st3" using st3 by (simp add: shows_port_def)
    show "g st4 = g st3" if "(r, g) \<in> set wide_hl1" for r g
      using wide_other [OF _ that] by (simp add: st4_def sja1105pqrs_port_status_qlevel_unpack_def)
  qed
  ultimately show ?thesis by (simp add: shows_port_def)
qed

text \<open>
  C33: on a switch the status of a port is read in three messages (four on P/Q/R/S) that change no register;
  every member is its field of its register, and the byte and frame counters are the 64-bit numbers that two
  registers form, without overflow.
\<close>

theorem port_status_get_fields:
  fixes h :: history
  assumes "is_switch k mem" "sp_dry_run s = 0" "port < 5"
  defines "m \<equiv> registers_after mem h"
  shows "\<exists>st es. run_state (sja1105_port_status_get k s port) h = ((0, st), h @ es) \<and> sent_writes es = [] \<and>
    shows_registers m (0x200 + 2 * port) port_status_mac st \<and>
    shows_registers m (0x400 + 16 * port) plain_hl1 st \<and>
    (\<forall>(r, g) \<in> set wide_hl1. unat (g st) = unat (wire_word (m (0x400 + 16 * port + r))) +
       2 ^ 32 * unat (wire_word (m (0x400 + 16 * port + (r + 1))))) \<and>
    shows_registers m (0x600 + 16 * port) port_status_hl2 st \<and>
    (\<not> IS_ET (sp_device_id s) \<longrightarrow> shows_registers m (0x604 + 16 * port) port_status_qlevel st)"
proof -
  have m4: "\<forall>x. length (m x) = 4" using registers_length [OF assms(1)] by (simp add: m_def)
  have m: "registers_after mem h = m" by (simp add: m_def)
  obtain b1 b2 b3 b4 es1 es2 es3 es4 where reads:
    "run_state (sja1105_spi_send_packed_buf k s SPI_READ (CORE_ADDR + mac_base_addr ! port)
       (replicate (0x10 * 4) 0) (0x02 * 4)) h = ((0, load m (0x200 + 2 * port) 2 @ b1), h @ es1)"
    "run_state (sja1105_spi_send_packed_buf k s SPI_READ (CORE_ADDR + high_level_1_base_addr ! port)
       (load m (0x200 + 2 * port) 2 @ b1) (0x10 * 4)) (h @ es1) = ((0, load m (0x400 + 16 * port) 16 @ b2), (h @ es1) @ es2)"
    "run_state (sja1105_spi_send_packed_buf k s SPI_READ (CORE_ADDR + high_level_2_base_addr ! port)
       (load m (0x400 + 16 * port) 16 @ b2) (0x10 * 4)) ((h @ es1) @ es2) =
         ((0, load m (0x600 + 16 * port) 16 @ b3), ((h @ es1) @ es2) @ es3)"
    "run_state (sja1105_spi_send_packed_buf k s SPI_READ (CORE_ADDR + qlevel_base_addr ! port)
       (load m (0x600 + 16 * port) 16 @ b3) (0x8 * 4)) (((h @ es1) @ es2) @ es3) =
         ((0, load m (0x604 + 16 * port) 8 @ b4), (((h @ es1) @ es2) @ es3) @ es4)"
    and quiet: "sent_writes (es1 @ es2 @ es3 @ es4) = []"
    by (rule port_status_reads [OF assms(1-3) m])
  define st3 where "st3 = sja1105_port_status_hl2_unpack (load m (0x600 + 16 * port) 16 @ b3)
    (sja1105_port_status_hl1_unpack (load m (0x400 + 16 * port) 16 @ b2)
      (sja1105_port_status_mac_unpack (load m (0x200 + 2 * port) 2 @ b1) port_status_zero))"
  define st4 where "st4 = sja1105pqrs_port_status_qlevel_unpack (load m (0x604 + 16 * port) 8 @ b4) st3"
  define st where "st = (if IS_ET (sp_device_id s) then st3 else st4)"
  define es where "es = es1 @ es2 @ es3 @ (if IS_ET (sp_device_id s) then [] else es4)"
  note s3 = port_areas_unpack [OF m4, where port = port and ?b1.0 = b1 and ?b2.0 = b2 and ?b3.0 = b3, folded st3_def]
  note s4 = port_levels_unpack [OF m4 s3, where ?b4.0 = b4, folded st4_def]
  have "run_state (sja1105_port_status_get k s port) h = ((0, st), h @ es)"
    using reads by (simp add: sja1105_port_status_get_def Let_def st_def es_def st4_def st3_def)
  moreover have "sent_writes es = []" using quiet by (simp add: es_def)
  ultimately show ?thesis using s3 s4 by (auto simp: st_def shows_port_def shows_wide_def)
qed

definition counting_registers :: registers where
  "counting_registers = (\<lambda>x. if x = 0x416 then [0, 0, 0, 5] else if x = 0x417 then [0, 0, 1, 0] else if x = 0x202
     then [1, 2, 3, 4] else [0, 0, 0, 0])"

theorem port_status_get_fields_witness:
  "\<exists>st h'. run_state (sja1105_port_status_get (switch_kernel counting_registers) example_setup 1) [] = ((0, st), h') \<and>
     unat (ps_n_rxfrm st) = 0x10000000005 \<and> ps_n_alignerr st = 3"
proof -
  have "is_switch (switch_kernel counting_registers) counting_registers"
    by (rule switch_kernel_is_switch) (simp add: counting_registers_def)
  then obtain st h' where "run_state (sja1105_port_status_get (switch_kernel counting_registers) example_setup 1) [] = ((0, st), h')"
    and st: "shows_registers counting_registers 0x202 port_status_mac st"
    "\<forall>(r, g) \<in> set wide_hl1. unat (g st) = unat (wire_word (counting_registers (0x410 + r))) +
       2 ^ 32 * unat (wire_word (counting_registers (0x410 + (r + 1))))"
    using port_status_get_fields [of "switch_kernel counting_registers" counting_registers example_setup 1 "[]"]
    by (auto simp: example_setup_def registers_after_def)
  moreover have "wire_word [1, 2, 3, 4] = 0x01020304" "wire_word [0, 0, 0, 5] = 5" "wire_word [0, 0, 1, 0] = 0x100"
    by (simp_all add: wire_word_def be32_def)
  then have "ps_n_alignerr st = 3 \<and> unat (ps_n_rxfrm st) = 0x10000000005"
    using st by (simp add: shows_registers_def port_status_mac_def fld_def reg_field_def width_def counting_registers_def wide_hl1_def)
  ultimately show ?thesis by blast
qed

text \<open>
  Clearing the counters of a port, or of all ports, succeeds on a switch without writing any register:
  the command word goes into a read message, which carries no data.
\<close>

theorem port_status_clear_writes_nothing:
  assumes "is_switch k mem" "sp_dry_run s = 0" "port < 5"
  shows "\<exists>es. run_state (sja1105_port_status_clear k s port) h = (0, h @ es) \<and>
    registers_after mem (h @ es) = registers_after mem h"
proof -
  have "\<exists>es. run_state (do { (rc, buf) \<leftarrow> sja1105_spi_send_packed_buf k s SPI_READ a b 4; io_return rc }) h = (0, h @ es) \<and>
      registers_after mem (h @ es) = registers_after mem h" for a b
  proof -
    obtain es where "run_state (sja1105_spi_send_packed_buf k s SPI_READ a b 4) h =
        ((0, load (registers_after mem h) (unat (take_bit 21 a)) 1 @ drop 4 b), h @ es)" "sent_writes es = []"
      using read_area_works [OF assms(1,2), of 1 a b h] by auto
    then show ?thesis by (auto simp: registers_after_quiet)
  qed
  then show ?thesis using assms(3) by (simp add: sja1105_port_status_clear_def Let_def)
qed

theorem port_status_clear_writes_nothing_witness:
  "\<exists>h'. run_state (sja1105_port_status_clear (switch_kernel counting_registers) example_setup 1) [] = (0, h') \<and>
     registers_after counting_registers h' = counting_registers"
  using port_status_clear_writes_nothing [OF switch_kernel_is_switch, of counting_registers example_setup 1 "[]"]
  by (auto simp: counting_registers_def example_setup_def registers_after_def)

text \<open>There are no ports above 4: clearing one is refused with -EINVAL, and nothing is sent.\<close>

theorem port_status_clear_refuses:
  "run_state (sja1105_port_status_clear k s (5 + int n)) h = (- EINVAL, h)"
  by (simp add: sja1105_port_status_clear_def)

end
