(* ===== verification/Dynamic_Config.thy ===== *)
theory Dynamic_Config
  imports Registers
begin

unbundle bit_operations_syntax

text \<open>
  Changing the L2 lookup table of a running switch (\<^verbatim>\<open>lib/dynamic-config/l2-lookup.c\<close>): the command for
  an entry or for a management route, and the setting and reading of management routes.
\<close>

section \<open>The command\<close>

record mgmt_entry =
  mgmt_ts_regid :: u64
  mgmt_egr_ts :: u64
  mgmt_macaddr :: u64
  mgmt_destports :: u64
  mgmt_enfport :: u64
  mgmt_index :: u64

text \<open>
  The entry in a command is a union of an L2 lookup entry of fourteen members and a management route of six:
  it is modelled as the fourteen words of memory that they share. A management route occupies the words 0 to
  5; the members of an L2 lookup entry that the command has are the words 9 to 13.
\<close>

record dyn_l2_lookup_cmd =
  dyn_valid :: u64
  dyn_rdwrset :: u64
  dyn_errors :: u64
  dyn_lockeds :: u64
  dyn_valident :: u64
  dyn_mgmtroute :: u64
  dyn_entry :: "u64 list"

definition dyn_l2_lookup_cmd_zero :: dyn_l2_lookup_cmd where [table_zeros]:
  "dyn_l2_lookup_cmd_zero =
    \<lparr>dyn_valid = 0, dyn_rdwrset = 0, dyn_errors = 0, dyn_lockeds = 0, dyn_valident = 0, dyn_mgmtroute = 0,
     dyn_entry = replicate 14 0\<rparr>"

definition mgmt_of_words :: "u64 list \<Rightarrow> mgmt_entry" where
  "mgmt_of_words ws = \<lparr>mgmt_ts_regid = ws ! 0, mgmt_egr_ts = ws ! 1, mgmt_macaddr = ws ! 2, mgmt_destports = ws ! 3,
     mgmt_enfport = ws ! 4, mgmt_index = ws ! 5\<rparr>"

definition words_of_mgmt :: "mgmt_entry \<Rightarrow> u64 list" where
  "words_of_mgmt e = [mgmt_ts_regid e, mgmt_egr_ts e, mgmt_macaddr e, mgmt_destports e, mgmt_enfport e, mgmt_index e]"

text \<open>The word behind the entry.\<close>

definition dyn_cmd_layout :: "dyn_l2_lookup_cmd fld list" where [table_layouts]:
  "dyn_cmd_layout =
    [fld dyn_valid dyn_valid_update 31 31,
     fld dyn_rdwrset dyn_rdwrset_update 30 30,
     fld dyn_errors dyn_errors_update 29 29,
     fld dyn_lockeds dyn_lockeds_update 28 28,
     fld dyn_valident dyn_valident_update 27 27,
     fld dyn_mgmtroute dyn_mgmtroute_update 26 26]"

definition dyn_mgmt_layout :: "dyn_l2_lookup_cmd fld list" where [table_layouts]:
  "dyn_mgmt_layout =
    [afld dyn_entry dyn_entry_update 0 85 85,
     afld dyn_entry dyn_entry_update 1 84 84,
     afld dyn_entry dyn_entry_update 2 83 36,
     afld dyn_entry dyn_entry_update 3 35 31,
     afld dyn_entry dyn_entry_update 4 30 30,
     afld dyn_entry dyn_entry_update 5 29 20]"

definition dyn_l2_layout :: "dyn_l2_lookup_cmd fld list" where [table_layouts]:
  "dyn_l2_layout =
    [afld dyn_entry dyn_entry_update 9 95 84,
     afld dyn_entry dyn_entry_update 10 83 36,
     afld dyn_entry dyn_entry_update 11 35 31,
     afld dyn_entry dyn_entry_update 12 30 30,
     afld dyn_entry dyn_entry_update 13 29 20]"

definition sja1105_dyn_l2_lookup_cmd_access ::
    "bool \<Rightarrow> u8 list \<Rightarrow> dyn_l2_lookup_cmd \<Rightarrow> u8 list \<times> dyn_l2_lookup_cmd" where
  "sja1105_dyn_l2_lookup_cmd_access write buf cmd =
     (case access_init write (4 + SIZE_L2_LOOKUP_ENTRY_ET) dyn_l2_lookup_cmd_zero (buf, cmd) of (buf0, cmd0) \<Rightarrow>
      case access_fields write 4 dyn_cmd_layout (drop SIZE_L2_LOOKUP_ENTRY_ET buf0, cmd0) of (cmd_buf, cmd1) \<Rightarrow>
        access_fields write SIZE_L2_LOOKUP_ENTRY_ET
          (if dyn_mgmtroute cmd1 \<noteq> 0 then dyn_mgmt_layout else dyn_l2_layout)
          (take SIZE_L2_LOOKUP_ENTRY_ET buf0 @ cmd_buf, cmd1))"

definition sja1105_dyn_l2_lookup_cmd_pack :: "u8 list \<Rightarrow> dyn_l2_lookup_cmd \<Rightarrow> u8 list \<times> dyn_l2_lookup_cmd" where
  "sja1105_dyn_l2_lookup_cmd_pack buf cmd = sja1105_dyn_l2_lookup_cmd_access True buf cmd"

definition sja1105_dyn_l2_lookup_cmd_unpack :: "u8 list \<Rightarrow> dyn_l2_lookup_cmd \<Rightarrow> dyn_l2_lookup_cmd" where
  "sja1105_dyn_l2_lookup_cmd_unpack buf cmd = snd (sja1105_dyn_l2_lookup_cmd_access False buf cmd)"

section \<open>Management routes\<close>

definition sja1105_mgmt_route_commit ::
    "kernel \<Rightarrow> sja1105_spi_setup \<Rightarrow> mgmt_entry \<Rightarrow> int \<Rightarrow> int \<Rightarrow> (int \<times> mgmt_entry) io" where
  "sja1105_mgmt_route_commit k spi_setup entry read_or_write index =
     (let ENTRY_ADDR = 0x20; BUF_LEN = 4 + SIZE_L2_LOOKUP_ENTRY_ET;
          cmd0 = dyn_l2_lookup_cmd_zero\<lparr>dyn_valid := 1, dyn_rdwrset := of_bool (read_or_write = SPI_WRITE),
            dyn_valident := 1, dyn_mgmtroute := 1\<rparr>;
          cmd1 = (if read_or_write = SPI_WRITE
                  then cmd0\<lparr>dyn_entry := words_of_mgmt entry @ drop 6 (dyn_entry cmd0)\<rparr> else cmd0);
          cmd2 = cmd1\<lparr>dyn_entry := (dyn_entry cmd1)[5 := of_int index, 4 := 1]\<rparr>;
          (packed_buf, cmd) = sja1105_dyn_l2_lookup_cmd_pack (replicate BUF_LEN 0) cmd2
      in do {
        (rc, buf) \<leftarrow> sja1105_spi_send_packed_buf k spi_setup SPI_WRITE ENTRY_ADDR packed_buf BUF_LEN;
        if rc < 0 then io_return (rc, entry)
        else if read_or_write = SPI_READ then do {
          (rc, buf) \<leftarrow> sja1105_spi_send_packed_buf k spi_setup SPI_READ ENTRY_ADDR (memset0 BUF_LEN buf) BUF_LEN;
          if rc < 0 then io_return (rc, entry)
          else io_return (rc, mgmt_of_words (dyn_entry (sja1105_dyn_l2_lookup_cmd_unpack buf cmd)))
        }
        else io_return (rc, entry)
      })"

definition sja1105_mgmt_route_get :: "kernel \<Rightarrow> sja1105_spi_setup \<Rightarrow> mgmt_entry \<Rightarrow> int \<Rightarrow> (int \<times> mgmt_entry) io" where
  "sja1105_mgmt_route_get k spi_setup entry index = sja1105_mgmt_route_commit k spi_setup entry SPI_READ index"

definition sja1105_mgmt_route_set :: "kernel \<Rightarrow> sja1105_spi_setup \<Rightarrow> mgmt_entry \<Rightarrow> int \<Rightarrow> (int \<times> mgmt_entry) io" where
  "sja1105_mgmt_route_set k spi_setup entry index = sja1105_mgmt_route_commit k spi_setup entry SPI_WRITE index"

section \<open>Packing\<close>

definition dyn_cmd_shape :: "dyn_l2_lookup_cmd \<Rightarrow> bool" where
  "dyn_cmd_shape c \<longleftrightarrow> dyn_entry c = replicate 14 0"

text \<open>The six words are zero outside the entry, and the words of the entry are those of the variant.\<close>

definition cmd_word_zero :: "dyn_l2_lookup_cmd \<Rightarrow> bool" where
  "cmd_word_zero c \<longleftrightarrow> dyn_valid c = 0 \<and> dyn_rdwrset c = 0 \<and> dyn_errors c = 0 \<and> dyn_lockeds c = 0 \<and>
     dyn_valident c = 0 \<and> dyn_mgmtroute c = 0"

definition mgmt_words :: "u64 list \<Rightarrow> bool" where
  "mgmt_words ws \<longleftrightarrow> (\<exists>a b c d e f. ws = [a, b, c, d, e, f, 0, 0, 0, 0, 0, 0, 0, 0])"

definition l2_words :: "u64 list \<Rightarrow> bool" where
  "l2_words ws \<longleftrightarrow> (\<exists>a b c d e. ws = [0, 0, 0, 0, 0, 0, 0, 0, 0, a, b, c, d, e])"

definition dyn_mgmt_shape :: "dyn_l2_lookup_cmd \<Rightarrow> bool" where
  "dyn_mgmt_shape c \<longleftrightarrow> cmd_word_zero c \<and> mgmt_words (dyn_entry c)"

definition dyn_l2_shape :: "dyn_l2_lookup_cmd \<Rightarrow> bool" where
  "dyn_l2_shape c \<longleftrightarrow> cmd_word_zero c \<and> l2_words (dyn_entry c)"

lemma zero_words: "dyn_l2_lookup_cmd_zero =
    \<lparr>dyn_valid = 0, dyn_rdwrset = 0, dyn_errors = 0, dyn_lockeds = 0, dyn_valident = 0, dyn_mgmtroute = 0,
     dyn_entry = [0, 0, 0, 0, 0, 0, 0, 0, 0, 0, 0, 0, 0, 0]\<rparr>"
  by (simp add: dyn_l2_lookup_cmd_zero_def numeral_eq_Suc)

interpretation dyn_cmd: table_codec dyn_cmd_layout 4 dyn_l2_lookup_cmd_zero dyn_cmd_shape
  by unfold_locales (auto simp: dyn_cmd_layout_def dyn_cmd_shape_def dyn_l2_lookup_cmd_zero_def codec_simps)

interpretation dyn_mgmt: table_codec dyn_mgmt_layout SIZE_L2_LOOKUP_ENTRY_ET dyn_l2_lookup_cmd_zero dyn_mgmt_shape
  by unfold_locales
    (auto simp: dyn_mgmt_layout_def dyn_mgmt_shape_def cmd_word_zero_def mgmt_words_def zero_words codec_simps)

interpretation dyn_l2: table_codec dyn_l2_layout SIZE_L2_LOOKUP_ENTRY_ET dyn_l2_lookup_cmd_zero dyn_l2_shape
  by unfold_locales
    (auto simp: dyn_l2_layout_def dyn_l2_shape_def cmd_word_zero_def l2_words_def zero_words codec_simps)

text \<open>A command whose members fit their fields, with the words of its variant of the entry only.\<close>

definition dyn_ok :: "dyn_l2_lookup_cmd \<Rightarrow> bool" where
  "dyn_ok c \<longleftrightarrow> fits dyn_cmd_layout c \<and>
     (if dyn_mgmtroute c \<noteq> 0 then mgmt_words (dyn_entry c) \<and> fits dyn_mgmt_layout c
      else l2_words (dyn_entry c) \<and> fits dyn_l2_layout c)"

definition dyn_entry_bytes :: "dyn_l2_lookup_cmd \<Rightarrow> u8 list" where
  "dyn_entry_bytes c = (if dyn_mgmtroute c \<noteq> 0 then dyn_mgmt.bytes c else dyn_l2.bytes c)"

lemma length_dyn_entry_bytes: "length (dyn_entry_bytes c) = 12"
  by (simp add: dyn_entry_bytes_def dyn_mgmt.length_bytes dyn_l2.length_bytes)

lemma access_fields_pack:
  "access_fields True sz fs (memset0 sz buf, e) = table_access fs sz z True buf e"
  by (simp add: table_access_def access_init_def)

lemma truncate_cmd: "fits dyn_cmd_layout c \<Longrightarrow> truncate_fields dyn_cmd_layout c = c"
  by (simp add: fits_def truncate_fields_def dyn_cmd_layout_def fld_def)

lemma truncate_mgmt: "fits dyn_mgmt_layout c \<Longrightarrow> truncate_fields dyn_mgmt_layout c = c"
  by (simp add: fits_def truncate_fields_def dyn_mgmt_layout_def afld_def)

lemma truncate_l2: "fits dyn_l2_layout c \<Longrightarrow> truncate_fields dyn_l2_layout c = c"
  by (simp add: fits_def truncate_fields_def dyn_l2_layout_def afld_def)

lemma dyn_pack:
  assumes "dyn_ok c" "16 \<le> length buf"
  shows "sja1105_dyn_l2_lookup_cmd_pack buf c = (dyn_entry_bytes c @ dyn_cmd.bytes c @ drop 16 buf, c)"
proof -
  have split: "drop 12 (memset0 16 buf) = memset0 4 (drop 12 buf)" "take 12 (memset0 16 buf) = replicate 12 0"
    by (simp_all add: memset0_def)
  have "access_fields True 4 dyn_cmd_layout (memset0 4 (drop 12 buf), c) = (dyn_cmd.bytes c @ drop 16 buf, c)"
    using dyn_cmd.pack_eq [of "drop 12 buf" c] assms truncate_cmd
    by (simp add: access_fields_pack [where z = dyn_l2_lookup_cmd_zero] entry_pack_def dyn_ok_def)
  moreover have "replicate 12 0 @ t = memset0 12 (replicate 12 0 @ t)" for t by (simp add: memset0_def)
  then have "access_fields True 12 dyn_mgmt_layout (replicate 12 0 @ t, c) = (dyn_mgmt.bytes c @ t, truncate_fields dyn_mgmt_layout c)"
    "access_fields True 12 dyn_l2_layout (replicate 12 0 @ t, c) = (dyn_l2.bytes c @ t, truncate_fields dyn_l2_layout c)" for t
    using dyn_mgmt.pack_eq [of "replicate 12 0 @ t" c] dyn_l2.pack_eq [of "replicate 12 0 @ t" c]
    by (metis (no_types, lifting) access_fields_pack entry_pack_def length_append length_replicate le_add1 append_eq_conv_conj)+
  ultimately show ?thesis
    using assms(1) truncate_mgmt truncate_l2
    by (simp add: sja1105_dyn_l2_lookup_cmd_pack_def sja1105_dyn_l2_lookup_cmd_access_def access_init_def split
        dyn_entry_bytes_def dyn_ok_def)
qed

lemma dyn_unpack:
  assumes "dyn_ok c"
  shows "sja1105_dyn_l2_lookup_cmd_unpack (dyn_entry_bytes c @ dyn_cmd.bytes c @ r) x = c"
proof -
  let ?buf = "dyn_entry_bytes c @ dyn_cmd.bytes c @ r"
  define c1 where "c1 = c\<lparr>dyn_entry := [0, 0, 0, 0, 0, 0, 0, 0, 0, 0, 0, 0, 0, 0]\<rparr>"
  have "access_fields False 4 dyn_cmd_layout (dyn_cmd.bytes c @ r, dyn_l2_lookup_cmd_zero) = (dyn_cmd.bytes c @ r, c1)"
    using assms unfolding unpack_fields_spec [OF dyn_cmd.layout] dyn_cmd.read_bytes
    by (simp add: dyn_ok_def fits_def dyn_cmd_layout_def fld_def zero_words c1_def)
  moreover have "take 12 ?buf @ dyn_cmd.bytes c @ r = ?buf" "drop 12 ?buf = dyn_cmd.bytes c @ r"
    by (simp_all add: length_dyn_entry_bytes)
  moreover have "access_fields False 12 (if dyn_mgmtroute c1 \<noteq> 0 then dyn_mgmt_layout else dyn_l2_layout) (?buf, c1) = (?buf, c)"
  proof (cases "dyn_mgmtroute c \<noteq> 0")
    case True
    then have "mgmt_words (dyn_entry c)" "fits dyn_mgmt_layout c" using assms by (auto simp: dyn_ok_def)
    then have "foldl (\<lambda>z f. fset f (take_bit (width f) (fval c f)) z) c1 dyn_mgmt_layout = c"
      by (auto simp: fits_def mgmt_words_def dyn_mgmt_layout_def afld_def c1_def)
    then show ?thesis
      using True by (simp add: dyn_entry_bytes_def unpack_fields_spec [OF dyn_mgmt.layout] dyn_mgmt.read_bytes c1_def)
  next
    case False
    then have "l2_words (dyn_entry c)" "fits dyn_l2_layout c" using assms by (auto simp: dyn_ok_def)
    then have "foldl (\<lambda>z f. fset f (take_bit (width f) (fval c f)) z) c1 dyn_l2_layout = c"
      by (auto simp: fits_def l2_words_def dyn_l2_layout_def afld_def c1_def)
    then show ?thesis
      using False by (simp add: dyn_entry_bytes_def unpack_fields_spec [OF dyn_l2.layout] dyn_l2.read_bytes c1_def)
  qed
  ultimately show ?thesis
    by (simp add: sja1105_dyn_l2_lookup_cmd_unpack_def sja1105_dyn_l2_lookup_cmd_access_def access_init_def)
qed

section \<open>Properties\<close>

text \<open>
  A command whose members fit, for an L2 lookup entry or for a management route, is packed into sixteen
  bytes and comes back from them.
\<close>

theorem dyn_l2_lookup_cmd_roundtrip:
  assumes "dyn_ok c" "16 \<le> length buf"
  shows "snd (sja1105_dyn_l2_lookup_cmd_pack buf c) = c \<and>
    drop 16 (fst (sja1105_dyn_l2_lookup_cmd_pack buf c)) = drop 16 buf \<and>
    sja1105_dyn_l2_lookup_cmd_unpack (fst (sja1105_dyn_l2_lookup_cmd_pack buf c)) x = c"
  using dyn_pack [OF assms] dyn_unpack [OF assms(1)]
  by (simp add: length_dyn_entry_bytes dyn_cmd.length_bytes)

theorem dyn_l2_lookup_cmd_roundtrip_witness:
  "sja1105_dyn_l2_lookup_cmd_unpack (fst (sja1105_dyn_l2_lookup_cmd_pack (replicate 16 0xFF)
     (dyn_l2_lookup_cmd_zero\<lparr>dyn_valid := 1, dyn_entry := [0, 0, 0, 0, 0, 0, 0, 0, 0, 5, 0x0180C200000E, 0x1F, 1, 7]\<rparr>)))
     dyn_l2_lookup_cmd_zero =
   dyn_l2_lookup_cmd_zero\<lparr>dyn_valid := 1, dyn_entry := [0, 0, 0, 0, 0, 0, 0, 0, 0, 5, 0x0180C200000E, 0x1F, 1, 7]\<rparr>"
  using dyn_l2_lookup_cmd_roundtrip [of "dyn_l2_lookup_cmd_zero\<lparr>dyn_valid := 1,
      dyn_entry := [0, 0, 0, 0, 0, 0, 0, 0, 0, 5, 0x0180C200000E, 0x1F, 1, 7]\<rparr>" "replicate 16 0xFF"]
  by (simp add: dyn_ok_def fits_def dyn_cmd_layout_def dyn_l2_layout_def fld_def afld_def width_def l2_words_def
      dyn_l2_lookup_cmd_zero_def)

text \<open>The command that a request for a management route sends.\<close>

definition mgmt_cmd :: "bool \<Rightarrow> mgmt_entry \<Rightarrow> int \<Rightarrow> dyn_l2_lookup_cmd" where
  "mgmt_cmd set_it e i =
    \<lparr>dyn_valid = 1, dyn_rdwrset = of_bool set_it, dyn_errors = 0, dyn_lockeds = 0, dyn_valident = 1, dyn_mgmtroute = 1,
     dyn_entry = (if set_it then [mgmt_ts_regid e, mgmt_egr_ts e, mgmt_macaddr e, mgmt_destports e] else [0, 0, 0, 0]) @
       [1, of_int i, 0, 0, 0, 0, 0, 0, 0, 0]\<rparr>"

text \<open>A route whose members fit the fields of the switch.\<close>

definition mgmt_entry_ok :: "mgmt_entry \<Rightarrow> bool" where
  "mgmt_entry_ok e \<longleftrightarrow> mgmt_ts_regid e < 2 \<and> mgmt_egr_ts e < 2 \<and> mgmt_macaddr e < 2 ^ 48 \<and> mgmt_destports e < 2 ^ 5"

lemma take_bit_less_id: "v < 2 ^ n \<Longrightarrow> take_bit n v = v" for v :: u64
  by (simp add: take_bit_eq_mask less_mask_eq)

lemma of_int_index: "0 \<le> i \<Longrightarrow> i < 1024 \<Longrightarrow> take_bit 10 (of_int i :: u64) = of_int i"
proof -
  assume i: "0 \<le> i" "i < 1024"
  then have "(of_int i :: u64) < 2 ^ 10"
    by (simp add: word_less_def uint_word_of_int)
  then show ?thesis by (intro take_bit_less_id) simp_all
qed

lemma mgmt_cmd_ok:
  assumes "0 \<le> i" "i < 1024" "set_it \<longrightarrow> mgmt_entry_ok e"
  shows "dyn_ok (mgmt_cmd set_it e i)"
proof -
  have "take_bit 10 (of_int i :: u64) = of_int i" using of_int_index assms by blast
  moreover have "take_bit 1 (mgmt_ts_regid e) = mgmt_ts_regid e" "take_bit 1 (mgmt_egr_ts e) = mgmt_egr_ts e" if set_it
    using that assms(3) take_bit_less_id [of _ 1] by (simp_all only: mgmt_entry_ok_def power_one_right)
  moreover have "take_bit 48 (mgmt_macaddr e) = mgmt_macaddr e" "take_bit 5 (mgmt_destports e) = mgmt_destports e" if set_it
    using that assms(3) by (auto simp: mgmt_entry_ok_def intro!: take_bit_less_id)
  ultimately show ?thesis
    by (cases set_it)
      (simp_all add: dyn_ok_def mgmt_cmd_def fits_def dyn_cmd_layout_def dyn_mgmt_layout_def fld_def afld_def width_def
        mgmt_words_def del: One_nat_def)
qed

lemma commit_cmd:
  "(let cmd0 = dyn_l2_lookup_cmd_zero\<lparr>dyn_valid := 1, dyn_rdwrset := of_bool w, dyn_valident := 1, dyn_mgmtroute := 1\<rparr>;
        cmd1 = (if w then cmd0\<lparr>dyn_entry := words_of_mgmt e @ drop 6 (dyn_entry cmd0)\<rparr> else cmd0)
    in cmd1\<lparr>dyn_entry := (dyn_entry cmd1)[5 := of_int i, 4 := 1]\<rparr>) = mgmt_cmd w e i"
  by (cases w) (simp_all add: zero_words mgmt_cmd_def words_of_mgmt_def)

lemma mgmt_cmd_word: "dyn_cmd.bytes (mgmt_cmd w e i) = [if w then 0xCC else 0x8C, 0, 0, 0]"
  using dyn_cmd.word_bytes [of "mgmt_cmd w e i"]
  by (simp add: layout_word_def dyn_cmd_layout_def fld_def width_def mgmt_cmd_def be_bytes_def)

definition mgmt_message :: "bool \<Rightarrow> mgmt_entry \<Rightarrow> int \<Rightarrow> u8 list" where
  "mgmt_message w e i = dyn_entry_bytes (mgmt_cmd w e i) @ [if w then 0xCC else 0x8C, 0, 0, 0]"

lemma mgmt_message_unpacks:
  assumes "0 \<le> i" "i < 1024" "w \<longrightarrow> mgmt_entry_ok e"
  shows "sja1105_dyn_l2_lookup_cmd_unpack (mgmt_message w e i) x = mgmt_cmd w e i" "length (mgmt_message w e i) = 16"
  using dyn_unpack [OF mgmt_cmd_ok [OF assms], of "[]"]
  by (simp_all add: mgmt_message_def mgmt_cmd_word length_dyn_entry_bytes)

lemma commit_sends:
  assumes "0 \<le> i" "i < 1024" "rw = SPI_WRITE \<longrightarrow> mgmt_entry_ok e"
  shows "sja1105_mgmt_route_commit k s e rw i = do {
     (rc, buf) \<leftarrow> sja1105_spi_send_packed_buf k s SPI_WRITE 0x20 (mgmt_message (rw = SPI_WRITE) e i) 16;
     if rc < 0 then io_return (rc, e)
     else if rw = SPI_READ then do {
       (rc, buf) \<leftarrow> sja1105_spi_send_packed_buf k s SPI_READ 0x20 (memset0 16 buf) 16;
       if rc < 0 then io_return (rc, e)
       else io_return (rc, mgmt_of_words (dyn_entry (sja1105_dyn_l2_lookup_cmd_unpack buf (mgmt_cmd (rw = SPI_WRITE) e i))))
     }
     else io_return (rc, e)
   }"
proof -
  let ?c = "mgmt_cmd (rw = SPI_WRITE) e i"
  have "sja1105_dyn_l2_lookup_cmd_pack (replicate 16 0) ?c = (mgmt_message (rw = SPI_WRITE) e i, ?c)"
    using dyn_pack [OF mgmt_cmd_ok [OF assms], of "replicate 16 0"] by (simp add: mgmt_message_def mgmt_cmd_word)
  then show ?thesis
    unfolding sja1105_mgmt_route_commit_def using commit_cmd [of "rw = SPI_WRITE" e i] by (simp add: Let_def)
qed

text \<open>
  C34: setting a management route sends one message that writes the sixteen bytes of the command from register
  0x20 on: a valid write command for a management route, with the entry given, its index and its port
  enforced.
\<close>

theorem mgmt_route_set_writes:
  assumes "bus_works k" "sp_dry_run s = 0" "mgmt_entry_ok e" "0 \<le> i" "i < 1024"
  shows "\<exists>es b. run_state (sja1105_mgmt_route_set k s e i) h = ((0, e), h @ es) \<and> sent_writes es = [(0x20, b)] \<and>
    length b = 16 \<and> drop 12 b = [0xCC, 0, 0, 0] \<and>
    mgmt_of_words (dyn_entry (sja1105_dyn_l2_lookup_cmd_unpack b x)) = e\<lparr>mgmt_enfport := 1, mgmt_index := of_int i\<rparr>"
proof -
  let ?b = "mgmt_message True e i"
  have b: "sja1105_dyn_l2_lookup_cmd_unpack ?b x = mgmt_cmd True e i" "length ?b = 16"
    using mgmt_message_unpacks(1) [OF assms(4,5), of True e x] mgmt_message_unpacks(2) [OF assms(4,5), of True e] assms(3)
    by simp_all
  have "performs (sja1105_spi_send_packed_buf k s SPI_WRITE 0x20 ?b 16) (0, ?b) [(0x20, ?b)]"
    using write_works [OF assms(1,2), of 16 ?b 32] b(2) by simp
  from performsD [OF this, of h] obtain es where
    "run_state (sja1105_spi_send_packed_buf k s SPI_WRITE 0x20 ?b 16) h = ((0, ?b), h @ es)"
    "sent_writes es = [(0x20, ?b)]" by blast
  moreover from this(1) have "run_state (sja1105_mgmt_route_set k s e i) h = ((0, e), h @ es)"
    using commit_sends [OF assms(4,5), of SPI_WRITE e k s] assms(3) by (simp add: sja1105_mgmt_route_set_def)
  moreover have "mgmt_of_words (dyn_entry (mgmt_cmd True e i)) = e\<lparr>mgmt_enfport := 1, mgmt_index := of_int i\<rparr>"
    by (cases e) (simp add: mgmt_of_words_def mgmt_cmd_def)
  ultimately show ?thesis using b by (intro exI [of _ es] exI [of _ ?b]) (simp add: mgmt_message_def length_dyn_entry_bytes)
qed

theorem mgmt_route_set_writes_witness:
  "\<exists>es b. run_state (sja1105_mgmt_route_set (switch_kernel example_registers) example_setup
      \<lparr>mgmt_ts_regid = 0, mgmt_egr_ts = 1, mgmt_macaddr = 0x0180C200000E, mgmt_destports = 4, mgmt_enfport = 0, mgmt_index = 0\<rparr> 2) [] =
      ((0, \<lparr>mgmt_ts_regid = 0, mgmt_egr_ts = 1, mgmt_macaddr = 0x0180C200000E, mgmt_destports = 4, mgmt_enfport = 0, mgmt_index = 0\<rparr>), es) \<and>
    sent_writes es = [(0x20, b)] \<and>
    mgmt_of_words (dyn_entry (sja1105_dyn_l2_lookup_cmd_unpack b dyn_l2_lookup_cmd_zero)) =
      \<lparr>mgmt_ts_regid = 0, mgmt_egr_ts = 1, mgmt_macaddr = 0x0180C200000E, mgmt_destports = 4, mgmt_enfport = 1, mgmt_index = 2\<rparr>"
  using mgmt_route_set_writes [of "switch_kernel example_registers" example_setup "\<lparr>mgmt_ts_regid = 0, mgmt_egr_ts = 1,
      mgmt_macaddr = 0x0180C200000E, mgmt_destports = 4, mgmt_enfport = 0, mgmt_index = 0\<rparr>" 2 "[]" dyn_l2_lookup_cmd_zero]
    example_is_switch
  by (auto simp: mgmt_entry_ok_def is_switch_def example_setup_def)

text \<open>A read that is answered with given bytes.\<close>

lemma read_reply:
  assumes "bus_works k" "sp_dry_run s = 0"
    "\<forall>h fd tr. \<not> wire_write (tr_tx_buf tr) \<longrightarrow>
       (\<exists>status. length status = 4 \<and> bytes_read (k h (Ioctl_Message fd tr)) = status @ r)"
    "length r = n"
  shows "\<exists>es. run_state (sja1105_spi_send_packed_buf k s SPI_READ a b n) h = ((0, r @ drop n b), h @ es) \<and> sent_writes es = []"
proof -
  let ?hdr = "spi_header \<lparr>msg_access = 0, msg_read_count = of_nat (n div 4), msg_address = a\<rparr>"
  let ?tx = "?hdr @ replicate n 0"
  have w: "\<not> wire_write ?tx" by (simp add: wire_spi_header)
  obtain es h1 tr where es: "run_state (sja1105_spi_transfer k s ?tx (replicate (n + 4) 0) (n + 4)) h =
      ((0, overwrite (bytes_read (k h1 (Ioctl_Message (sp_fd s) tr))) (memset0 (n + 4) (replicate (n + 4) 0))), h @ es)"
    "tr_tx_buf tr = ?tx" "sent_writes es = []"
    using transfer_works [OF assms(1,2), of "replicate (n + 4) 0" "n + 4" ?tx h] w by auto
  moreover obtain status where "length status = 4" "bytes_read (k h1 (Ioctl_Message (sp_fd s) tr)) = status @ r"
    using assms(3) es(2) w by (metis (full_types))
  then have "drop 4 (overwrite (bytes_read (k h1 (Ioctl_Message (sp_fd s) tr))) (memset0 (n + 4) (replicate (n + 4) 0))) = r"
    using assms(4) by (simp add: overwrite_def)
  ultimately show ?thesis
    by (auto simp: sja1105_spi_send_packed_buf_def message_pack_bytes Let_def)
qed

text \<open>
  Reading a management route first sends a read command with its index, then returns the entry of the
  command that the switch answers with: its management route, or only zeros when the answer is a command for
  an L2 lookup entry.
\<close>

theorem mgmt_route_get_reply:
  assumes "bus_works k" "sp_dry_run s = 0" "0 \<le> i" "i < 1024" "dyn_ok c"
    "\<forall>h fd tr. \<not> wire_write (tr_tx_buf tr) \<longrightarrow>
       (\<exists>status. length status = 4 \<and> bytes_read (k h (Ioctl_Message fd tr)) =
          status @ fst (sja1105_dyn_l2_lookup_cmd_pack (replicate 16 0) c))"
  shows "\<exists>es b. run_state (sja1105_mgmt_route_get k s e i) h =
      ((0, if dyn_mgmtroute c \<noteq> 0 then mgmt_of_words (dyn_entry c) else mgmt_of_words (replicate 6 0)), h @ es) \<and>
    sent_writes es = [(0x20, b)] \<and> sja1105_dyn_l2_lookup_cmd_unpack b x = mgmt_cmd False e i"
proof -
  define b where "b = mgmt_message False e i"
  define r where "r = fst (sja1105_dyn_l2_lookup_cmd_pack (replicate 16 0) c)"
  have len: "length b = 16" and x: "sja1105_dyn_l2_lookup_cmd_unpack b y = mgmt_cmd False e i" for y
    using mgmt_message_unpacks(1) [OF assms(3,4), of False e] mgmt_message_unpacks(2) [OF assms(3,4), of False e]
    by (simp_all add: b_def)
  have r: "length r = 16" "sja1105_dyn_l2_lookup_cmd_unpack r y = c" for y
    using dyn_pack [OF assms(5), of "replicate 16 0"] dyn_unpack [OF assms(5), of "[]"]
    by (simp_all add: r_def length_dyn_entry_bytes dyn_cmd.length_bytes)
  have "performs (sja1105_spi_send_packed_buf k s SPI_WRITE 0x20 b 16) (0, b) [(0x20, b)]"
    using write_works [OF assms(1,2), of 16 b 32] len by simp
  from performsD [OF this, of h] obtain es where es:
    "run_state (sja1105_spi_send_packed_buf k s SPI_WRITE 0x20 b 16) h = ((0, b), h @ es)"
    "sent_writes es = [(0x20, b)]" by blast
  obtain fs where fs: "run_state (sja1105_spi_send_packed_buf k s SPI_READ 0x20 (memset0 16 b) 16) (h @ es) = ((0, r), (h @ es) @ fs)"
    "sent_writes fs = []"
    using read_reply [OF assms(1,2,6) [folded r_def] r(1), of "0x20" "memset0 16 b" "h @ es"] len by auto
  have "run_state (sja1105_mgmt_route_get k s e i) h = ((0, mgmt_of_words (dyn_entry c)), h @ es @ fs)"
    using commit_sends [OF assms(3,4), of SPI_READ e k s] es(1) fs(1) r(2) by (simp add: sja1105_mgmt_route_get_def b_def)
  moreover have "dyn_mgmtroute c = 0 \<Longrightarrow> mgmt_of_words (dyn_entry c) = mgmt_of_words (replicate 6 0)"
    using assms(5) by (auto simp: dyn_ok_def l2_words_def mgmt_of_words_def numeral_eq_Suc)
  ultimately show ?thesis using es(2) fs(2) x by (intro exI [of _ "es @ fs"] exI [of _ b]) auto
qed

text \<open>A switch that answers every read with the same bytes.\<close>

definition replying_kernel :: "u8 list \<Rightarrow> kernel" where
  "replying_kernel r h c = (case c of Ioctl_Message fd tr \<Rightarrow> \<lparr>ret = tr_len tr, bytes_read = replicate 4 0 @ r\<rparr>
     | _ \<Rightarrow> \<lparr>ret = 0, bytes_read = []\<rparr>)"

theorem mgmt_route_get_reply_witness:
  "\<exists>h'. run_state (sja1105_mgmt_route_get
      (replying_kernel (fst (sja1105_dyn_l2_lookup_cmd_pack (replicate 16 0) dyn_l2_lookup_cmd_zero))) example_setup
      (mgmt_of_words [1, 1, 1, 1, 1, 1]) 3) [] = ((0, mgmt_of_words (replicate 6 0)), h')"
proof -
  let ?k = "replying_kernel (fst (sja1105_dyn_l2_lookup_cmd_pack (replicate 16 0) dyn_l2_lookup_cmd_zero))"
  have "dyn_ok dyn_l2_lookup_cmd_zero"
    by (simp add: dyn_ok_def fits_def dyn_cmd_layout_def dyn_l2_layout_def fld_def afld_def l2_words_def zero_words)
  moreover have "bus_works ?k" by (simp add: bus_works_def replying_kernel_def)
  ultimately show ?thesis
    using mgmt_route_get_reply [of ?k example_setup 3 dyn_l2_lookup_cmd_zero "mgmt_of_words [1, 1, 1, 1, 1, 1]" "[]"]
    by (auto simp: replying_kernel_def example_setup_def dyn_l2_lookup_cmd_zero_def)
qed

end
