(* ===== verification/Ptp.thy ===== *)
theory Ptp
  imports Complex_Main Registers "HOL-Library.Signed_Division"
begin

unbundle bit_operations_syntax

text \<open>
  The IEEE 1588 clock of the switch and the gates that it drives (\<^verbatim>\<open>lib/ptp/ptp.c\<close>): the command
  register, the clock and its rate, the output pin, the schedule, and the timestamps of frames sent.
\<close>

section \<open>The command register\<close>

abbreviation (input) SJA1105PQRS_PTPSYNCTS_ADDR :: u64 where "SJA1105PQRS_PTPSYNCTS_ADDR \<equiv> 0x1F"
abbreviation (input) SJA1105QS_PTPCLKCORP_ADDR :: u64 where "SJA1105QS_PTPCLKCORP_ADDR \<equiv> 0x1E"
abbreviation (input) SJA1105PQRS_PTPTSCLK_ADDR :: u64 where "SJA1105PQRS_PTPTSCLK_ADDR \<equiv> 0x1C"
abbreviation (input) SJA1105PQRS_PTPCLKRATE_ADDR :: u64 where "SJA1105PQRS_PTPCLKRATE_ADDR \<equiv> 0x1B"
abbreviation (input) SJA1105PQRS_PTPCLKVAL_ADDR :: u64 where "SJA1105PQRS_PTPCLKVAL_ADDR \<equiv> 0x19"
abbreviation (input) SJA1105PQRS_PTPPINDUR_ADDR :: u64 where "SJA1105PQRS_PTPPINDUR_ADDR \<equiv> 0x17"
abbreviation (input) SJA1105PQRS_PTPPINST_ADDR :: u64 where "SJA1105PQRS_PTPPINST_ADDR \<equiv> 0x15"
abbreviation (input) SJA1105QS_PTPSCHTM_ADDR :: u64 where "SJA1105QS_PTPSCHTM_ADDR \<equiv> 0x13"
abbreviation (input) SJA1105T_PTPCLKCORP_ADDR :: u64 where "SJA1105T_PTPCLKCORP_ADDR \<equiv> 0x1D"
abbreviation (input) SJA1105ET_PTPTSCLK_ADDR :: u64 where "SJA1105ET_PTPTSCLK_ADDR \<equiv> 0x1B"
abbreviation (input) SJA1105ET_PTPCLKRATE_ADDR :: u64 where "SJA1105ET_PTPCLKRATE_ADDR \<equiv> 0x1A"
abbreviation (input) SJA1105ET_PTPCLKVAL_ADDR :: u64 where "SJA1105ET_PTPCLKVAL_ADDR \<equiv> 0x18"
abbreviation (input) SJA1105ET_PTPPINDUR_ADDR :: u64 where "SJA1105ET_PTPPINDUR_ADDR \<equiv> 0x16"
abbreviation (input) SJA1105ET_PTPPINST_ADDR :: u64 where "SJA1105ET_PTPPINST_ADDR \<equiv> 0x14"
abbreviation (input) SJA1105T_PTPSCHTM_ADDR :: u64 where "SJA1105T_PTPSCHTM_ADDR \<equiv> 0x12"
abbreviation (input) PTP_ADDR :: u64 where "PTP_ADDR \<equiv> 0x0"

abbreviation (input) PTP_SET_MODE :: int where "PTP_SET_MODE \<equiv> 0"
abbreviation (input) PTP_ADD_MODE :: int where "PTP_ADD_MODE \<equiv> 1"
abbreviation (input) TS_PTPTSCLK :: int where "TS_PTPTSCLK \<equiv> 0"
abbreviation (input) TS_PTPCLK :: int where "TS_PTPCLK \<equiv> 1"

record ptp_cmd =
  cmd_ptpstrtsch :: u64
  cmd_ptpstopsch :: u64
  cmd_startptpcp :: u64
  cmd_stopptpcp :: u64
  cmd_cassync :: u64
  cmd_resptp :: u64
  cmd_corrclk4ts :: u64
  cmd_ptpclksub :: u64
  cmd_ptpclkadd :: u64

definition ptp_cmd_zero :: ptp_cmd where [table_zeros]:
  "ptp_cmd_zero = \<lparr>cmd_ptpstrtsch = 0, cmd_ptpstopsch = 0, cmd_startptpcp = 0, cmd_stopptpcp = 0, cmd_cassync = 0,
    cmd_resptp = 0, cmd_corrclk4ts = 0, cmd_ptpclksub = 0, cmd_ptpclkadd = 0\<rparr>"

definition ptp_cmd_et_layout :: "ptp_cmd fld list" where [table_layouts]:
  "ptp_cmd_et_layout =
    [Konst 1 31 31,
     fld cmd_ptpstrtsch cmd_ptpstrtsch_update 30 30,
     fld cmd_ptpstopsch cmd_ptpstopsch_update 29 29,
     fld cmd_startptpcp cmd_startptpcp_update 28 28,
     fld cmd_stopptpcp cmd_stopptpcp_update 27 27,
     fld cmd_resptp cmd_resptp_update 3 3,
     fld cmd_corrclk4ts cmd_corrclk4ts_update 2 2,
     fld cmd_ptpclksub cmd_ptpclksub_update 1 1,
     fld cmd_ptpclkadd cmd_ptpclkadd_update 0 0]"

definition ptp_cmd_pqrs_layout :: "ptp_cmd fld list" where [table_layouts]:
  "ptp_cmd_pqrs_layout =
    [Konst 1 31 31,
     fld cmd_ptpstrtsch cmd_ptpstrtsch_update 30 30,
     fld cmd_ptpstopsch cmd_ptpstopsch_update 29 29,
     fld cmd_startptpcp cmd_startptpcp_update 28 28,
     fld cmd_stopptpcp cmd_stopptpcp_update 27 27,
     fld cmd_cassync cmd_cassync_update 25 25,
     fld cmd_resptp cmd_resptp_update 2 2,
     fld cmd_corrclk4ts cmd_corrclk4ts_update 1 1,
     fld cmd_ptpclkadd cmd_ptpclkadd_update 0 0]"

definition sja1105_ptp_cmd_access :: "bool \<Rightarrow> u8 list \<Rightarrow> ptp_cmd \<Rightarrow> u64 \<Rightarrow> u8 list \<times> ptp_cmd" where
  "sja1105_ptp_cmd_access write buf cmd device_id =
     table_access (if IS_ET device_id then ptp_cmd_et_layout else ptp_cmd_pqrs_layout) 4 ptp_cmd_zero write buf cmd"

definition sja1105_ptp_cmd_pack :: "u8 list \<Rightarrow> ptp_cmd \<Rightarrow> u64 \<Rightarrow> u8 list \<times> ptp_cmd" where
  "sja1105_ptp_cmd_pack buf cmd device_id = sja1105_ptp_cmd_access True buf cmd device_id"

definition sja1105_ptp_cmd_unpack :: "u8 list \<Rightarrow> ptp_cmd \<Rightarrow> u64 \<Rightarrow> ptp_cmd" where
  "sja1105_ptp_cmd_unpack buf cmd device_id = snd (sja1105_ptp_cmd_access False buf cmd device_id)"

definition sja1105_ptp_cmd_commit :: "kernel \<Rightarrow> sja1105_spi_setup \<Rightarrow> ptp_cmd \<Rightarrow> int io" where
  "sja1105_ptp_cmd_commit k spi_setup cmd =
     write_register k spi_setup (CORE_ADDR + (if IS_ET (sp_device_id spi_setup) then 0x17 else 0x18))
       (fst (sja1105_ptp_cmd_pack (replicate 4 0) cmd (sp_device_id spi_setup)))"

definition sja1105_ptp_qbv_running :: "kernel \<Rightarrow> sja1105_spi_setup \<Rightarrow> int io" where
  "sja1105_ptp_qbv_running k spi_setup =
     (if \<not> SUPPORTS_TSN (sp_device_id spi_setup) then io_return (- EINVAL)
      else do {
        let ptp_control_addr = (if IS_PQRS (sp_device_id spi_setup) then 0x18 else 0x17);
        (rc, packed_buf) \<leftarrow> sja1105_spi_send_packed_buf k spi_setup SPI_READ (CORE_ADDR + ptp_control_addr) (replicate 4 0) 4;
        if rc < 0 then io_return rc
        else do {
          let cmd = sja1105_ptp_cmd_unpack packed_buf ptp_cmd_zero (sp_device_id spi_setup);
          if cmd_ptpstrtsch cmd = 1 then io_return 0
          else if cmd_ptpstopsch cmd = 1 then io_return 1
          else io_return (- EINVAL)
        }
      })"

definition sja1105_ptp_qbv_start :: "kernel \<Rightarrow> sja1105_spi_setup \<Rightarrow> int io" where
  "sja1105_ptp_qbv_start k spi_setup = sja1105_ptp_cmd_commit k spi_setup (ptp_cmd_zero\<lparr>cmd_ptpstrtsch := 1\<rparr>)"

definition sja1105_ptp_qbv_stop :: "kernel \<Rightarrow> sja1105_spi_setup \<Rightarrow> int io" where
  "sja1105_ptp_qbv_stop k spi_setup = sja1105_ptp_cmd_commit k spi_setup (ptp_cmd_zero\<lparr>cmd_ptpstopsch := 1\<rparr>)"

definition sja1105_ptp_pin_toggle_start :: "kernel \<Rightarrow> sja1105_spi_setup \<Rightarrow> int io" where
  "sja1105_ptp_pin_toggle_start k spi_setup = sja1105_ptp_cmd_commit k spi_setup (ptp_cmd_zero\<lparr>cmd_startptpcp := 1\<rparr>)"

definition sja1105_ptp_pin_toggle_stop :: "kernel \<Rightarrow> sja1105_spi_setup \<Rightarrow> int io" where
  "sja1105_ptp_pin_toggle_stop k spi_setup = sja1105_ptp_cmd_commit k spi_setup (ptp_cmd_zero\<lparr>cmd_stopptpcp := 1\<rparr>)"

definition sja1105_ptp_reset :: "kernel \<Rightarrow> sja1105_spi_setup \<Rightarrow> int io" where
  "sja1105_ptp_reset k spi_setup = sja1105_ptp_cmd_commit k spi_setup (ptp_cmd_zero\<lparr>cmd_resptp := 1\<rparr>)"

definition sja1105_ptp_add_mode_set :: "kernel \<Rightarrow> sja1105_spi_setup \<Rightarrow> int \<Rightarrow> int io" where
  "sja1105_ptp_add_mode_set k spi_setup mode = sja1105_ptp_cmd_commit k spi_setup (ptp_cmd_zero\<lparr>cmd_ptpclkadd := of_int mode\<rparr>)"

definition sja1105_ptp_corrclk4ts_set :: "kernel \<Rightarrow> sja1105_spi_setup \<Rightarrow> int \<Rightarrow> int io" where
  "sja1105_ptp_corrclk4ts_set k spi_setup source = sja1105_ptp_cmd_commit k spi_setup (ptp_cmd_zero\<lparr>cmd_corrclk4ts := of_int source\<rparr>)"

section \<open>Times\<close>

text \<open>
  A \<^verbatim>\<open>struct timespec\<close> of 64-bit signed members; the clock of the switch counts units of 8 ns. The sum of the
  nanoseconds is signed in C and undefined beyond 64 bits, where the integers of the model go on; in the
  other direction the arithmetic is unsigned and wraps around.
\<close>

record timespec =
  tv_sec :: int
  tv_nsec :: int

abbreviation (input) NSEC_PER_SEC :: int where "NSEC_PER_SEC \<equiv> 1000000000"

definition sja1105_timespec_to_ptp_time :: "timespec \<Rightarrow> u64" where
  "sja1105_timespec_to_ptp_time ts = word_of_int ((tv_sec ts * NSEC_PER_SEC + tv_nsec ts) sdiv 8)"

definition sja1105_ptp_time_to_timespec :: "u64 \<Rightarrow> timespec" where
  "sja1105_ptp_time_to_timespec ptp_time0 =
     (let ptp_time = ptp_time0 * 8
      in \<lparr>tv_sec = uint (ptp_time div 1000000000), tv_nsec = uint (ptp_time mod 1000000000)\<rparr>)"

section \<open>The registers of the clock\<close>

definition sja1105_ptp_read_reg :: "kernel \<Rightarrow> sja1105_spi_setup \<Rightarrow> u64 \<Rightarrow> u64 \<Rightarrow> nat \<Rightarrow> (int \<times> u64 option) io" where
  "sja1105_ptp_read_reg k spi_setup reg_offset v size_bytes =
     sja1105_spi_send_int k spi_setup SPI_READ (CORE_ADDR + PTP_ADDR + reg_offset) v size_bytes"

definition sja1105_ptp_write_reg :: "kernel \<Rightarrow> sja1105_spi_setup \<Rightarrow> u64 \<Rightarrow> u64 \<Rightarrow> nat \<Rightarrow> int io" where
  "sja1105_ptp_write_reg k spi_setup reg_offset v size_bytes = do {
     (rc, v') \<leftarrow> sja1105_spi_send_int k spi_setup SPI_WRITE (CORE_ADDR + PTP_ADDR + reg_offset) v size_bytes;
     io_return rc
   }"

text \<open>A number that was read is \<open>Some\<close> number whenever the read succeeded.\<close>

definition sja1105_ptp_ts_clk_get :: "kernel \<Rightarrow> sja1105_spi_setup \<Rightarrow> timespec \<Rightarrow> (int \<times> timespec) io" where
  "sja1105_ptp_ts_clk_get k spi_setup ts = do {
     let ptptsclk_addr = (if IS_ET (sp_device_id spi_setup) then SJA1105ET_PTPTSCLK_ADDR else SJA1105PQRS_PTPTSCLK_ADDR);
     (rc, ptptsclk) \<leftarrow> sja1105_ptp_read_reg k spi_setup ptptsclk_addr 0 8;
     if rc < 0 then io_return (rc, ts)
     else io_return (rc, sja1105_ptp_time_to_timespec (the ptptsclk))
   }"

definition sja1105_ptp_clk_get :: "kernel \<Rightarrow> sja1105_spi_setup \<Rightarrow> timespec \<Rightarrow> (int \<times> timespec) io" where
  "sja1105_ptp_clk_get k spi_setup ts = do {
     let ptpclkval_addr = (if IS_ET (sp_device_id spi_setup) then SJA1105ET_PTPCLKVAL_ADDR else SJA1105PQRS_PTPCLKVAL_ADDR);
     (rc, ptpclkval) \<leftarrow> sja1105_ptp_read_reg k spi_setup ptpclkval_addr 0 8;
     if rc < 0 then io_return (rc, ts)
     else if the ptpclkval = 0 then io_return (- EAGAIN, ts)
     else io_return (rc, sja1105_ptp_time_to_timespec (the ptpclkval))
   }"

definition sja1105_ptp_clk_write :: "kernel \<Rightarrow> sja1105_spi_setup \<Rightarrow> timespec \<Rightarrow> int io" where
  "sja1105_ptp_clk_write k spi_setup ts =
     (let ptpclkval_addr = (if IS_ET (sp_device_id spi_setup) then SJA1105ET_PTPCLKVAL_ADDR else SJA1105PQRS_PTPCLKVAL_ADDR)
      in sja1105_ptp_write_reg k spi_setup ptpclkval_addr (sja1105_timespec_to_ptp_time ts) 8)"

definition sja1105_ptp_clk_set :: "kernel \<Rightarrow> sja1105_spi_setup \<Rightarrow> timespec \<Rightarrow> int io" where
  "sja1105_ptp_clk_set k spi_setup ts = do {
     rc \<leftarrow> sja1105_ptp_add_mode_set k spi_setup PTP_SET_MODE;
     if rc < 0 then io_return rc else sja1105_ptp_clk_write k spi_setup ts
   }"

definition sja1105_ptp_clk_add :: "kernel \<Rightarrow> sja1105_spi_setup \<Rightarrow> timespec \<Rightarrow> int io" where
  "sja1105_ptp_clk_add k spi_setup ts = do {
     rc \<leftarrow> sja1105_ptp_add_mode_set k spi_setup PTP_ADD_MODE;
     if rc < 0 then io_return rc else sja1105_ptp_clk_write k spi_setup ts
   }"

definition sja1105_ptp_pin_start_time_set :: "kernel \<Rightarrow> sja1105_spi_setup \<Rightarrow> timespec \<Rightarrow> int io" where
  "sja1105_ptp_pin_start_time_set k spi_setup ts =
     (let ptppinst_addr = (if IS_ET (sp_device_id spi_setup) then SJA1105ET_PTPPINST_ADDR else SJA1105PQRS_PTPPINST_ADDR)
      in sja1105_ptp_write_reg k spi_setup ptppinst_addr (sja1105_timespec_to_ptp_time ts) 8)"

abbreviation (input) UINT32_MAX :: u64 where "UINT32_MAX \<equiv> 0xFFFFFFFF"

definition sja1105_ptp_pin_duration_set :: "kernel \<Rightarrow> sja1105_spi_setup \<Rightarrow> timespec \<Rightarrow> int io" where
  "sja1105_ptp_pin_duration_set k spi_setup ts =
     (let ptppindur_addr = (if IS_ET (sp_device_id spi_setup) then SJA1105ET_PTPPINDUR_ADDR else SJA1105PQRS_PTPPINDUR_ADDR);
          pindur = sja1105_timespec_to_ptp_time ts
      in if UINT32_MAX \<le> pindur then io_return (- ERANGE)
         else sja1105_ptp_write_reg k spi_setup ptppindur_addr pindur 4)"

definition sja1105_ptp_qbv_correction_period_set :: "kernel \<Rightarrow> sja1105_spi_setup \<Rightarrow> timespec \<Rightarrow> int io" where
  "sja1105_ptp_qbv_correction_period_set k spi_setup ts =
     (if \<not> SUPPORTS_TSN (sp_device_id spi_setup) then io_return (- EINVAL)
      else let ptpclkcorp_addr = (if IS_ET (sp_device_id spi_setup) then SJA1105T_PTPCLKCORP_ADDR else SJA1105QS_PTPCLKCORP_ADDR);
               ptpclkcorp = sja1105_timespec_to_ptp_time ts
           in if UINT32_MAX \<le> ptpclkcorp then io_return (- ERANGE)
              else sja1105_ptp_write_reg k spi_setup ptpclkcorp_addr ptpclkcorp 4)"

definition sja1105_ptp_qbv_start_time_set :: "kernel \<Rightarrow> sja1105_spi_setup \<Rightarrow> timespec \<Rightarrow> int io" where
  "sja1105_ptp_qbv_start_time_set k spi_setup ts =
     (if \<not> SUPPORTS_TSN (sp_device_id spi_setup) then io_return (- EINVAL)
      else let ptpschtm_addr = (if IS_ET (sp_device_id spi_setup) then SJA1105T_PTPSCHTM_ADDR else SJA1105QS_PTPSCHTM_ADDR)
           in sja1105_ptp_write_reg k spi_setup ptpschtm_addr (sja1105_timespec_to_ptp_time ts) 8)"

section \<open>The rate of the clock\<close>

text \<open>
  A \<^verbatim>\<open>double\<close> is its 64-bit pattern (IEEE 754): a sign, an exponent of 11 bits and a fraction of 52 bits. The
  number it stands for serves the comparisons, which are all false for a pattern that is not a number; the
  magnitude of an infinity is above every bound they use.
\<close>

definition double_exponent :: "u64 \<Rightarrow> nat" where "double_exponent p = unat (take_bit 11 (drop_bit 52 p))"
definition double_fraction :: "u64 \<Rightarrow> nat" where "double_fraction p = unat (take_bit 52 p)"
definition double_nan :: "u64 \<Rightarrow> bool" where "double_nan p \<longleftrightarrow> double_exponent p = 2047 \<and> double_fraction p \<noteq> 0"

definition double_value :: "u64 \<Rightarrow> rat" where
  "double_value p =
     (let e = double_exponent p; f = double_fraction p;
          m = (if e = 0 then of_nat f / 2 ^ 1074 else of_nat (2 ^ 52 + f) * 2 ^ e / 2 ^ 1075)
      in if bit p 63 then - m else m)"

text \<open>Rounding to the nearest integer, halves to the even one.\<close>

definition round_half_even :: "rat \<Rightarrow> int" where
  "round_half_even x =
     (let n = floor x; d = x - of_int n
      in if d < 1 / 2 then n else if 1 / 2 < d then n + 1 else if even n then n else n + 1)"

text \<open>
  The sum \<open>1 + v\<close> for \<open>0 < v < 1\<close>: it lies between 1 and 2, where doubles are \<open>2\<^sup>-\<^sup>5\<^sup>2\<close> apart; the rounded
  fraction is added to the pattern of 1, and a carry gives the pattern of 2.
\<close>

definition double_add_1 :: "u64 \<Rightarrow> u64" where
  "double_add_1 p = 0x3FF0000000000000 + word_of_int (round_half_even (double_value p * 2 ^ 52))"

definition DOUBLE_FRACTION_AS_UINT32 :: "u64 \<Rightarrow> u32" where
  "DOUBLE_FRACTION_AS_UINT32 p = ucast (drop_bit (52 - 31) p AND 0x7fffffff)"

definition sja1105_ptpclkrate_from_ratio :: "u64 \<Rightarrow> u32 \<Rightarrow> int \<times> u32" where
  "sja1105_ptpclkrate_from_ratio ratio ptpclkrate =
     (if \<not> double_nan ratio \<and> (double_value ratio \<le> 0 \<or> 2 \<le> double_value ratio) then (- ERANGE, ptpclkrate)
      else if \<not> double_nan ratio \<and> double_value ratio < 1
      then (0, DOUBLE_FRACTION_AS_UINT32 (double_add_1 ratio))
      else (0, DOUBLE_FRACTION_AS_UINT32 ratio OR 0x80000000))"

definition sja1105_ptp_clk_rate_set :: "kernel \<Rightarrow> sja1105_spi_setup \<Rightarrow> u64 \<Rightarrow> int io" where
  "sja1105_ptp_clk_rate_set k spi_setup ratio =
     (let ptpclkrate_addr = (if IS_ET (sp_device_id spi_setup) then SJA1105ET_PTPCLKRATE_ADDR else SJA1105PQRS_PTPCLKRATE_ADDR)
      in case sja1105_ptpclkrate_from_ratio ratio 0 of (rc, ptpclkrate) \<Rightarrow>
           if rc < 0 then io_return rc
           else sja1105_ptp_write_reg k spi_setup ptpclkrate_addr (ucast ptpclkrate) 4)"

section \<open>Timestamps of frames sent\<close>

definition sja1105_ptpegr_ts_poll ::
    "kernel \<Rightarrow> sja1105_spi_setup \<Rightarrow> int \<Rightarrow> int \<Rightarrow> int \<Rightarrow> timespec \<Rightarrow> (int \<times> timespec) io" where
  "sja1105_ptpegr_ts_poll k spi_setup source port ts_regid ts =
     (let ts_reg_index = 2 * port + ts_regid;
          et = IS_ET (sp_device_id spi_setup);
          ptpclk_addr = (if source = TS_PTPCLK then if et then SJA1105ET_PTPCLKVAL_ADDR else SJA1105PQRS_PTPCLKVAL_ADDR
                         else if et then SJA1105ET_PTPTSCLK_ADDR else SJA1105PQRS_PTPTSCLK_ADDR)
      in if source \<noteq> TS_PTPCLK \<and> source \<noteq> TS_PTPTSCLK then io_return (- EINVAL, ts)
         else do {
           (rc, packed_buf) \<leftarrow> sja1105_spi_send_packed_buf k spi_setup SPI_READ (CORE_ADDR + 0xC0 + of_int ts_reg_index)
             (replicate 4 0) 4;
           if rc < 0 then io_return (rc, ts)
           else do {
             let ptpegr_ts_partial = fst (snd (gtable_unpack packed_buf 0 31 8 4));
             let update = fst (snd (gtable_unpack packed_buf 0 0 0 4));
             if update = 0 then io_return (- EAGAIN, ts)
             else do {
               (rc, current) \<leftarrow> sja1105_ptp_read_reg k spi_setup ptpclk_addr 0 8;
               if rc < 0 then io_return (rc, ts)
               else do {
                 let ptp_full_current_ts = the current;
                 let ptpegr_ts_mask = (if et then push_bit 24 1 - 1 else push_bit 32 1 - 1);
                 let reconstructed = (ptp_full_current_ts AND NOT ptpegr_ts_mask) OR ptpegr_ts_partial;
                 let reconstructed = (if ptp_full_current_ts AND ptpegr_ts_mask \<le> ptpegr_ts_partial
                                      then reconstructed - (ptpegr_ts_mask + 1) else reconstructed);
                 io_return (rc, sja1105_ptp_time_to_timespec reconstructed)
               }
             }
           }
         })"

section \<open>Reading and writing numbers\<close>

text \<open>A number of 64 bits in two registers, the less significant word first.\<close>

definition reg64 :: "registers \<Rightarrow> nat \<Rightarrow> u64" where
  "reg64 m a = wire_word (m a) OR push_bit 32 (wire_word (m (a + 1)))"

lemma unpack_two_words:
  assumes "length w0 = 4" "length w1 = 4"
  shows "fst (snd (gtable_unpack (w0 @ w1) v 63 0 8)) = wire_word w0 OR push_bit 32 (wire_word w1)"
proof (rule word_bits_eqI)
  fix j :: nat assume "j < LENGTH(64)"
  then have j: "j < 64" by simp
  have u: "bit (fst (snd (gtable_unpack (w0 @ w1) v 63 0 8))) j = lbit 8 (w0 @ w1) j"
    using gtable_unpack_lbit(3) [of 0 63 "w0 @ w1" v 8 j] j by simp
  show "bit (fst (snd (gtable_unpack (w0 @ w1) v 63 0 8))) j = bit (wire_word w0 OR push_bit 32 (wire_word w1)) j"
  proof (cases "j < 32")
    case True
    have "lbit 8 (w0 @ w1) j = lbit 4 (w0 @ w1) j" using True by (intro lbit_prefix) auto
    also have "\<dots> = lbit 4 w0 j" using True assms by (intro lbit_append) auto
    finally show ?thesis using True assms u by (simp add: bit_or_iff bit_push_bit_iff bit_wire_word)
  next
    case False
    have "lbit 8 (w0 @ w1) j = lbit 4 w1 (j - 32)"
      using lbit_drop [of 4 "j - 32" 8 1 "w0 @ w1"] False j assms by simp
    then show ?thesis using False j assms u by (auto simp: bit_or_iff bit_push_bit_iff bit_wire_word)
  qed
qed

lemma read_int8_works:
  assumes "is_switch k mem" "sp_dry_run s = 0"
  shows "\<exists>es. run_state (sja1105_spi_send_int k s SPI_READ a v 8) h =
    ((0, Some (reg64 (registers_after mem h) (unat (take_bit 21 a)))), h @ es) \<and> sent_writes es = []"
proof -
  let ?m = "registers_after mem h" and ?x = "unat (take_bit 21 a)"
  have m4: "length (?m x) = 4" for x using assms(1) length_registers_after by (simp add: is_switch_def)
  have "load ?m ?x 2 = ?m ?x @ ?m (?x + 1)" by (simp add: load_def upt_rec)
  then show ?thesis
    using read_works [OF assms, of 2 "replicate 8 0" a h] unpack_two_words [OF m4 m4, of ?x "?x + 1" v]
    by (auto simp: sja1105_spi_send_int_def reg64_def)
qed

definition be_bytes8 :: "u64 \<Rightarrow> u8 list" where "be_bytes8 v = be_bytes v @ be_bytes (drop_bit 32 v)"

lemma pack_two_words: "snd (snd (gtable_pack (replicate 8 0) v 63 0 8)) = be_bytes8 v"
proof (rule lbit_determines [where sz = 8])
  note p = gtable_pack_lbit [where L = 8 and E = 0 and S = 63 and t = "replicate 8 0" and v = v]
  show "length (snd (snd (gtable_pack (replicate 8 0) v 63 0 8))) = 8" using p(3) by simp
  fix i :: nat assume i: "i < 8 * 8"
  have "lbit 8 (snd (snd (gtable_pack (replicate 8 0) v 63 0 8))) i = bit v i" using p(5) [of i] i by simp
  also have "\<dots> = lbit 8 (be_bytes8 v) i"
  proof (cases "i < 32")
    case True
    have "lbit 8 (be_bytes8 v) i = lbit 4 (be_bytes8 v) i" using True by (intro lbit_prefix) auto
    also have "\<dots> = lbit 4 (be_bytes v) i" unfolding be_bytes8_def using True by (intro lbit_append) auto
    finally show ?thesis using True by (simp add: lbit_be_bytes)
  next
    case False
    have "lbit 8 (be_bytes8 v) i = lbit 4 (be_bytes (drop_bit 32 v)) (i - 32)"
      using lbit_drop [of 4 "i - 32" 8 1 "be_bytes8 v"] False i by (simp add: be_bytes8_def)
    then show ?thesis using False i by (simp add: lbit_be_bytes bit_drop_bit_eq)
  qed
  finally show "lbit 8 (snd (snd (gtable_pack (replicate 8 0) v 63 0 8))) i = lbit 8 (be_bytes8 v) i" .
qed (simp_all add: be_bytes8_def)

lemma pack_one_word: "snd (snd (gtable_pack (replicate 4 0) v 31 0 4)) = be_bytes v"
proof (rule lbit_determines [where sz = 4])
  note p = gtable_pack_lbit [where L = 4 and E = 0 and S = 31 and t = "replicate 4 0" and v = v]
  show "length (snd (snd (gtable_pack (replicate 4 0) v 31 0 4))) = 4" using p(3) by simp
  fix i :: nat assume "i < 8 * 4"
  then show "lbit 4 (snd (snd (gtable_pack (replicate 4 0) v 31 0 4))) i = lbit 4 (be_bytes v) i"
    using p(5) [of i] by (simp add: lbit_be_bytes)
qed simp_all

lemma performs_write_reg:
  assumes "bus_works k" "sp_dry_run s = 0"
  shows "performs (sja1105_ptp_write_reg k s a v 8) 0 [(unat (take_bit 21 a), be_bytes8 v)]"
    "performs (sja1105_ptp_write_reg k s a v 4) 0 [(unat (take_bit 21 a), be_bytes v)]"
proof -
  have w: "performs (sja1105_ptp_write_reg k s a v n) 0 [(unat (take_bit 21 a), b)]"
    if b: "snd (snd (gtable_pack (replicate n 0) v (8 * int n - 1) 0 (int n))) = b" "length b = n" for n b
  proof -
    obtain rc v' where "gtable_pack (replicate n 0) v (8 * int n - 1) 0 (int n) = (rc, v', b)"
      using b(1) by (metis prod.collapse)
    moreover have "performs (sja1105_spi_send_packed_buf k s SPI_WRITE a b n) (0, b) [(unat (take_bit 21 a), b)]"
      using write_works [OF assms, of n b a] b(2) by simp
    note performs_bind [OF this, of "\<lambda>(rc, buf). io_return rc" 0 "[]"]
    ultimately show ?thesis
      by (simp add: sja1105_ptp_write_reg_def sja1105_spi_send_int_def performs_return case_prod_unfold)
  qed
  show "performs (sja1105_ptp_write_reg k s a v 8) 0 [(unat (take_bit 21 a), be_bytes8 v)]"
    by (rule w) (simp_all add: pack_two_words, simp add: be_bytes8_def)
  show "performs (sja1105_ptp_write_reg k s a v 4) 0 [(unat (take_bit 21 a), be_bytes v)]"
    by (rule w) (simp_all add: pack_one_word)
qed

section \<open>Times\<close>

lemma uint_of_int_64: "0 \<le> z \<Longrightarrow> z < 2 ^ 64 \<Longrightarrow> uint (word_of_int z :: u64) = z"
  by (simp add: uint_word_of_int)

lemma timespec_roundtrip_time:
  assumes "0 \<le> tv_sec ts" "0 \<le> tv_nsec ts" "tv_nsec ts < NSEC_PER_SEC"
    "tv_sec ts * NSEC_PER_SEC + tv_nsec ts < 2 ^ 63"
  shows "sja1105_ptp_time_to_timespec (sja1105_timespec_to_ptp_time ts) = ts\<lparr>tv_nsec := tv_nsec ts - tv_nsec ts mod 8\<rparr>"
proof -
  define n where "n = tv_sec ts * NSEC_PER_SEC + tv_nsec ts"
  have n: "0 \<le> n" "n < 2 ^ 63" using assms by (simp_all add: n_def)
  have q: "n sdiv 8 = n div 8" using n(1) by (cases "n = 0") (simp_all add: signed_divide_int_def)
  define p where "p = (word_of_int (n div 8) :: u64) * 8"
  have "uint p = 8 * (n div 8)"
  proof -
    have "8 * (n div 8) \<le> n" using minus_mod_eq_mult_div [of n 8] pos_mod_sign [of 8 n] by linarith
    then have "uint (word_of_int (8 * (n div 8)) :: u64) = 8 * (n div 8)" using n by (intro uint_of_int_64) simp_all
    then show ?thesis by (simp add: p_def mult.commute)
  qed
  moreover have "8 * (n div 8) = tv_sec ts * NSEC_PER_SEC + (tv_nsec ts - tv_nsec ts mod 8)"
  proof -
    have "n = 8 * (tv_sec ts * 125000000) + tv_nsec ts" by (simp add: n_def)
    then have "n div 8 = tv_sec ts * 125000000 + tv_nsec ts div 8" by (simp only: div_mult_self4)
    then show ?thesis by (simp add: minus_mod_eq_mult_div)
  qed
  ultimately have "uint p = tv_sec ts * NSEC_PER_SEC + (tv_nsec ts - tv_nsec ts mod 8)" by simp
  moreover have "0 \<le> tv_nsec ts - tv_nsec ts mod 8" "tv_nsec ts - tv_nsec ts mod 8 < NSEC_PER_SEC"
    using assms(2,3) pos_mod_sign [of 8 "tv_nsec ts"] zmod_le_nonneg_dividend [of "tv_nsec ts" 8] by linarith+
  ultimately have "uint p div NSEC_PER_SEC = tv_sec ts" "uint p mod NSEC_PER_SEC = tv_nsec ts - tv_nsec ts mod 8"
    by simp_all
  then show ?thesis
    by (simp add: sja1105_ptp_time_to_timespec_def sja1105_timespec_to_ptp_time_def n_def [symmetric] q p_def [symmetric]
        Let_def uint_div uint_mod)
qed

text \<open>
  A time that the clock can hold keeps its seconds, and its nanoseconds lose only what is below the
  resolution of 8 ns.
\<close>

theorem timespec_roundtrip:
  assumes "0 \<le> tv_sec ts" "0 \<le> tv_nsec ts" "tv_nsec ts < NSEC_PER_SEC"
    "tv_sec ts * NSEC_PER_SEC + tv_nsec ts < 2 ^ 63"
  shows "sja1105_ptp_time_to_timespec (sja1105_timespec_to_ptp_time ts) = ts\<lparr>tv_nsec := tv_nsec ts - tv_nsec ts mod 8\<rparr>"
  using timespec_roundtrip_time [OF assms] .

theorem timespec_roundtrip_witness:
  "sja1105_ptp_time_to_timespec (sja1105_timespec_to_ptp_time \<lparr>tv_sec = 1500000000, tv_nsec = 123456789\<rparr>) =
     \<lparr>tv_sec = 1500000000, tv_nsec = 123456784\<rparr>"
  using timespec_roundtrip [of "\<lparr>tv_sec = 1500000000, tv_nsec = 123456789\<rparr>"] by simp

section \<open>The clock\<close>

definition ptp_cmd_shape :: "ptp_cmd \<Rightarrow> bool" where [table_shapes]:
  "ptp_cmd_shape c \<longleftrightarrow> cmd_cassync c = 0"

definition ptp_cmd_pqrs_shape :: "ptp_cmd \<Rightarrow> bool" where [table_shapes]:
  "ptp_cmd_pqrs_shape c \<longleftrightarrow> cmd_ptpclksub c = 0"

interpretation ptp_et: table_codec ptp_cmd_et_layout 4 ptp_cmd_zero ptp_cmd_shape
  by unfold_locales (auto simp: ptp_cmd_et_layout_def table_shapes table_zeros codec_simps)

interpretation ptp_pqrs: table_codec ptp_cmd_pqrs_layout 4 ptp_cmd_zero ptp_cmd_pqrs_shape
  by unfold_locales (auto simp: ptp_cmd_pqrs_layout_def table_shapes table_zeros codec_simps)

abbreviation ptp_layout :: "u64 \<Rightarrow> ptp_cmd fld list" where
  "ptp_layout d \<equiv> if IS_ET d then ptp_cmd_et_layout else ptp_cmd_pqrs_layout"

text \<open>A command is one word, written to the command register.\<close>

lemma performs_ptp_cmd:
  assumes "bus_works k" "sp_dry_run s = 0"
  shows "performs (sja1105_ptp_cmd_commit k s c) 0
    [(if IS_ET (sp_device_id s) then 0x17 else 0x18, be_bytes (layout_word (ptp_layout (sp_device_id s)) c))]"
proof -
  have "fst (sja1105_ptp_cmd_pack (replicate 4 0) c (sp_device_id s)) =
      be_bytes (layout_word (ptp_layout (sp_device_id s)) c)"
    using ptp_et.pack_word [of "replicate 4 0" c] ptp_pqrs.pack_word [of "replicate 4 0" c]
    by (simp add: sja1105_ptp_cmd_pack_def sja1105_ptp_cmd_access_def)
  then show ?thesis
    using performs_write_register [OF assms, of "be_bytes w" "CORE_ADDR + (if IS_ET (sp_device_id s) then 0x17 else 0x18)" for w]
    by (simp add: sja1105_ptp_cmd_commit_def split: if_splits)
qed

lemma wire_word_be_bytes: "wire_word (be_bytes v) = take_bit 32 v"
  by (simp add: wire_word_def be_bytes_def wire_be_bytes)

lemma reg64_be_bytes8: "reg64 (store mem (x, be_bytes8 v)) x = v"
proof -
  have "store mem (x, be_bytes8 v) x = be_bytes v" "store mem (x, be_bytes8 v) (x + 1) = be_bytes (drop_bit 32 v)"
    by (simp_all add: store_def be_bytes8_def)
  then have "reg64 (store mem (x, be_bytes8 v)) x = take_bit 32 v OR push_bit 32 (take_bit 32 (drop_bit 32 v))"
    by (simp add: reg64_def wire_word_be_bytes)
  also have "\<dots> = v" by (rule word_bits_eqI) (auto simp: bit_or_iff bit_take_bit_iff bit_push_bit_iff bit_drop_bit_eq)
  finally show ?thesis .
qed

lemma timespec_time_nonzero:
  assumes "0 \<le> tv_sec ts" "0 \<le> tv_nsec ts" "8 \<le> tv_sec ts * NSEC_PER_SEC + tv_nsec ts"
    "tv_sec ts * NSEC_PER_SEC + tv_nsec ts < 2 ^ 63"
  shows "sja1105_timespec_to_ptp_time ts \<noteq> 0"
proof -
  define n where "n = tv_sec ts * NSEC_PER_SEC + tv_nsec ts"
  have n: "8 \<le> n" "n < 2 ^ 63" using assms by (simp_all add: n_def)
  have q: "n sdiv 8 = n div 8" using n(1) by (simp add: signed_divide_int_def)
  have "1 \<le> n div 8" using n(1) zdiv_mono1 [of 8 n 8] by simp
  moreover have "n div 8 < 2 ^ 64" using n(1,2) by (simp add: div_less_mono)
  ultimately have "uint (word_of_int (n div 8) :: u64) = n div 8" by (intro uint_of_int_64) simp_all
  then show ?thesis using \<open>1 \<le> n div 8\<close> by (auto simp: sja1105_timespec_to_ptp_time_def n_def [symmetric] q)
qed

text \<open>
  C27: setting the clock selects the set mode, then writes the time; on a switch that keeps its registers,
  reading the clock after that gives the time back, to 8 ns.
\<close>

theorem ptp_clk_set_then_get:
  assumes "is_switch k mem" "sp_dry_run s = 0" "0 \<le> tv_sec ts" "0 \<le> tv_nsec ts" "tv_nsec ts < NSEC_PER_SEC"
    "8 \<le> tv_sec ts * NSEC_PER_SEC + tv_nsec ts" "tv_sec ts * NSEC_PER_SEC + tv_nsec ts < 2 ^ 63"
  shows "\<exists>es h''. run_state (sja1105_ptp_clk_set k s ts) h = (0, h @ es) \<and>
    map fst (sent_writes es) = (if IS_ET (sp_device_id s) then [0x17, 0x18] else [0x18, 0x19]) \<and>
    snd (hd (sent_writes es)) = [0x80, 0, 0, 0] \<and>
    run_state (sja1105_ptp_clk_get k s ts0) (h @ es) = ((0, ts\<lparr>tv_nsec := tv_nsec ts - tv_nsec ts mod 8\<rparr>), h'')"
proof -
  have works: "bus_works k" using assms(1) by (simp add: is_switch_def)
  define a :: u64 where "a = (if IS_ET (sp_device_id s) then 0x18 else 0x19)"
  define t where "t = sja1105_timespec_to_ptp_time ts"
  have "layout_word (ptp_layout (sp_device_id s)) (ptp_cmd_zero\<lparr>cmd_ptpclkadd := of_int 0\<rparr>) = 0x80000000"
    by (simp add: layout_word_def ptp_cmd_et_layout_def ptp_cmd_pqrs_layout_def fld_def width_def ptp_cmd_zero_def)
  moreover have "be_bytes 0x80000000 = [0x80, 0, 0, 0]" by (simp add: be_bytes_def)
  ultimately have "performs (sja1105_ptp_add_mode_set k s 0) 0 [(if IS_ET (sp_device_id s) then 0x17 else 0x18, [0x80, 0, 0, 0])]"
    using performs_ptp_cmd [OF works assms(2), of "ptp_cmd_zero\<lparr>cmd_ptpclkadd := of_int 0\<rparr>"]
    by (simp only: sja1105_ptp_add_mode_set_def)
  moreover have "performs (sja1105_ptp_clk_write k s ts) 0 [(unat a, be_bytes8 t)]"
    using performs_write_reg(1) [OF works assms(2), of a t]
    by (simp add: sja1105_ptp_clk_write_def Let_def a_def t_def split: if_splits)
  ultimately have "performs (sja1105_ptp_clk_set k s ts) 0
      ([(if IS_ET (sp_device_id s) then 0x17 else 0x18, [0x80, 0, 0, 0])] @ [(unat a, be_bytes8 t)])"
    unfolding sja1105_ptp_clk_set_def by (rule performs_seq)
  from performsD [OF this, of h] obtain es where es: "run_state (sja1105_ptp_clk_set k s ts) h = (0, h @ es)"
    "sent_writes es = [(if IS_ET (sp_device_id s) then 0x17 else 0x18, [0x80, 0, 0, 0]), (unat a, be_bytes8 t)]" by auto
  have "reg64 (registers_after mem (h @ es)) (unat a) = t"
    using es(2) by (simp add: registers_after_def reg64_be_bytes8)
  moreover have "unat (take_bit 21 a) = unat a" by (simp add: a_def)
  ultimately obtain fs where "run_state (sja1105_spi_send_int k s SPI_READ a 0 8) (h @ es) = ((0, Some t), (h @ es) @ fs)"
    using read_int8_works [OF assms(1,2), of a 0 "h @ es"] by auto
  then have "run_state (sja1105_ptp_clk_get k s ts0) (h @ es) = ((0, sja1105_ptp_time_to_timespec t), (h @ es) @ fs)"
    using timespec_time_nonzero [OF assms(3,4,6,7)]
    by (simp add: sja1105_ptp_clk_get_def sja1105_ptp_read_reg_def a_def t_def split: if_splits)
  then show ?thesis
    using es timespec_roundtrip_time [OF assms(3,4,5,7)] by (auto simp: t_def a_def)
qed

theorem ptp_clk_set_then_get_witness:
  "\<exists>h' h''. run_state (sja1105_ptp_clk_set (switch_kernel example_registers) example_setup \<lparr>tv_sec = 7, tv_nsec = 15\<rparr>) [] = (0, h') \<and>
    run_state (sja1105_ptp_clk_get (switch_kernel example_registers) example_setup \<lparr>tv_sec = 0, tv_nsec = 0\<rparr>) h' =
      ((0, \<lparr>tv_sec = 7, tv_nsec = 8\<rparr>), h'')"
  using ptp_clk_set_then_get [OF example_is_switch, of example_setup "\<lparr>tv_sec = 7, tv_nsec = 15\<rparr>" "[]" "\<lparr>tv_sec = 0, tv_nsec = 0\<rparr>"]
  by (auto simp: example_setup_def)

section \<open>Timestamps of frames sent\<close>

definition reconstruct :: "u64 \<Rightarrow> u64 \<Rightarrow> u64 \<Rightarrow> u64" where
  "reconstruct m c p = (let r = (c AND NOT m) OR p in if c AND m \<le> p then r - (m + 1) else r)"

text \<open>Where the clock that \<^verbatim>\<open>source\<close> names is, and the register of a timestamp.\<close>

definition source_register :: "u64 \<Rightarrow> int \<Rightarrow> nat" where
  "source_register d source = (if source = TS_PTPCLK then if IS_ET d then 0x18 else 0x19 else if IS_ET d then 0x1B else 0x1C)"

definition ts_register :: "int \<Rightarrow> int \<Rightarrow> nat" where "ts_register port ts_regid = 0xC0 + nat (2 * port + ts_regid)"

lemma unat_of_nat_64: "n < 2 ^ 64 \<Longrightarrow> unat (of_nat n :: u64) = n"
  by (simp add: unat_of_nat)

lemma ts_register_address:
  assumes "0 \<le> port" "port < 5" "0 \<le> i" "i < 2"
  shows "unat (take_bit 21 (CORE_ADDR + 0xC0 + of_int (2 * port + i) :: u64)) = ts_register port i"
proof -
  define n where "n = nat (2 * port + i)"
  have n: "int n = 2 * port + i" "n < 10" using assms by (simp_all add: n_def)
  have "(of_int (2 * port + i) :: u64) = of_nat n" unfolding n(1) [symmetric] by simp
  then have sum: "CORE_ADDR + 0xC0 + of_int (2 * port + i) = (of_nat (0xC0 + n) :: u64)" by (simp only:) simp
  have "unat (of_nat (0xC0 + n) :: u64) = 0xC0 + n" using n(2) by (intro unat_of_nat_64) simp
  then show ?thesis
    using n(2) unfolding sum unsigned_take_bit_eq by (simp add: take_bit_nat_eq_self ts_register_def n_def)
qed

lemma wire_word_32: "length b = 4 \<Longrightarrow> take_bit 32 (wire_word b) = wire_word b"
  by (intro bit_eqI) (auto simp: bit_take_bit_iff bit_wire_word)

lemma timestamp_fields:
  assumes "length w = 4"
  shows "fst (snd (gtable_unpack w v 31 8 4)) = drop_bit 8 (wire_word w)"
    "fst (snd (gtable_unpack w v 0 0 4)) = of_bool (bit (wire_word w) 0)"
proof -
  show "fst (snd (gtable_unpack w v 31 8 4)) = drop_bit 8 (wire_word w)"
  proof (rule bit_eqI)
    fix n
    have "bit (drop_bit 8 (wire_word w)) n \<longleftrightarrow> n < 24 \<and> lbit 4 w (8 + n)"
      using bit_wire_word [of w "8 + n"] assms by (simp add: bit_drop_bit_eq)
    moreover have "bit (fst (snd (gtable_unpack w v 31 8 4))) n \<longleftrightarrow> n \<le> 23 \<and> lbit 4 w (8 + n)"
      using gtable_unpack_lbit(3) [of 8 31 w v 4 n] by simp
    ultimately show "bit (fst (snd (gtable_unpack w v 31 8 4))) n = bit (drop_bit 8 (wire_word w)) n" by auto
  qed
  show "fst (snd (gtable_unpack w v 0 0 4)) = of_bool (bit (wire_word w) 0)"
    using gtable_unpack_lbit(3) [of 0 0 w v 4] assms
    by (intro bit_eqI) (auto simp: bit_wire_word bit_1_iff)
qed

lemma poll_works:
  fixes h :: history
  assumes "is_switch k mem" "sp_dry_run s = 0" "source \<in> {TS_PTPTSCLK, TS_PTPCLK}" "0 \<le> port" "port < 5" "0 \<le> i" "i < 2"
  defines "m \<equiv> registers_after mem h" and "w \<equiv> wire_word (registers_after mem h (ts_register port i))"
  shows "\<exists>es. run_state (sja1105_ptpegr_ts_poll k s source port i ts) h =
      ((if bit w 0
        then (0, sja1105_ptp_time_to_timespec (reconstruct (if IS_ET (sp_device_id s) then 0xFFFFFF else 0xFFFFFFFF)
          (reg64 m (source_register (sp_device_id s) source)) (drop_bit 8 w)))
        else (- EAGAIN, ts)), h @ es) \<and> sent_writes es = []"
proof -
  have m4: "length (m x) = 4" for x using assms(1) length_registers_after by (simp add: m_def is_switch_def)
  have "load m (ts_register port i) 1 = m (ts_register port i)" by (simp add: load_def)
  then obtain es where es: "run_state (sja1105_spi_send_packed_buf k s SPI_READ (CORE_ADDR + 0xC0 + of_int (2 * port + i)) (replicate 4 0) 4) h =
      ((0, m (ts_register port i)), h @ es)" "sent_writes es = []"
    using read_works [OF assms(1,2), of 1 "replicate 4 0" "CORE_ADDR + 0xC0 + of_int (2 * port + i)" h]
      ts_register_address [OF assms(4-7)] by (auto simp: m_def)
  define a :: u64 where "a = (if source = TS_PTPCLK then if IS_ET (sp_device_id s) then 0x18 else 0x19
    else if IS_ET (sp_device_id s) then 0x1B else 0x1C)"
  have a: "unat (take_bit 21 a) = source_register (sp_device_id s) source" by (simp add: a_def source_register_def)
  have "registers_after mem (h @ es) = m" using es(2) by (simp add: registers_after_def m_def)
  then obtain fs where fs: "run_state (sja1105_spi_send_int k s SPI_READ a 0 8) (h @ es) =
      ((0, Some (reg64 m (source_register (sp_device_id s) source))), h @ es @ fs)" "sent_writes fs = []"
    using read_int8_works [OF assms(1,2), of a 0 "h @ es"] a by auto
  have read: "sja1105_ptp_read_reg k s a 0 8 = sja1105_spi_send_int k s SPI_READ a 0 8"
    by (simp add: sja1105_ptp_read_reg_def)
  have s: "(source \<noteq> TS_PTPCLK \<and> source \<noteq> TS_PTPTSCLK) = False" using assms(3) by auto
  have "(push_bit 24 1 - 1 :: u64) = 0xFFFFFF" "(push_bit 32 1 - 1 :: u64) = 0xFFFFFFFF" by simp_all
  note masks = this
  have "run_state (sja1105_ptpegr_ts_poll k s source port i ts) h =
      ((if bit w 0
        then (0, sja1105_ptp_time_to_timespec (reconstruct (if IS_ET (sp_device_id s) then 0xFFFFFF else 0xFFFFFFFF)
          (reg64 m (source_register (sp_device_id s) source)) (drop_bit 8 w)))
        else (- EAGAIN, ts)), h @ (if bit w 0 then es @ fs else es))"
    unfolding sja1105_ptpegr_ts_poll_def Let_def a_def [symmetric] s masks read
    using es(1) fs(1)
    by (cases "bit w 0") (simp_all add: timestamp_fields m4 w_def [folded m_def, symmetric] reconstruct_def Let_def)
  then show ?thesis using es(2) fs(2) by (intro exI [of _ "if bit w 0 then es @ fs else es"]) simp
qed

lemma reconstruct_arith:
  fixes c t :: int
  assumes "t < c" "c - t \<le> 16777216"
  shows "c - c mod 16777216 + t mod 16777216 - (if c mod 16777216 \<le> t mod 16777216 then 16777216 else 0) = t"
proof -
  define qc qt rc rt where "qc = c div 16777216" and "qt = t div 16777216" and "rc = c mod 16777216" and "rt = t mod 16777216"
  have c: "c = 16777216 * qc + rc" "0 \<le> rc" "rc < 16777216" by (simp_all add: qc_def rc_def)
  have t: "t = 16777216 * qt + rt" "0 \<le> rt" "rt < 16777216" by (simp_all add: qt_def rt_def)
  have "rc \<le> rt \<Longrightarrow> qc = qt + 1" "\<not> rc \<le> rt \<Longrightarrow> qc = qt" using assms c t by linarith+
  then show ?thesis using c t by (simp add: rc_def [symmetric] rt_def [symmetric])
qed

lemma reconstruct_24:
  assumes "t < c" "unat c - unat t \<le> 2 ^ 24"
  shows "reconstruct 0xFFFFFF c (take_bit 24 t) = t"
proof -
  have m: "(0xFFFFFF :: u64) = mask 24" by (simp add: mask_eq_exp_minus_1)
  have lo: "c AND mask 24 = take_bit 24 c" by (simp add: take_bit_eq_mask)
  have "(c AND NOT (mask 24)) AND take_bit 24 t = 0"
    by (rule bit_eqI) (auto simp: bit_and_iff bit_not_iff bit_mask_iff bit_take_bit_iff)
  then have "(c AND NOT (mask 24)) OR take_bit 24 t = (c AND NOT (mask 24)) + take_bit 24 t"
    by (simp add: disjunctive_add_eq_or)
  moreover have "c AND NOT (mask 24) = c - take_bit 24 c"
  proof -
    have "(c AND NOT (mask 24)) + (c AND mask 24) = (c AND NOT (mask 24)) OR (c AND mask 24)"
      by (rule disjunctive_add_eq_or) (auto intro!: bit_eqI simp: bit_and_iff bit_not_iff)
    also have "\<dots> = c" by (auto intro!: bit_eqI simp: bit_or_iff bit_and_iff bit_not_iff)
    finally show ?thesis unfolding lo by (simp add: algebra_simps)
  qed
  ultimately have sum: "(c AND NOT (mask 24)) OR take_bit 24 t = c - take_bit 24 c + take_bit 24 t" by (simp only:)
  have u: "uint (take_bit 24 x) = uint x mod 16777216" for x :: u64
    unfolding unsigned_take_bit_eq by (simp add: take_bit_eq_mod)
  have le: "take_bit 24 c \<le> take_bit 24 t \<longleftrightarrow> uint c mod 16777216 \<le> uint t mod 16777216"
    by (simp add: word_le_def u)
  have "uint t < uint c" "uint c - uint t \<le> 16777216"
  proof -
    have "unat t < unat c" "unat c - unat t \<le> 16777216" using assms by (simp_all add: word_less_nat_alt)
    then have "int (unat t) < int (unat c)" "int (unat c) - int (unat t) \<le> 16777216" by linarith+
    then show "uint t < uint c" "uint c - uint t \<le> 16777216" unfolding uint_nat by simp_all
  qed
  note arith = reconstruct_arith [OF this]
  have as_int: "(if P then c - a + b - 16777216 else c - a + b) = word_of_int (uint c - uint a + uint b - (if P then 16777216 else 0))"
    for a b :: u64 and P by simp
  have m1: "mask 24 + 1 = (16777216 :: u64)" by (simp add: mask_eq_exp_minus_1)
  have "reconstruct 0xFFFFFF c (take_bit 24 t) =
      word_of_int (uint c - uint c mod 16777216 + uint t mod 16777216 - (if uint c mod 16777216 \<le> uint t mod 16777216 then 16777216 else 0))"
    unfolding reconstruct_def m lo sum Let_def le m1
    using as_int [of "uint c mod 16777216 \<le> uint t mod 16777216" "take_bit 24 c" "take_bit 24 t"] unfolding u .
  then show ?thesis unfolding arith by simp
qed

text \<open>
  C28: on E/T, where a timestamp has 24 bits, the time at which a frame was sent is reconstructed exactly from
  the clock read later, provided at most 2^24 ticks have passed since then, and at least one; without a new
  timestamp the caller is told to try again.
\<close>

theorem ptpegr_ts_poll_et:
  assumes "is_switch k mem" "sp_dry_run s = 0" "IS_ET (sp_device_id s)" "source \<in> {TS_PTPTSCLK, TS_PTPCLK}"
    "0 \<le> port" "port < 5" "0 \<le> i" "i < 2"
    "drop_bit 8 (wire_word (registers_after mem h (ts_register port i))) = take_bit 24 t"
    "t < reg64 (registers_after mem h) (source_register (sp_device_id s) source)"
    "unat (reg64 (registers_after mem h) (source_register (sp_device_id s) source)) - unat t \<le> 2 ^ 24"
  shows "\<exists>h'. run_state (sja1105_ptpegr_ts_poll k s source port i ts) h =
    ((if bit (wire_word (registers_after mem h (ts_register port i))) 0 then (0, sja1105_ptp_time_to_timespec t)
      else (- EAGAIN, ts)), h')"
  using poll_works [OF assms(1,2,4-8), where h = h and ts = ts] reconstruct_24 [OF assms(10,11)] assms(3,9) by auto

definition stamped_registers :: registers where
  "stamped_registers = (\<lambda>x. if x = 0xC2 then [0xFF, 0xFF, 0xF0, 0x01] else if x = 0x18 then [0x03, 0, 0, 0x10] else [0, 0, 0, 0])"

theorem ptpegr_ts_poll_et_witness:
  "\<exists>h'. run_state (sja1105_ptpegr_ts_poll (switch_kernel stamped_registers) (example_setup\<lparr>sp_device_id := SJA1105T_DEVICE_ID\<rparr>)
      TS_PTPCLK 1 0 \<lparr>tv_sec = 0, tv_nsec = 0\<rparr>) [] = ((0, sja1105_ptp_time_to_timespec 0x02FFFFF0), h')"
proof -
  have sw: "is_switch (switch_kernel stamped_registers) stamped_registers"
    by (rule switch_kernel_is_switch) (simp add: stamped_registers_def)
  have w: "wire_word [0xFF, 0xFF, 0xF0, 0x01] = 0xFFFFF001" "wire_word [0x03, 0, 0, 0x10] = 0x03000010" "wire_word [0, 0, 0, 0] = 0"
    by (simp_all add: wire_word_def be32_def)
  have r: "ts_register 1 0 = 0xC2" "source_register SJA1105T_DEVICE_ID TS_PTPCLK = 0x18"
    by (simp_all add: ts_register_def source_register_def IS_ET_def)
  have c: "reg64 stamped_registers 0x18 = 0x03000010"
    by (simp add: reg64_def stamped_registers_def w)
  have b: "bit (0xFFFFF001 :: u64) 0" by simp
  let ?s = "example_setup\<lparr>sp_device_id := SJA1105T_DEVICE_ID\<rparr>"
  have "registers_after stamped_registers [] = stamped_registers" by (simp add: registers_after_def)
  moreover have "sp_dry_run ?s = 0" "IS_ET (sp_device_id ?s)" "sp_device_id ?s = SJA1105T_DEVICE_ID"
    by (simp_all add: example_setup_def IS_ET_def)
  moreover have "stamped_registers 0xC2 = [0xFF, 0xFF, 0xF0, 0x01]" by (simp add: stamped_registers_def)
  ultimately show ?thesis
    using ptpegr_ts_poll_et [OF sw, of ?s TS_PTPCLK 1 0 "[]" 50331632 "\<lparr>tv_sec = 0, tv_nsec = 0\<rparr>"] b
    by (simp add: r c w del: switch_kernel_def)
qed

text \<open>
  On P/Q/R/S the time that is returned has, in its low 32 bits, nothing but the upper 24 bits of the
  timestamp register: the bits 24 to 31 of the time are lost.
\<close>

theorem ptpegr_ts_poll_pqrs:
  assumes "is_switch k mem" "sp_dry_run s = 0" "\<not> IS_ET (sp_device_id s)" "source \<in> {TS_PTPTSCLK, TS_PTPCLK}"
    "0 \<le> port" "port < 5" "0 \<le> i" "i < 2" "bit (wire_word (registers_after mem h (ts_register port i))) 0"
  shows "\<exists>t h'. run_state (sja1105_ptpegr_ts_poll k s source port i ts) h = ((0, sja1105_ptp_time_to_timespec t), h') \<and>
    take_bit 32 t = drop_bit 8 (wire_word (registers_after mem h (ts_register port i))) \<and> take_bit 32 t < 2 ^ 24"
proof -
  let ?w = "wire_word (registers_after mem h (ts_register port i))"
  let ?c = "reg64 (registers_after mem h) (source_register (sp_device_id s) source)"
  have p: "bit (drop_bit 8 ?w) j \<Longrightarrow> j < 24" for j
    using wire_word_32 [of "registers_after mem h (ts_register port i)"] assms(1) length_registers_after [of mem h "ts_register port i"]
    by (auto simp: is_switch_def bit_drop_bit_eq bit_wire_word)
  have m: "(0xFFFFFFFF :: u64) = mask 32" by (simp add: mask_eq_exp_minus_1)
  have "take_bit 32 ((?c AND NOT (mask 32)) OR drop_bit 8 ?w) = drop_bit 8 ?w"
    by (rule bit_eqI) (auto simp: bit_take_bit_iff bit_or_iff bit_and_iff bit_not_iff bit_mask_iff dest: p)
  moreover have "take_bit 32 (x - (mask 32 + 1)) = take_bit 32 x" for x :: u64
  proof -
    have "uint (take_bit 32 (x - 4294967296)) = uint (take_bit 32 x)"
      unfolding unsigned_take_bit_eq unfolding take_bit_eq_mod uint_word_ariths by (simp add: mod_mod_cancel)
    then have "take_bit 32 (x - 4294967296) = take_bit 32 x" by (rule word_uint_eqI)
    then show ?thesis by (simp add: mask_eq_exp_minus_1)
  qed
  ultimately have "take_bit 32 (reconstruct 0xFFFFFFFF ?c (drop_bit 8 ?w)) = drop_bit 8 ?w"
    unfolding reconstruct_def m Let_def by simp
  moreover have "drop_bit 8 ?w < 2 ^ 24"
  proof -
    have "take_bit 24 (drop_bit 8 ?w) = drop_bit 8 ?w" by (rule bit_eqI) (auto simp: bit_take_bit_iff dest: p)
    then have "unat (drop_bit 8 ?w) = take_bit 24 (unat (drop_bit 8 ?w))" by (metis unsigned_take_bit_eq)
    then have "unat (drop_bit 8 ?w) < 2 ^ 24" by (metis take_bit_nat_less_exp)
    then show ?thesis by (simp add: word_less_nat_alt)
  qed
  ultimately show ?thesis
    using poll_works [OF assms(1,2,4-8), where h = h and ts = ts] assms(3,9)
    by (intro exI [of _ "reconstruct 0xFFFFFFFF ?c (drop_bit 8 ?w)"]) auto
qed

theorem ptpegr_ts_poll_pqrs_witness:
  "\<exists>t h'. run_state (sja1105_ptpegr_ts_poll (switch_kernel stamped_registers) (example_setup\<lparr>sp_device_id := SJA1105QS_DEVICE_ID\<rparr>)
      TS_PTPCLK 1 0 \<lparr>tv_sec = 0, tv_nsec = 0\<rparr>) [] = ((0, sja1105_ptp_time_to_timespec t), h') \<and> take_bit 32 t = 0xFFFFF0"
proof -
  let ?s = "example_setup\<lparr>sp_device_id := SJA1105QS_DEVICE_ID\<rparr>"
  have sw: "is_switch (switch_kernel stamped_registers) stamped_registers"
    by (rule switch_kernel_is_switch) (simp add: stamped_registers_def)
  have w: "wire_word (registers_after stamped_registers [] (ts_register 1 0)) = 0xFFFFF001"
    by (simp add: ts_register_def registers_after_def stamped_registers_def wire_word_def be32_def)
  have b: "bit (0xFFFFF001 :: u64) 0" "drop_bit 8 (0xFFFFF001 :: u64) = 0xFFFFF0" by simp_all
  have "sp_dry_run ?s = 0" "\<not> IS_ET (sp_device_id ?s)" by (simp_all add: example_setup_def IS_ET_def)
  then show ?thesis
    using ptpegr_ts_poll_pqrs [OF sw, of ?s TS_PTPCLK 1 0 "[]" "\<lparr>tv_sec = 0, tv_nsec = 0\<rparr>"] b unfolding w by auto
qed

section \<open>The rate\<close>

lemma round_half_even_near: "\<bar>of_int (round_half_even x) - x\<bar> \<le> 1 / 2"
proof -
  have "of_int \<lfloor>x\<rfloor> \<le> x" "x < of_int \<lfloor>x\<rfloor> + 1" using floor_correct [of x] by simp_all
  then show ?thesis by (auto simp: round_half_even_def Let_def abs_le_iff)
qed

lemma fraction_uint32: "unat (DOUBLE_FRACTION_AS_UINT32 p) = double_fraction p div 2 ^ 21"
proof -
  have m: "(0x7fffffff :: u64) = mask 31" by (simp add: mask_eq_exp_minus_1)
  have "drop_bit 21 p AND mask 31 = drop_bit 21 (take_bit 52 p)"
    by (rule bit_eqI) (auto simp: bit_and_iff bit_mask_iff bit_drop_bit_eq bit_take_bit_iff)
  then have d: "DOUBLE_FRACTION_AS_UINT32 p = ucast (drop_bit 21 (take_bit 52 p))"
    by (simp add: DOUBLE_FRACTION_AS_UINT32_def m)
  have "double_fraction p < 2 ^ 52"
    unfolding double_fraction_def unsigned_take_bit_eq by (rule take_bit_nat_less_exp)
  then have "double_fraction p div 2 ^ 21 < 2 ^ 32" by (simp add: less_mult_imp_div_less)
  moreover have "unat (drop_bit 21 (take_bit 52 p)) = double_fraction p div 2 ^ 21"
    unfolding double_fraction_def unat_drop_bit_eq unfolding drop_bit_eq_div ..
  ultimately show ?thesis unfolding d by (simp add: unsigned_ucast_eq take_bit_nat_eq_self)
qed

lemma fraction_msb: "DOUBLE_FRACTION_AS_UINT32 p OR 0x80000000 = DOUBLE_FRACTION_AS_UINT32 p + 0x80000000"
proof -
  have "\<not> bit (DOUBLE_FRACTION_AS_UINT32 p) 31"
  proof -
    have m: "(0x7fffffff :: u64) = mask 31" by (simp add: mask_eq_exp_minus_1)
    show ?thesis unfolding DOUBLE_FRACTION_AS_UINT32_def m by (auto simp: bit_ucast_iff bit_and_iff bit_mask_iff)
  qed
  moreover have top: "bit (0x80000000 :: u32) n \<longleftrightarrow> n = 31" for n
  proof -
    have "(0x80000000 :: u32) = 2 ^ 31" by simp
    then show ?thesis by (simp only: bit_2p) auto
  qed
  ultimately have "\<not> bit (DOUBLE_FRACTION_AS_UINT32 p AND 0x80000000) n" for n
    unfolding bit_and_iff top by blast
  then have "DOUBLE_FRACTION_AS_UINT32 p AND 0x80000000 = 0"
    using bit_eqI [of "DOUBLE_FRACTION_AS_UINT32 p AND 0x80000000" 0] by simp
  then show ?thesis by (simp add: disjunctive_add_eq_or)
qed

text \<open>Between 1 and 2 the exponent is 1023.\<close>

lemma double_value_1_2:
  assumes "1 \<le> double_value p" "double_value p < 2"
  shows "double_value p = of_nat (2 ^ 52 + double_fraction p) / 2 ^ 52"
proof -
  let ?e = "double_exponent p" and ?f = "double_fraction p"
  have f: "?f < 2 ^ 52" unfolding double_fraction_def unsigned_take_bit_eq by (rule take_bit_nat_less_exp)
  have fr: "(of_nat ?f :: rat) \<le> 2 ^ 52" using f by (metis less_imp_le of_nat_le_iff of_nat_numeral of_nat_power)
  have pos: "\<not> bit p 63"
  proof
    assume "bit p 63"
    then have "double_value p \<le> 0" by (simp add: double_value_def Let_def)
    then show False using assms(1) by simp
  qed
  have e0: "?e \<noteq> 0"
  proof
    assume "?e = 0"
    then have "double_value p = of_nat ?f / 2 ^ 1074" using pos by (simp add: double_value_def Let_def)
    also have "\<dots> \<le> 2 ^ 52 / 2 ^ 1074" using fr by (intro divide_right_mono) simp_all
    finally show False using assms(1) by simp
  qed
  then have v: "double_value p = of_nat (2 ^ 52 + ?f) * 2 ^ ?e / 2 ^ 1075" using pos by (simp add: double_value_def Let_def)
  define X :: rat where "X = of_nat (2 ^ 52 + ?f)"
  have X: "2 ^ 52 \<le> X" "X < 2 ^ 53"
  proof -
    have n: "2 ^ 52 \<le> 2 ^ 52 + ?f" "2 ^ 52 + ?f < 2 ^ 53" using f by simp_all
    have "(of_nat (2 ^ 52) :: rat) \<le> X" unfolding X_def of_nat_le_iff by (rule n(1))
    moreover have "X < of_nat (2 ^ 53)" unfolding X_def of_nat_less_iff by (rule n(2))
    ultimately show "2 ^ 52 \<le> X" "X < 2 ^ 53" by (simp_all only: of_nat_power of_nat_numeral)
  qed
  have v: "double_value p = X * 2 ^ ?e / 2 ^ 1075" using v by (simp only: X_def)
  then have bounds: "2 ^ 1075 \<le> X * 2 ^ ?e" "X * 2 ^ ?e < 2 * 2 ^ 1075"
    using assms by (simp_all only: pos_le_divide_eq pos_divide_less_eq zero_less_power zero_less_numeral mult_1)
  have "?e = 1023"
  proof (rule ccontr)
    assume "?e \<noteq> 1023"
    then consider "?e \<le> 1022" | "1024 \<le> ?e" by linarith
    then show False
    proof cases
      case 1
      then have "(2 :: rat) ^ ?e \<le> 2 ^ 1022" by (intro power_increasing) simp_all
      moreover have "0 \<le> X" unfolding X_def by (rule of_nat_0_le_iff)
      ultimately have "X * 2 ^ ?e < 2 ^ 53 * 2 ^ 1022" using X(2) by (intro mult_less_le_imp_less) simp_all
      then have "X * 2 ^ ?e < 2 ^ 1075" by (simp only: power_add [symmetric] Num.numeral_plus_numeral) simp
      then show False using bounds(1) by simp
    next
      case 2
      then have "(2 :: rat) ^ 1024 \<le> 2 ^ ?e" by (intro power_increasing) simp_all
      then have "2 ^ 52 * 2 ^ 1024 \<le> X * 2 ^ ?e" using X(1) by (intro mult_mono) simp_all
      then have "2 ^ 1076 \<le> X * 2 ^ ?e" by (simp only: power_add [symmetric]) simp
      then show False using bounds(2) by simp
    qed
  qed
  then have "double_value p = X * 2 ^ 1023 / 2 ^ 1075" using v by (simp only:)
  also have "\<dots> = X * 2 ^ 1023 / (2 ^ 52 * 2 ^ 1023)" by (simp only: power_add [symmetric]) simp
  also have "\<dots> = X / 2 ^ 52" by (rule nonzero_mult_divide_mult_cancel_right) simp
  finally show ?thesis by (simp only: X_def)
qed

lemma unat_fraction_less: "unat (DOUBLE_FRACTION_AS_UINT32 p) < 2 ^ 31"
proof -
  have "double_fraction p < 2 ^ 52" unfolding double_fraction_def unsigned_take_bit_eq by (rule take_bit_nat_less_exp)
  then show ?thesis unfolding fraction_uint32 by (simp add: less_mult_imp_div_less)
qed

lemma rate_from_1:
  assumes "1 \<le> double_value p" "double_value p < 2"
  shows "int (unat (DOUBLE_FRACTION_AS_UINT32 p OR 0x80000000)) = \<lfloor>double_value p * 2 ^ 31\<rfloor>"
proof -
  have "unat (DOUBLE_FRACTION_AS_UINT32 p) + unat (0x80000000 :: u32) < 2 ^ 32" using unat_fraction_less [of p] by simp
  then have "unat (DOUBLE_FRACTION_AS_UINT32 p OR 0x80000000) = double_fraction p div 2 ^ 21 + 2 ^ 31"
    unfolding fraction_msb by (simp add: unat_add_lem [THEN iffD1] fraction_uint32)
  also have "\<dots> = (2 ^ 52 + double_fraction p) div 2 ^ 21" by simp
  finally have r: "unat (DOUBLE_FRACTION_AS_UINT32 p OR 0x80000000) = (2 ^ 52 + double_fraction p) div 2 ^ 21" .
  have "double_value p * 2 ^ 31 = of_nat (2 ^ 52 + double_fraction p) / of_nat (2 ^ 21)"
    unfolding double_value_1_2 [OF assms] by simp
  then show ?thesis unfolding r by (simp only: floor_divide_of_nat_eq)
qed

lemma rate_below_1:
  assumes "0 < double_value p" "double_value p \<le> 1 - 1 / 2 ^ 52"
  shows "\<bar>double_value p * 2 ^ 31 - of_nat (unat (DOUBLE_FRACTION_AS_UINT32 (double_add_1 p)))\<bar> < 1"
proof -
  define x where "x = double_value p * 2 ^ 52"
  define n where "n = nat (round_half_even x)"
  have x: "0 < x" "x \<le> 2 ^ 52 - 1" using assms by (simp_all add: x_def field_simps)
  note near = round_half_even_near [of x]
  have "(of_int (- 1) :: rat) < of_int (round_half_even x)" "(of_int (round_half_even x) :: rat) < of_int 4503599627370496"
  proof -
    have "of_int (round_half_even x) - x \<le> 1 / 2" "x - of_int (round_half_even x) \<le> 1 / 2"
      using near unfolding abs_le_iff by simp_all
    moreover have "(of_int (- 1) :: rat) = - 1" "(of_int 4503599627370496 :: rat) = 4503599627370496"
      "x \<le> 4503599627370495" using x(2) by simp_all
    ultimately show "(of_int (- 1) :: rat) < of_int (round_half_even x)"
      "(of_int (round_half_even x) :: rat) < of_int 4503599627370496" using x(1) by linarith+
  qed
  then have r: "0 \<le> round_half_even x" "round_half_even x < 2 ^ 52" unfolding of_int_less_iff by simp_all
  then have n: "int n = round_half_even x" "n < 2 ^ 52" by (simp_all add: n_def nat_less_iff)
  have "unat (take_bit 52 (0x3FF0000000000000 + of_nat n :: u64)) = n"
  proof -
    have "unat (0x3FF0000000000000 + of_nat n :: u64) = 0x3FF0000000000000 + n"
      using n(2) unat_of_nat_64 [of "0x3FF0000000000000 + n"] by simp
    moreover have "(0x3FF0000000000000 + n) mod 2 ^ 52 = n"
    proof -
      have "0x3FF0000000000000 + n = n + 1023 * 2 ^ 52" by simp
      then show ?thesis using n(2) by (simp only: mod_mult_self1 mod_less)
    qed
    ultimately show ?thesis
      using n(2) unfolding unsigned_take_bit_eq by (simp add: take_bit_eq_mod)
  qed
  then have "double_fraction (double_add_1 p) = n"
  proof -
    assume u: "unat (take_bit 52 (0x3FF0000000000000 + of_nat n :: u64)) = n"
    have "(word_of_int (round_half_even x) :: u64) = of_nat n" unfolding n(1) [symmetric] by simp
    then show ?thesis using u unfolding double_fraction_def double_add_1_def x_def [symmetric] by (simp only:)
  qed
  then have d: "unat (DOUBLE_FRACTION_AS_UINT32 (double_add_1 p)) = n div 2 ^ 21" by (simp add: fraction_uint32)
  define q m where "q = n div 2 ^ 21" and "m = n mod 2 ^ 21"
  have nq: "(of_nat n :: rat) = 2 ^ 21 * of_nat q + of_nat m" "m \<le> 2 ^ 21 - 1"
  proof -
    have "n = 2 ^ 21 * q + m" by (simp add: q_def m_def)
    then have "(of_nat n :: rat) = of_nat (2 ^ 21 * q + m)" by (simp only:)
    then show "(of_nat n :: rat) = 2 ^ 21 * of_nat q + of_nat m" by simp
    show "m \<le> 2 ^ 21 - 1" unfolding m_def by (metis Suc_pred' less_Suc_eq_le mod_less_divisor zero_less_numeral zero_less_power)
  qed
  have mr: "(0 :: rat) \<le> of_nat m" "(of_nat m :: rat) \<le> 2097151" using nq(2) by simp_all
  have "\<bar>of_nat n - x\<bar> \<le> 1 / 2" using near n(1) by (metis of_int_of_nat_eq)
  then have "of_nat n - x \<le> 1 / 2" "x - of_nat n \<le> 1 / 2" unfolding abs_le_iff by simp_all
  moreover have "(of_nat n :: rat) = 2097152 * of_nat q + of_nat m" using nq(1) by simp
  ultimately have "x - 2097152 * of_nat q < 2097152" "2097152 * of_nat q - x < 2097152" using mr by linarith+
  then have "\<bar>x - 2097152 * of_nat q\<bar> < 2097152" by (intro abs_less_iff [THEN iffD2] conjI) linarith+
  moreover have "x = 2097152 * (double_value p * 2 ^ 31)" by (simp add: x_def)
  ultimately have "double_value p * 2 ^ 31 - of_nat q < 1" "of_nat q - double_value p * 2 ^ 31 < 1"
    unfolding abs_less_iff by linarith+
  then have "\<bar>double_value p * 2 ^ 31 - of_nat q\<bar> < 1" by (intro abs_less_iff [THEN iffD2] conjI) linarith+
  then show ?thesis unfolding d q_def .
qed


lemma one_and_a_half: "\<not> double_nan 0x3FF8000000000000" "double_value 0x3FF8000000000000 = 3 / 2"
  by (simp_all add: double_nan_def double_value_def double_exponent_def double_fraction_def Let_def)


text \<open>
  The largest double below 1 is rounded up to 1 in the sum, so that the rate becomes 0 instead of almost
  2^31: the clock would be stopped.
\<close>

theorem ptpclkrate_just_below_1:
  "double_value 0x3FEFFFFFFFFFFFFF = 1 - 1 / 2 ^ 53 \<and> sja1105_ptpclkrate_from_ratio 0x3FEFFFFFFFFFFFFF r = (0, 0)"
proof -
  have v: "double_value 0x3FEFFFFFFFFFFFFF = 1 - 1 / 2 ^ 53" "\<not> double_nan 0x3FEFFFFFFFFFFFFF"
    by (simp_all add: double_nan_def double_value_def double_exponent_def double_fraction_def Let_def)
  have "double_value 0x3FEFFFFFFFFFFFFF * 2 ^ 52 = 2 ^ 52 - 1 / 2" unfolding v(1) by (simp add: field_simps)
  moreover have "round_half_even (2 ^ 52 - 1 / 2) = 2 ^ 52"
  proof -
    have "\<lfloor>2 ^ 52 - 1 / 2 :: rat\<rfloor> = 2 ^ 52 - 1" by (simp add: floor_eq_iff)
    then show ?thesis by (simp add: round_half_even_def Let_def)
  qed
  ultimately have n: "round_half_even (double_value 0x3FEFFFFFFFFFFFFF * 2 ^ 52) = 2 ^ 52" by (simp only:)
  have "double_add_1 0x3FEFFFFFFFFFFFFF = 0x4000000000000000" unfolding double_add_1_def n by simp
  moreover have "DOUBLE_FRACTION_AS_UINT32 0x4000000000000000 = 0" by (simp add: DOUBLE_FRACTION_AS_UINT32_def)
  ultimately show ?thesis using v by (simp add: sja1105_ptpclkrate_from_ratio_def)
qed

section \<open>The schedule and the pin\<close>

text \<open>
  Whether the schedule runs is read from the command register, whose place depends on the family: 0 when
  it was started, 1 when it is stopped, -EINVAL when it is neither or when the device has no schedule.
\<close>

theorem ptp_qbv_running_state:
  assumes "is_switch k mem" "sp_dry_run s = 0"
  shows "\<exists>es. run_state (sja1105_ptp_qbv_running k s) h =
    ((let w = wire_word (registers_after mem h (if IS_ET (sp_device_id s) then 0x17 else 0x18))
      in if SUPPORTS_TSN (sp_device_id s) \<and> bit w 30 then 0 else if SUPPORTS_TSN (sp_device_id s) \<and> bit w 29 then 1
         else - EINVAL), h @ es) \<and> sent_writes es = []"
proof (cases "SUPPORTS_TSN (sp_device_id s)")
  case True
  let ?d = "sp_device_id s"
  define a :: u64 where "a = (if IS_PQRS ?d then 0x18 else 0x17)"
  define b where "b = registers_after mem h (if IS_ET ?d then 0x17 else 0x18)"
  have "unat (take_bit 21 a) = (if IS_ET ?d then 0x17 else 0x18)"
    using True by (auto simp: a_def SUPPORTS_TSN_def IS_ET_def IS_PQRS_def)
  then obtain es where es: "run_state (sja1105_spi_send_packed_buf k s SPI_READ a (replicate 4 0) 4) h = ((0, b), h @ es)"
    "sent_writes es = []"
    using read_works [OF assms, of 1 "replicate 4 0" a h] by (auto simp: b_def load_def)
  have len: "length b = 4" using assms(1) length_registers_after by (simp add: b_def is_switch_def)
  have rd: "entry_unpack (table_access ptp_cmd_et_layout 4 ptp_cmd_zero) b c = read_fields ptp_cmd_et_layout 4 b ptp_cmd_zero"
    "entry_unpack (table_access ptp_cmd_pqrs_layout 4 ptp_cmd_zero) b c = read_fields ptp_cmd_pqrs_layout 4 b ptp_cmd_zero" for c
    by (rule table_unpack_read [OF ptp_et.layout], rule table_unpack_read [OF ptp_pqrs.layout])
  have f: "field_of 4 b (fld g u i i) = of_bool (bit (wire_word b) i)" if "i < 32" for g u i
  proof (rule bit_eqI)
    fix n
    show "bit (field_of 4 b (fld g u i i)) n = bit (of_bool (bit (wire_word b) i) :: u64) n"
      using that len by (subst bit_field_of) (auto simp: field_ok_def fld_def width_def bit_wire_word bit_1_iff)
  qed
  let ?c = "sja1105_ptp_cmd_unpack b ptp_cmd_zero ?d"
  have "?c = read_fields (ptp_layout ?d) 4 b ptp_cmd_zero"
    by (simp add: sja1105_ptp_cmd_unpack_def sja1105_ptp_cmd_access_def rd [unfolded entry_unpack_def])
  then have "cmd_ptpstrtsch ?c = of_bool (bit (wire_word b) 30)" "cmd_ptpstopsch ?c = of_bool (bit (wire_word b) 29)"
    using f [of 30 cmd_ptpstrtsch cmd_ptpstrtsch_update, unfolded fld_def] f [of 29 cmd_ptpstopsch cmd_ptpstopsch_update, unfolded fld_def]
    by (simp_all add: read_fields_def ptp_cmd_et_layout_def ptp_cmd_pqrs_layout_def fld_def)
  then show ?thesis
    using True es unfolding sja1105_ptp_qbv_running_def a_def [symmetric] Let_def
    by (auto simp: b_def [symmetric])
next
  case False
  then show ?thesis by (auto simp: sja1105_ptp_qbv_running_def)
qed

theorem ptp_qbv_running_state_witness:
  "\<exists>h'. run_state (sja1105_ptp_qbv_running (switch_kernel (\<lambda>_. [0x20, 0, 0, 0])) (example_setup\<lparr>sp_device_id := SJA1105QS_DEVICE_ID\<rparr>)) [] =
     (1, h')"
proof -
  have "wire_word [0x20, 0, 0, 0] = 0x20000000" by (simp add: wire_word_def be32_def)
  then have "\<not> bit (wire_word [0x20, 0, 0, 0]) 30" "bit (wire_word [0x20, 0, 0, 0]) 29" by simp_all
  then show ?thesis
    using ptp_qbv_running_state [OF switch_kernel_is_switch, of "\<lambda>_. [0x20, 0, 0, 0]" "example_setup\<lparr>sp_device_id := SJA1105QS_DEVICE_ID\<rparr>" "[]"]
    by (auto simp: example_setup_def SUPPORTS_TSN_def registers_after_def)
qed

text \<open>
  The duration of the pin's pulse has 32 bits: a time of 2^32 - 1 ticks or more is refused and nothing is
  sent; any other is written to its register as it is.
\<close>

theorem ptp_pin_duration_range:
  assumes "bus_works k" "sp_dry_run s = 0"
  shows "if 2 ^ 32 - 1 \<le> unat (sja1105_timespec_to_ptp_time ts)
    then run_state (sja1105_ptp_pin_duration_set k s ts) h = (- ERANGE, h)
    else \<exists>es. run_state (sja1105_ptp_pin_duration_set k s ts) h = (0, h @ es) \<and>
      (\<exists>b. sent_writes es = [(if IS_ET (sp_device_id s) then 0x16 else 0x17, b)] \<and>
        wire_word b = sja1105_timespec_to_ptp_time ts)"
proof -
  define t where "t = sja1105_timespec_to_ptp_time ts"
  have r: "UINT32_MAX \<le> t \<longleftrightarrow> 2 ^ 32 - 1 \<le> unat t" by (simp add: word_le_nat_alt)
  have "\<exists>es. run_state (sja1105_ptp_write_reg k s a t 4) h = (0, h @ es) \<and> sent_writes es = [(unat (take_bit 21 a), be_bytes t)]" for a
    using performsD [OF performs_write_reg(2) [OF assms]] .
  note w = this [of "if IS_ET (sp_device_id s) then SJA1105ET_PTPPINDUR_ADDR else SJA1105PQRS_PTPPINDUR_ADDR"]
  show ?thesis
  proof (cases "UINT32_MAX \<le> t")
    case True
    then show ?thesis unfolding r by (simp add: sja1105_ptp_pin_duration_set_def Let_def t_def [symmetric] r)
  next
    case False
    then have "unat t < 2 ^ 32" by (simp add: r)
    then have "unat (take_bit 32 t) = unat t" unfolding unsigned_take_bit_eq by (simp add: take_bit_nat_eq_self)
    then have "take_bit 32 t = t" by (simp only: word_unat_eq_iff)
    moreover have "sja1105_ptp_pin_duration_set k s ts = sja1105_ptp_write_reg k s
        (if IS_ET (sp_device_id s) then SJA1105ET_PTPPINDUR_ADDR else SJA1105PQRS_PTPPINDUR_ADDR) t 4"
      unfolding sja1105_ptp_pin_duration_set_def Let_def t_def [symmetric] using False by (simp only: if_False)
    ultimately show ?thesis using w False by (auto simp: r t_def [symmetric] wire_word_be_bytes split: if_splits)
  qed
qed

theorem ptp_pin_duration_range_witness:
  "run_state (sja1105_ptp_pin_duration_set (switch_kernel example_registers) example_setup \<lparr>tv_sec = 60, tv_nsec = 0\<rparr>) [] = (- ERANGE, [])"
proof -
  have "sja1105_timespec_to_ptp_time \<lparr>tv_sec = 60, tv_nsec = 0\<rparr> = 7500000000"
    by (simp add: sja1105_timespec_to_ptp_time_def signed_divide_int_def)
  then show ?thesis
    using ptp_pin_duration_range [of "switch_kernel example_registers" example_setup "\<lparr>tv_sec = 60, tv_nsec = 0\<rparr>" "[]"] example_is_switch
    by (simp add: is_switch_def example_setup_def)
qed

end
