(* ===== verification/Members.thy ===== *)
theory Members
  imports Static_Config
begin

unbundle bit_operations_syntax

text \<open>
  The members of the table entries under their names: \<^verbatim>\<open>src/tool/config-modify.c\<close> keeps for every table
  a list of names, a list of pointers to the members, and a list of their element counts. The XML files
  use the same names. The locale \<open>member_table\<close> is what the operations on named members rely on.
\<close>

section \<open>Named members\<close>

text \<open>
  \<open>mem_put\<close> stores numbers from the first element on; a member that is no array has one element.
\<close>

record 'e member =
  mem_name :: string
  mem_count :: nat
  mem_get :: "'e \<Rightarrow> u64 list"
  mem_put :: "u64 list \<Rightarrow> 'e \<Rightarrow> 'e"

definition scalar :: "string \<Rightarrow> ('e \<Rightarrow> u64) \<Rightarrow> ((u64 \<Rightarrow> u64) \<Rightarrow> 'e \<Rightarrow> 'e) \<Rightarrow> 'e member" where
  "scalar name sel upd =
     \<lparr>mem_name = name, mem_count = 1, mem_get = \<lambda>e. [sel e],
      mem_put = \<lambda>vs. upd (\<lambda>x. case vs of [] \<Rightarrow> x | v # _ \<Rightarrow> v)\<rparr>"

definition vector ::
    "string \<Rightarrow> nat \<Rightarrow> ('e \<Rightarrow> u64 list) \<Rightarrow> ((u64 list \<Rightarrow> u64 list) \<Rightarrow> 'e \<Rightarrow> 'e) \<Rightarrow> 'e member" where
  "vector name n sel upd =
     \<lparr>mem_name = name, mem_count = n, mem_get = sel,
      mem_put = \<lambda>vs. upd (\<lambda>xs. vs @ drop (length vs) xs)\<rparr>"

named_theorems table_members "the members of the tables"

section \<open>Members that do not share storage\<close>

text \<open>The arrays of an entry have their C lengths.\<close>

definition members_shape :: "'e member list \<Rightarrow> 'e \<Rightarrow> bool" where
  "members_shape members e \<longleftrightarrow> list_all (\<lambda>m. length (mem_get m e) = mem_count m) members"

definition member_lens :: "'e member \<Rightarrow> bool" where
  "member_lens m \<longleftrightarrow>
     (\<forall>vs e. length vs \<le> mem_count m \<longrightarrow> length (mem_get m e) = mem_count m \<longrightarrow>
        mem_get m (mem_put m vs e) = vs @ drop (length vs) (mem_get m e))"

definition member_separate :: "'e member \<Rightarrow> 'e member \<Rightarrow> bool" where
  "member_separate m m' \<longleftrightarrow>
     (\<forall>vs e. mem_get m' (mem_put m vs e) = mem_get m' e) \<and> (\<forall>vs e. mem_get m (mem_put m' vs e) = mem_get m e)"

fun members_separate :: "'e member list \<Rightarrow> bool" where
  "members_separate [] \<longleftrightarrow> True"
| "members_separate (m # ms) \<longleftrightarrow> list_all (member_separate m) ms \<and> members_separate ms"

lemma members_separateD:
  "members_separate ms \<Longrightarrow> distinct (map mem_name ms) \<Longrightarrow> m \<in> set ms \<Longrightarrow> m' \<in> set ms \<Longrightarrow>
   mem_name m \<noteq> mem_name m' \<Longrightarrow> member_separate m m'"
  by (induction ms) (auto simp: list_all_iff member_separate_def)

locale member_table =
  fixes members :: "'e member list"
  assumes lenses: "list_all member_lens members"
    and separate: "members_separate members"
    and names: "distinct (map mem_name members)"
    and counts: "list_all (\<lambda>m. 0 < mem_count m) members"
begin

lemma get_put:
  "m \<in> set members \<Longrightarrow> members_shape members e \<Longrightarrow> length vs \<le> mem_count m \<Longrightarrow>
   mem_get m (mem_put m vs e) = vs @ drop (length vs) (mem_get m e)"
  using lenses by (auto simp: list_all_iff member_lens_def members_shape_def)

lemma get_put_other:
  "m \<in> set members \<Longrightarrow> m' \<in> set members \<Longrightarrow> mem_name m \<noteq> mem_name m' \<Longrightarrow>
   mem_get m' (mem_put m vs e) = mem_get m' e"
  using members_separateD [OF separate names] by (simp add: member_separate_def)

lemma name_inject: "m \<in> set members \<Longrightarrow> m' \<in> set members \<Longrightarrow> mem_name m = mem_name m' \<Longrightarrow> m = m'"
  using names by (auto simp: distinct_map dest: inj_onD)

lemma put_shape:
  assumes "m \<in> set members" "members_shape members e" "length vs \<le> mem_count m"
  shows "members_shape members (mem_put m vs e)"
  unfolding members_shape_def list_all_iff
proof
  fix m' assume m': "m' \<in> set members"
  then have len: "length (mem_get m' e) = mem_count m'" using assms(2) by (auto simp: members_shape_def list_all_iff)
  show "length (mem_get m' (mem_put m vs e)) = mem_count m'"
  proof (cases "mem_name m = mem_name m'")
    case True
    then have "m = m'" using name_inject assms(1) m' by blast
    then show ?thesis using get_put [OF assms] assms(3) len by simp
  next
    case False
    then show ?thesis using get_put_other [OF assms(1) m' False] len by simp
  qed
qed

end

lemma member_lens_scalar:
  "(\<And>f e. sel (upd f e) = f (sel e)) \<Longrightarrow> member_lens (scalar name sel upd)"
  by (auto simp: member_lens_def scalar_def split: list.splits)

lemma member_lens_vector:
  "(\<And>f e. sel (upd f e) = f (sel e)) \<Longrightarrow> member_lens (vector name n sel upd)"
  by (auto simp: member_lens_def vector_def)

lemma member_simps [simp]:
  "mem_name (scalar name sel upd) = name" "mem_count (scalar name sel upd) = 1"
  "mem_get (scalar name sel upd) = (\<lambda>e. [sel e])"
  "mem_put (scalar name sel upd) = (\<lambda>vs. upd (\<lambda>x. case vs of [] \<Rightarrow> x | v # _ \<Rightarrow> v))"
  "mem_name (vector name n sel' upd') = name" "mem_count (vector name n sel' upd') = n"
  "mem_get (vector name n sel' upd') = sel'"
  "mem_put (vector name n sel' upd') = (\<lambda>vs. upd' (\<lambda>xs. vs @ drop (length vs) xs))"
  by (simp_all add: scalar_def vector_def)

section \<open>The tables\<close>

definition schedule_members :: "schedule_entry member list" where [table_members]:
  "schedule_members =
    [scalar ''winstindex'' sch_winstindex sch_winstindex_update,
     scalar ''winend'' sch_winend sch_winend_update,
     scalar ''winst'' sch_winst sch_winst_update,
     scalar ''destports'' sch_destports sch_destports_update,
     scalar ''setvalid'' sch_setvalid sch_setvalid_update,
     scalar ''txen'' sch_txen sch_txen_update,
     scalar ''resmedia_en'' sch_resmedia_en sch_resmedia_en_update,
     scalar ''resmedia'' sch_resmedia sch_resmedia_update,
     scalar ''vlindex'' sch_vlindex sch_vlindex_update,
     scalar ''delta'' sch_delta sch_delta_update]"

interpretation schedule_members: member_table schedule_members
  by unfold_locales (simp_all add: table_members member_lens_scalar member_lens_vector member_separate_def)

definition schedule_entry_points_members :: "schedule_entry_points_entry member list" where [table_members]:
  "schedule_entry_points_members =
    [scalar ''subschindx'' sep_subschindx sep_subschindx_update,
     scalar ''delta'' sep_delta sep_delta_update,
     scalar ''address'' sep_address sep_address_update]"

interpretation schedule_entry_points_members: member_table schedule_entry_points_members
  by unfold_locales (simp_all add: table_members member_lens_scalar member_lens_vector member_separate_def)

definition l2_lookup_members :: "l2_lookup_entry member list" where [table_members]:
  "l2_lookup_members =
    [scalar ''tsreg'' l2l_tsreg l2l_tsreg_update,
     scalar ''mirrvlan'' l2l_mirrvlan l2l_mirrvlan_update,
     scalar ''takets'' l2l_takets l2l_takets_update,
     scalar ''mirr'' l2l_mirr l2l_mirr_update,
     scalar ''retag'' l2l_retag l2l_retag_update,
     scalar ''mask_iotag'' l2l_mask_iotag l2l_mask_iotag_update,
     scalar ''mask_vlanid'' l2l_mask_vlanid l2l_mask_vlanid_update,
     scalar ''mask_macaddr'' l2l_mask_macaddr l2l_mask_macaddr_update,
     scalar ''iotag'' l2l_iotag l2l_iotag_update,
     scalar ''vlanid'' l2l_vlanid l2l_vlanid_update,
     scalar ''macaddr'' l2l_macaddr l2l_macaddr_update,
     scalar ''destports'' l2l_destports l2l_destports_update,
     scalar ''enfport'' l2l_enfport l2l_enfport_update]"

interpretation l2_lookup_members: member_table l2_lookup_members
  by unfold_locales (simp_all add: table_members member_lens_scalar member_lens_vector member_separate_def)

definition l2_policing_members :: "l2_policing_entry member list" where [table_members]:
  "l2_policing_members =
    [scalar ''sharindx'' l2p_sharindx l2p_sharindx_update,
     scalar ''smax'' l2p_smax l2p_smax_update,
     scalar ''rate'' l2p_rate l2p_rate_update,
     scalar ''maxlen'' l2p_maxlen l2p_maxlen_update,
     scalar ''partition'' l2p_partition l2p_partition_update]"

interpretation l2_policing_members: member_table l2_policing_members
  by unfold_locales (simp_all add: table_members member_lens_scalar member_lens_vector member_separate_def)

definition vlan_lookup_members :: "vlan_lookup_entry member list" where [table_members]:
  "vlan_lookup_members =
    [scalar ''ving_mirr'' vln_ving_mirr vln_ving_mirr_update,
     scalar ''vegr_mirr'' vln_vegr_mirr vln_vegr_mirr_update,
     scalar ''vmemb_port'' vln_vmemb_port vln_vmemb_port_update,
     scalar ''vlan_bc'' vln_vlan_bc vln_vlan_bc_update,
     scalar ''tag_port'' vln_tag_port vln_tag_port_update,
     scalar ''vlanid'' vln_vlanid vln_vlanid_update]"

interpretation vlan_lookup_members: member_table vlan_lookup_members
  by unfold_locales (simp_all add: table_members member_lens_scalar member_lens_vector member_separate_def)

definition l2_forwarding_members :: "l2_forwarding_entry member list" where [table_members]:
  "l2_forwarding_members =
    [scalar ''bc_domain'' l2f_bc_domain l2f_bc_domain_update,
     scalar ''reach_port'' l2f_reach_port l2f_reach_port_update,
     scalar ''fl_domain'' l2f_fl_domain l2f_fl_domain_update,
     vector ''vlan_pmap'' 8 l2f_vlan_pmap l2f_vlan_pmap_update]"

interpretation l2_forwarding_members: member_table l2_forwarding_members
  by unfold_locales (simp_all add: table_members member_lens_scalar member_lens_vector member_separate_def)

definition mac_config_members :: "mac_config_entry member list" where [table_members]:
  "mac_config_members =
    [vector ''top'' 8 mac_top mac_top_update,
     vector ''base'' 8 mac_base mac_base_update,
     vector ''enabled'' 8 mac_enabled mac_enabled_update,
     scalar ''ifg'' mac_ifg mac_ifg_update,
     scalar ''speed'' mac_speed mac_speed_update,
     scalar ''tp_delin'' mac_tp_delin mac_tp_delin_update,
     scalar ''tp_delout'' mac_tp_delout mac_tp_delout_update,
     scalar ''maxage'' mac_maxage mac_maxage_update,
     scalar ''vlanprio'' mac_vlanprio mac_vlanprio_update,
     scalar ''vlanid'' mac_vlanid mac_vlanid_update,
     scalar ''ing_mirr'' mac_ing_mirr mac_ing_mirr_update,
     scalar ''egr_mirr'' mac_egr_mirr mac_egr_mirr_update,
     scalar ''drpnona664'' mac_drpnona664 mac_drpnona664_update,
     scalar ''drpdtag'' mac_drpdtag mac_drpdtag_update,
     scalar ''drpsotag'' mac_drpsotag mac_drpsotag_update,
     scalar ''drpsitag'' mac_drpsitag mac_drpsitag_update,
     scalar ''drpuntag'' mac_drpuntag mac_drpuntag_update,
     scalar ''retag'' mac_retag mac_retag_update,
     scalar ''dyn_learn'' mac_dyn_learn mac_dyn_learn_update,
     scalar ''egress'' mac_egress mac_egress_update,
     scalar ''ingress'' mac_ingress mac_ingress_update,
     scalar ''mirrcie'' mac_mirrcie mac_mirrcie_update,
     scalar ''mirrcetag'' mac_mirrcetag mac_mirrcetag_update,
     scalar ''ingmirrvid'' mac_ingmirrvid mac_ingmirrvid_update,
     scalar ''ingmirrpcp'' mac_ingmirrpcp mac_ingmirrpcp_update,
     scalar ''ingmirrdei'' mac_ingmirrdei mac_ingmirrdei_update]"

interpretation mac_config_members: member_table mac_config_members
  by unfold_locales (simp_all add: table_members member_lens_scalar member_lens_vector member_separate_def)

definition schedule_params_members :: "schedule_params_entry member list" where [table_members]:
  "schedule_params_members =
    [vector ''subscheind'' 8 schp_subscheind schp_subscheind_update]"

interpretation schedule_params_members: member_table schedule_params_members
  by unfold_locales (simp_all add: table_members member_lens_scalar member_lens_vector member_separate_def)

definition schedule_entry_points_params_members :: "schedule_entry_points_params_entry member list" where [table_members]:
  "schedule_entry_points_params_members =
    [scalar ''clksrc'' sepp_clksrc sepp_clksrc_update,
     scalar ''actsubsch'' sepp_actsubsch sepp_actsubsch_update]"

interpretation schedule_entry_points_params_members: member_table schedule_entry_points_params_members
  by unfold_locales (simp_all add: table_members member_lens_scalar member_lens_vector member_separate_def)

definition l2_lookup_params_members :: "l2_lookup_params_entry member list" where [table_members]:
  "l2_lookup_params_members =
    [scalar ''drpbc'' l2lp_drpbc l2lp_drpbc_update,
     scalar ''drpmc'' l2lp_drpmc l2lp_drpmc_update,
     scalar ''drpuni'' l2lp_drpuni l2lp_drpuni_update,
     vector ''maxaddrp'' 5 l2lp_maxaddrp l2lp_maxaddrp_update,
     scalar ''maxage'' l2lp_maxage l2lp_maxage_update,
     scalar ''start_dynspc'' l2lp_start_dynspc l2lp_start_dynspc_update,
     scalar ''drpnolearn'' l2lp_drpnolearn l2lp_drpnolearn_update,
     scalar ''dyn_tbsz'' l2lp_dyn_tbsz l2lp_dyn_tbsz_update,
     scalar ''poly'' l2lp_poly l2lp_poly_update,
     scalar ''shared_learn'' l2lp_shared_learn l2lp_shared_learn_update,
     scalar ''no_enf_hostprt'' l2lp_no_enf_hostprt l2lp_no_enf_hostprt_update,
     scalar ''no_mgmt_learn'' l2lp_no_mgmt_learn l2lp_no_mgmt_learn_update,
     scalar ''use_static'' l2lp_use_static l2lp_use_static_update,
     scalar ''owr_dyn'' l2lp_owr_dyn l2lp_owr_dyn_update,
     scalar ''learn_once'' l2lp_learn_once l2lp_learn_once_update]"

interpretation l2_lookup_params_members: member_table l2_lookup_params_members
  by unfold_locales (simp_all add: table_members member_lens_scalar member_lens_vector member_separate_def)

definition l2_forwarding_params_members :: "l2_forwarding_params_entry member list" where [table_members]:
  "l2_forwarding_params_members =
    [scalar ''max_dynp'' l2fp_max_dynp l2fp_max_dynp_update,
     vector ''part_spc'' 8 l2fp_part_spc l2fp_part_spc_update]"

interpretation l2_forwarding_params_members: member_table l2_forwarding_params_members
  by unfold_locales (simp_all add: table_members member_lens_scalar member_lens_vector member_separate_def)

definition general_params_members :: "general_params_entry member list" where [table_members]:
  "general_params_members =
    [scalar ''vllupformat'' gen_vllupformat gen_vllupformat_update,
     scalar ''mirr_ptacu'' gen_mirr_ptacu gen_mirr_ptacu_update,
     scalar ''switchid'' gen_switchid gen_switchid_update,
     scalar ''hostprio'' gen_hostprio gen_hostprio_update,
     scalar ''mac_fltres1'' gen_mac_fltres1 gen_mac_fltres1_update,
     scalar ''mac_fltres0'' gen_mac_fltres0 gen_mac_fltres0_update,
     scalar ''mac_flt1'' gen_mac_flt1 gen_mac_flt1_update,
     scalar ''mac_flt0'' gen_mac_flt0 gen_mac_flt0_update,
     scalar ''incl_srcpt1'' gen_incl_srcpt1 gen_incl_srcpt1_update,
     scalar ''incl_srcpt0'' gen_incl_srcpt0 gen_incl_srcpt0_update,
     scalar ''send_meta1'' gen_send_meta1 gen_send_meta1_update,
     scalar ''send_meta0'' gen_send_meta0 gen_send_meta0_update,
     scalar ''casc_port'' gen_casc_port gen_casc_port_update,
     scalar ''host_port'' gen_host_port gen_host_port_update,
     scalar ''mirr_port'' gen_mirr_port gen_mirr_port_update,
     scalar ''vlmarker'' gen_vlmarker gen_vlmarker_update,
     scalar ''vlmask'' gen_vlmask gen_vlmask_update,
     scalar ''tpid'' gen_tpid gen_tpid_update,
     scalar ''ignore2stf'' gen_ignore2stf gen_ignore2stf_update,
     scalar ''tpid2'' gen_tpid2 gen_tpid2_update,
     scalar ''queue_ts'' gen_queue_ts gen_queue_ts_update,
     scalar ''egrmirrvid'' gen_egrmirrvid gen_egrmirrvid_update,
     scalar ''egrmirrpcp'' gen_egrmirrpcp gen_egrmirrpcp_update,
     scalar ''egrmirrdei'' gen_egrmirrdei gen_egrmirrdei_update,
     scalar ''replay_port'' gen_replay_port gen_replay_port_update]"

interpretation general_params_members: member_table general_params_members
  by unfold_locales (simp_all add: table_members member_lens_scalar member_lens_vector member_separate_def)

definition xmii_params_members :: "xmii_params_entry member list" where [table_members]:
  "xmii_params_members =
    [vector ''phy_mac'' 5 xmii_phy_mac xmii_phy_mac_update,
     vector ''xmii_mode'' 5 xmii_xmii_mode xmii_xmii_mode_update]"

interpretation xmii_params_members: member_table xmii_params_members
  by unfold_locales (simp_all add: table_members member_lens_scalar member_lens_vector member_separate_def)

definition sgmii_members :: "sgmii_entry member list" where [table_members]:
  "sgmii_members =
    [scalar ''digital_error_cnt'' sgmii_digital_error_cnt sgmii_digital_error_cnt_update,
     scalar ''digital_control_2'' sgmii_digital_control_2 sgmii_digital_control_2_update,
     scalar ''debug_control'' sgmii_debug_control sgmii_debug_control_update,
     scalar ''test_control'' sgmii_test_control sgmii_test_control_update,
     scalar ''autoneg_control'' sgmii_autoneg_control sgmii_autoneg_control_update,
     scalar ''digital_control_1'' sgmii_digital_control_1 sgmii_digital_control_1_update,
     scalar ''autoneg_adv'' sgmii_autoneg_adv sgmii_autoneg_adv_update,
     scalar ''basic_control'' sgmii_basic_control sgmii_basic_control_update]"

interpretation sgmii_members: member_table sgmii_members
  by unfold_locales (simp_all add: table_members member_lens_scalar member_lens_vector member_separate_def)

definition vl_lookup_members :: "vl_lookup_entry member list" where [table_members]:
  "vl_lookup_members =
    [scalar ''port'' vll_port vll_port_update,
     scalar ''destports'' vll_destports vll_destports_update,
     scalar ''iscritical'' vll_iscritical vll_iscritical_update,
     scalar ''macaddr'' vll_macaddr vll_macaddr_update,
     scalar ''vlanid'' vll_vlanid vll_vlanid_update,
     scalar ''vlanprior'' vll_vlanprior vll_vlanprior_update,
     scalar ''egrmirr'' vll_egrmirr vll_egrmirr_update,
     scalar ''ingrmirr'' vll_ingrmirr vll_ingrmirr_update,
     scalar ''vlid'' vll_vlid vll_vlid_update]"

text \<open>
  The members of the two formats share their storage; those of one format do not.
\<close>

interpretation vl_lookup_members0: member_table "take 6 vl_lookup_members"
  by unfold_locales (simp_all add: table_members member_lens_scalar member_lens_vector member_separate_def)

interpretation vl_lookup_members1: member_table "take 1 vl_lookup_members @ drop 6 vl_lookup_members"
  by unfold_locales (simp_all add: table_members member_lens_scalar member_lens_vector member_separate_def)

definition vl_policing_members :: "vl_policing_entry member list" where [table_members]:
  "vl_policing_members =
    [scalar ''type'' vlp_type vlp_type_update,
     scalar ''maxlen'' vlp_maxlen vlp_maxlen_update,
     scalar ''sharindx'' vlp_sharindx vlp_sharindx_update,
     scalar ''bag'' vlp_bag vlp_bag_update,
     scalar ''jitter'' vlp_jitter vlp_jitter_update]"

interpretation vl_policing_members: member_table vl_policing_members
  by unfold_locales (simp_all add: table_members member_lens_scalar member_lens_vector member_separate_def)

definition vl_forwarding_members :: "vl_forwarding_entry member list" where [table_members]:
  "vl_forwarding_members =
    [scalar ''type'' vlf_type vlf_type_update,
     scalar ''priority'' vlf_priority vlf_priority_update,
     scalar ''partition'' vlf_partition vlf_partition_update,
     scalar ''destports'' vlf_destports vlf_destports_update]"

interpretation vl_forwarding_members: member_table vl_forwarding_members
  by unfold_locales (simp_all add: table_members member_lens_scalar member_lens_vector member_separate_def)

definition avb_params_members :: "avb_params_entry member list" where [table_members]:
  "avb_params_members =
    [scalar ''l2cbs'' avb_l2cbs avb_l2cbs_update,
     scalar ''cas_master'' avb_cas_master avb_cas_master_update,
     scalar ''destmeta'' avb_destmeta avb_destmeta_update,
     scalar ''srcmeta'' avb_srcmeta avb_srcmeta_update]"

interpretation avb_params_members: member_table avb_params_members
  by unfold_locales (simp_all add: table_members member_lens_scalar member_lens_vector member_separate_def)

definition vl_forwarding_params_members :: "vl_forwarding_params_entry member list" where [table_members]:
  "vl_forwarding_params_members =
    [vector ''partspc'' 8 vlfp_partspc vlfp_partspc_update,
     scalar ''debugen'' vlfp_debugen vlfp_debugen_update]"

interpretation vl_forwarding_params_members: member_table vl_forwarding_params_members
  by unfold_locales (simp_all add: table_members member_lens_scalar member_lens_vector member_separate_def)

end
