(* ===== verification/Strings.thy ===== *)
theory Strings
  imports Prelude "HOL-Library.Sublist"
begin

unbundle bit_operations_syntax

text \<open>
  \<^verbatim>\<open>src/tool/strings.c\<close>: abbreviated names, numbers and arrays on the command line and in files, and the
  arrangement of printed tables on the screen. A C string is the list of its characters before the
  terminating zero; a pointer into it is the rest of the list. The functions of the C library they call
  are defined as the C standard (and glibc, where it leaves a choice) defines them.
\<close>

section \<open>The C library\<close>

definition isspace :: "char \<Rightarrow> bool" where
  "isspace c = (let n = of_char c :: nat in n = 32 \<or> 9 \<le> n \<and> n \<le> 13)"

fun strncmp :: "string \<Rightarrow> string \<Rightarrow> nat \<Rightarrow> int" where
  "strncmp s t 0 = 0"
| "strncmp [] [] (Suc n) = 0"
| "strncmp [] (d # t) (Suc n) = - of_char d"
| "strncmp (c # s) [] (Suc n) = of_char c"
| "strncmp (c # s) (d # t) (Suc n) = (if c = d then strncmp s t n else of_char c - of_char d)"

text \<open>The value of a digit, 36 when the character is none.\<close>

definition digit_of :: "char \<Rightarrow> nat" where
  "digit_of c =
     (let n = of_char c
      in if 48 \<le> n \<and> n \<le> 57 then n - 48
         else if 97 \<le> n \<and> n \<le> 122 then n - 87
         else if 65 \<le> n \<and> n \<le> 90 then n - 55
         else 36)"

text \<open>
  \<^verbatim>\<open>strtoull(nptr, endptr, base)\<close>: the value, whether \<^verbatim>\<open>errno\<close> was set to \<^verbatim>\<open>ERANGE\<close>, and \<^verbatim>\<open>*endptr\<close>, which is
  \<^verbatim>\<open>nptr\<close> itself when there is no number.
\<close>

definition strtoull_sign :: "string \<Rightarrow> bool \<times> string" where
  "strtoull_sign s =
     (case s of c # t \<Rightarrow> if c = CHR ''-'' then (True, t) else if c = CHR ''+'' then (False, t) else (False, s)
              | [] \<Rightarrow> (False, s))"

definition strtoull_base :: "nat \<Rightarrow> string \<Rightarrow> nat \<times> string" where
  "strtoull_base base s =
     (let hex = (case s of z # x # d # t \<Rightarrow> z = CHR ''0'' \<and> (x = CHR ''x'' \<or> x = CHR ''X'') \<and> digit_of d < 16
                         | _ \<Rightarrow> False)
      in if (base = 0 \<or> base = 16) \<and> hex then (16, drop 2 s)
         else if base = 0 then (if take 1 s = ''0'' then 8 else 10, s)
         else (base, s))"

definition strtoull_digits :: "nat \<Rightarrow> string \<Rightarrow> nat" where
  "strtoull_digits base ds = foldl (\<lambda>v c. v * base + digit_of c) 0 ds"

definition strtoull :: "string \<Rightarrow> nat \<Rightarrow> u64 \<times> bool \<times> string" where
  "strtoull nptr base =
     (let (negative, s) = strtoull_sign (dropWhile isspace nptr);
          (b, s') = strtoull_base base s;
          ds = takeWhile (\<lambda>c. digit_of c < b) s';
          rest = dropWhile (\<lambda>c. digit_of c < b) s';
          n = strtoull_digits b ds
      in if ds = [] then (0, False, nptr)
         else if 2 ^ 64 \<le> n then (- 1, True, rest)
         else (if negative then - of_nat n else of_nat n, False, rest))"

section \<open>Abbreviated names\<close>

definition matches :: "string \<Rightarrow> string \<Rightarrow> int" where
  "matches cmd pattern =
     (if length pattern < length cmd then - 1 else strncmp pattern cmd (length cmd))"

text \<open>
  The loop of \<^verbatim>\<open>get_match\<close>: the number of matches and the index of the last; an exact match ends it with
  one match. The copies of the matches serve only the message about an ambiguous name.
\<close>

fun get_match_loop :: "string \<Rightarrow> string list \<Rightarrow> nat \<Rightarrow> nat \<Rightarrow> nat \<Rightarrow> nat \<times> nat" where
  "get_match_loop cmd [] i match_count match_index = (match_count, match_index)"
| "get_match_loop cmd (opt # options) i match_count match_index =
     (if matches cmd opt = 0
      then if length cmd = length opt then (1, i)
           else get_match_loop cmd options (i + 1) (match_count + 1) i
      else get_match_loop cmd options (i + 1) match_count match_index)"

definition get_match :: "string \<Rightarrow> string list \<Rightarrow> int" where
  "get_match cmd options =
     (case get_match_loop cmd options 0 0 0 of
        (match_count, match_index) \<Rightarrow> if match_count = 1 then int match_index else - 1)"

section \<open>Numbers\<close>

definition trimwhitespace :: "string \<Rightarrow> string" where
  "trimwhitespace str = rev (dropWhile isspace (rev (dropWhile isspace str)))"

text \<open>The loop over the six bytes: the return code, the value assembled and \<^verbatim>\<open>*endptr\<close>.\<close>

fun mac_addr_bytes :: "nat \<Rightarrow> string \<Rightarrow> u64 \<Rightarrow> int \<times> u64 \<times> string" where
  "mac_addr_bytes i p mac_addr_val =
     (case strtoull p 16 of
        (byte, _, p') \<Rightarrow>
          let mac_addr_val' = mac_addr_val OR push_bit (i * 8) byte
          in case i of
               0 \<Rightarrow> (if p' \<noteq> [] then - EFBIG else 0, mac_addr_val', p')
             | Suc j \<Rightarrow> mac_addr_bytes j (if take 1 p' = '':'' then drop 1 p' else p') mac_addr_val')"

text \<open>The second component is what is stored in \<^verbatim>\<open>*to\<close>; \<open>None\<close> when nothing is stored there.\<close>

definition mac_addr_from_string :: "string \<Rightarrow> int \<times> u64 option \<times> string" where
  "mac_addr_from_string from_str =
     (case mac_addr_bytes 5 from_str 0 of
        (rc, v, endptr) \<Rightarrow> (rc, if rc = 0 then Some v else None, endptr))"

definition reliable_uint64_from_string :: "string \<Rightarrow> int \<times> u64 option \<times> string" where
  "reliable_uint64_from_string from_str =
     (if CHR '':'' \<in> set from_str then mac_addr_from_string from_str
      else
        let (s, base) = (if strncmp from_str ''0b'' 2 = 0 then (drop 2 from_str, 2) else (from_str, 0));
            (v, range_error, p) = strtoull s base
        in (if range_error then - EOVERFLOW else if p = s then - EINVAL else 0, Some v, p))"

lemma reliable_uint64_stores:
  "reliable_uint64_from_string s = (0, to_val, q) \<Longrightarrow> \<exists>v. to_val = Some v"
  unfolding reliable_uint64_from_string_def mac_addr_from_string_def
  by (auto simp: Let_def split: if_splits prod.splits)

text \<open>
  The loop of \<^verbatim>\<open>read_array\<close>: the return code and the numbers stored, in the order of their places. The
  element behind the last place is stored before it is found to be one too many.
\<close>

function read_array_loop :: "int \<Rightarrow> string \<Rightarrow> u64 list \<Rightarrow> int \<times> u64 list" where
  "read_array_loop max_count p array_val =
     (if take 1 p = '']'' then (int (length array_val), array_val)
      else case reliable_uint64_from_string p of
             (rc, to_val, q) \<Rightarrow>
               let array_val' = array_val @ (case to_val of None \<Rightarrow> [] | Some v \<Rightarrow> [v])
               in if rc \<noteq> 0 then (rc, array_val')
                  else if max_count < int (length array_val + 1) then (- ERANGE, array_val')
                  else read_array_loop max_count (trimwhitespace q) array_val')"
  by pat_completeness auto
termination
  by (relation "measure (\<lambda>(max_count, p, array_val). nat (max_count + 1 - int (length array_val)))")
    (auto dest!: reliable_uint64_stores [OF sym])

declare read_array_loop.simps [simp del]

definition read_array :: "string \<Rightarrow> int \<Rightarrow> int \<times> u64 list" where
  "read_array array_str max_count =
     (let p = trimwhitespace array_str
      in if take 1 p \<noteq> ''['' then (- EINVAL, []) else read_array_loop max_count (drop 1 p) [])"

section \<open>Abbreviated names: lemmas\<close>

lemma strncmp_0_iff: "length t \<le> length s \<Longrightarrow> strncmp s t (length t) = 0 \<longleftrightarrow> prefix t s"
proof (induction t arbitrary: s)
  case (Cons d t)
  then obtain c s' where "s = c # s'" by (cases s) auto
  with Cons show ?case by auto
qed simp

lemma matches_0_iff: "matches cmd pattern = 0 \<longleftrightarrow> prefix cmd pattern"
  unfolding matches_def by (auto simp: strncmp_0_iff dest: prefix_length_le)

lemma prefix_same_length: "prefix xs ys \<Longrightarrow> length xs = length ys \<longleftrightarrow> xs = ys"
  by (auto simp: prefix_def)

lemma get_match_loop_exact:
  "cmd \<in> set options \<Longrightarrow>
   get_match_loop cmd options i n m = (1, i + length (takeWhile (\<lambda>opt. opt \<noteq> cmd) options))"
  by (induction options arbitrary: i n m) (auto simp: matches_0_iff prefix_same_length)

lemma filter_upt_Suc: "filter P [0..<Suc n] = (if P 0 then [0] else []) @ map Suc (filter (P \<circ> Suc) [0..<n])"
  by (simp only: upt_conv_Cons zero_less_Suc filter.simps map_Suc_upt [symmetric] filter_map) simp

lemma get_match_loop_abbreviated:
  "cmd \<notin> set options \<Longrightarrow>
   get_match_loop cmd options i n m =
     (let ms = filter (\<lambda>j. prefix cmd (options ! j)) [0..<length options]
      in (n + length ms, if ms = [] then m else i + last ms))"
proof (induction options arbitrary: i n m)
  case (Cons opt options)
  have "cmd \<noteq> opt" using Cons.prems by auto
  then show ?case using Cons
    by (auto simp: matches_0_iff prefix_same_length filter_upt_Suc Let_def last_map comp_def simp del: upt_Suc)
qed simp

lemma length_takeWhile_nth:
  "distinct xs \<Longrightarrow> i < length xs \<Longrightarrow> length (takeWhile (\<lambda>x. x \<noteq> xs ! i) xs) = i"
proof (induction xs arbitrary: i)
  case (Cons x xs)
  then show ?case by (cases i) auto
qed simp

lemma get_match_exact: "distinct options \<Longrightarrow> i < length options \<Longrightarrow> get_match (options ! i) options = int i"
  by (simp add: get_match_def get_match_loop_exact length_takeWhile_nth)

lemma get_match_range: "get_match cmd options = - 1 \<or> (\<exists>i<length options. get_match cmd options = int i)"
proof (cases "cmd \<in> set options")
  case True
  then obtain xs ys where "options = xs @ cmd # ys" "cmd \<notin> set xs" by (auto dest: split_list_first)
  then have "length (takeWhile (\<lambda>opt. opt \<noteq> cmd) options) < length options"
    by (subst \<open>options = _\<close>, subst takeWhile_append2) auto
  then show ?thesis using True by (simp add: get_match_def get_match_loop_exact)
next
  case False
  define ms where "ms = filter (\<lambda>j. prefix cmd (options ! j)) [0..<length options]"
  have "last ms < length options" if "ms \<noteq> []"
    using last_in_set [OF that] by (auto simp: ms_def)
  then show ?thesis
    by (auto simp: get_match_def get_match_loop_abbreviated [OF False] Let_def simp flip: ms_def)
qed

lemma singleton_list_iff: "length ms = 1 \<and> last ms = i \<longleftrightarrow> ms = [i]"
  by (cases ms) auto

lemma filter_upt_singleton_iff:
  "filter P [0..<n] = [i] \<longleftrightarrow> i < n \<and> P i \<and> (\<forall>j<n. P j \<longrightarrow> j = i)"
proof
  assume a: "filter P [0..<n] = [i]"
  then have "set (filter P [0..<n]) = {i}" by simp
  then show "i < n \<and> P i \<and> (\<forall>j<n. P j \<longrightarrow> j = i)" by (auto simp: set_eq_iff)
next
  assume a: "i < n \<and> P i \<and> (\<forall>j<n. P j \<longrightarrow> j = i)"
  then have "set (filter P [0..<n]) = {i}" by auto
  moreover have "distinct (filter P [0..<n])" by simp
  ultimately show "filter P [0..<n] = [i]"
    by (metis distinct_card card_insert_disjoint card.empty length_0_conv length_Suc_conv list.set(1)
        finite.emptyI empty_iff list.set_intros(1) singletonD set_empty2)
qed

lemma in_set_takeI: "j < length xs \<Longrightarrow> xs ! j = x \<Longrightarrow> k < length xs \<Longrightarrow> j < k \<Longrightarrow> x \<in> set (take k xs)"
  by (auto simp: in_set_conv_nth intro!: exI [of _ j])

text \<open>
  A name selects its first exact match, or else the only option it is a prefix of; an ambiguous
  or unknown name selects nothing.
\<close>

theorem get_match_selects:
  "(get_match cmd options = int i \<longleftrightarrow>
     i < length options \<and>
     (if cmd \<in> set options then options ! i = cmd \<and> cmd \<notin> set (take i options)
      else prefix cmd (options ! i) \<and> (\<forall>j<length options. prefix cmd (options ! j) \<longrightarrow> j = i))) \<and>
   (get_match cmd options = - 1 \<or> (\<exists>i<length options. get_match cmd options = int i))"
proof (cases "cmd \<in> set options")
  case True
  define k where "k = length (takeWhile (\<lambda>opt. opt \<noteq> cmd) options)"
  have g: "get_match cmd options = int k"
    by (simp add: get_match_def get_match_loop_exact [OF True] k_def)
  have k: "k < length options"
  proof -
    have "takeWhile (\<lambda>opt. opt \<noteq> cmd) options \<noteq> options" using True by (auto simp: takeWhile_eq_all_conv)
    then have "length (takeWhile (\<lambda>opt. opt \<noteq> cmd) options) \<noteq> length options"
      by (metis takeWhile_eq_take take_all order_refl)
    then show ?thesis using length_takeWhile_le [of "\<lambda>opt. opt \<noteq> cmd" options] by (simp add: k_def)
  qed
  have kc: "options ! k = cmd"
    using nth_length_takeWhile [of "\<lambda>opt. opt \<noteq> cmd" options] k by (auto simp: k_def)
  have before: "cmd \<notin> set (take k options)"
    unfolding k_def takeWhile_eq_take [symmetric] by (auto dest: set_takeWhileD)
  have "i = k" if "i < length options" "options ! i = cmd" "cmd \<notin> set (take i options)" for i
  proof (rule ccontr)
    assume "i \<noteq> k"
    then consider "i < k" | "k < i" by linarith
    then show False
    proof cases
      case 1
      then have "cmd \<in> set (take k options)" using in_set_takeI [OF that(1,2) k] by simp
      with before show False by simp
    next
      case 2
      then have "cmd \<in> set (take i options)" using in_set_takeI [OF k kc that(1)] by simp
      with that(3) show False by simp
    qed
  qed
  then have only_k: "k = i" if "i < length options" "options ! i = cmd" "cmd \<notin> set (take i options)"
    using that by simp
  have "get_match cmd options = int i \<longleftrightarrow> i < length options \<and> options ! i = cmd \<and> cmd \<notin> set (take i options)"
  proof
    assume "get_match cmd options = int i"
    then have "i = k" using g by simp
    then show "i < length options \<and> options ! i = cmd \<and> cmd \<notin> set (take i options)" using k kc before by simp
  next
    assume "i < length options \<and> options ! i = cmd \<and> cmd \<notin> set (take i options)"
    then have "k = i" using only_k by blast
    then show "get_match cmd options = int i" using g by simp
  qed
  moreover have "\<exists>i<length options. get_match cmd options = int i" using g k by blast
  ultimately show ?thesis using True by (simp only: if_True) blast
next
  case False
  define ms where "ms = filter (\<lambda>j. prefix cmd (options ! j)) [0..<length options]"
  have g: "get_match cmd options = (if length ms = 1 then int (last ms) else - 1)"
    by (auto simp: get_match_def get_match_loop_abbreviated [OF False] ms_def Let_def)
  have iff: "get_match cmd options = int i \<longleftrightarrow> ms = [i]" for i
    unfolding g using singleton_list_iff [of ms i] by auto
  have "get_match cmd options = - 1 \<or> (\<exists>i<length options. get_match cmd options = int i)"
  proof (cases "length ms = 1")
    case True
    then obtain j where "ms = [j]" by (auto simp: length_Suc_conv)
    moreover then have "j \<in> set ms" by simp
    then have "j < length options" by (simp add: ms_def)
    ultimately show ?thesis using iff by auto
  qed (simp add: g)
  then show ?thesis using False iff unfolding ms_def by (simp add: filter_upt_singleton_iff)
qed

theorem get_match_selects_witness: "get_match ''vlan'' [''l2-lookup'', ''vlan-lookup'', ''vl-lookup''] = int 1"
  using get_match_selects [of "''vlan''" "[''l2-lookup'', ''vlan-lookup'', ''vl-lookup'']" 1]
  by (simp add: less_Suc_eq)

section \<open>Numbers: printing and reading\<close>

text \<open>
  The digits \<^verbatim>\<open>printf\<close> writes for an unsigned number: \<^verbatim>\<open>%llu\<close> in base 10, \<^verbatim>\<open>%llX\<close> in base 16.
\<close>

definition digit_char :: "nat \<Rightarrow> char" where
  "digit_char d = (if d < 10 then char_of (48 + d) else char_of (55 + d))"

function print_nat :: "nat \<Rightarrow> nat \<Rightarrow> string" where
  "print_nat base n =
     (if base < 2 \<or> n < base then [digit_char n] else print_nat base (n div base) @ [digit_char (n mod base)])"
  by pat_completeness auto
termination by (relation "measure snd") auto

declare print_nat.simps [simp del]

lemma digit_char_0: "digit_char 0 = CHR ''0''"
  by (simp add: digit_char_def char_of_def bit_0)

lemma of_char_digit_char: "d < 36 \<Longrightarrow> of_char (digit_char d) = (if d < 10 then 48 + d else 55 + d)"
  by (simp add: digit_char_def of_char_of)

lemma digit_of_digit_char [simp]: "d < 36 \<Longrightarrow> digit_of (digit_char d) = d"
  by (simp add: digit_of_def of_char_digit_char Let_def)

lemma not_digit [simp]:
  "digit_of CHR '' '' = 36" "digit_of CHR '']'' = 36" "digit_of CHR '':'' = 36" "digit_of CHR ''-'' = 36"
  "digit_of CHR ''+'' = 36"
  by (simp_all add: digit_of_def)

lemma digit_char_neq:
  assumes "d < 36" "digit_of c = 36"
  shows "digit_char d \<noteq> c"
  using digit_of_digit_char [OF assms(1)] assms by auto

lemma isspace_digit: "isspace c \<Longrightarrow> digit_of c = 36"
  by (auto simp: isspace_def digit_of_def Let_def)

lemma not_isspace_digit_char [simp]: "d < 36 \<Longrightarrow> \<not> isspace (digit_char d)"
  using isspace_digit digit_of_digit_char by fastforce

lemma print_nat_not_Nil [simp]: "print_nat base n \<noteq> []"
  by (subst print_nat.simps) auto

lemma print_nat_digits:
  "2 \<le> base \<Longrightarrow> base \<le> 36 \<Longrightarrow> c \<in> set (print_nat base n) \<Longrightarrow> \<exists>d<base. c = digit_char d"
proof (induction base n rule: print_nat.induct)
  case (1 base n)
  show ?case
  proof (cases "n < base")
    case True
    then show ?thesis using "1.prems" by (auto simp: print_nat.simps [of base n])
  next
    case False
    then consider "c \<in> set (print_nat base (n div base))" | "c = digit_char (n mod base)"
      using "1.prems" by (auto simp: print_nat.simps [of base n])
    then show ?thesis
    proof cases
      case 1
      then show ?thesis using "1.IH" "1.prems" False by simp
    next
      case 2
      have "n mod base < base" using "1.prems"(1) by simp
      with 2 show ?thesis by blast
    qed
  qed
qed

lemma strtoull_digits_snoc:
  "strtoull_digits base (ds @ [c]) = strtoull_digits base ds * base + digit_of c"
  by (simp add: strtoull_digits_def)

lemma strtoull_digits_print_nat:
  "2 \<le> base \<Longrightarrow> base \<le> 36 \<Longrightarrow> strtoull_digits base (print_nat base n) = n"
proof (induction base n rule: print_nat.induct)
  case (1 base n)
  show ?case
  proof (cases "n < base")
    case True
    then show ?thesis using 1 by (simp add: print_nat.simps [of base n] strtoull_digits_def)
  next
    case False
    have "n mod base < 36" using 1 mod_less_divisor [of base n] by linarith
    then show ?thesis using 1 False by (simp add: print_nat.simps [of base n] strtoull_digits_snoc)
  qed
qed

lemma hd_print_nat: "2 \<le> base \<Longrightarrow> base \<le> 36 \<Longrightarrow> 0 < n \<Longrightarrow> hd (print_nat base n) \<noteq> CHR ''0''"
proof (induction base n rule: print_nat.induct)
  case (1 base n)
  show ?case
  proof (cases "n < base")
    case True
    then have "digit_of (digit_char n) \<noteq> 0" using 1 by simp
    then have "digit_char n \<noteq> CHR ''0''" by (auto simp: digit_of_def)
    then show ?thesis using True by (simp add: print_nat.simps [of base n])
  next
    case False
    then have "0 < n div base" using 1 by (simp add: div_greater_zero_iff)
    then show ?thesis using 1 False by (simp add: print_nat.simps [of base n])
  qed
qed

lemma takeWhile_print_nat:
  assumes "2 \<le> base" "base \<le> 36" "rest = [] \<or> base \<le> digit_of (hd rest)"
  shows "takeWhile (\<lambda>c. digit_of c < base) (print_nat base n @ rest) = print_nat base n"
    and "dropWhile (\<lambda>c. digit_of c < base) (print_nat base n @ rest) = rest"
proof -
  have all: "digit_of c < base" if "c \<in> set (print_nat base n)" for c
  proof -
    obtain d where "d < base" "c = digit_char d" using print_nat_digits [OF assms(1,2), of c n] \<open>c \<in> _\<close> by blast
    then show ?thesis using assms(2) by simp
  qed
  show "takeWhile (\<lambda>c. digit_of c < base) (print_nat base n @ rest) = print_nat base n"
    "dropWhile (\<lambda>c. digit_of c < base) (print_nat base n @ rest) = rest"
    using assms(3) all by (cases rest; simp add: takeWhile_append2 dropWhile_append2)+
qed

text \<open>A number in the given base, followed by anything that is no digit.\<close>

lemma print_nat_Cons:
  assumes "2 \<le> base" "base \<le> 36"
  obtains d ds where "d < base" "print_nat base n = digit_char d # ds"
proof (cases "print_nat base n")
  case (Cons c ds)
  have all: "\<exists>d<base. x = digit_char d" if "x \<in> set (c # ds)" for x
    using print_nat_digits [OF assms, of x n] that Cons by simp
  from all [of c] obtain d where "d < base" "c = digit_char d" by auto
  then show thesis using that [of d ds] Cons by simp
qed simp

lemma strtoull_sign_digit [simp]: "d < 36 \<Longrightarrow> strtoull_sign (digit_char d # s) = (False, digit_char d # s)"
  using digit_char_neq [of d "CHR ''-''"] digit_char_neq [of d "CHR ''+''"] by (simp add: strtoull_sign_def)

lemma strtoull_print:
  assumes base: "2 \<le> base" "base \<le> 36"
    and prefix: "strtoull_base b s = (base, print_nat base n @ rest)"
    and start: "s = digit_char d # s'" "d < 36"
    and rest: "rest = [] \<or> base \<le> digit_of (hd rest)"
  shows "strtoull s b = (if n < 2 ^ 64 then (of_nat n, False, rest) else (- 1, True, rest))"
  using takeWhile_print_nat [OF base rest] strtoull_digits_print_nat [OF base, of n] prefix start
  by (simp add: strtoull_def)

lemma strtoull_base_10:
  assumes "rest = [] \<or> 10 \<le> digit_of (hd rest)" "0 < n"
  shows "strtoull_base 0 (print_nat 10 n @ rest) = (10, print_nat 10 n @ rest)"
proof -
  obtain d ds where d: "print_nat 10 n = digit_char d # ds" by (rule print_nat_Cons [of 10 n]) auto
  then have "digit_char d \<noteq> CHR ''0''" using hd_print_nat [of 10 n] assms(2) by simp
  then show ?thesis unfolding d by (auto simp: strtoull_base_def split: list.splits)
qed

lemma print_nat_0 [simp]: "2 \<le> base \<Longrightarrow> print_nat base 0 = ''0''"
  by (simp add: print_nat.simps [of base 0] digit_char_0)

lemma strtoull_decimal:
  assumes "rest = [] \<or> (10 \<le> digit_of (hd rest) \<and> hd rest \<noteq> CHR ''x'' \<and> hd rest \<noteq> CHR ''X'')"
  shows "strtoull (print_nat 10 n @ rest) 0 = (if n < 2 ^ 64 then (of_nat n, False, rest) else (- 1, True, rest))"
proof (cases "n = 0")
  case True
  have z: "CHR ''0'' = digit_char 0" by (simp add: digit_char_0)
  have b: "strtoull_base 0 (''0'' @ rest) = (8, ''0'' @ rest)"
    using assms by (auto simp: strtoull_base_def split: list.splits)
  have r: "rest = [] \<or> 8 \<le> digit_of (hd rest)" using assms by auto
  have b': "strtoull_base 0 (''0'' @ rest) = (8, print_nat 8 0 @ rest)" using b by simp
  show ?thesis using strtoull_print [OF _ _ b' _ _ r, of 0 rest] True z by simp
next
  case False
  obtain d ds where d: "print_nat 10 n = digit_char d # ds" "d < 10" by (rule print_nat_Cons [of 10 n]) auto
  have "strtoull_base 0 (print_nat 10 n @ rest) = (10, print_nat 10 n @ rest)"
    using assms False by (intro strtoull_base_10) auto
  from strtoull_print [OF _ _ this, of d "ds @ rest"] d assms show ?thesis by auto
qed

lemma strtoull_hex:
  assumes "rest = [] \<or> 16 \<le> digit_of (hd rest)" "b = 0 \<or> b = 16"
  shows "strtoull (''0x'' @ print_nat 16 n @ rest) b = (if n < 2 ^ 64 then (of_nat n, False, rest) else (- 1, True, rest))"
proof -
  obtain d ds where d: "print_nat 16 n = digit_char d # ds" "d < 16" by (rule print_nat_Cons [of 16 n]) auto
  have p: "strtoull_base b (''0x'' @ print_nat 16 n @ rest) = (16, print_nat 16 n @ rest)"
    using assms(2) d by (auto simp: strtoull_base_def)
  have "''0x'' @ print_nat 16 n @ rest = digit_char 0 # (CHR ''x'' # print_nat 16 n @ rest)"
    by (simp add: digit_char_0)
  from strtoull_print [OF _ _ p this _ assms(1)] show ?thesis by simp
qed

lemma print_nat_no_special:
  "2 \<le> base \<Longrightarrow> base \<le> 36 \<Longrightarrow> digit_of c = 36 \<Longrightarrow> c \<notin> set (print_nat base n)"
  using print_nat_digits [of base c n] digit_char_neq by fastforce

lemma print_nat_no_colon [simp]: "2 \<le> base \<Longrightarrow> base \<le> 36 \<Longrightarrow> CHR '':'' \<notin> set (print_nat base n)"
  by (simp add: print_nat_no_special)

lemma of_char_48_iff [simp]: "of_char c = (48 :: int) \<longleftrightarrow> c = CHR ''0''"
proof -
  have "(48 :: int) = of_char CHR ''0''" by simp
  then show ?thesis by (simp only: of_char_eq_iff)
qed

lemma not_binary_decimal:
  assumes "rest = [] \<or> digit_of (hd rest) = 36"
  shows "strncmp (print_nat 10 n @ rest) ''0b'' 2 \<noteq> 0"
proof
  let ?s = "print_nat 10 n @ rest"
  assume a: "strncmp ?s ''0b'' 2 = 0"
  have b: "digit_of (CHR ''b'') = 11" by (simp add: digit_of_def)
  have digit: "digit_of c < 10" if "c \<in> set (print_nat 10 n)" for c
    using print_nat_digits [OF _ _ that] by auto
  obtain c cs where c: "print_nat 10 n = c # cs" using print_nat_not_Nil by (metis neq_Nil_conv)
  show False
  proof (cases "cs @ rest")
    case Nil
    then show False using a c by (auto simp: numeral_2_eq_2 split: if_splits)
  next
    case (Cons d ds)
    then have "d = CHR ''b''" using a c strncmp_0_iff [of "''0b''" ?s]
      by (auto simp: numeral_2_eq_2 prefix_def)
    then show False using Cons c digit [of d] assms b by (cases cs) auto
  qed
qed

lemma decimal_read_rest:
  assumes "rest = [] \<or> digit_of (hd rest) = 36" "CHR '':'' \<notin> set rest"
  shows "reliable_uint64_from_string (print_nat 10 n @ rest) =
     (if n < 2 ^ 64 then (0, Some (of_nat n), rest) else (- EOVERFLOW, Some (- 1), rest))"
proof -
  have "rest = [] \<or> 10 \<le> digit_of (hd rest) \<and> hd rest \<noteq> CHR ''x'' \<and> hd rest \<noteq> CHR ''X''"
    using assms(1) by (auto simp: digit_of_def split: if_splits)
  then show ?thesis using strtoull_decimal [of rest n] not_binary_decimal [OF assms(1), of n] assms(2)
    by (simp add: reliable_uint64_from_string_def)
qed

text \<open>
  A number printed in decimal is read back, unless it needs more than 64 bits: then it is an
  overflow, and the largest number is stored all the same.
\<close>

theorem decimal_number_read:
  "reliable_uint64_from_string (print_nat 10 n) =
     (if n < 2 ^ 64 then (0, Some (of_nat n), []) else (- EOVERFLOW, Some (- 1), []))"
  using decimal_read_rest [of "[]" n] by simp

lemma hex_number_read:
  assumes "rest = [] \<or> 16 \<le> digit_of (hd rest)" "CHR '':'' \<notin> set rest"
  shows "reliable_uint64_from_string (''0x'' @ print_nat 16 (unat v) @ rest) = (0, Some v, rest)"
proof -
  have "strncmp (''0x'' @ print_nat 16 (unat v) @ rest) ''0b'' 2 \<noteq> 0"
    by (simp add: numeral_2_eq_2)
  moreover have "unat v < 2 ^ 64" using unsigned_less [of v] by simp
  ultimately show ?thesis
    using strtoull_hex [OF assms(1), of 0 "unat v"] assms(2) by (auto simp: reliable_uint64_from_string_def)
qed

section \<open>Arrays: printing and reading\<close>

text \<open>
  \<^verbatim>\<open>print_array\<close> (\<^verbatim>\<open>src/common.c\<close>) into a buffer of \<^verbatim>\<open>MAX_LINE_SIZE\<close> bytes. \<open>None\<close> when the text does not fit:
  the last \<^verbatim>\<open>snprintf\<close> is given the whole size for what is left of the buffer, and writes behind it.
\<close>

abbreviation (input) MAX_LINE_SIZE :: nat where "MAX_LINE_SIZE \<equiv> 2048"

definition print_array_items :: "u64 list \<Rightarrow> string" where
  "print_array_items arr = concat (map (\<lambda>v. ''0x'' @ print_nat 16 (unat v) @ '' '') arr)"

definition print_array :: "u64 list \<Rightarrow> string option" where
  "print_array arr =
     (let written = ''['' @ print_array_items arr
      in if length written + 2 \<le> MAX_LINE_SIZE then Some (written @ '']'') else None)"

lemma trimwhitespace_id: "s \<noteq> [] \<Longrightarrow> \<not> isspace (hd s) \<Longrightarrow> \<not> isspace (last s) \<Longrightarrow> trimwhitespace s = s"
  by (simp add: trimwhitespace_def dropWhile_eq_self_iff [THEN iffD2] hd_rev)

lemma trimwhitespace_space: "isspace c \<Longrightarrow> trimwhitespace (c # s) = trimwhitespace s"
  by (simp add: trimwhitespace_def)

lemma isspace_simps [simp]:
  "isspace CHR '' ''" "\<not> isspace CHR '']''" "\<not> isspace CHR ''[''" "\<not> isspace CHR ''0''"
  by (simp_all add: isspace_def)

lemma print_array_items_no_colon [simp]: "CHR '':'' \<notin> set (print_array_items arr)"
  by (auto simp: print_array_items_def print_nat_no_special)

lemma trimwhitespace_items: "trimwhitespace (print_array_items arr @ '']'') = print_array_items arr @ '']''"
  by (rule trimwhitespace_id) (cases arr; simp add: print_array_items_def)+

lemma read_array_loop_items:
  "length vals + length arr \<le> max_count \<Longrightarrow>
   read_array_loop (int max_count) (print_array_items arr @ '']'') vals = (int (length (vals @ arr)), vals @ arr)"
proof (induction arr arbitrary: vals)
  case Nil
  then show ?case by (simp add: print_array_items_def read_array_loop.simps)
next
  case (Cons v arr)
  have split: "print_array_items (v # arr) @ '']'' = ''0x'' @ print_nat 16 (unat v) @ '' '' @ print_array_items arr @ '']''"
    by (simp add: print_array_items_def)
  have "reliable_uint64_from_string (print_array_items (v # arr) @ '']'') =
      (0, Some v, '' '' @ print_array_items arr @ '']'')"
    unfolding split by (rule hex_number_read) auto
  moreover have "take 1 (print_array_items (v # arr) @ '']'') \<noteq> '']''"
    by (simp add: print_array_items_def)
  moreover have "trimwhitespace ('' '' @ print_array_items arr @ '']'') = print_array_items arr @ '']''"
    using trimwhitespace_items [of arr] by (simp add: trimwhitespace_space)
  ultimately show ?case using Cons.IH [of "vals @ [v]"] Cons.prems
    by (subst read_array_loop.simps) simp
qed

lemma read_array_items:
  "length arr \<le> max_count \<Longrightarrow>
   read_array (''['' @ print_array_items arr @ '']'') (int max_count) = (int (length arr), arr)"
proof -
  assume a: "length arr \<le> max_count"
  have "trimwhitespace (''['' @ print_array_items arr @ '']'') = ''['' @ print_array_items arr @ '']''"
    by (rule trimwhitespace_id) auto
  then show ?thesis using read_array_loop_items [of "[]" arr max_count] a by (simp add: read_array_def)
qed

lemma print_array_eq: "print_array arr = Some s \<Longrightarrow> s = ''['' @ print_array_items arr @ '']''"
  by (auto simp: print_array_def Let_def split: if_splits)

text \<open>The index of an entry, written like an array with one number.\<close>

lemma read_array_index:
  assumes "n < 2 ^ 64"
  shows "read_array (''['' @ print_nat 10 n @ '']'') 1 = (1, [of_nat n])"
proof -
  have t: "trimwhitespace (''['' @ print_nat 10 n @ '']'') = ''['' @ print_nat 10 n @ '']''"
    by (rule trimwhitespace_id) auto
  have "take 1 (print_nat 10 n @ '']'') \<noteq> '']''"
    using print_nat_no_special [of 10 "CHR '']''" n] by (cases "print_nat 10 n") auto
  moreover have "reliable_uint64_from_string (print_nat 10 n @ '']'') = (0, Some (of_nat n), '']'')"
    using decimal_read_rest [of "'']''" n] assms by simp
  moreover have "trimwhitespace '']'' = '']''" by (rule trimwhitespace_id) auto
  ultimately show ?thesis
    unfolding read_array_def t by (simp add: read_array_loop.simps [of 1 "print_nat 10 n @ '']''"] read_array_loop.simps [of 1 "'']''"])
qed

text \<open>C14: An array that was printed is read back.\<close>

theorem print_array_then_read:
  assumes "print_array arr = Some s" "length arr \<le> max_count"
  shows "read_array s (int max_count) = (int (length arr), arr)"
  using read_array_items [OF assms(2)] print_array_eq [OF assms(1)] by simp

theorem print_array_then_read_witness:
  "read_array ''[0xA 0x1F ]'' 2 = (2, [10, 31])"
proof -
  have "print_array [10, 31] = Some ''[0xA 0x1F ]''"
    by (simp add: print_array_def print_array_items_def print_nat.simps [of 16] digit_char_def char_of_def bit_0)
  from print_array_then_read [OF this, of 2] show ?thesis by simp
qed

text \<open>
  Whatever the text, at most one number more than there are places is stored, and only when the
  result is an error; otherwise the result is the count.
\<close>

lemma read_array_loop_bound:
  "read_array_loop max_count p vals = (rc, vs) \<Longrightarrow> int (length vals) \<le> max_count \<Longrightarrow>
   int (length vs) \<le> max_count + 1 \<and> (rc \<noteq> int (length vs) \<or> max_count < int (length vs) \<longrightarrow> rc < 0)"
proof (induction max_count p vals rule: read_array_loop.induct)
  case (1 max_count p vals)
  obtain rc' to_val q where r: "reliable_uint64_from_string p = (rc', to_val, q)" by (metis prod_cases3)
  have neg: "rc' < 0" if "rc' \<noteq> 0"
    using r that
    by (auto simp: reliable_uint64_from_string_def mac_addr_from_string_def Let_def numeral_eq_Suc
        split: if_splits prod.splits elim!: mac_addr_bytes.elims)
  show ?case
  proof (cases "take 1 p = '']''")
    case True
    then show ?thesis using 1 by (auto simp: read_array_loop.simps)
  next
    case False
    show ?thesis
    proof (cases "rc' = 0 \<and> int (length vals + 1) \<le> max_count")
      case True
      then obtain v where "to_val = Some v" using r reliable_uint64_stores by blast
      then show ?thesis using "1.IH" [OF False r [symmetric] refl _] "1.prems" True False r
        by (simp add: read_array_loop.simps [of max_count p vals])
    next
      case False
      then show ?thesis using "1.prems" \<open>take 1 p \<noteq> _\<close> r neg
        by (auto simp: read_array_loop.simps [of max_count p vals] Let_def split: if_splits option.splits)
    qed
  qed
qed

lemma read_array_bound:
  assumes "read_array s max_count = (rc, vs)" "0 \<le> max_count"
  shows "rc < 0 \<and> int (length vs) \<le> max_count + 1 \<or> rc = int (length vs) \<and> int (length vs) \<le> max_count"
  using assms read_array_loop_bound [of max_count "drop 1 (trimwhitespace s)" "[]" rc vs]
  by (auto simp: read_array_def Let_def split: if_splits)

text \<open>
  The result of reading an array: the count when the bracket is found, and an error otherwise. At
  most one number too many is stored, and then the result is an error.
\<close>

theorem read_array_result:
  assumes "read_array s max_count = (rc, vs)" "0 \<le> max_count"
  shows "rc < 0 \<and> int (length vs) \<le> max_count + 1 \<or> rc = int (length vs) \<and> int (length vs) \<le> max_count"
  using read_array_bound [OF assms] .

theorem read_array_result_witness:
  "let (rc, vs) = read_array ''[1 2]'' 1
   in rc < 0 \<and> int (length vs) \<le> 2 \<or> rc = int (length vs) \<and> int (length vs) \<le> (1 :: int)"
  using read_array_result [of "''[1 2]''" 1] by (auto simp: split_beta)

lemma strncmp_2 [simp]:
  "strncmp (c # s) (d # t) 2 = (if c = d then strncmp s t 1 else of_char c - of_char d)"
  "strncmp [] (d # t) 2 = - of_char d"
  "strncmp (c # s) (d # t) (Suc 0) = (if c = d then 0 else of_char c - of_char d)"
  "strncmp [] (d # t) (Suc 0) = - of_char d"
  by (simp_all add: numeral_2_eq_2)

lemmas strings_eval = reliable_uint64_from_string_def strtoull_def strtoull_sign_def strtoull_base_def
  digit_of_def strtoull_digits_def isspace_def trimwhitespace_def read_array_def

text \<open>The element behind the end is really stored.\<close>

lemma read_array_overruns: "read_array ''[1 2]'' 1 = (- ERANGE, [1, 2])"
  by (simp add: strings_eval read_array_loop.simps)

section \<open>Addresses\<close>

text \<open>
  The usual notation of an address, six bytes in hexadecimal separated by colons.
\<close>

definition print_mac :: "u8 \<Rightarrow> u8 \<Rightarrow> u8 \<Rightarrow> u8 \<Rightarrow> u8 \<Rightarrow> u8 \<Rightarrow> string" where
  "print_mac a b c d e f =
     print_nat 16 (unat a) @ '':'' @ print_nat 16 (unat b) @ '':'' @ print_nat 16 (unat c) @ '':'' @
     print_nat 16 (unat d) @ '':'' @ print_nat 16 (unat e) @ '':'' @ print_nat 16 (unat f)"

lemma strtoull_hex_plain:
  assumes "rest = [] \<or> 16 \<le> digit_of (hd rest) \<and> hd rest \<noteq> CHR ''x'' \<and> hd rest \<noteq> CHR ''X''"
  shows "strtoull (print_nat 16 (unat v) @ rest) 16 = (ucast (v :: u8), False, rest)"
proof -
  obtain d ds where d: "print_nat 16 (unat v) = digit_char d # ds" "d < 16"
    by (rule print_nat_Cons [of 16 "unat v"]) auto
  have notx: "x \<noteq> CHR ''x'' \<and> x \<noteq> CHR ''X''" if "x \<in> set (print_nat 16 (unat v))" for x
  proof -
    obtain k where "k < 16" "x = digit_char k" using print_nat_digits [of 16 x "unat v"] \<open>x \<in> _\<close> by auto
    then have "digit_of x < 16" by simp
    then show ?thesis by (auto simp: digit_of_def)
  qed
  have "strtoull_base 16 (print_nat 16 (unat v) @ rest) = (16, print_nat 16 (unat v) @ rest)"
    using d assms notx [of "hd ds"] by (cases ds; cases rest) (auto simp: strtoull_base_def split: list.splits)
  moreover have "unat v < 2 ^ 64"
  proof -
    have "unat v < 2 ^ LENGTH(8)" by (rule unsigned_less)
    then show ?thesis by simp
  qed
  moreover have "of_nat (unat v) = (ucast v :: u64)" by simp
  ultimately show ?thesis
    using strtoull_print [of 16 16 "print_nat 16 (unat v) @ rest" "unat v" rest d "ds @ rest"] d assms by auto
qed

lemma mac_addr_bytes_Suc:
  "mac_addr_bytes (Suc j) (print_nat 16 (unat v) @ CHR '':'' # s) acc =
     mac_addr_bytes j s (acc OR push_bit (Suc j * 8) (ucast (v :: u8)))"
  by (simp add: strtoull_hex_plain)

lemma mac_addr_bytes_0: "mac_addr_bytes 0 (print_nat 16 (unat v)) acc = (0, acc OR ucast (v :: u8), [])"
  using strtoull_hex_plain [of "[]" v] by simp

lemma mac_addr_bytes_print:
  "mac_addr_bytes 5 (print_mac a b c d e f) 0 =
     (0, push_bit 40 (ucast a) OR push_bit 32 (ucast b) OR push_bit 24 (ucast c) OR
         push_bit 16 (ucast d) OR push_bit 8 (ucast e) OR ucast f, [])"
proof -
  have five: "(5 :: nat) = Suc (Suc (Suc (Suc (Suc 0))))" by simp
  show ?thesis
    unfolding five print_mac_def append_Cons append_Nil mac_addr_bytes_Suc mac_addr_bytes_0
    by (simp add: or.assoc)
qed

text \<open>An address in the usual notation is read with the first byte in the most significant place.\<close>

theorem mac_address_read:
  "reliable_uint64_from_string (print_mac a b c d e f) =
     (0, Some (push_bit 40 (ucast a) OR push_bit 32 (ucast b) OR push_bit 24 (ucast c) OR
               push_bit 16 (ucast d) OR push_bit 8 (ucast e) OR ucast f), [])"
proof -
  have "CHR '':'' \<in> set (print_mac a b c d e f)" by (simp add: print_mac_def)
  then show ?thesis
    by (simp only: reliable_uint64_from_string_def mac_addr_from_string_def if_True mac_addr_bytes_print prod.case refl)
qed

section \<open>Tables side by side on the screen\<close>

text \<open>\<^verbatim>\<open>struct general_config\<close> (\<^verbatim>\<open>src/tool/internal.h\<close>), whose members the arrangement depends on.\<close>

record general_config =
  gc_staging_area :: string
  gc_screen_width :: int
  gc_entries_per_line :: int
  gc_verbose :: int
  gc_debug :: int

definition newline :: char where "newline = char_of (10 :: nat)"

text \<open>\<^verbatim>\<open>strchr(s, '\n')\<close>: the text before the newline, and the text behind it if there is one.\<close>

definition split_line :: "string \<Rightarrow> string \<times> string option" where
  "split_line s =
     (takeWhile (\<lambda>c. c \<noteq> newline) s,
      case dropWhile (\<lambda>c. c \<noteq> newline) s of [] \<Rightarrow> None | _ # rest \<Rightarrow> Some rest)"

function multiline_buf_width_loop :: "string \<Rightarrow> nat \<Rightarrow> nat" where
  "multiline_buf_width_loop buf max_len =
     (if buf = [] then max_len
      else let (line, rest) = split_line buf
           in multiline_buf_width_loop (case rest of None \<Rightarrow> [] | Some r \<Rightarrow> r) (max max_len (length line)))"
  by pat_completeness auto

lemma split_line_shorter: "split_line buf = (line, Some rest) \<Longrightarrow> length rest < length buf"
  using length_dropWhile_le [of "\<lambda>c. c \<noteq> newline" buf]
  by (auto simp: split_line_def split: list.splits)

termination multiline_buf_width_loop
  by (relation "measure (\<lambda>(buf, max_len). length buf)")
    (auto simp: eq_commute [of _ "split_line _"] split: option.splits dest: split_line_shorter)

declare multiline_buf_width_loop.simps [simp del]

definition get_multiline_buf_width :: "string \<Rightarrow> int" where
  "get_multiline_buf_width buf = int (multiline_buf_width_loop buf 0)"

text \<open>The loop of \<^verbatim>\<open>get_entry_count_to_fit_screen\<close> over the buffers behind the first.\<close>

fun entries_that_fit :: "int \<Rightarrow> int \<Rightarrow> string list \<Rightarrow> nat" where
  "entries_that_fit screen_width total_line_width [] = 0"
| "entries_that_fit screen_width total_line_width (buf # print_bufs) =
     (let line_width = get_multiline_buf_width buf
      in if total_line_width + line_width < screen_width
         then Suc (entries_that_fit screen_width (total_line_width + line_width) print_bufs)
         else 0)"

definition get_entry_count_to_fit_screen :: "general_config \<Rightarrow> string list \<Rightarrow> nat" where
  "get_entry_count_to_fit_screen gc print_bufs =
     (case print_bufs of
        [] \<Rightarrow> 0
      | buf # bufs \<Rightarrow> Suc (entries_that_fit (gc_screen_width gc) (get_multiline_buf_width buf) bufs))"

text \<open>
  \<^verbatim>\<open>linewise_concat\<close>: what it prints. \<open>None\<close> stands for the search of a newline behind a null pointer,
  when another buffer has fewer lines than the first. The first component of a line is the text printed,
  the second the rest of every buffer.
\<close>

definition concat_cell :: "bool \<Rightarrow> string \<Rightarrow> string" where
  "concat_cell first cell = (if cell = [] then [] else (if first then ''|| '' else []) @ cell @ '' || '')"

fun linewise_concat_line :: "bool \<Rightarrow> string option list \<Rightarrow> (string \<times> string option list) option" where
  "linewise_concat_line first [] = Some ([], [])"
| "linewise_concat_line first (None # current) = None"
| "linewise_concat_line first (Some s # current) =
     (case linewise_concat_line False current of
        None \<Rightarrow> None
      | Some (out, next) \<Rightarrow> Some (concat_cell first (fst (split_line s)) @ out, snd (split_line s) # next))"

lemma linewise_concat_line_next:
  "linewise_concat_line first current = Some (out, next) \<Longrightarrow> next = map (\<lambda>s. snd (split_line (the s))) current"
  by (induction first current arbitrary: out "next" rule: linewise_concat_line.induct)
    (auto split: option.splits)

function linewise_concat_loop :: "string option list \<Rightarrow> string option" where
  "linewise_concat_loop current =
     (case current of
        Some s # _ \<Rightarrow>
          (case linewise_concat_line True current of
             None \<Rightarrow> None
           | Some (out, next) \<Rightarrow>
               map_option (\<lambda>more. out @ (if hd next \<noteq> None then [newline] else []) @ more)
                 (linewise_concat_loop next))
      | _ \<Rightarrow> Some [])"
  by pat_completeness auto
termination
proof (relation "measure (\<lambda>current. case current of Some s # _ \<Rightarrow> Suc (length s) | _ \<Rightarrow> 0)")
  fix current :: "string option list" and c cs s p out "next"
  assume c: "current = c # cs" "c = Some s"
    and l: "linewise_concat_line True current = Some p" "(out, next) = p"
  have "next = snd (split_line s) # map (\<lambda>s. snd (split_line (the s))) cs"
    using linewise_concat_line_next [of True current out "next"] c l by simp
  moreover have "length r < length s" if "snd (split_line s) = Some r" for r
    using split_line_shorter [of s "fst (split_line s)" r] that by (metis prod.collapse)
  ultimately show "(next, current) \<in> measure (\<lambda>current. case current of Some s # _ \<Rightarrow> Suc (length s) | _ \<Rightarrow> 0)"
    using c by (auto split: option.splits)
qed simp

declare linewise_concat_loop.simps [simp del]

definition linewise_concat :: "string list \<Rightarrow> string option" where
  "linewise_concat buffers = linewise_concat_loop (map Some buffers)"

text \<open>
  The loop of \<^verbatim>\<open>show_print_bufs\<close>: the groups of buffers that are printed side by side. The result is
  \<open>None\<close> when the loop does not end, or goes back before the first buffer.
\<close>

partial_function (option) show_print_bufs_from :: "general_config \<Rightarrow> string list \<Rightarrow> string list list option" where
  "show_print_bufs_from gc print_bufs =
     (if print_bufs = [] then Some []
      else let increment = min (min (int (length print_bufs)) (gc_entries_per_line gc))
                               (int (get_entry_count_to_fit_screen gc print_bufs))
           in if increment < 0 then None
              else Option.bind (show_print_bufs_from gc (drop (nat increment) print_bufs))
                     (\<lambda>groups. Some (take (nat increment) print_bufs # groups)))"

declare show_print_bufs_from.simps [simp del]

lemma entries_that_fit_le: "entries_that_fit w t bufs \<le> length bufs"
  by (induction w t bufs rule: entries_that_fit.induct) (auto simp: Let_def)

lemma entries_that_fit_width:
  "0 < entries_that_fit w t bufs \<Longrightarrow> k \<le> entries_that_fit w t bufs \<Longrightarrow> 0 < k \<Longrightarrow>
   t + (\<Sum>b\<leftarrow>take k bufs. get_multiline_buf_width b) < w"
proof (induction w t bufs arbitrary: k rule: entries_that_fit.induct)
  case (2 w t buf bufs)
  then obtain j where j: "k = Suc j" by (cases k) auto
  show ?case
  proof (cases "j = 0")
    case True
    then show ?thesis using 2 j by (auto simp: Let_def split: if_splits)
  next
    case False
    then show ?thesis using "2.IH" [OF refl _ _ _, of j] "2.prems" j
      by (auto simp: Let_def algebra_simps split: if_splits)
  qed
qed simp

definition screen_group_ok :: "general_config \<Rightarrow> string list \<Rightarrow> bool" where
  "screen_group_ok gc grp \<longleftrightarrow>
     grp \<noteq> [] \<and> int (length grp) \<le> gc_entries_per_line gc \<and>
     (length grp = 1 \<or> (\<Sum>b\<leftarrow>grp. get_multiline_buf_width b) < gc_screen_width gc)"

lemma show_print_bufs_groups:
  assumes "0 < gc_entries_per_line gc"
  shows "\<exists>groups. show_print_bufs_from gc bufs = Some groups \<and> concat groups = bufs \<and>
           (\<forall>grp\<in>set groups. screen_group_ok gc grp)"
proof (induction bufs rule: measure_induct_rule [of length])
  case (less bufs)
  show ?case
  proof (cases bufs)
    case Nil
    then show ?thesis by (simp add: show_print_bufs_from.simps)
  next
    case (Cons b bs)
    define fit where "fit = entries_that_fit (gc_screen_width gc) (get_multiline_buf_width b) bs"
    define n where "n = nat (min (min (int (length bufs)) (gc_entries_per_line gc)) (int (Suc fit)))"
    have n: "0 < n" "n \<le> Suc fit" "int n \<le> gc_entries_per_line gc" "n \<le> length bufs"
      using assms Cons by (auto simp: n_def)
    have "length (drop n bufs) < length bufs" using n Cons by simp
    then obtain groups where rest: "show_print_bufs_from gc (drop n bufs) = Some groups"
      "concat groups = drop n bufs" "\<forall>grp\<in>set groups. screen_group_ok gc grp"
      using less.IH by blast
    have "screen_group_ok gc (take n bufs)"
    proof (cases "n = 1")
      case True
      then show ?thesis using Cons assms by (simp add: screen_group_ok_def)
    next
      case False
      then have "get_multiline_buf_width b + (\<Sum>b\<leftarrow>take (n - 1) bs. get_multiline_buf_width b) < gc_screen_width gc"
        using n by (intro entries_that_fit_width) (auto simp: fit_def)
      then show ?thesis using n Cons by (cases n) (auto simp: screen_group_ok_def)
    qed
    moreover have "show_print_bufs_from gc bufs = Some (take n bufs # groups)"
    proof -
      have "min (min (int (length bufs)) (gc_entries_per_line gc)) (int (get_entry_count_to_fit_screen gc bufs)) = int n"
        using assms by (auto simp: get_entry_count_to_fit_screen_def Cons n_def fit_def)
      then show ?thesis using rest(1) n Cons by (subst show_print_bufs_from.simps) (simp add: Let_def)
    qed
    ultimately show ?thesis using rest by auto
  qed
qed

lemma show_print_bufs_stuck:
  assumes "show_print_bufs_from gc bufs = Some groups"
  shows "0 < gc_entries_per_line gc \<or> bufs = []"
proof (rule show_print_bufs_from.raw_induct
    [where P = "\<lambda>gc bufs r. 0 < gc_entries_per_line gc \<or> bufs = []", OF _ assms])
  fix loop :: "general_config \<Rightarrow> string list \<Rightarrow> string list list option" and gc bufs r
  assume IH: "\<And>gc bufs r. loop gc bufs = Some r \<Longrightarrow> 0 < gc_entries_per_line gc \<or> bufs = []"
  define n where "n = min (min (int (length bufs)) (gc_entries_per_line gc)) (int (get_entry_count_to_fit_screen gc bufs))"
  assume "(if bufs = [] then Some []
      else let increment = min (min (int (length bufs)) (gc_entries_per_line gc)) (int (get_entry_count_to_fit_screen gc bufs))
           in if increment < 0 then None
              else Option.bind (loop gc (drop (nat increment) bufs)) (\<lambda>groups. Some (take (nat increment) bufs # groups))) = Some r"
  then have "bufs = [] \<or> 0 \<le> n \<and> (\<exists>r. loop gc (drop (nat n) bufs) = Some r)"
    by (auto simp: Let_def bind_eq_Some_conv n_def split: if_splits)
  then consider "bufs = []" | "0 \<le> n" "0 < gc_entries_per_line gc" | "0 \<le> n" "drop (nat n) bufs = []"
    using IH by blast
  then show "0 < gc_entries_per_line gc \<or> bufs = []"
  proof cases
    case 3
    then have "bufs = [] \<or> 0 < n" by (cases "n = 0") auto
    then show ?thesis by (auto simp: n_def)
  qed auto
qed

text \<open>
  C31: With a positive number of entries per line, and only then, the loop ends: every buffer is shown
  once and in order, in groups that are within the number and, but for single buffers, narrower than the
  screen.
\<close>

theorem show_print_bufs_ends:
  "(\<exists>groups. show_print_bufs_from gc bufs = Some groups \<and> concat groups = bufs \<and>
      (\<forall>grp\<in>set groups. screen_group_ok gc grp)) \<longleftrightarrow> 0 < gc_entries_per_line gc \<or> bufs = []"
proof
  assume "0 < gc_entries_per_line gc \<or> bufs = []"
  then show "\<exists>groups. show_print_bufs_from gc bufs = Some groups \<and> concat groups = bufs \<and>
      (\<forall>grp\<in>set groups. screen_group_ok gc grp)"
  proof
    assume "bufs = []"
    then show ?thesis by (simp add: show_print_bufs_from.simps)
  qed (rule show_print_bufs_groups)
qed (use show_print_bufs_stuck in blast)

theorem show_print_bufs_ends_witness:
  "\<exists>groups. show_print_bufs_from
      \<lparr>gc_staging_area = [], gc_screen_width = 80, gc_entries_per_line = 2, gc_verbose = 0, gc_debug = 0\<rparr>
      [''a'', ''b'', ''c''] = Some groups \<and> concat groups = [''a'', ''b'', ''c'']"
  using show_print_bufs_ends
    [of "\<lparr>gc_staging_area = [], gc_screen_width = 80, gc_entries_per_line = 2, gc_verbose = 0, gc_debug = 0\<rparr>"
        "[''a'', ''b'', ''c'']"] by auto

section \<open>Sizes of printed numbers\<close>

lemma length_print_nat: "2 \<le> base \<Longrightarrow> n < base ^ Suc k \<Longrightarrow> length (print_nat base n) \<le> Suc k"
proof (induction k arbitrary: n)
  case 0
  then show ?case by (subst print_nat.simps) simp
next
  case (Suc k)
  have "n div base < base ^ Suc k" using Suc.prems by (simp add: div_less_iff_less_mult mult.commute)
  from Suc.IH [OF Suc.prems(1) this] show ?case by (subst print_nat.simps) simp
qed

lemma int_of_index: "i < 2 ^ 31 \<Longrightarrow> sint (ucast (of_nat i :: u64) :: u32) = int i"
proof -
  assume a: "i < 2 ^ 31"
  have "unat (of_nat i :: u64) = i" using a by (simp add: unsigned_of_nat take_bit_nat_eq_self)
  moreover have "(ucast (of_nat i :: u64) :: u32) = of_nat (unat (of_nat i :: u64))" by simp
  ultimately have "(ucast (of_nat i :: u64) :: u32) = of_nat i" by (simp only:)
  then show ?thesis using a by (simp add: signed_of_nat signed_take_bit_int_eq_self)
qed

end
