(* ===== verification/Config_Modify.thy ===== *)
theory Config_Modify
  imports Members Strings
begin

unbundle bit_operations_syntax

text \<open>
  \<^verbatim>\<open>src/tool/config-modify.c\<close>: changing one member of one table entry by its names, as given on the
  command line. A number stored behind the end of a member, of a table or of a local variable is undefined
  in C; an operation that would do so returns \<open>None\<close>.
\<close>

section \<open>One table\<close>

text \<open>The value returned, and the numbers stored from the member's first element on.\<close>

definition generic_table_entry_modify :: "int \<Rightarrow> int \<Rightarrow> nat \<Rightarrow> string \<Rightarrow> int \<times> u64 list" where
  "generic_table_entry_modify entry_index table_count entry_field_count field_val =
     (if entry_index < 0 \<or> table_count \<le> entry_index then (- ERANGE, [])
      else if entry_field_count = 1
      then case reliable_uint64_from_string field_val of
             (rc, to_val, _) \<Rightarrow> (rc, case to_val of None \<Rightarrow> [] | Some v \<Rightarrow> [v])
      else read_array field_val (int entry_field_count))"

text \<open>
  The body that the functions of all tables share. \<open>tmp\<close> is what the local variable \<^verbatim>\<open>tmp\<close> holds before
  it is set: it becomes the count when the parser stores nothing. The count is an \<^verbatim>\<open>int\<close>, which keeps the
  low 32 bits.
\<close>

definition table_entry_modify ::
    "'e member list \<Rightarrow> nat \<Rightarrow> u64 \<Rightarrow> int \<Rightarrow> string \<Rightarrow> string \<Rightarrow> 'e static_config_member \<Rightarrow>
     (int \<times> 'e static_config_member) option" where
  "table_entry_modify members max_count tmp entry_index field_name field_val m =
     (if matches field_name ''entry-count'' = 0
      then case reliable_uint64_from_string field_val of
             (rc, to_val, _) \<Rightarrow>
               Some (rc, m\<lparr>entry_count := sint (ucast (case to_val of None \<Rightarrow> tmp | Some v \<Rightarrow> v) :: u32)\<rparr>)
      else
        let rc = get_match field_name (map mem_name members)
        in if rc < 0 then Some (rc, m)
           else
             let field = members ! nat rc;
                 (rc', vals) = generic_table_entry_modify entry_index (entry_count m) (mem_count field) field_val
             in if vals = [] then Some (rc', m)
                else if int max_count \<le> entry_index \<or> mem_count field < length vals then None
                else Some (rc', set_entry (nat entry_index) (mem_put field vals) m))"

text \<open>The functions of the tables: index, name of the member, value.\<close>

type_synonym table_modify =
  "u64 \<Rightarrow> int \<Rightarrow> string \<Rightarrow> string \<Rightarrow> sja1105_static_config \<Rightarrow> (int \<times> sja1105_static_config) option"

definition schedule_table_entry_modify :: table_modify where
  "schedule_table_entry_modify tmp entry_index field_name field_val =
     at_member cfg_schedule cfg_schedule_update
       (table_entry_modify schedule_members MAX_SCHEDULE_COUNT tmp entry_index field_name field_val)"

definition schedule_entry_points_table_entry_modify :: table_modify where
  "schedule_entry_points_table_entry_modify tmp entry_index field_name field_val =
     at_member cfg_schedule_entry_points cfg_schedule_entry_points_update
       (table_entry_modify schedule_entry_points_members MAX_SCHEDULE_ENTRY_POINTS_COUNT tmp entry_index field_name field_val)"

definition l2_lookup_table_entry_modify :: table_modify where
  "l2_lookup_table_entry_modify tmp entry_index field_name field_val =
     at_member cfg_l2_lookup cfg_l2_lookup_update
       (table_entry_modify l2_lookup_members MAX_L2_LOOKUP_COUNT tmp entry_index field_name field_val)"

definition l2_policing_table_entry_modify :: table_modify where
  "l2_policing_table_entry_modify tmp entry_index field_name field_val =
     at_member cfg_l2_policing cfg_l2_policing_update
       (table_entry_modify l2_policing_members MAX_L2_POLICING_COUNT tmp entry_index field_name field_val)"

definition vlan_lookup_table_entry_modify :: table_modify where
  "vlan_lookup_table_entry_modify tmp entry_index field_name field_val =
     at_member cfg_vlan_lookup cfg_vlan_lookup_update
       (table_entry_modify vlan_lookup_members MAX_VLAN_LOOKUP_COUNT tmp entry_index field_name field_val)"

definition l2_fw_table_entry_modify :: table_modify where
  "l2_fw_table_entry_modify tmp entry_index field_name field_val =
     at_member cfg_l2_forwarding cfg_l2_forwarding_update
       (table_entry_modify l2_forwarding_members MAX_L2_FORWARDING_COUNT tmp entry_index field_name field_val)"

definition mac_config_table_entry_modify :: table_modify where
  "mac_config_table_entry_modify tmp entry_index field_name field_val =
     at_member cfg_mac_config cfg_mac_config_update
       (table_entry_modify mac_config_members MAX_MAC_CONFIG_COUNT tmp entry_index field_name field_val)"

definition schedule_params_table_entry_modify :: table_modify where
  "schedule_params_table_entry_modify tmp entry_index field_name field_val =
     at_member cfg_schedule_params cfg_schedule_params_update
       (table_entry_modify schedule_params_members MAX_SCHEDULE_PARAMS_COUNT tmp entry_index field_name field_val)"

definition schedule_entry_points_params_table_entry_modify :: table_modify where
  "schedule_entry_points_params_table_entry_modify tmp entry_index field_name field_val =
     at_member cfg_schedule_entry_points_params cfg_schedule_entry_points_params_update
       (table_entry_modify schedule_entry_points_params_members MAX_SCHEDULE_ENTRY_POINTS_PARAMS_COUNT tmp entry_index field_name field_val)"

definition l2_lookup_params_table_entry_modify :: table_modify where
  "l2_lookup_params_table_entry_modify tmp entry_index field_name field_val =
     at_member cfg_l2_lookup_params cfg_l2_lookup_params_update
       (table_entry_modify l2_lookup_params_members MAX_L2_LOOKUP_PARAMS_COUNT tmp entry_index field_name field_val)"

definition l2_fw_params_table_entry_modify :: table_modify where
  "l2_fw_params_table_entry_modify tmp entry_index field_name field_val =
     at_member cfg_l2_forwarding_params cfg_l2_forwarding_params_update
       (table_entry_modify l2_forwarding_params_members MAX_L2_FORWARDING_PARAMS_COUNT tmp entry_index field_name field_val)"

definition general_params_table_entry_modify :: table_modify where
  "general_params_table_entry_modify tmp entry_index field_name field_val =
     at_member cfg_general_params cfg_general_params_update
       (table_entry_modify general_params_members MAX_GENERAL_PARAMS_COUNT tmp entry_index field_name field_val)"

definition xmii_table_entry_modify :: table_modify where
  "xmii_table_entry_modify tmp entry_index field_name field_val =
     at_member cfg_xmii_params cfg_xmii_params_update
       (table_entry_modify xmii_params_members MAX_XMII_PARAMS_COUNT tmp entry_index field_name field_val)"

definition sgmii_table_entry_modify :: table_modify where
  "sgmii_table_entry_modify tmp entry_index field_name field_val =
     at_member cfg_sgmii cfg_sgmii_update
       (table_entry_modify sgmii_members MAX_SGMII_COUNT tmp entry_index field_name field_val)"

definition vl_lookup_table_entry_modify :: table_modify where
  "vl_lookup_table_entry_modify tmp entry_index field_name field_val =
     at_member cfg_vl_lookup cfg_vl_lookup_update
       (table_entry_modify vl_lookup_members MAX_VL_LOOKUP_COUNT tmp entry_index field_name field_val)"

definition vl_policing_table_entry_modify :: table_modify where
  "vl_policing_table_entry_modify tmp entry_index field_name field_val =
     at_member cfg_vl_policing cfg_vl_policing_update
       (table_entry_modify vl_policing_members MAX_VL_POLICING_COUNT tmp entry_index field_name field_val)"

definition vl_fw_table_entry_modify :: table_modify where
  "vl_fw_table_entry_modify tmp entry_index field_name field_val =
     at_member cfg_vl_forwarding cfg_vl_forwarding_update
       (table_entry_modify vl_forwarding_members MAX_VL_FORWARDING_COUNT tmp entry_index field_name field_val)"

definition avb_params_table_entry_modify :: table_modify where
  "avb_params_table_entry_modify tmp entry_index field_name field_val =
     at_member cfg_avb_params cfg_avb_params_update
       (table_entry_modify avb_params_members MAX_AVB_PARAMS_COUNT tmp entry_index field_name field_val)"

definition clock_sync_params_table_entry_modify :: table_modify where
  "clock_sync_params_table_entry_modify tmp entry_index field_name field_val config = Some (- 1, config)"

definition vl_fw_params_table_entry_modify :: table_modify where
  "vl_fw_params_table_entry_modify tmp entry_index field_name field_val =
     at_member cfg_vl_forwarding_params cfg_vl_forwarding_params_update
       (table_entry_modify vl_forwarding_params_members MAX_VL_FORWARDING_PARAMS_COUNT tmp entry_index field_name field_val)"

section \<open>All tables\<close>

definition static_config_options :: "string list" where
  "static_config_options =
    [''schedule-table'',
     ''schedule-entry-points-table'',
     ''vl-lookup-table'',
     ''vl-policing-table'',
     ''vl-forwarding-table'',
     ''l2-address-lookup-table'',
     ''l2-policing-table'',
     ''vlan-lookup-table'',
     ''l2-forwarding-table'',
     ''mac-configuration-table'',
     ''schedule-parameters-table'',
     ''schedule-entry-points-parameters-table'',
     ''vl-forwarding-parameters-table'',
     ''l2-address-lookup-parameters-table'',
     ''l2-forwarding-parameters-table'',
     ''clock-synchronization-parameters-table'',
     ''avb-parameters-table'',
     ''general-parameters-table'',
     ''xmii-mode-parameters-table'',
     ''sgmii-table'']"

definition next_static_table_modify :: "table_modify list" where
  "next_static_table_modify =
    [schedule_table_entry_modify,
     schedule_entry_points_table_entry_modify,
     vl_lookup_table_entry_modify,
     vl_policing_table_entry_modify,
     vl_fw_table_entry_modify,
     l2_lookup_table_entry_modify,
     l2_policing_table_entry_modify,
     vlan_lookup_table_entry_modify,
     l2_fw_table_entry_modify,
     mac_config_table_entry_modify,
     schedule_params_table_entry_modify,
     schedule_entry_points_params_table_entry_modify,
     vl_fw_params_table_entry_modify,
     l2_lookup_params_table_entry_modify,
     l2_fw_params_table_entry_modify,
     clock_sync_params_table_entry_modify,
     avb_params_table_entry_modify,
     general_params_table_entry_modify,
     xmii_table_entry_modify,
     sgmii_table_entry_modify]"

record sja1105_staging_area =
  sa_static_config :: sja1105_static_config

text \<open>
  \<^verbatim>\<open>strchr(table_name, '[')\<close> cuts the name from the index. \<open>index0\<close> and \<open>tmp\<close> are what the uninitialised
  variables hold; a name or a value that is \<open>None\<close> is a null pointer.
\<close>

definition staging_area_modify ::
    "u64 \<Rightarrow> u64 \<Rightarrow> sja1105_staging_area \<Rightarrow> string \<Rightarrow> string option \<Rightarrow> string option \<Rightarrow>
     (int \<times> sja1105_staging_area) option" where
  "staging_area_modify index0 tmp staging_area table_name field_name field_val =
     (let index_ptr = dropWhile (\<lambda>c. c \<noteq> CHR ''['') table_name;
          (rc, vals) = (if index_ptr = [] then (0, [0]) else read_array index_ptr 1);
          entry_index = (case vals of [] \<Rightarrow> index0 | v # _ \<Rightarrow> v)
      in if 1 < length vals then None
         else if rc < 0 then Some (rc, staging_area)
         else
           let table = get_match (takeWhile (\<lambda>c. c \<noteq> CHR ''['') table_name) static_config_options
           in if table < 0 then Some (table, staging_area)
              else case field_name of
                     None \<Rightarrow> Some (- EINVAL, staging_area)
                   | Some name \<Rightarrow>
                       (case field_val of
                          None \<Rightarrow> Some (table, staging_area)
                        | Some val \<Rightarrow>
                            map_option (\<lambda>(rc, config). (rc, staging_area\<lparr>sa_static_config := config\<rparr>))
                              ((next_static_table_modify ! nat table) tmp (sint (ucast entry_index :: u32)) name val
                                 (sa_static_config staging_area))))"

text \<open>
  The arguments of \<^verbatim>\<open>config modify\<close>. Without a field and a value the modification is called with a null
  staging area and the field name \<^verbatim>\<open><none>\<close>, for the message it prints; the name selects no member, so that
  the null pointer is not followed: the staging area is dropped from the result here.
\<close>

definition staging_area_modify_parse ::
    "u64 \<Rightarrow> u64 \<Rightarrow> sja1105_staging_area \<Rightarrow> string list \<Rightarrow> (int \<times> sja1105_staging_area) option" where
  "staging_area_modify_parse index0 tmp staging_area argv =
     (case argv of
        [] \<Rightarrow> Some (- EINVAL, staging_area)
      | [table_name, field_name, field_val] \<Rightarrow>
          staging_area_modify index0 tmp staging_area table_name (Some field_name) (Some field_val)
      | table_name # _ \<Rightarrow>
          map_option (\<lambda>(rc, _). (rc, staging_area))
            (staging_area_modify index0 tmp staging_area table_name (Some ''<none>'') (Some ''<none>'')))"

section \<open>What a modification does\<close>

lemma generic_index_error:
  "entry_index < 0 \<or> n \<le> entry_index \<Longrightarrow> generic_table_entry_modify entry_index n k s = (- ERANGE, [])"
  by (simp add: generic_table_entry_modify_def)

text \<open>The text that stands for the numbers \<open>vs\<close> of a member with \<open>count\<close> elements.\<close>

definition value_text :: "nat \<Rightarrow> u64 list \<Rightarrow> string \<Rightarrow> bool" where
  "value_text count vs s \<longleftrightarrow>
     (if count = 1 then length vs = 1 \<and> s = print_nat 10 (unat (hd vs))
      else vs \<noteq> [] \<and> length vs \<le> count \<and> print_array vs = Some s)"

lemma generic_value_text:
  assumes "value_text k vs s" "0 \<le> entry_index" "entry_index < n"
  shows "\<exists>rc \<ge> 0. generic_table_entry_modify entry_index n k s = (rc, vs)"
proof (cases "k = 1")
  case True
  then obtain v where v: "vs = [v]" "s = print_nat 10 (unat v)"
    using assms(1) by (cases vs) (auto simp: value_text_def)
  have "unat v < 2 ^ 64" using unsigned_less [of v] by simp
  then show ?thesis using decimal_read_rest [of "[]" "unat v"] assms(2,3) True v
    by (simp add: generic_table_entry_modify_def)
next
  case False
  then have "length vs \<le> k" "print_array vs = Some s" using assms(1) by (auto simp: value_text_def)
  then have "read_array s (int k) = (int (length vs), vs)"
    using read_array_items [of vs k] print_array_eq by simp
  then show ?thesis using assms(2,3) False by (simp add: generic_table_entry_modify_def)
qed

lemma table_entry_modify_member:
  assumes "distinct (map mem_name members)" "m \<in> set members" "matches (mem_name m) ''entry-count'' \<noteq> 0"
  shows "table_entry_modify members max_count tmp entry_index (mem_name m) s tab =
     (case generic_table_entry_modify entry_index (entry_count tab) (mem_count m) s of
        (rc, vals) \<Rightarrow>
          if vals = [] then Some (rc, tab)
          else if int max_count \<le> entry_index \<or> mem_count m < length vals then None
          else Some (rc, set_entry (nat entry_index) (mem_put m vals) tab))"
proof -
  obtain k where k: "k < length members" "members ! k = m" using assms(2) by (auto simp: in_set_conv_nth)
  have "get_match (map mem_name members ! k) (map mem_name members) = int k"
    using assms(1) k by (intro get_match_exact) auto
  then have "get_match (mem_name m) (map mem_name members) = int k" using k by simp
  then show ?thesis using assms(3) k by (simp add: table_entry_modify_def Let_def split_beta)
qed

text \<open>
  C13: Modifying a member under its name: with an index inside the table and a value that fits the member,
  the member has the new numbers, and no other member, no other entry and no count changes.
\<close>

theorem table_entry_modify_sets:
  assumes "member_table members" "m \<in> set members" "matches (mem_name m) ''entry-count'' \<noteq> 0"
    and "int i < entry_count tab" "i < max_count" "members_shape members (entries tab i)"
    and "value_text (mem_count m) vs s"
  shows "\<exists>rc tab'. table_entry_modify members max_count tmp (int i) (mem_name m) s tab = Some (rc, tab') \<and>
     0 \<le> rc \<and> entry_count tab' = entry_count tab \<and>
     mem_get m (entries tab' i) = vs @ drop (length vs) (mem_get m (entries tab i)) \<and>
     (\<forall>m' \<in> set members - {m}. mem_get m' (entries tab' i) = mem_get m' (entries tab i)) \<and>
     (\<forall>j. j \<noteq> i \<longrightarrow> entries tab' j = entries tab j)"
proof -
  have vs: "vs \<noteq> []" "length vs \<le> mem_count m"
    using assms(7) by (auto simp: value_text_def split: if_splits)
  obtain rc where rc: "0 \<le> rc" "generic_table_entry_modify (int i) (entry_count tab) (mem_count m) s = (rc, vs)"
    using generic_value_text [OF assms(7), of "int i" "entry_count tab"] assms(4) by auto
  have "distinct (map mem_name members)" using assms(1) by (rule member_table.names)
  from table_entry_modify_member [OF this assms(2,3), of max_count tmp "int i" s tab] rc vs assms(5)
  have "table_entry_modify members max_count tmp (int i) (mem_name m) s tab =
      Some (rc, set_entry i (mem_put m vs) tab)" by simp
  moreover have "mem_get m (mem_put m vs (entries tab i)) = vs @ drop (length vs) (mem_get m (entries tab i))"
    using member_table.get_put [OF assms(1,2,6) vs(2)] .
  moreover have "mem_get m' (mem_put m vs (entries tab i)) = mem_get m' (entries tab i)"
    if "m' \<in> set members - {m}" for m'
    using that member_table.get_put_other [OF assms(1,2)] member_table.name_inject [OF assms(1,2)] by auto
  ultimately show ?thesis using rc(1) by (auto simp: set_entry_def)
qed

text \<open>
  A modification never stores outside its member while the counts are within the capacities,
  unless the value is an array with more numbers than the member has elements; then one number is stored
  behind the member although the result would be the error for a value out of range.
\<close>

theorem table_entry_modify_defined:
  assumes "entry_count tab \<le> int max_count" "\<forall>m \<in> set members. 0 < mem_count m"
  shows "table_entry_modify members max_count tmp entry_index field_name s tab \<noteq> None \<or>
    (\<exists>m \<in> set members. 1 < mem_count m \<and>
       (\<exists>rc vs. read_array s (int (mem_count m)) = (rc, vs) \<and> length vs = mem_count m + 1 \<and> rc < 0))"
proof (cases "table_entry_modify members max_count tmp entry_index field_name s tab")
  case None
  define k where "k = get_match field_name (map mem_name members)"
  define m where "m = members ! nat k"
  obtain rc vals where g: "generic_table_entry_modify entry_index (entry_count tab) (mem_count m) s = (rc, vals)"
    by (cases "generic_table_entry_modify entry_index (entry_count tab) (mem_count m) s")
  have neg: "\<not> k < 0" and vals: "vals \<noteq> []" and bad: "int max_count \<le> entry_index \<or> mem_count m < length vals"
    using None g by (auto simp: table_entry_modify_def Let_def k_def m_def split: if_splits prod.splits)
  have "nat k < length members"
    using get_match_range [of field_name "map mem_name members"] neg by (auto simp: k_def)
  then have m: "m \<in> set members" by (simp add: m_def)
  have index: "0 \<le> entry_index" "entry_index < entry_count tab"
    using g vals generic_index_error [of entry_index "entry_count tab" "mem_count m" s] by fastforce+
  then have many: "mem_count m < length vals" using bad assms(1) by simp
  have "mem_count m \<noteq> 1"
    using many g index by (auto simp: generic_table_entry_modify_def split: prod.splits option.splits)
  then have r: "read_array s (int (mem_count m)) = (rc, vals)" and "1 < mem_count m"
    using g index assms(2) m by (auto simp: generic_table_entry_modify_def less_Suc_eq)
  moreover from read_array_bound [OF r] many have "rc < 0" "length vals = mem_count m + 1" by auto
  ultimately show ?thesis using m by blast
qed simp

section \<open>Names and indices\<close>

lemma static_config_options_names:
  "length static_config_options = 20" "distinct static_config_options"
  "name \<in> set static_config_options \<Longrightarrow> CHR ''['' \<notin> set name"
  by (auto simp: static_config_options_def)

lemma length_next_static_table_modify: "length next_static_table_modify = 20"
  by (simp add: next_static_table_modify_def)

lemma split_index:
  assumes "CHR ''['' \<notin> set name"
  shows "takeWhile (\<lambda>c. c \<noteq> CHR ''['') (name @ ''['' @ rest) = name"
    and "dropWhile (\<lambda>c. c \<noteq> CHR ''['') (name @ ''['' @ rest) = ''['' @ rest"
proof -
  have "\<And>c. c \<in> set name \<Longrightarrow> c \<noteq> CHR ''[''" using assms by auto
  then show "takeWhile (\<lambda>c. c \<noteq> CHR ''['') (name @ ''['' @ rest) = name"
    "dropWhile (\<lambda>c. c \<noteq> CHR ''['') (name @ ''['' @ rest) = ''['' @ rest"
    by (simp_all add: takeWhile_append2 dropWhile_append2)
qed

text \<open>
  The full name of a table and an index in brackets select the function of that table and the
  entry with that index, for all twenty tables.
\<close>

theorem staging_area_modify_selects:
  assumes "k < 20" "i < 2 ^ 31"
  shows "staging_area_modify index0 tmp area (static_config_options ! k @ ''['' @ print_nat 10 i @ '']'')
      (Some name) (Some val) =
    map_option (\<lambda>(rc, config). (rc, area\<lparr>sa_static_config := config\<rparr>))
      ((next_static_table_modify ! k) tmp (int i) name val (sa_static_config area))"
proof -
  have "CHR ''['' \<notin> set (static_config_options ! k)"
    using static_config_options_names(3) assms(1) by (simp add: static_config_options_names(1))
  note split = split_index [OF this, of "print_nat 10 i @ '']''"]
  have "get_match (static_config_options ! k) static_config_options = int k"
    using assms(1) static_config_options_names(1,2) by (intro get_match_exact) simp_all
  then show ?thesis
    using split read_array_index [of i] int_of_index [OF assms(2)] assms(2)
    by (simp add: staging_area_modify_def Let_def)
qed

theorem staging_area_modify_selects_witness:
  "staging_area_modify 0 0 \<lparr>sa_static_config = static_config_zero\<rparr>
     (static_config_options ! 15 @ ''['' @ print_nat 10 3 @ '']'') (Some ''x'') (Some ''1'') =
     Some (- 1, \<lparr>sa_static_config = static_config_zero\<rparr>)"
  using staging_area_modify_selects [of 15 3 0 0 "\<lparr>sa_static_config = static_config_zero\<rparr>" "''x''" "''1''"]
  by (simp add: next_static_table_modify_def clock_sync_params_table_entry_modify_def)

section \<open>Errors\<close>

lemma get_match_unknown: "list_all (\<lambda>opt. \<not> prefix cmd opt) options \<Longrightarrow> get_match cmd options = - 1"
  using get_match_range [of cmd options]
proof -
  assume a: "list_all (\<lambda>opt. \<not> prefix cmd opt) options"
  then have "cmd \<notin> set options" by (auto simp: list_all_iff)
  moreover have "filter (\<lambda>j. prefix cmd (options ! j)) [0..<length options] = []"
    using a by (auto simp: filter_empty_conv list_all_length)
  ultimately show ?thesis by (simp add: get_match_def get_match_loop_abbreviated Let_def)
qed


lemma none_unknown: "get_match ''<none>'' (map mem_name members) = - 1"
  if "list_all (\<lambda>m. take 1 (mem_name m) \<noteq> ''<'') members"
  using that by (intro get_match_unknown) (auto simp: list_all_iff prefix_def)

lemma table_entry_modify_none:
  "list_all (\<lambda>m. take 1 (mem_name m) \<noteq> ''<'') members \<Longrightarrow>
   table_entry_modify members max_count tmp entry_index ''<none>'' s tab = Some (- 1, tab)"
  by (simp add: table_entry_modify_def none_unknown matches_0_iff)

lemma at_member_none:
  "(\<And>config. upd (\<lambda>_. sel config) config = config) \<Longrightarrow> (\<And>m. f m = Some (- 1, m)) \<Longrightarrow>
   at_member sel upd f config = Some (- 1, config)"
  by (simp add: at_member_def)

lemma next_static_table_modify_none:
  "f \<in> set next_static_table_modify \<Longrightarrow> f tmp entry_index ''<none>'' s config = Some (- 1, config)"
  unfolding next_static_table_modify_def
  by (elim set_ConsD [THEN disjE] disjE; simp add: at_member_none table_entry_modify_none table_members
      schedule_table_entry_modify_def schedule_entry_points_table_entry_modify_def vl_lookup_table_entry_modify_def
      vl_policing_table_entry_modify_def vl_fw_table_entry_modify_def l2_lookup_table_entry_modify_def
      l2_policing_table_entry_modify_def vlan_lookup_table_entry_modify_def l2_fw_table_entry_modify_def
      mac_config_table_entry_modify_def schedule_params_table_entry_modify_def
      schedule_entry_points_params_table_entry_modify_def vl_fw_params_table_entry_modify_def
      l2_lookup_params_table_entry_modify_def l2_fw_params_table_entry_modify_def
      clock_sync_params_table_entry_modify_def avb_params_table_entry_modify_def general_params_table_entry_modify_def
      xmii_table_entry_modify_def sgmii_table_entry_modify_def)

text \<open>
  Without exactly three arguments the command fails and the staging area stays as it is.
\<close>

theorem staging_area_modify_parse_incomplete:
  assumes "length argv \<noteq> 3" "staging_area_modify_parse index0 tmp area argv = Some (rc, area')"
  shows "rc < 0 \<and> area' = area"
proof (cases argv)
  case Nil
  then show ?thesis using assms by (simp add: staging_area_modify_parse_def)
next
  case (Cons table_name args)
  then have e: "map_option (\<lambda>(rc, _). (rc, area))
      (staging_area_modify index0 tmp area table_name (Some ''<none>'') (Some ''<none>'')) = Some (rc, area')"
    using assms by (auto simp: staging_area_modify_parse_def split: list.splits)
  define k where "k = get_match (takeWhile (\<lambda>c. c \<noteq> CHR ''['') table_name) static_config_options"
  have "(next_static_table_modify ! nat k) tmp ix ''<none>'' ''<none>'' config = Some (- 1, config)"
    if "\<not> k < 0" for ix config
  proof -
    have "nat k < 20"
      using get_match_range [of "takeWhile (\<lambda>c. c \<noteq> CHR ''['') table_name" static_config_options] that
        static_config_options_names(1) by (auto simp: k_def)
    then show ?thesis
      by (intro next_static_table_modify_none) (simp add: length_next_static_table_modify)
  qed
  then show ?thesis using e
    by (auto simp: staging_area_modify_def Let_def k_def split: if_splits prod.splits)
qed

theorem staging_area_modify_parse_incomplete_witness:
  "\<exists>rc < 0. staging_area_modify_parse 0 0 \<lparr>sa_static_config = static_config_zero\<rparr> [''sgmii-table''] =
     Some (rc, \<lparr>sa_static_config = static_config_zero\<rparr>)"
proof -
  let ?area = "\<lparr>sa_static_config = static_config_zero\<rparr>"
  have "staging_area_modify_parse 0 0 ?area [''sgmii-table''] = Some (- 1, ?area)"
    by (simp add: staging_area_modify_parse_def staging_area_modify_def static_config_options_def get_match_def
        matches_0_iff next_static_table_modify_def sgmii_table_entry_modify_def at_member_none
        table_entry_modify_none table_members)
  then show ?thesis
    using staging_area_modify_parse_incomplete [of "[''sgmii-table'']" 0 0 ?area] by auto
qed

section \<open>Examples\<close>

definition example_sep_table :: "schedule_entry_points_entry static_config_member" where
  "example_sep_table = (no_entries schedule_entry_points_zero)\<lparr>entry_count := 2\<rparr>"

theorem table_entry_modify_sets_witness:
  "\<exists>rc tab'. table_entry_modify schedule_entry_points_members MAX_SCHEDULE_ENTRY_POINTS_COUNT 0 1 ''delta'' ''25''
       example_sep_table = Some (rc, tab') \<and> sep_delta (entries tab' 1) = 25 \<and> entries tab' 0 = schedule_entry_points_zero"
proof -
  let ?m = "scalar ''delta'' sep_delta sep_delta_update"
  have "print_nat 10 25 = ''25''" by (simp add: print_nat.simps [of 10] digit_char_def char_of_def bit_0)
  then have "value_text (mem_count ?m) [25] ''25''" by (simp add: value_text_def)
  moreover have "?m \<in> set schedule_entry_points_members" by (simp add: table_members)
  moreover have "members_shape schedule_entry_points_members (entries example_sep_table 1)"
    by (simp add: members_shape_def table_members)
  ultimately show ?thesis
    using table_entry_modify_sets [OF schedule_entry_points_members.member_table_axioms, of ?m 1 example_sep_table
        MAX_SCHEDULE_ENTRY_POINTS_COUNT "[25]" "''25''" 0]
    by (auto simp: matches_0_iff example_sep_table_def no_entries_def)
qed

theorem table_entry_modify_defined_witness:
  "table_entry_modify schedule_entry_points_members MAX_SCHEDULE_ENTRY_POINTS_COUNT 0 7 ''del'' ''25''
       example_sep_table \<noteq> None"
  using table_entry_modify_defined [of example_sep_table MAX_SCHEDULE_ENTRY_POINTS_COUNT schedule_entry_points_members
      0 7 "''del''" "''25''"]
  by (auto simp: example_sep_table_def table_members)


section \<open>The count of a table\<close>

text \<open>
  The count is set without a look at the capacity of the table, and the next modification stores
  behind its array; a count that cannot be read is an error, but replaces the old count all the same.
\<close>

theorem entry_count_unchecked:
  "\<exists>tab'. table_entry_modify schedule_entry_points_members MAX_SCHEDULE_ENTRY_POINTS_COUNT tmp 0 ''entry-count'' ''2049'' tab =
       Some (0, tab') \<and>
     table_entry_modify schedule_entry_points_members MAX_SCHEDULE_ENTRY_POINTS_COUNT tmp 2048 ''delta'' ''1'' tab' = None \<and>
     table_entry_modify schedule_entry_points_members MAX_SCHEDULE_ENTRY_POINTS_COUNT tmp 0 ''entry-count'' ''x'' tab =
       Some (- EINVAL, tab\<lparr>entry_count := 0\<rparr>)"
  by (simp add: table_entry_modify_def matches_0_iff strings_eval get_match_def table_members
      generic_table_entry_modify_def)

text \<open>
  The name of the count is looked for before the members, and may be abbreviated too: an
  abbreviation that selects a single member is taken for the count.
\<close>

lemma entry_count_abbreviated:
  "get_match ''en'' (map mem_name mac_config_members) = 2 \<and>
   table_entry_modify mac_config_members MAX_MAC_CONFIG_COUNT tmp 0 ''en'' ''1'' tab = Some (0, tab\<lparr>entry_count := 1\<rparr>)"
  by (simp add: table_entry_modify_def matches_0_iff strings_eval get_match_def table_members)

end
