(* ===== verification/Staging_Area.thy ===== *)
theory Staging_Area
  imports Config_Codec Clocking Control Status Config_Modify
begin

unbundle bit_operations_syntax

text \<open>
  \<^verbatim>\<open>src/tool/staging-area.c\<close>: the configuration in a file, the staging area, and its way to the switch.
  The files are reached through the same \<open>kernel\<close> as the bus, so that the histories show the order of both.
  \<^verbatim>\<open>malloc\<close> gives memory with the contents \<open>heap\<close> and does not fail here; an access outside a buffer or a
  table makes the result \<open>None\<close>.
\<close>

section \<open>Error codes of the tool\<close>

abbreviation (input) SJA1105_ERR_OK :: int where "SJA1105_ERR_OK \<equiv> 0"
abbreviation (input) SJA1105_ERR_USAGE :: int where "SJA1105_ERR_USAGE \<equiv> 1"
abbreviation (input) SJA1105_ERR_CMDLINE_PARSE :: int where "SJA1105_ERR_CMDLINE_PARSE \<equiv> 2"
abbreviation (input) SJA1105_ERR_HW_NOT_RESPONDING :: int where "SJA1105_ERR_HW_NOT_RESPONDING \<equiv> 3"
abbreviation (input) SJA1105_ERR_HW_NOT_RESPONDING_STAGING_AREA_DIRTY :: int where
  "SJA1105_ERR_HW_NOT_RESPONDING_STAGING_AREA_DIRTY \<equiv> 4"
abbreviation (input) SJA1105_ERR_UPLOAD_FAILED_HW_LEFT_FLOATING :: int where
  "SJA1105_ERR_UPLOAD_FAILED_HW_LEFT_FLOATING \<equiv> 5"
abbreviation (input) SJA1105_ERR_UPLOAD_FAILED_HW_LEFT_FLOATING_STAGING_AREA_DIRTY :: int where
  "SJA1105_ERR_UPLOAD_FAILED_HW_LEFT_FLOATING_STAGING_AREA_DIRTY \<equiv> 6"
abbreviation (input) SJA1105_ERR_STAGING_AREA_INVALID :: int where "SJA1105_ERR_STAGING_AREA_INVALID \<equiv> 7"
abbreviation (input) SJA1105_ERR_INVALID_XML :: int where "SJA1105_ERR_INVALID_XML \<equiv> 8"
abbreviation (input) SJA1105_ERR_FILESYSTEM :: int where "SJA1105_ERR_FILESYSTEM \<equiv> 9"

text \<open>The macro \<^verbatim>\<open>sja1105_err_remap\<close>: the value it assigns.\<close>

definition sja1105_err_remap :: "int \<Rightarrow> int \<Rightarrow> int" where
  "sja1105_err_remap old_err new_err = - new_err"

section \<open>Reading and writing files\<close>

text \<open>
  The loops go on until a call transfers nothing. A call never transfers more than it is asked for.
\<close>

lemma transfer_progress:
  "\<not> min r (int (len - b)) < 0 \<Longrightarrow> min r (int (len - b)) \<noteq> 0 \<Longrightarrow>
   len - (b + nat (min r (int (len - b)))) < len - b"
  by (cases "b < len") (auto simp: min_def split: if_splits)

function reliable_read_loop ::
    "kernel \<Rightarrow> int \<Rightarrow> nat \<Rightarrow> nat \<Rightarrow> u8 list \<Rightarrow> history \<Rightarrow> (int \<times> u8 list) \<times> history" where
  "reliable_read_loop k fd len bytes buf h =
     (let call = Read fd (len - bytes);
          a = k h call;
          h' = h @ [(call, a)];
          rc = min (ret a) (int (len - bytes))
      in if rc < 0 then ((rc, buf), h')
         else
           let buf' = take bytes buf @ overwrite (take (nat rc) (bytes_read a)) (drop bytes buf)
           in if rc = 0 then ((0, buf'), h')
              else reliable_read_loop k fd len (bytes + nat rc) buf' h')"
  by pat_completeness auto
termination
  by (relation "measure (\<lambda>(k, fd, len, bytes, buf, h). len - bytes)")
    (simp_all only: wf_measure in_measure prod.case transfer_progress not_False_eq_True)

declare reliable_read_loop.simps [simp del]

definition reliable_read :: "kernel \<Rightarrow> int \<Rightarrow> u8 list \<Rightarrow> nat \<Rightarrow> (int \<times> u8 list) io" where
  "reliable_read k fd buf len = State (reliable_read_loop k fd len 0 buf)"

function reliable_write_loop :: "kernel \<Rightarrow> int \<Rightarrow> u8 list \<Rightarrow> nat \<Rightarrow> nat \<Rightarrow> history \<Rightarrow> int \<times> history" where
  "reliable_write_loop k fd buf len bytes h =
     (let call = Write fd (take (len - bytes) (drop bytes buf));
          a = k h call;
          h' = h @ [(call, a)];
          rc = min (ret a) (int (len - bytes))
      in if rc < 0 then (rc, h')
         else if rc = 0 then (0, h')
         else reliable_write_loop k fd buf len (bytes + nat rc) h')"
  by pat_completeness auto
termination
  by (relation "measure (\<lambda>(k, fd, buf, len, bytes, h). len - bytes)")
    (simp_all only: wf_measure in_measure prod.case transfer_progress not_False_eq_True)

declare reliable_write_loop.simps [simp del]

definition reliable_write :: "kernel \<Rightarrow> int \<Rightarrow> u8 list \<Rightarrow> nat \<Rightarrow> int io" where
  "reliable_write k fd buf len = State (reliable_write_loop k fd buf len 0)"

text \<open>
  The size of the file in the structure that \<^verbatim>\<open>fstat\<close> fills, whose other members nothing here reads. It is
  kept in an \<^verbatim>\<open>unsigned int\<close>.
\<close>

definition file_size :: "answer \<Rightarrow> nat" where
  "file_size a = unat (ucast (of_le_bytes (bytes_read a)) :: u32)"

section \<open>The dump of a file\<close>

text \<open>
  \<^verbatim>\<open>sja1105_static_config_hexdump\<close> (\<^verbatim>\<open>lib/static-config/static-config.c\<close>): the number of bytes it dumps, or
  -1. It follows the tables as the unpacking function does, but checks no sums.
\<close>

function hexdump_tables :: "u8 list \<Rightarrow> int \<Rightarrow> sja1105_static_config \<Rightarrow> int option" where
  "hexdump_tables p dumped config =
     (if length p < SIZE_TABLE_HEADER then None
      else
        let hdr = sja1105_table_header_unpack p table_header_zero
        in if hdr_len hdr = 0 then Some dumped
           else
             let p1 = drop SIZE_TABLE_HEADER p;
                 len = unat (hdr_len hdr) * 4
             in case add_entries hdr (int len) p1 config of
                  None \<Rightarrow> None
                | Some (rc, config') \<Rightarrow>
                    if rc < 0 then Some (- 1)
                    else if length p1 < len + 4 then None
                    else hexdump_tables (drop (len + 4) p1) (dumped + int (SIZE_TABLE_HEADER + len + 4)) config')"
  by pat_completeness auto
termination
  by (relation "measure (\<lambda>(p, dumped, config). length p)") auto

declare hexdump_tables.simps [simp del]

definition sja1105_static_config_hexdump :: "u8 list \<Rightarrow> int option" where
  "sja1105_static_config_hexdump buf =
     (if length buf < SIZE_SJA1105_DEVICE_ID then None
      else hexdump_tables (drop SIZE_SJA1105_DEVICE_ID buf) (int SIZE_SJA1105_DEVICE_ID)
             (static_config_zero\<lparr>cfg_device_id := fst (snd (gtable_unpack buf 0 31 0 4))\<rparr>))"

definition staging_area_hexdump :: "kernel \<Rightarrow> (nat \<Rightarrow> u8) \<Rightarrow> string \<Rightarrow> int option io" where
  "staging_area_hexdump k heap staging_area_file = do {
     opened \<leftarrow> system k (Open_Read staging_area_file);
     let fd = ret opened;
     if fd < 0 then io_return (Some (sja1105_err_remap fd SJA1105_ERR_FILESYSTEM))
     else do {
       stat \<leftarrow> system k (Fstat fd);
       if ret stat < 0 then do {
         system k (Close fd);
         io_return (Some (sja1105_err_remap (ret stat) SJA1105_ERR_FILESYSTEM))
       } else do {
         let len = file_size stat;
         (rc, buf) \<leftarrow> reliable_read k fd (map heap [0..<len]) len;
         if rc < 0 then do {
           system k (Close fd);
           io_return (Some (sja1105_err_remap rc SJA1105_ERR_FILESYSTEM))
         } else
           case sja1105_static_config_hexdump buf of
             None \<Rightarrow> io_return None
           | Some rc \<Rightarrow>
               if rc < 0 then io_return (Some (sja1105_err_remap rc SJA1105_ERR_STAGING_AREA_INVALID))
               else do {
                 system k (Close fd);
                 io_return (Some (sja1105_err_remap rc SJA1105_ERR_FILESYSTEM))
               }
       }
     }
   }"

section \<open>Loading and saving\<close>

text \<open>After a file was read, its descriptor is not closed.\<close>

definition staging_area_load ::
    "kernel \<Rightarrow> (nat \<Rightarrow> u8) \<Rightarrow> string \<Rightarrow> sja1105_staging_area \<Rightarrow> (int \<times> sja1105_staging_area) option io" where
  "staging_area_load k heap staging_area_file staging_area = do {
     opened \<leftarrow> system k (Open_Read staging_area_file);
     let fd = ret opened;
     if fd < 0 then io_return (Some (sja1105_err_remap fd SJA1105_ERR_FILESYSTEM, staging_area))
     else do {
       stat \<leftarrow> system k (Fstat fd);
       if ret stat < 0 then do {
         system k (Close fd);
         io_return (Some (sja1105_err_remap (ret stat) SJA1105_ERR_FILESYSTEM, staging_area))
       } else do {
         let staging_area_len = file_size stat;
         (rc, buf) \<leftarrow> reliable_read k fd (map heap [0..<staging_area_len]) staging_area_len;
         if rc < 0 then do {
           system k (Close fd);
           io_return (Some (sja1105_err_remap rc SJA1105_ERR_FILESYSTEM, staging_area))
         } else
           io_return (map_option
             (\<lambda>(rc, static_config).
                (if rc < 0 then sja1105_err_remap rc SJA1105_ERR_STAGING_AREA_INVALID else 0,
                 staging_area\<lparr>sa_static_config := static_config\<rparr>))
             (sja1105_static_config_unpack buf))
       }
     }
   }"

definition staging_area_save ::
    "kernel \<Rightarrow> (nat \<Rightarrow> u8) \<Rightarrow> string \<Rightarrow> sja1105_staging_area \<Rightarrow> (int \<times> sja1105_staging_area) option io" where
  "staging_area_save k heap staging_area_file staging_area =
     (let staging_area_len = unat (sja1105_static_config_get_length (sa_static_config staging_area))
      in case sja1105_static_config_pack (map heap [0..<staging_area_len]) (sa_static_config staging_area) of
           None \<Rightarrow> io_return None
         | Some (rc, buf, static_config) \<Rightarrow>
             let staging_area' = staging_area\<lparr>sa_static_config := static_config\<rparr>
             in if rc < 0 then io_return (Some (rc, staging_area'))
                else do {
                  opened \<leftarrow> system k (Open_Create staging_area_file);
                  let fd = ret opened;
                  if fd < 0 then io_return (Some (fd, staging_area'))
                  else do {
                    rc \<leftarrow> reliable_write k fd buf staging_area_len;
                    if rc < 0 then io_return (Some (rc, staging_area'))
                    else do {
                      system k (Close fd);
                      io_return (Some (rc, staging_area'))
                    }
                  }
                })"

section \<open>Upload\<close>

abbreviation (input) CONFIG_ADDR :: u64 where "CONFIG_ADDR \<equiv> 0x20000"

text \<open>The buffer with the checksum over everything before it in the header that ends the tables.\<close>

definition write_global_crc :: "u8 list \<Rightarrow> nat \<Rightarrow> u8 list" where
  "write_global_crc config_buf config_buf_len =
     (let crc_len = config_buf_len - 4;
          final_header_ptr = config_buf_len - SIZE_TABLE_HEADER;
          final_header = sja1105_table_header_unpack (drop final_header_ptr config_buf) table_header_zero;
          final_header' = final_header\<lparr>hdr_crc := ucast (ether_crc32_le config_buf crc_len)\<rparr>
      in take final_header_ptr config_buf @
         fst (sja1105_table_header_pack (drop final_header_ptr config_buf) final_header'))"

definition static_config_upload ::
    "kernel \<Rightarrow> (nat \<Rightarrow> u8) \<Rightarrow> sja1105_spi_setup \<Rightarrow> sja1105_static_config \<Rightarrow>
     (int \<times> sja1105_static_config) option io" where
  "static_config_upload k heap spi_setup config =
     (let config_buf_len = unat (sja1105_static_config_get_length config)
      in case sja1105_static_config_pack (map heap [0..<config_buf_len]) config of
           None \<Rightarrow> io_return None
         | Some (rc, config_buf, config') \<Rightarrow>
             if rc < 0 then io_return (Some (rc, config'))
             else do {
               (rc, _) \<leftarrow> sja1105_spi_send_long_packed_buf k spi_setup SPI_WRITE CONFIG_ADDR
                 (write_global_crc config_buf config_buf_len) config_buf_len;
               io_return (Some (rc, config'))
             })"

text \<open>
  The loop that waits for the end of \<^verbatim>\<open>L2BUSYS\<close>: whether it ended within the given number of tries.
\<close>

fun wait_l2busys :: "kernel \<Rightarrow> sja1105_spi_setup \<Rightarrow> nat \<Rightarrow> bool io" where
  "wait_l2busys k spi_setup 0 = io_return False"
| "wait_l2busys k spi_setup (Suc retries) = do {
     (rc, status) \<leftarrow> sja1105_general_status_get k spi_setup general_status_zero;
     if rc < 0 then io_return False
     else if gs_l2busys status = 0 then io_return True
     else do {
       system k (Usleep 10000);
       wait_l2busys k spi_setup retries
     }
   }"

text \<open>
  The whole way to the switch. \<open>stack\<close> is what the array of \<^verbatim>\<open>sja1105_inhibit_tx\<close> holds before it is written.
\<close>

definition static_config_flush ::
    "kernel \<Rightarrow> (nat \<Rightarrow> u8) \<Rightarrow> u8 list \<Rightarrow> sja1105_spi_setup \<Rightarrow> sja1105_static_config \<Rightarrow>
     (int \<times> sja1105_static_config) option io" where
  "static_config_flush k heap stack spi_setup config =
     (let rc = sja1105_static_config_check_valid config
      in if rc < 0 then io_return (Some (sja1105_err_remap rc SJA1105_ERR_STAGING_AREA_INVALID, config))
         else do {
           rc \<leftarrow> sja1105_inhibit_tx k spi_setup stack \<lparr>inhibit_tx = replicate SJA1105T_NUM_PORTS 1\<rparr>;
           if rc < 0 then io_return (Some (sja1105_err_remap rc SJA1105_ERR_HW_NOT_RESPONDING, config))
           else do {
             system k (Usleep 1000);
             rc \<leftarrow> sja1105_cold_reset k spi_setup;
             if rc < 0 then
               io_return (Some (sja1105_err_remap rc SJA1105_ERR_UPLOAD_FAILED_HW_LEFT_FLOATING, config))
             else do {
               ready \<leftarrow> (if sp_dry_run spi_setup = 0 \<and> 0 < entry_count (cfg_l2_lookup config)
                         then wait_l2busys k spi_setup 100 else io_return True);
               if \<not> ready then
                 io_return (Some (sja1105_err_remap rc SJA1105_ERR_HW_NOT_RESPONDING, config))
               else do {
                 uploaded \<leftarrow> static_config_upload k heap spi_setup config;
                 case uploaded of
                   None \<Rightarrow> io_return None
                 | Some (rc, config') \<Rightarrow>
                     if rc < 0 then
                       io_return (Some (sja1105_err_remap rc SJA1105_ERR_UPLOAD_FAILED_HW_LEFT_FLOATING, config'))
                     else do {
                       rc \<leftarrow> sja1105_clocking_setup k spi_setup (entries (cfg_xmii_params config') 0)
                         (map (entries (cfg_mac_config config')) [0..<SJA1105T_NUM_PORTS]);
                       if rc < 0 then
                         io_return (Some (sja1105_err_remap rc SJA1105_ERR_UPLOAD_FAILED_HW_LEFT_FLOATING, config'))
                       else if sp_dry_run spi_setup = 0 then do {
                         (rc, status) \<leftarrow> sja1105_general_status_get k spi_setup general_status_zero;
                         if rc < 0 \<or> gs_ids status = 1 \<or> gs_crcchkl status = 1 \<or> gs_crcchkg status = 1 \<or>
                            gs_configs status = 0
                         then io_return (Some (sja1105_err_remap rc SJA1105_ERR_UPLOAD_FAILED_HW_LEFT_FLOATING, config'))
                         else io_return (Some (SJA1105_ERR_OK, config'))
                       }
                       else io_return (Some (SJA1105_ERR_OK, config'))
                     }
               }
             }
           }
         })"

definition staging_area_flush ::
    "kernel \<Rightarrow> (nat \<Rightarrow> u8) \<Rightarrow> u8 list \<Rightarrow> sja1105_spi_setup \<Rightarrow> sja1105_staging_area \<Rightarrow>
     (int \<times> sja1105_staging_area) option io" where
  "staging_area_flush k heap stack spi_setup staging_area = do {
     flushed \<leftarrow> static_config_flush k heap stack spi_setup (sa_static_config staging_area);
     io_return (map_option (\<lambda>(rc, config). (rc, staging_area\<lparr>sa_static_config := config\<rparr>)) flushed)
   }"

section \<open>Files\<close>

text \<open>How much the calls of a history read from a file, and what they wrote to it.\<close>

fun bytes_taken :: "int \<Rightarrow> history \<Rightarrow> nat" where
  "bytes_taken fd [] = 0"
| "bytes_taken fd ((Read fd' n, a) # es) = (if fd' = fd then nat (ret a) else 0) + bytes_taken fd es"
| "bytes_taken fd (e # es) = bytes_taken fd es"

fun bytes_written :: "int \<Rightarrow> history \<Rightarrow> u8 list" where
  "bytes_written fd [] = []"
| "bytes_written fd ((Write fd' b, a) # es) = (if fd' = fd then take (nat (ret a)) b else []) @ bytes_written fd es"
| "bytes_written fd (e # es) = bytes_written fd es"

lemma bytes_taken_append [simp]: "bytes_taken fd (es @ fs) = bytes_taken fd es + bytes_taken fd fs"
  by (induction fd es rule: bytes_taken.induct) auto

lemma bytes_written_append [simp]: "bytes_written fd (es @ fs) = bytes_written fd es @ bytes_written fd fs"
  by (induction fd es rule: bytes_written.induct) auto

text \<open>
  A kernel that, after the history \<open>h\<close>, gives the contents of a file in pieces as it likes, and one that
  takes what is written, at least a byte with every call.
\<close>

definition only_reads :: "int \<Rightarrow> history \<Rightarrow> bool" where
  "only_reads fd es \<longleftrightarrow> list_all (\<lambda>e. case fst e of Read fd' n \<Rightarrow> fd' = fd | _ \<Rightarrow> False) es"

definition serves_file :: "kernel \<Rightarrow> int \<Rightarrow> history \<Rightarrow> u8 list \<Rightarrow> bool" where
  "serves_file k fd h content \<longleftrightarrow>
     (\<forall>es n. only_reads fd es \<longrightarrow> (let off = bytes_taken fd es; a = k (h @ es) (Read fd n) in
        0 \<le> ret a \<and> ret a \<le> int (min n (length content - off)) \<and>
        (0 < n \<and> off < length content \<longrightarrow> 0 < ret a) \<and>
        bytes_read a = take (nat (ret a)) (drop off content)))"

definition takes_file :: "kernel \<Rightarrow> int \<Rightarrow> bool" where
  "takes_file k fd \<longleftrightarrow>
     (\<forall>h b. 0 \<le> ret (k h (Write fd b)) \<and> ret (k h (Write fd b)) \<le> int (length b) \<and>
        (b \<noteq> [] \<longrightarrow> 0 < ret (k h (Write fd b))))"

lemma reliable_read_loop_serves:
  assumes "serves_file k fd h content"
  shows "only_reads fd es \<Longrightarrow> bytes_taken fd es = n \<Longrightarrow> n \<le> length content \<Longrightarrow> length buf = length content \<Longrightarrow>
    take n buf = take n content \<Longrightarrow>
    \<exists>fs. reliable_read_loop k fd (length content) n buf (h @ es) = ((0, content), h @ es @ fs)"
proof (induction "length content - n" arbitrary: n buf es rule: less_induct)
  case less
  define call where "call = Read fd (length content - n)"
  define a where "a = k (h @ es) call"
  have a: "0 \<le> ret a" "ret a \<le> int (length content - n)" "n < length content \<Longrightarrow> 0 < ret a"
    "bytes_read a = take (nat (ret a)) (drop n content)"
    using assms [unfolded serves_file_def Let_def, rule_format, of es "length content - n"] less.prems(1,2)
    by (auto simp: a_def call_def)
  define buf' where "buf' = take n buf @ overwrite (take (nat (ret a)) (bytes_read a)) (drop n buf)"
  have len: "length buf' = length content" using less.prems by (simp add: buf'_def)
  have eq: "take (n + nat (ret a)) buf' = take (n + nat (ret a)) content"
    using less.prems a by (simp add: buf'_def overwrite_def take_add)
  have step: "reliable_read_loop k fd (length content) n buf (h @ es) =
     (if ret a = 0 then ((0, buf'), h @ es @ [(call, a)])
      else reliable_read_loop k fd (length content) (n + nat (ret a)) buf' (h @ es @ [(call, a)]))"
    using a(1,2) by (subst reliable_read_loop.simps) (simp add: Let_def flip: call_def a_def buf'_def)
  show ?case
  proof (cases "ret a = 0")
    case True
    then have "n = length content" using a(3) less.prems(3) by (cases "n < length content") auto
    then have "buf' = content" using eq len True by simp
    then show ?thesis using step True by auto
  next
    case False
    then have "0 < nat (ret a)" using a(1) by simp
    moreover have le: "n + nat (ret a) \<le> length content" using a(2) less.prems(3) by linarith
    ultimately have "length content - (n + nat (ret a)) < length content - n" by linarith
    from less.hyps [OF this, of "es @ [(call, a)]" buf'] less.prems(1,2) le len eq obtain fs where
      "reliable_read_loop k fd (length content) (n + nat (ret a)) buf' (h @ es @ [(call, a)]) =
        ((0, content), h @ (es @ [(call, a)]) @ fs)"
      by (auto simp: call_def only_reads_def)
    then show ?thesis using step False by auto
  qed
qed

lemma reliable_read_serves:
  assumes "serves_file k fd h content" "length buf = length content"
  shows "\<exists>es. run_state (reliable_read k fd buf (length content)) h = ((0, content), h @ es)"
  using reliable_read_loop_serves [OF assms(1), of "[]" 0 buf] assms(2) by (auto simp: reliable_read_def only_reads_def)

lemma reliable_write_loop_takes:
  assumes "takes_file k fd"
  shows "n \<le> length buf \<Longrightarrow>
    \<exists>fs. reliable_write_loop k fd buf (length buf) n h = (0, h @ fs) \<and> bytes_written fd fs = drop n buf"
proof (induction "length buf - n" arbitrary: n h rule: less_induct)
  case less
  define call where "call = Write fd (drop n buf)"
  define a where "a = k h call"
  have a: "0 \<le> ret a" "ret a \<le> int (length buf - n)" "n < length buf \<Longrightarrow> 0 < ret a"
    using assms less.prems unfolding takes_file_def a_def call_def by (metis drop_eq_Nil length_drop not_le)+
  have step: "reliable_write_loop k fd buf (length buf) n h =
     (if ret a = 0 then (0, h @ [(call, a)])
      else reliable_write_loop k fd buf (length buf) (n + nat (ret a)) (h @ [(call, a)]))"
    using a(1,2) by (subst reliable_write_loop.simps) (simp add: Let_def flip: call_def a_def)
  show ?case
  proof (cases "ret a = 0")
    case True
    then have "n = length buf" using a(3) less.prems by (cases "n < length buf") auto
    then show ?thesis using step True by (auto simp: call_def)
  next
    case False
    then have "0 < nat (ret a)" using a(1) by simp
    moreover have le: "n + nat (ret a) \<le> length buf" using a(2) less.prems by linarith
    ultimately have "length buf - (n + nat (ret a)) < length buf - n" by linarith
    from less.hyps [OF this le, of "h @ [(call, a)]"] obtain fs where
      "reliable_write_loop k fd buf (length buf) (n + nat (ret a)) (h @ [(call, a)]) = (0, (h @ [(call, a)]) @ fs)"
      "bytes_written fd fs = drop (n + nat (ret a)) buf"
      by blast
    then show ?thesis using step False
      by (auto simp: call_def intro!: exI [of _ "(call, a) # fs"])
        (metis append_take_drop_id drop_drop add.commute)
  qed
qed

lemma reliable_write_takes:
  assumes "takes_file k fd"
  shows "\<exists>es. run_state (reliable_write k fd buf (length buf)) h = (0, h @ es) \<and> bytes_written fd es = buf"
  using reliable_write_loop_takes [OF assms, of 0 buf h] by (auto simp: reliable_write_def)

definition holds_file :: "kernel \<Rightarrow> string \<Rightarrow> u8 list \<Rightarrow> bool" where
  "holds_file k f content \<longleftrightarrow>
     (\<forall>h. let opened = k h (Open_Read f); fd = ret opened; h1 = h @ [(Open_Read f, opened)]; stat = k h1 (Fstat fd) in
        0 \<le> fd \<and> 0 \<le> ret stat \<and> file_size stat = length content \<and> serves_file k fd (h1 @ [(Fstat fd, stat)]) content)"

definition accepts_file :: "kernel \<Rightarrow> string \<Rightarrow> bool" where
  "accepts_file k f \<longleftrightarrow> (\<forall>h. 0 \<le> ret (k h (Open_Create f)) \<and> takes_file k (ret (k h (Open_Create f))))"

lemma staging_area_load_works:
  assumes "holds_file k f content" "sja1105_static_config_unpack content = Some (0, c)"
  shows "fst (run_state (staging_area_load k heap f area) h) = Some (0, area\<lparr>sa_static_config := c\<rparr>)"
proof -
  define opened where "opened = k h (Open_Read f)"
  define fd where "fd = ret opened"
  define h1 where "h1 = h @ [(Open_Read f, opened)]"
  define stat where "stat = k h1 (Fstat fd)"
  define h2 where "h2 = h1 @ [(Fstat fd, stat)]"
  have f: "0 \<le> fd" "0 \<le> ret stat" "file_size stat = length content" "serves_file k fd h2 content"
    using assms(1) by (auto simp: holds_file_def Let_def opened_def fd_def h1_def stat_def h2_def)
  obtain es where "run_state (reliable_read k fd (map heap [0..<length content]) (length content)) h2 = ((0, content), h2 @ es)"
    using reliable_read_serves [OF f(4), of "map heap [0..<length content]"] by auto
  then show ?thesis
    using f(1-3) assms(2)
    by (simp add: staging_area_load_def system_def Let_def flip: opened_def fd_def h1_def)
      (simp add: Let_def flip: stat_def h2_def)
qed

lemma staging_area_save_works:
  assumes "DEVICE_ID_VALID (cfg_device_id c)" "tables_ok c" "accepts_file k f"
  shows "\<exists>es. run_state (staging_area_save k heap f \<lparr>sa_static_config = c\<rparr>) h =
      (Some (0, \<lparr>sa_static_config = sja1105_static_config_patch_fdb c\<rparr>), h @ es) \<and>
    bytes_written (ret (k h (Open_Create f))) es = config_bytes (sja1105_static_config_patch_fdb c)"
proof -
  define c' where "c' = sja1105_static_config_patch_fdb c"
  have c': "DEVICE_ID_VALID (cfg_device_id c')" "tables_ok c'" "cfg_device_id c' = cfg_device_id c"
    using assms(1,2) tables_ok_patch_fdb by (simp_all add: c'_def)
  define n where "n = unat (sja1105_static_config_get_length c)"
  have n: "length (config_bytes c') = n"
    using get_length_config [OF c'(1,2)] get_length_patch_fdb [of c] by (simp add: c'_def n_def)
  have pack: "sja1105_static_config_pack (map heap [0..<n]) c = Some (0, config_bytes c', c')"
    using pack_config [OF assms(1), of "map heap [0..<n]"] c' n by (simp add: c'_def)
  define opened where "opened = k h (Open_Create f)"
  define fd where "fd = ret opened"
  define h1 where "h1 = h @ [(Open_Create f, opened)]"
  have fd: "0 \<le> fd" "takes_file k fd" using assms(3) by (auto simp: accepts_file_def opened_def fd_def)
  obtain es where es: "run_state (reliable_write k fd (config_bytes c') n) h1 = (0, h1 @ es)"
    "bytes_written fd es = config_bytes c'"
    using reliable_write_takes [OF fd(2), of "config_bytes c'" h1] n by auto
  define es' where "es' = (Open_Create f, opened) # es @ [(Close fd, k (h1 @ es) (Close fd))]"
  have "run_state (staging_area_save k heap f \<lparr>sa_static_config = c\<rparr>) h =
      (Some (0, \<lparr>sa_static_config = c'\<rparr>), h1 @ es @ [(Close fd, k (h1 @ es) (Close fd))])"
    using fd(1) es(1) pack
    by (simp add: staging_area_save_def system_def Let_def flip: n_def opened_def fd_def h1_def)
  moreover have "h1 @ es @ [(Close fd, k (h1 @ es) (Close fd))] = h @ es'" by (simp add: h1_def es'_def)
  moreover have "bytes_written fd es' = config_bytes c'" using es(2) by (simp add: es'_def)
  ultimately have "run_state (staging_area_save k heap f \<lparr>sa_static_config = c\<rparr>) h = (Some (0, \<lparr>sa_static_config = c'\<rparr>), h @ es') \<and>
      bytes_written fd es' = config_bytes c'" by simp
  then show ?thesis unfolding c'_def fd_def opened_def by blast
qed

text \<open>
  C4: What is saved is loaded again. Saving a well-formed configuration succeeds on any kernel that takes
  the bytes, in whatever pieces; the file has the length of the packed configuration. Loading it, from a kernel
  that gives these bytes in whatever pieces, gives the staging area as it is after saving, with the
  indices of its static addresses set.
\<close>

theorem staging_area_save_then_load:
  assumes "DEVICE_ID_VALID (cfg_device_id c)" "tables_ok c" "formats_agree c"
    and "cfg_entries_in_fdb_bin c = (\<lambda>_. 0)" "accepts_file k f"
  shows "\<exists>es content area'. run_state (staging_area_save k heap f \<lparr>sa_static_config = c\<rparr>) h = (Some (0, area'), h @ es) \<and>
    bytes_written (ret (k h (Open_Create f))) es = content \<and>
    length content = unat (sja1105_static_config_get_length c) \<and>
    sa_static_config area' = sja1105_static_config_patch_fdb c \<and>
    (\<forall>k' heap' h' area. holds_file k' f content \<longrightarrow>
       fst (run_state (staging_area_load k' heap' f area) h') = Some (0, area'))"
proof -
  define c' where "c' = sja1105_static_config_patch_fdb c"
  have c': "DEVICE_ID_VALID (cfg_device_id c')" "tables_ok c'" "formats_agree c'"
    using assms(1-3) tables_ok_patch_fdb formats_agree_patch_fdb by (simp_all add: c'_def)
  have "sja1105_static_config_unpack (config_bytes c') = Some (0, c')"
    using unpack_config [OF c', of "[]"] bins_counted_patch_fdb [OF assms(4)] by (simp add: c'_def)
  then have load: "fst (run_state (staging_area_load k' heap' f area) h') = Some (0, \<lparr>sa_static_config = c'\<rparr>)"
    if "holds_file k' f (config_bytes c')" for k' heap' h' and area :: sja1105_staging_area
    using staging_area_load_works [OF that] by simp
  have "length (config_bytes c') = unat (sja1105_static_config_get_length c)"
    using get_length_config [OF c'(1,2)] get_length_patch_fdb [of c] by (simp add: c'_def)
  with load staging_area_save_works [OF assms(1,2,5), of heap h] show ?thesis
    unfolding c'_def by auto
qed

text \<open>A kernel with one file, for the examples.\<close>

definition file_kernel :: "u8 list \<Rightarrow> kernel" where
  "file_kernel content h c =
     (case c of
        Fstat fd \<Rightarrow> \<lparr>ret = 0, bytes_read = le_bytes (of_nat (length content))\<rparr>
      | Read fd n \<Rightarrow>
          let off = bytes_taken fd (rev (takeWhile (\<lambda>e. fst e \<noteq> Fstat fd) (rev h)));
              got = min n (length content - off)
          in \<lparr>ret = int got, bytes_read = take got (drop off content)\<rparr>
      | Write fd b \<Rightarrow> \<lparr>ret = int (length b), bytes_read = []\<rparr>
      | _ \<Rightarrow> \<lparr>ret = 3, bytes_read = []\<rparr>)"

lemma of_le_bytes_le_bytes: "of_le_bytes (le_bytes v) = v"
proof (rule word_bits_eqI)
  fix n assume "n < LENGTH(64)"
  then have "n < 8 \<or> 8 \<le> n \<and> n < 16 \<or> 16 \<le> n \<and> n < 24 \<or> 24 \<le> n \<and> n < 32 \<or> 32 \<le> n \<and> n < 40 \<or>
      40 \<le> n \<and> n < 48 \<or> 48 \<le> n \<and> n < 56 \<or> 56 \<le> n \<and> n < 64" by simp linarith
  then show "bit (of_le_bytes (le_bytes v)) n = bit v n"
    by (elim disjE conjE)
      (simp_all add: of_le_bytes_def le_bytes_def upt_8 bit_or_iff bit_push_bit_iff bit_ucast_iff bit_drop_bit_eq less_diff_conv2)
qed

lemma file_kernel_holds:
  assumes "length content < 2 ^ 32"
  shows "holds_file (file_kernel content) f content"
proof -
  have "takeWhile (\<lambda>e. fst e \<noteq> Fstat fd) (rev es @ [(Fstat fd, a)]) = rev es" if "only_reads fd es" for es fd a
    using that by (subst takeWhile_append2) (auto simp: only_reads_def list_all_iff split: syscall.splits)
  then have "takeWhile (\<lambda>e. fst e \<noteq> Fstat fd) (rev es @ (Fstat fd, a) # rest) = rev es" if "only_reads fd es" for es fd a rest
    using that by (subst takeWhile_append2) (auto simp: only_reads_def list_all_iff split: syscall.splits)
  moreover have "file_size (\<lparr>ret = 0, bytes_read = le_bytes (of_nat (length content))\<rparr>) = length content"
    using assms by (simp add: file_size_def of_le_bytes_le_bytes unsigned_of_nat unsigned_ucast_eq take_bit_nat_eq_self)
  ultimately show ?thesis
    by (auto simp: holds_file_def file_kernel_def Let_def serves_file_def)
qed

lemma file_kernel_accepts: "accepts_file (file_kernel content) f"
  by (simp add: accepts_file_def takes_file_def file_kernel_def)

theorem staging_area_save_then_load_witness:
  "\<exists>es content area'. run_state (staging_area_save (file_kernel []) (\<lambda>_. 0xFF) ''.staging''
      \<lparr>sa_static_config = example_config\<rparr>) [] = (Some (0, area'), es) \<and> length content = 80 \<and>
    fst (run_state (staging_area_load (file_kernel content) (\<lambda>_. 0) ''.staging'' \<lparr>sa_static_config = static_config_zero\<rparr>) []) =
      Some (0, area')"
proof -
  obtain es content area' where
    "run_state (staging_area_save (file_kernel []) (\<lambda>_. 0xFF) ''.staging'' \<lparr>sa_static_config = example_config\<rparr>) [] =
      (Some (0, area'), es)"
    "length content = unat (sja1105_static_config_get_length example_config)"
    "\<forall>k' heap' h' area. holds_file k' ''.staging'' content \<longrightarrow>
       fst (run_state (staging_area_load k' heap' ''.staging'' area) h') = Some (0, area')"
    using staging_area_save_then_load [OF example_config_ok(1-4) file_kernel_accepts, of "[]" "\<lambda>_. 0xFF" "''.staging''" "[]"]
    by auto
  moreover from this(2) have "length content = 80" by (simp add: example_config_ok)
  moreover from this have "holds_file (file_kernel content) ''.staging'' content" by (intro file_kernel_holds) simp
  ultimately show ?thesis by blast
qed

section \<open>The upload\<close>

lemma fits_end_header: "fits table_header_layout \<lparr>hdr_block_id = 0, hdr_len = 0, hdr_crc = ucast (x :: u32)\<rparr>"
proof -
  have "take_bit 32 (ucast x :: u64) = ucast x"
    by (rule word_bits_eqI) (auto simp: bit_take_bit_iff bit_ucast_iff dest: bit_imp_le_length)
  then show ?thesis by (simp add: fits_def table_header_layout_def fld_def width_def)
qed

lemma end_header_unpack:
  "sja1105_table_header_unpack (table_header.bytes \<lparr>hdr_block_id = 0, hdr_len = 0, hdr_crc = ucast (x :: u32)\<rparr> @ r) z =
     \<lparr>hdr_block_id = 0, hdr_len = 0, hdr_crc = ucast x\<rparr>"
  using table_header.unpack_bytes [of _ r z] table_header.fits_copy [OF _ fits_end_header, of x]
  by (simp add: table_header_shape_def sja1105_table_header_unpack_def entry_unpack_def sja1105_table_header_access_def)

lemma end_header_pack:
  "12 \<le> length buf \<Longrightarrow> fst (sja1105_table_header_pack buf h) = table_header.bytes h @ drop 12 buf"
  using table_header.pack_eq [of buf h]
  by (simp add: sja1105_table_header_pack_def sja1105_table_header_access_def entry_pack_def)

text \<open>The bytes of a packed configuration with the checksum over all that is before it.\<close>

definition upload_bytes :: "sja1105_static_config \<Rightarrow> u8 list" where
  "upload_bytes c =
     (let b = word_bytes (cfg_device_id c) @ tables_bytes c
      in b @ table_header.bytes \<lparr>hdr_block_id = 0, hdr_len = 0,
           hdr_crc = ucast (ether_crc32_le (config_bytes c) (length b + 8))\<rparr>)"

lemma section_len_words: "4 dvd sz \<Longrightarrow> 4 dvd section_len m sz"
  by (simp add: section_len_def)

lemma tables_bytes_words: "4 dvd length (tables_bytes c)"
  by (cases "IS_ET (cfg_device_id c)")
    (simp_all add: tables_bytes_def Let_def length_sections section_len_words dvd_add)

lemma length_config_bytes: "length (config_bytes c) = length (word_bytes (cfg_device_id c) @ tables_bytes c) + 12"
  by (simp add: config_bytes_def table_header.length_bytes)

lemma write_global_crc_config:
  "write_global_crc (config_bytes c) (length (config_bytes c)) = upload_bytes c"
proof -
  define b where "b = word_bytes (cfg_device_id c) @ tables_bytes c"
  define hb where "hb = table_header.bytes \<lparr>hdr_block_id = 0, hdr_len = 0, hdr_crc = 0xDEADBEEF\<rparr>"
  have c: "config_bytes c = b @ hb" by (simp add: config_bytes_def b_def hb_def)
  have hb: "length hb = 12" by (simp add: hb_def table_header.length_bytes)
  have "(0xDEADBEEF :: u64) = ucast (0xDEADBEEF :: u32)" by simp
  then have "sja1105_table_header_unpack hb table_header_zero = \<lparr>hdr_block_id = 0, hdr_len = 0, hdr_crc = 0xDEADBEEF\<rparr>"
    using end_header_unpack [of "0xDEADBEEF" "[]" table_header_zero] by (simp add: hb_def)
  moreover have "length b + 12 - 4 = length b + 8" by simp
  ultimately show ?thesis
    by (simp add: write_global_crc_def Let_def c hb end_header_pack upload_bytes_def add.commute flip: b_def)
qed

text \<open>
  What arrives at the switch: the tables as packed, and at the end a header whose checksum is that
  of all the bytes before it.
\<close>

lemma upload_bytes_spec:
  "length (upload_bytes c) = length (config_bytes c)"
  "take (length (config_bytes c) - 12) (upload_bytes c) = take (length (config_bytes c) - 12) (config_bytes c)"
  "sja1105_table_header_unpack (drop (length (config_bytes c) - 12) (upload_bytes c)) z =
     \<lparr>hdr_block_id = 0, hdr_len = 0,
      hdr_crc = ucast (ether_crc32_le (upload_bytes c) (length (config_bytes c) - 4))\<rparr>"
proof -
  define b where "b = word_bytes (cfg_device_id c) @ tables_bytes c"
  define h where "h = \<lparr>hdr_block_id = 0, hdr_len = 0, hdr_crc = ucast (ether_crc32_le (config_bytes c) (length b + 8))\<rparr>"
  define g :: table_header where "g = \<lparr>hdr_block_id = 0, hdr_len = 0, hdr_crc = 0xDEADBEEF\<rparr>"
  have c: "config_bytes c = b @ table_header.bytes g" by (simp add: config_bytes_def b_def g_def)
  have u: "upload_bytes c = b @ table_header.bytes h" by (simp add: upload_bytes_def b_def h_def Let_def)
  have w: "4 dvd length b + 8" using tables_bytes_words [of c] by (simp add: b_def word_bytes_spec)
  have "take 8 (table_header.bytes h) = take 8 (table_header.bytes g)"
    by (rule header_bytes_prefix) (simp_all add: h_def g_def)
  then have "take (length b + 8) (upload_bytes c) = take (length b + 8) (config_bytes c)" by (simp add: c u)
  then have crc: "ether_crc32_le (upload_bytes c) (length b + 8) = ether_crc32_le (config_bytes c) (length b + 8)"
    using ether_crc32_le_take [of "length b + 8" "upload_bytes c"] ether_crc32_le_take [of "length b + 8" "config_bytes c"] w
    by (simp add: c u table_header.length_bytes)
  have len: "length (config_bytes c) = length b + 12" by (simp add: c table_header.length_bytes)
  show "length (upload_bytes c) = length (config_bytes c)" by (simp add: c u table_header.length_bytes)
  show "take (length (config_bytes c) - 12) (upload_bytes c) = take (length (config_bytes c) - 12) (config_bytes c)"
    by (simp add: len) (simp add: c u)
  show "sja1105_table_header_unpack (drop (length (config_bytes c) - 12) (upload_bytes c)) z =
     \<lparr>hdr_block_id = 0, hdr_len = 0, hdr_crc = ucast (ether_crc32_le (upload_bytes c) (length (config_bytes c) - 4))\<rparr>"
    using end_header_unpack [of "ether_crc32_le (config_bytes c) (length b + 8)" "[]" z] crc
    by (simp add: len) (simp add: u h_def add.commute)
qed

lemma staging_area_hexdump_result:
  "fst (run_state (staging_area_hexdump k heap f) h) \<in>
     {None, Some (- SJA1105_ERR_FILESYSTEM), Some (- SJA1105_ERR_STAGING_AREA_INVALID)}"
  by (auto simp: staging_area_hexdump_def Let_def sja1105_err_remap_def split: prod.splits option.splits)

lemma section_len_capacity:
  assumes "member_ok ok z cap m"
  shows "section_len m sz \<le> 16 + cap * sz"
proof -
  have "nat (entry_count m) \<le> cap" using assms by (auto simp: member_ok_def)
  then show ?thesis by (simp add: section_len_def mult_le_mono1)
qed

lemma config_bytes_bound:
  assumes "tables_ok c"
  shows "length (config_bytes c) \<le> 2 ^ 20"
proof -
  note ok = assms [unfolded tables_ok_def Let_def]
  have "length (tables_bytes c) \<le> 1000000"
  proof (cases "IS_ET (cfg_device_id c)")
    case True
    show ?thesis
      unfolding tables_bytes_def Let_def if_P [OF True] length_append length_sections
      by (insert ok [unfolded if_P [OF True]], elim conjE, rule order_trans, (rule add_mono | erule section_len_capacity)+) simp
  next
    case False
    show ?thesis
      unfolding tables_bytes_def Let_def if_not_P [OF False] length_append length_sections
      by (insert ok [unfolded if_not_P [OF False]], elim conjE, rule order_trans, (rule add_mono | erule section_len_capacity)+) simp
  qed
  then show ?thesis by (simp add: config_bytes_def word_bytes_spec table_header.length_bytes)
qed

lemma upload_packs:
  assumes "DEVICE_ID_VALID (cfg_device_id c)" "tables_ok c"
  shows "run_state (static_config_upload k heap s c) h =
    (let c' = sja1105_static_config_patch_fdb c;
         ((rc, _), h') = run_state (sja1105_spi_send_long_packed_buf k s SPI_WRITE CONFIG_ADDR
           (upload_bytes c') (length (upload_bytes c'))) h
     in (Some (rc, c'), h'))"
proof -
  define c' where "c' = sja1105_static_config_patch_fdb c"
  have c': "DEVICE_ID_VALID (cfg_device_id c')" "tables_ok c'" "cfg_device_id c' = cfg_device_id c"
    using assms tables_ok_patch_fdb by (simp_all add: c'_def)
  define n where "n = unat (sja1105_static_config_get_length c)"
  have n: "length (config_bytes c') = n"
    using get_length_config [OF c'(1,2)] get_length_patch_fdb [of c] by (simp add: c'_def n_def)
  have "sja1105_static_config_pack (map heap [0..<n]) c = Some (0, config_bytes c', c')"
    using pack_config [OF assms(1), of "map heap [0..<n]"] c' n by (simp add: c'_def)
  then show ?thesis
    using write_global_crc_config [of c'] upload_bytes_spec(1) [of c'] n
    by (simp add: static_config_upload_def Let_def split_beta flip: n_def c'_def)
qed

section \<open>The way to the switch\<close>

lemma patch_fdb_other_tables:
  "cfg_xmii_params (sja1105_static_config_patch_fdb c) = cfg_xmii_params c"
  "cfg_mac_config (sja1105_static_config_patch_fdb c) = cfg_mac_config c"
  by (simp_all add: patch_fdb_eq patched_fdb_def Let_def)

lemma wait_l2busys_quiet:
  assumes "is_switch k mem" "sp_dry_run s = 0"
  shows "\<exists>ready es. run_state (wait_l2busys k s n) h = (ready, h @ es) \<and> sent_writes es = []"
proof (induction n arbitrary: h)
  case (Suc n)
  obtain st es where st: "run_state (sja1105_general_status_get k s general_status_zero) h = ((0, st), h @ es)"
    "sent_writes es = []"
    using general_status_works [OF assms] by blast
  define call where "call = (Usleep 10000, k (h @ es) (Usleep 10000))"
  obtain ready fs where "run_state (wait_l2busys k s n) (h @ es @ [call]) = (ready, (h @ es @ [call]) @ fs)"
    "sent_writes fs = []"
    using Suc.IH by blast
  then show ?case using st by (auto simp: system_def call_def)
qed auto

lemma upload_performs:
  assumes "bus_works k" "sp_dry_run s = 0" "DEVICE_ID_VALID (cfg_device_id c)" "tables_ok c"
  shows "performs (static_config_upload k heap s c) (Some (0, sja1105_static_config_patch_fdb c))
     (pieces 0x20000 (upload_bytes (sja1105_static_config_patch_fdb c)))"
proof -
  define c' where "c' = sja1105_static_config_patch_fdb c"
  have "length (upload_bytes c') \<le> 2 ^ 20"
    using config_bytes_bound [OF tables_ok_patch_fdb [OF assms(4)]] by (simp add: upload_bytes_spec(1) c'_def)
  then have "0x20000 + (length (upload_bytes c') + 3) div 4 \<le> 2 ^ 21" by simp
  then have "\<exists>es. send_chunks k s SPI_WRITE (length (upload_bytes c')) 0x20000 0 0 (upload_bytes c') h =
      ((0, upload_bytes c'), h @ es) \<and> sent_writes es = pieces 0x20000 (upload_bytes c')" for h
    using long_write_works [OF assms(1,2) refl, where b = "upload_bytes c'" and base = "0x20000" and pos = 0 and i = 0 and a = "0x20000"] by simp
  note sent = this
  show ?thesis
    unfolding performs_def
  proof
    fix h
    show "\<exists>es. run_state (static_config_upload k heap s c) h = (Some (0, sja1105_static_config_patch_fdb c), h @ es) \<and>
        sent_writes es = pieces 0x20000 (upload_bytes (sja1105_static_config_patch_fdb c))"
      using upload_packs [OF assms(3,4), of k heap s h] sent [of h]
      by (auto simp: sja1105_spi_send_long_packed_buf_def Let_def simp flip: c'_def)
  qed
qed

text \<open>
  The members of the general status that decide whether the device took the configuration.
\<close>

definition config_accepted :: "general_status \<Rightarrow> bool" where
  "config_accepted st \<longleftrightarrow> gs_ids st \<noteq> 1 \<and> gs_crcchkl st \<noteq> 1 \<and> gs_crcchkg st \<noteq> 1 \<and> gs_configs st \<noteq> 0"

definition flush_writes :: "sja1105_spi_setup \<Rightarrow> sja1105_static_config \<Rightarrow> (nat \<times> u8 list) list" where
  "flush_writes s c = pieces 0x20000 (upload_bytes c) @
     concat (map (port_clocks s (entries (cfg_xmii_params c) 0) (map (entries (cfg_mac_config c)) [0..<5])) [0..<5])"

text \<open>After the reset: the rest of \<^verbatim>\<open>static_config_flush\<close>, for a device that is ready.\<close>

lemma flush_rest:
  assumes "is_switch k mem" "sp_dry_run s = 0" "DEVICE_ID_VALID (cfg_device_id c)" "tables_ok c"
    "\<forall>i < 5. port_valid s (entries (cfg_xmii_params c) 0) (map (entries (cfg_mac_config c)) [0..<5]) i \<and>
       port_mode_valid (entries (cfg_xmii_params c) 0) i"
  obtains es fs where
    "run_state (static_config_upload k heap s c) h = (Some (0, sja1105_static_config_patch_fdb c), h @ es)"
    "run_state (sja1105_clocking_setup k s (entries (cfg_xmii_params c) 0) (map (entries (cfg_mac_config c)) [0..<5])) (h @ es) =
       (0, h @ es @ fs)"
    "sent_writes (es @ fs) = flush_writes s (sja1105_static_config_patch_fdb c)"
proof -
  define params where "params = entries (cfg_xmii_params c) 0"
  define mac where "mac = map (entries (cfg_mac_config c)) [0..<5]"
  have works: "bus_works k" using assms(1) by (simp add: is_switch_def)
  obtain es where es: "run_state (static_config_upload k heap s c) h = (Some (0, sja1105_static_config_patch_fdb c), h @ es)"
    "sent_writes es = pieces 0x20000 (upload_bytes (sja1105_static_config_patch_fdb c))"
    using performsD [OF upload_performs [OF works assms(2-4)], of heap h] by blast
  have "performs (sja1105_clocking_setup k s params mac) 0 (concat (map (port_clocks s params mac) [0..<5]))"
    unfolding sja1105_clocking_setup_def
    by (rule clocking_ports_performs [OF works assms(2)]) (use assms(5) in \<open>auto simp: params_def mac_def\<close>)
  from performsD [OF this, of "h @ es"] obtain fs where
    "run_state (sja1105_clocking_setup k s params mac) (h @ es) = (0, (h @ es) @ fs)"
    "sent_writes fs = concat (map (port_clocks s params mac) [0..<5])" by blast
  with es show thesis
    by (intro that [of es fs]) (simp_all add: flush_writes_def patch_fdb_other_tables params_def mac_def)
qed

lemma flush_start:
  assumes "bus_works k" "sp_dry_run s = 0" "4 \<le> length stack"
  obtains b es where "run_state (sja1105_inhibit_tx k s stack \<lparr>inhibit_tx = replicate SJA1105T_NUM_PORTS 1\<rparr>) h = (0, h @ es)"
    "sent_writes es = [(0x11, b)]" "\<forall>j < 5. bit (wire_word b) j"
proof -
  obtain b where "performs (sja1105_inhibit_tx k s stack \<lparr>inhibit_tx = replicate SJA1105T_NUM_PORTS 1\<rparr>) 0 [(0x11, b)]"
    "\<forall>j < 32. bit (wire_word b) j = (if j < 5 then bit (replicate SJA1105T_NUM_PORTS 1 ! j :: u64) 0 else bit (wire_word stack) j)"
    using inhibit_tx_performs [OF assms, of "\<lparr>inhibit_tx = replicate SJA1105T_NUM_PORTS 1\<rparr>"] by auto
  with performsD [OF this(1), of h] show thesis by (auto intro: that)
qed

lemma flush_reset:
  assumes "bus_works k" "sp_dry_run s = 0" "4 \<le> length stack"
  obtains b es fs where
    "run_state (sja1105_inhibit_tx k s stack \<lparr>inhibit_tx = replicate SJA1105T_NUM_PORTS 1\<rparr>) h = (0, h @ es)"
    "run_state (sja1105_cold_reset k s) (h @ es @ [(Usleep 1000, k (h @ es) (Usleep 1000))]) =
       (0, h @ es @ (Usleep 1000, k (h @ es) (Usleep 1000)) # fs)"
    "sent_writes (es @ (Usleep 1000, k (h @ es) (Usleep 1000)) # fs) =
       [(0x11, b), (0x100440, [0, 0, 0, if IS_ET (sp_device_id s) then 8 else 4])]"
    "\<forall>j < 5. bit (wire_word b) j"
proof -
  obtain b es where inhibit:
    "run_state (sja1105_inhibit_tx k s stack \<lparr>inhibit_tx = replicate SJA1105T_NUM_PORTS 1\<rparr>) h = (0, h @ es)"
    "sent_writes es = [(0x11, b)]" "\<forall>j < 5. bit (wire_word b) j"
    using flush_start [OF assms] by blast
  obtain fs where reset: "run_state (sja1105_cold_reset k s) (h @ es @ [(Usleep 1000, k (h @ es) (Usleep 1000))]) =
      (0, (h @ es @ [(Usleep 1000, k (h @ es) (Usleep 1000))]) @ fs)"
    "sent_writes fs = [(0x100440, [0, 0, 0, if IS_ET (sp_device_id s) then 8 else 4])]"
    using performsD [OF reset_words(2) [OF assms(1,2)], of "h @ es @ [(Usleep 1000, k (h @ es) (Usleep 1000))]"] by blast
  with inhibit show thesis by (intro that [of es fs b]) simp_all
qed

text \<open>The upload, the clocks, and the status that the device shows then.\<close>

lemma flush_finish:
  assumes "is_switch k mem" "sp_dry_run s = 0" "DEVICE_ID_VALID (cfg_device_id c)" "tables_ok c"
    "\<forall>i < 5. port_valid s (entries (cfg_xmii_params c) 0) (map (entries (cfg_mac_config c)) [0..<5]) i \<and>
       port_mode_valid (entries (cfg_xmii_params c) 0) i"
  obtains es fs gs st where
    "run_state (static_config_upload k heap s c) h = (Some (0, sja1105_static_config_patch_fdb c), h @ es)"
    "run_state (sja1105_clocking_setup k s (entries (cfg_xmii_params c) 0) (map (entries (cfg_mac_config c)) [0..<5])) (h @ es) =
       (0, h @ es @ fs)"
    "run_state (sja1105_general_status_get k s general_status_zero) (h @ es @ fs) = ((0, st), h @ es @ fs @ gs)"
    "sent_writes (es @ fs @ gs) = flush_writes s (sja1105_static_config_patch_fdb c)"
    "shows_registers (registers_after mem (h @ es @ fs @ gs)) 0
       (general_status_common @ (if IS_ET (sp_device_id s) then general_status_et else general_status_pqrs)) st"
proof -
  obtain es fs where upload:
    "run_state (static_config_upload k heap s c) h = (Some (0, sja1105_static_config_patch_fdb c), h @ es)"
    "run_state (sja1105_clocking_setup k s (entries (cfg_xmii_params c) 0) (map (entries (cfg_mac_config c)) [0..<5])) (h @ es) =
       (0, h @ es @ fs)"
    "sent_writes (es @ fs) = flush_writes s (sja1105_static_config_patch_fdb c)"
    by (rule flush_rest [OF assms])
  obtain st gs where status:
    "run_state (sja1105_general_status_get k s general_status_zero) (h @ es @ fs) = ((0, st), (h @ es @ fs) @ gs)"
    "sent_writes gs = []" "shows_registers (registers_after mem (h @ es @ fs)) 0
      (general_status_common @ (if IS_ET (sp_device_id s) then general_status_et else general_status_pqrs)) st"
    using general_status_works [OF assms(1,2)] by blast
  have "registers_after mem (h @ es @ fs @ gs) = registers_after mem (h @ es @ fs)"
    using registers_after_quiet [OF status(2), of mem "h @ es @ fs"] by simp
  with upload status show thesis by (intro that [of es fs st gs]) simp_all
qed


text \<open>A complete configuration of an SJA1105T, with no static addresses.\<close>

definition complete_config :: sja1105_static_config where
  "complete_config = static_config_zero\<lparr>
     cfg_device_id := SJA1105T_DEVICE_ID,
     cfg_l2_policing := \<lparr>entries = (\<lambda>_. l2_policing_zero), entry_count = 45\<rparr>,
     cfg_vlan_lookup := \<lparr>entries = (\<lambda>_. vlan_lookup_zero)
       (0 := vlan_lookup_zero\<lparr>vln_vlanid := 1, vln_vmemb_port := 31\<rparr>), entry_count = 1\<rparr>,
     cfg_l2_forwarding := \<lparr>entries = (\<lambda>_. l2_forwarding_zero), entry_count = 13\<rparr>,
     cfg_mac_config := \<lparr>entries = (\<lambda>i. if i < 5 then mac_config_zero\<lparr>mac_speed := 2\<rparr> else mac_config_zero), entry_count = 5\<rparr>,
     cfg_l2_forwarding_params := \<lparr>entries = (\<lambda>_. l2_forwarding_params_zero), entry_count = 1\<rparr>,
     cfg_general_params := \<lparr>entries = (\<lambda>_. general_params_zero), entry_count = 1\<rparr>,
     cfg_xmii_params := \<lparr>entries = (\<lambda>_. xmii_params_zero)(0 := example_params), entry_count = 1\<rparr>\<rparr>"

lemma complete_config_ok:
  "DEVICE_ID_VALID (cfg_device_id complete_config)" "tables_ok complete_config"
  "0 \<le> sja1105_static_config_check_valid complete_config"
proof -
  note eval = table_shapes fits_def table_layouts fld_def width_def table_zeros afld_def list_all_iff Let_def upt_arrays
  have "l2_policing_ok l2_policing_zero" by (simp add: l2_policing_ok_def eval)
  moreover have "vlan_lookup_ok (vlan_lookup_zero\<lparr>vln_vlanid := 1, vln_vmemb_port := 31\<rparr>)"
    by (simp add: vlan_lookup_ok_def eval)
  moreover have "l2_forwarding_ok l2_forwarding_zero" by (simp add: l2_forwarding_ok_def eval)
  moreover have "mac_config_et_ok (mac_config_zero\<lparr>mac_speed := 2\<rparr>)" by (simp add: mac_config_et_ok_def eval)
  moreover have "l2_forwarding_params_ok l2_forwarding_params_zero" by (simp add: l2_forwarding_params_ok_def eval)
  moreover have "general_params_et_ok general_params_zero" by (simp add: general_params_et_ok_def eval)
  moreover have "xmii_params_ok example_params" by (simp add: xmii_params_ok_def example_params_def eval)
  moreover have "mac_config_et_ok mac_config_zero" by (simp add: mac_config_et_ok_def eval)
  ultimately show "tables_ok complete_config"
    by (simp add: tables_ok_def complete_config_def static_config_zero_def Let_def no_entries_def member_ok_def
        IS_ET_def)
  show "DEVICE_ID_VALID (cfg_device_id complete_config)" by (simp add: complete_config_def DEVICE_ID_VALID_def IS_ET_def)
  show "0 \<le> sja1105_static_config_check_valid complete_config"
    by (simp add: sja1105_static_config_check_valid_def complete_config_def static_config_zero_def no_entries_def
        sja1105_static_config_check_memory_size_def Let_def eval eval_nat_numeral)
qed

lemma complete_config_ports:
  "\<forall>i < 5. port_valid (example_setup\<lparr>sp_device_id := SJA1105T_DEVICE_ID\<rparr>) (entries (cfg_xmii_params complete_config) 0)
      (map (entries (cfg_mac_config complete_config)) [0..<5]) i \<and>
    port_mode_valid (entries (cfg_xmii_params complete_config) 0) i"
proof (intro allI impI)
  fix i :: nat assume "i < 5"
  from ports_5 [OF this] show "port_valid (example_setup\<lparr>sp_device_id := SJA1105T_DEVICE_ID\<rparr>) (entries (cfg_xmii_params complete_config) 0)
      (map (entries (cfg_mac_config complete_config)) [0..<5]) i \<and>
    port_mode_valid (entries (cfg_xmii_params complete_config) 0) i"
    by (elim disjE) (simp_all add: complete_config_def example_params_def port_valid_def port_mode_valid_def)
qed


section \<open>Results\<close>

text \<open>What holds of the result of a computation, whatever the history.\<close>

definition results :: "('a \<Rightarrow> bool) \<Rightarrow> 'a io \<Rightarrow> bool" where
  "results P m \<longleftrightarrow> (\<forall>h. P (fst (run_state m h)))"

lemma results_return: "P x \<Longrightarrow> results P (io_return x)"
  by (simp add: results_def)

lemma results_bind: "results Q m \<Longrightarrow> (\<And>x. Q x \<Longrightarrow> results P (f x)) \<Longrightarrow> results P (State_Monad.bind m f)"
  by (auto simp: results_def split_beta)

lemma results_any: "(\<And>x. results P (f x)) \<Longrightarrow> results P (State_Monad.bind m f)"
  by (auto simp: results_def split_beta)

lemma results_some:
  "results (\<lambda>r. r \<noteq> None) m \<Longrightarrow> (\<And>x. results P (f (Some x))) \<Longrightarrow> results P (State_Monad.bind m f)"
  by (rule results_bind [where Q = "\<lambda>r. r \<noteq> None"]) auto

lemma results_if: "(b \<Longrightarrow> results P m) \<Longrightarrow> (\<not> b \<Longrightarrow> results P n) \<Longrightarrow> results P (if b then m else n)"
  by simp

text \<open>
  C15: A flush has one of four results. Whatever the kernel answers, and for every well-formed configuration,
  it ends with 0, -3, -5 or -7; it is -7 exactly for a configuration that is not valid, and then the device
  has seen no message at all.
\<close>

theorem static_config_flush_result:
  assumes "DEVICE_ID_VALID (cfg_device_id c)" "tables_ok c"
  shows "\<exists>rc c' h'. run_state (static_config_flush k heap stack s c) h = (Some (rc, c'), h') \<and>
    rc \<in> {0, - SJA1105_ERR_HW_NOT_RESPONDING, - SJA1105_ERR_UPLOAD_FAILED_HW_LEFT_FLOATING,
      - SJA1105_ERR_STAGING_AREA_INVALID} \<and>
    (rc = - SJA1105_ERR_STAGING_AREA_INVALID \<longleftrightarrow> sja1105_static_config_check_valid c < 0) \<and>
    (rc = - SJA1105_ERR_STAGING_AREA_INVALID \<longrightarrow> h' = h \<and> c' = c)"
proof -
  define P :: "(int \<times> sja1105_static_config) option \<Rightarrow> bool" where
    "P r \<longleftrightarrow> (\<exists>rc c'. r = Some (rc, c') \<and> rc \<in> {0, -3, -5})" for r
  have upload: "results (\<lambda>r. r \<noteq> None) (static_config_upload k heap s c)"
    using upload_packs [OF assms, of k heap s] by (simp add: results_def Let_def split_beta)
  have "results P (static_config_flush k heap stack s c)" if "\<not> sja1105_static_config_check_valid c < 0"
    unfolding static_config_flush_def Let_def if_not_P [OF that] sja1105_err_remap_def
    by (rule results_some [OF upload] results_if results_any results_return | simp only: option.case split_beta | simp add: P_def)+
  show ?thesis
  proof (cases "sja1105_static_config_check_valid c < 0")
    case True
    then show ?thesis by (simp add: static_config_flush_def sja1105_err_remap_def)
  next
    case False
    from this [unfolded not_less] \<open>\<not> _ \<Longrightarrow> _\<close> [OF False] show ?thesis
      by (cases "run_state (static_config_flush k heap stack s c) h") (auto simp: results_def P_def dest!: spec [of _ h])
  qed
qed

theorem static_config_flush_result_witness:
  "run_state (static_config_flush (switch_kernel example_registers) (\<lambda>_. 0) [0, 0, 0, 0] example_setup example_config) [] =
     (Some (-7, example_config), [])"
proof -
  have "sja1105_static_config_check_valid example_config < 0"
    by (simp add: sja1105_static_config_check_valid_def example_config_def static_config_zero_def no_entries_def)
  then show ?thesis
    using static_config_flush_result [OF example_config_ok(1,2), 
      of "switch_kernel example_registers" "\<lambda>_. 0" "[0, 0, 0, 0]" example_setup "[]"] by auto
qed

text \<open>
  A hexdump never succeeds. Whatever the file holds, the dump of the staging area ends with -9 or -7
  (or reads outside a buffer): the number of bytes that were dumped is mapped to -9 as an error is.
\<close>

theorem staging_area_hexdump_never_succeeds:
  "fst (run_state (staging_area_hexdump k heap f) h) \<in>
     {None, Some (- SJA1105_ERR_FILESYSTEM), Some (- SJA1105_ERR_STAGING_AREA_INVALID)}"
  by (rule staging_area_hexdump_result)

end
