(* ===== verification/Xml_Read.thy ===== *)
theory Xml_Read
  imports Members Strings Config_Modify
begin

unbundle bit_operations_syntax

text \<open>
  \<^verbatim>\<open>src/tool/config-xml-read.c\<close> and \<^verbatim>\<open>src/tool/xml/read\<close>: the configuration is read from an XML file. The
  library that reads the file is not part of the source: the tree it builds is the input here, and its function
  \<^verbatim>\<open>xmlNodeListGetString\<close> a parameter. A number that is stored behind a member or a table makes the result
  \<open>None\<close>.
\<close>

section \<open>Nodes\<close>

text \<open>
  What the readers see of a node: whether it is of the type \<^verbatim>\<open>XML_ELEMENT_NODE\<close>, its name (empty for a null
  name, which no member has), its children and, for a text, the contents.
\<close>

datatype xml_node = Xml_Node (is_element: bool) (node_name: string) (node_children: "xml_node list") (node_content: string)

type_synonym node_string = "xml_node list \<Rightarrow> string option"

section \<open>Members\<close>

text \<open>The value of the last child with the name; the loops of both functions are the same.\<close>

definition xml_field_value :: "node_string \<Rightarrow> string \<Rightarrow> xml_node \<Rightarrow> string option" where
  "xml_field_value get_string field_name node =
     fold (\<lambda>cur val. if node_name cur = field_name then get_string (node_children cur) else val)
       (node_children node) None"

definition xml_read_field :: "node_string \<Rightarrow> string \<Rightarrow> xml_node \<Rightarrow> int \<times> u64 list" where
  "xml_read_field get_string field_name node =
     (case xml_field_value get_string field_name node of
        None \<Rightarrow> (- EINVAL, [])
      | Some val \<Rightarrow>
          (case reliable_uint64_from_string val of
             (rc, to_val, _) \<Rightarrow> (rc, case to_val of None \<Rightarrow> [] | Some v \<Rightarrow> [v])))"

definition xml_read_array :: "node_string \<Rightarrow> nat \<Rightarrow> string \<Rightarrow> xml_node \<Rightarrow> int \<times> u64 list" where
  "xml_read_array get_string max_count field_name node =
     (case xml_field_value get_string field_name node of
        None \<Rightarrow> (- EINVAL, [])
      | Some val \<Rightarrow> read_array val (int max_count))"

text \<open>
  A member of an entry is read with the first function if it is a number, else with the second. The names in
  the files are those of the members.
\<close>

definition member_of :: "'e member list \<Rightarrow> string \<Rightarrow> 'e member" where
  "member_of members name =
     (case find (\<lambda>m. mem_name m = name) members of
        Some m \<Rightarrow> m
      | None \<Rightarrow> \<lparr>mem_name = name, mem_count = 0, mem_get = \<lambda>_. [], mem_put = \<lambda>_ e. e\<rparr>)"

definition xml_read_member :: "node_string \<Rightarrow> 'e member \<Rightarrow> xml_node \<Rightarrow> 'e \<Rightarrow> (int \<times> 'e) option" where
  "xml_read_member get_string m node entry =
     (let (rc, vals) = (if mem_count m = 1 then xml_read_field get_string (mem_name m) node
                        else xml_read_array get_string (mem_count m) (mem_name m) node)
      in if mem_count m < length vals then None
         else Some (rc, if vals = [] then entry else mem_put m vals entry))"

text \<open>Members read one after the other, with their return codes combined by \<^verbatim>\<open>rc |= ...\<close>.\<close>

fun xml_read_members :: "node_string \<Rightarrow> 'e member list \<Rightarrow> xml_node \<Rightarrow> int \<Rightarrow> 'e \<Rightarrow> (int \<times> 'e) option" where
  "xml_read_members get_string [] node rc entry = Some (rc, entry)"
| "xml_read_members get_string (m # ms) node rc entry =
     (case xml_read_member get_string m node entry of
        None \<Rightarrow> None
      | Some (rc', entry') \<Rightarrow> xml_read_members get_string ms node (rc OR rc') entry')"

text \<open>An entry that consists of such members.\<close>

definition xml_entry_get :: "node_string \<Rightarrow> 'e member list \<Rightarrow> xml_node \<Rightarrow> 'e \<Rightarrow> (int \<times> 'e) option" where
  "xml_entry_get get_string ms node entry =
     map_option (\<lambda>(rc, e). (if rc < 0 then - EINVAL else 0, e)) (xml_read_members get_string ms node 0 entry)"

section \<open>Entries and tables\<close>

text \<open>
  An entry is stored and counted even if it could not be read. \<open>full\<close> is the error for a table that is full.
\<close>

definition add_entry :: "'e \<Rightarrow> 'e static_config_member \<Rightarrow> 'e static_config_member" where
  "add_entry entry m = (set_entry (nat (entry_count m)) (\<lambda>_. entry) m)\<lparr>entry_count := entry_count m + 1\<rparr>"

definition xml_parse_entry ::
    "int \<Rightarrow> nat \<Rightarrow> 'e \<Rightarrow> (xml_node \<Rightarrow> 'e \<Rightarrow> (int \<times> 'e) option) \<Rightarrow>
     xml_node \<Rightarrow> 'e static_config_member \<Rightarrow> (int \<times> 'e static_config_member) option" where
  "xml_parse_entry full max_count zero entry_get node m =
     (if int max_count \<le> entry_count m then Some (full, m)
      else case entry_get node zero of
             None \<Rightarrow> None
           | Some (rc, entry) \<Rightarrow> if entry_count m < 0 then None else Some (rc, add_entry entry m))"

text \<open>The loop over the children that are elements, up to the first error.\<close>

fun for_elements :: "(xml_node \<Rightarrow> 's \<Rightarrow> (int \<times> 's) option) \<Rightarrow> xml_node list \<Rightarrow> int \<Rightarrow> 's \<Rightarrow> (int \<times> 's) option" where
  "for_elements f [] rc s = Some (rc, s)"
| "for_elements f (c # cs) rc s =
     (if \<not> is_element c then for_elements f cs rc s
      else case f c s of
             None \<Rightarrow> None
           | Some (rc', s') \<Rightarrow> if rc' < 0 then Some (rc', s') else for_elements f cs rc' s')"

text \<open>\<open>not_element\<close> is the error for a node of another type.\<close>

definition xml_table_parse ::
    "int \<Rightarrow> (xml_node \<Rightarrow> 's \<Rightarrow> (int \<times> 's) option) \<Rightarrow> xml_node \<Rightarrow> 's \<Rightarrow> (int \<times> 's) option" where
  "xml_table_parse not_element parse_entry node s =
     (if \<not> is_element node then Some (not_element, s) else for_elements parse_entry (node_children node) 0 s)"

section \<open>The tables\<close>

text \<open>For every table: its entry, the storing of an entry, and the table.\<close>

definition schedule_entry_get :: "node_string \<Rightarrow> xml_node \<Rightarrow> schedule_entry \<Rightarrow> (int \<times> schedule_entry) option" where
  "schedule_entry_get get_string =
     xml_entry_get get_string (map (member_of schedule_members)
       [''winstindex'', ''winend'', ''winst'', ''destports'', ''setvalid'', ''txen'', ''resmedia_en'',
        ''resmedia'', ''vlindex'', ''delta''])"

definition schedule_parse_entry ::
    "node_string \<Rightarrow> xml_node \<Rightarrow> schedule_entry static_config_member \<Rightarrow> (int \<times> schedule_entry static_config_member) option" where
  "schedule_parse_entry get_string =
     xml_parse_entry (- ERANGE) MAX_SCHEDULE_COUNT schedule_zero (schedule_entry_get get_string)"

definition schedule_table_parse ::
    "node_string \<Rightarrow> xml_node \<Rightarrow> sja1105_static_config \<Rightarrow> (int \<times> sja1105_static_config) option" where
  "schedule_table_parse get_string node =
     at_member cfg_schedule cfg_schedule_update
       (xml_table_parse (- EINVAL) (schedule_parse_entry get_string) node)"

definition schedule_entry_points_entry_get :: "node_string \<Rightarrow> xml_node \<Rightarrow> schedule_entry_points_entry \<Rightarrow> (int \<times> schedule_entry_points_entry) option" where
  "schedule_entry_points_entry_get get_string =
     xml_entry_get get_string (map (member_of schedule_entry_points_members)
       [''subschindx'', ''delta'', ''address''])"

definition schedule_entry_points_parse_entry ::
    "node_string \<Rightarrow> xml_node \<Rightarrow> schedule_entry_points_entry static_config_member \<Rightarrow> (int \<times> schedule_entry_points_entry static_config_member) option" where
  "schedule_entry_points_parse_entry get_string =
     xml_parse_entry (- 1) MAX_SCHEDULE_ENTRY_POINTS_COUNT schedule_entry_points_zero (schedule_entry_points_entry_get get_string)"

definition schedule_entry_points_table_parse ::
    "node_string \<Rightarrow> xml_node \<Rightarrow> sja1105_static_config \<Rightarrow> (int \<times> sja1105_static_config) option" where
  "schedule_entry_points_table_parse get_string node =
     at_member cfg_schedule_entry_points cfg_schedule_entry_points_update
       (xml_table_parse (- 1) (schedule_entry_points_parse_entry get_string) node)"

text \<open>The format of the entry is 0 here, since the entry was cleared.\<close>

definition vl_lookup_entry_get :: "node_string \<Rightarrow> xml_node \<Rightarrow> vl_lookup_entry \<Rightarrow> (int \<times> vl_lookup_entry) option" where
  "vl_lookup_entry_get get_string node entry =
     xml_entry_get get_string (map (member_of vl_lookup_members)
       (''port'' # (if vll_format entry = 0 then [''destports'', ''iscritical'', ''macaddr'', ''vlanid'', ''vlanprior'']
                  else [''egrmirr'', ''ingrmirr'', ''vlid'']))) node entry"

definition vl_lookup_parse_entry ::
    "node_string \<Rightarrow> xml_node \<Rightarrow> vl_lookup_entry static_config_member \<Rightarrow> (int \<times> vl_lookup_entry static_config_member) option" where
  "vl_lookup_parse_entry get_string =
     xml_parse_entry (- ERANGE) MAX_VL_LOOKUP_COUNT vl_lookup_zero (vl_lookup_entry_get get_string)"

definition vl_lookup_table_parse ::
    "node_string \<Rightarrow> xml_node \<Rightarrow> sja1105_static_config \<Rightarrow> (int \<times> sja1105_static_config) option" where
  "vl_lookup_table_parse get_string node =
     at_member cfg_vl_lookup cfg_vl_lookup_update
       (xml_table_parse (- EINVAL) (vl_lookup_parse_entry get_string) node)"

definition vl_policing_entry_get ::
    "node_string \<Rightarrow> xml_node \<Rightarrow> vl_policing_entry \<Rightarrow> (int \<times> vl_policing_entry) option" where
  "vl_policing_entry_get get_string node entry =
     (case xml_read_members get_string (map (member_of vl_policing_members) [''type'', ''maxlen'', ''sharindx'']) node 0 entry of
        None \<Rightarrow> None
      | Some (rc, entry') \<Rightarrow>
          map_option (\<lambda>(rc, e). (if rc < 0 then - EINVAL else 0, e))
            (if vlp_type entry' = 0
             then xml_read_members get_string (map (member_of vl_policing_members) [''bag'', ''jitter'']) node rc entry'
             else Some (rc, entry')))"

definition vl_policing_parse_entry ::
    "node_string \<Rightarrow> xml_node \<Rightarrow> vl_policing_entry static_config_member \<Rightarrow> (int \<times> vl_policing_entry static_config_member) option" where
  "vl_policing_parse_entry get_string =
     xml_parse_entry (- ERANGE) MAX_VL_POLICING_COUNT vl_policing_zero (vl_policing_entry_get get_string)"

definition vl_policing_table_parse ::
    "node_string \<Rightarrow> xml_node \<Rightarrow> sja1105_static_config \<Rightarrow> (int \<times> sja1105_static_config) option" where
  "vl_policing_table_parse get_string node =
     at_member cfg_vl_policing cfg_vl_policing_update
       (xml_table_parse (- EINVAL) (vl_policing_parse_entry get_string) node)"

definition vl_forwarding_entry_get :: "node_string \<Rightarrow> xml_node \<Rightarrow> vl_forwarding_entry \<Rightarrow> (int \<times> vl_forwarding_entry) option" where
  "vl_forwarding_entry_get get_string =
     xml_entry_get get_string (map (member_of vl_forwarding_members)
       [''type'', ''priority'', ''partition'', ''destports''])"

definition vl_forwarding_parse_entry ::
    "node_string \<Rightarrow> xml_node \<Rightarrow> vl_forwarding_entry static_config_member \<Rightarrow> (int \<times> vl_forwarding_entry static_config_member) option" where
  "vl_forwarding_parse_entry get_string =
     xml_parse_entry (- ERANGE) MAX_VL_FORWARDING_COUNT vl_forwarding_zero (vl_forwarding_entry_get get_string)"

definition vl_forwarding_table_parse ::
    "node_string \<Rightarrow> xml_node \<Rightarrow> sja1105_static_config \<Rightarrow> (int \<times> sja1105_static_config) option" where
  "vl_forwarding_table_parse get_string node =
     at_member cfg_vl_forwarding cfg_vl_forwarding_update
       (xml_table_parse (- EINVAL) (vl_forwarding_parse_entry get_string) node)"

definition l2_lookup_entry_get ::
    "node_string \<Rightarrow> u64 \<Rightarrow> xml_node \<Rightarrow> l2_lookup_entry \<Rightarrow> (int \<times> l2_lookup_entry) option" where
  "l2_lookup_entry_get get_string device_id =
     xml_entry_get get_string (map (member_of l2_lookup_members)
       ((if IS_PQRS device_id
         then [''tsreg'', ''mirrvlan'', ''takets'', ''mirr'', ''retag'', ''mask_iotag'', ''mask_vlanid'', ''mask_macaddr'', ''iotag'']
         else []) @ [''vlanid'', ''macaddr'', ''destports'', ''enfport'']))"

definition l2_lookup_parse_entry ::
    "node_string \<Rightarrow> u64 \<Rightarrow> xml_node \<Rightarrow> l2_lookup_entry static_config_member \<Rightarrow> (int \<times> l2_lookup_entry static_config_member) option" where
  "l2_lookup_parse_entry get_string device_id =
     xml_parse_entry (- ERANGE) MAX_L2_LOOKUP_COUNT l2_lookup_zero (l2_lookup_entry_get get_string device_id)"

definition l2_address_lookup_table_parse ::
    "node_string \<Rightarrow> xml_node \<Rightarrow> sja1105_static_config \<Rightarrow> (int \<times> sja1105_static_config) option" where
  "l2_address_lookup_table_parse get_string node config =
     at_member cfg_l2_lookup cfg_l2_lookup_update
       (xml_table_parse (- EINVAL) (l2_lookup_parse_entry get_string (cfg_device_id config)) node) config"

definition l2_policing_entry_get :: "node_string \<Rightarrow> xml_node \<Rightarrow> l2_policing_entry \<Rightarrow> (int \<times> l2_policing_entry) option" where
  "l2_policing_entry_get get_string =
     xml_entry_get get_string (map (member_of l2_policing_members)
       [''sharindx'', ''smax'', ''rate'', ''maxlen'', ''partition''])"

definition l2_policing_parse_entry ::
    "node_string \<Rightarrow> xml_node \<Rightarrow> l2_policing_entry static_config_member \<Rightarrow> (int \<times> l2_policing_entry static_config_member) option" where
  "l2_policing_parse_entry get_string =
     xml_parse_entry (- ERANGE) MAX_L2_POLICING_COUNT l2_policing_zero (l2_policing_entry_get get_string)"

definition l2_policing_table_parse ::
    "node_string \<Rightarrow> xml_node \<Rightarrow> sja1105_static_config \<Rightarrow> (int \<times> sja1105_static_config) option" where
  "l2_policing_table_parse get_string node =
     at_member cfg_l2_policing cfg_l2_policing_update
       (xml_table_parse (- ERANGE) (l2_policing_parse_entry get_string) node)"

definition vlan_lookup_entry_get :: "node_string \<Rightarrow> xml_node \<Rightarrow> vlan_lookup_entry \<Rightarrow> (int \<times> vlan_lookup_entry) option" where
  "vlan_lookup_entry_get get_string =
     xml_entry_get get_string (map (member_of vlan_lookup_members)
       [''ving_mirr'', ''vegr_mirr'', ''vmemb_port'', ''vlan_bc'', ''tag_port'', ''vlanid''])"

definition vlan_lookup_parse_entry ::
    "node_string \<Rightarrow> xml_node \<Rightarrow> vlan_lookup_entry static_config_member \<Rightarrow> (int \<times> vlan_lookup_entry static_config_member) option" where
  "vlan_lookup_parse_entry get_string =
     xml_parse_entry (- ERANGE) MAX_VLAN_LOOKUP_COUNT vlan_lookup_zero (vlan_lookup_entry_get get_string)"

definition vlan_lookup_table_parse ::
    "node_string \<Rightarrow> xml_node \<Rightarrow> sja1105_static_config \<Rightarrow> (int \<times> sja1105_static_config) option" where
  "vlan_lookup_table_parse get_string node =
     at_member cfg_vlan_lookup cfg_vlan_lookup_update
       (xml_table_parse (- EINVAL) (vlan_lookup_parse_entry get_string) node)"

text \<open>The first error ends the reading; too few numbers in the array end it too, but are no error.\<close>

fun xml_read_until_error :: "node_string \<Rightarrow> 'e member list \<Rightarrow> xml_node \<Rightarrow> 'e \<Rightarrow> (int \<times> 'e) option" where
  "xml_read_until_error get_string [] node entry = Some (0, entry)"
| "xml_read_until_error get_string (m # ms) node entry =
     (case xml_read_member get_string m node entry of
        None \<Rightarrow> None
      | Some (rc, entry') \<Rightarrow> if rc < 0 then Some (rc, entry') else xml_read_until_error get_string ms node entry')"

definition l2_forwarding_entry_get ::
    "node_string \<Rightarrow> xml_node \<Rightarrow> l2_forwarding_entry \<Rightarrow> (int \<times> l2_forwarding_entry) option" where
  "l2_forwarding_entry_get get_string node entry =
     map_option (\<lambda>(rc, e). (if rc < 0 then - EINVAL else 0, e))
       (xml_read_until_error get_string
          (map (member_of l2_forwarding_members) [''bc_domain'', ''reach_port'', ''fl_domain'', ''vlan_pmap'']) node entry)"

text \<open>Unlike in the other tables, an entry that could not be read is not stored.\<close>

definition l2_forwarding_parse_entry ::
    "node_string \<Rightarrow> xml_node \<Rightarrow> l2_forwarding_entry static_config_member \<Rightarrow>
     (int \<times> l2_forwarding_entry static_config_member) option" where
  "l2_forwarding_parse_entry get_string node m =
     (if int MAX_L2_FORWARDING_COUNT \<le> entry_count m then Some (- 1, m)
      else case l2_forwarding_entry_get get_string node l2_forwarding_zero of
             None \<Rightarrow> None
           | Some (rc, entry) \<Rightarrow>
               if rc \<noteq> 0 then Some (- 1, m)
               else if entry_count m < 0 then None else Some (0, add_entry entry m))"

definition l2_forwarding_table_parse ::
    "node_string \<Rightarrow> xml_node \<Rightarrow> sja1105_static_config \<Rightarrow> (int \<times> sja1105_static_config) option" where
  "l2_forwarding_table_parse get_string node =
     at_member cfg_l2_forwarding cfg_l2_forwarding_update
       (xml_table_parse (- 1) (l2_forwarding_parse_entry get_string) node)"

text \<open>The numbers of elements in several arrays are added up.\<close>

fun xml_read_counts :: "node_string \<Rightarrow> 'e member list \<Rightarrow> xml_node \<Rightarrow> int \<Rightarrow> 'e \<Rightarrow> (int \<times> 'e) option" where
  "xml_read_counts get_string [] node rc entry = Some (rc, entry)"
| "xml_read_counts get_string (m # ms) node rc entry =
     (case xml_read_member get_string m node entry of
        None \<Rightarrow> None
      | Some (rc', entry') \<Rightarrow> xml_read_counts get_string ms node (rc + rc') entry')"

definition mac_config_entry_get ::
    "node_string \<Rightarrow> xml_node \<Rightarrow> mac_config_entry \<Rightarrow> (int \<times> mac_config_entry) option" where
  "mac_config_entry_get get_string node entry =
     (case xml_read_counts get_string (map (member_of mac_config_members) [''top'', ''base'', ''enabled'']) node 0 entry of
        None \<Rightarrow> None
      | Some (rc, entry') \<Rightarrow>
          if rc \<noteq> 8 * 3 then Some (- EINVAL, entry')
          else xml_entry_get get_string (map (member_of mac_config_members)
                 [''ifg'', ''speed'', ''tp_delin'', ''tp_delout'', ''maxage'', ''vlanprio'', ''vlanid'',
                  ''ing_mirr'', ''egr_mirr'', ''drpnona664'', ''drpdtag'', ''drpsotag'', ''drpsitag'', ''drpuntag'',
                  ''retag'', ''dyn_learn'', ''egress'', ''ingress'', ''mirrcie'', ''mirrcetag'', ''ingmirrvid'',
                  ''ingmirrpcp'', ''ingmirrdei'']) node entry')"

definition mac_config_parse_entry ::
    "node_string \<Rightarrow> xml_node \<Rightarrow> mac_config_entry static_config_member \<Rightarrow> (int \<times> mac_config_entry static_config_member) option" where
  "mac_config_parse_entry get_string =
     xml_parse_entry (- ERANGE) MAX_MAC_CONFIG_COUNT mac_config_zero (mac_config_entry_get get_string)"

definition mac_configuration_table_parse ::
    "node_string \<Rightarrow> xml_node \<Rightarrow> sja1105_static_config \<Rightarrow> (int \<times> sja1105_static_config) option" where
  "mac_configuration_table_parse get_string node =
     at_member cfg_mac_config cfg_mac_config_update
       (xml_table_parse (- EINVAL) (mac_config_parse_entry get_string) node)"

definition schedule_params_entry_get ::
    "node_string \<Rightarrow> xml_node \<Rightarrow> schedule_params_entry \<Rightarrow> (int \<times> schedule_params_entry) option" where
  "schedule_params_entry_get get_string node entry =
     map_option (\<lambda>(rc, e). (if rc \<noteq> 8 then - ERANGE else rc, e))
       (xml_read_member get_string (member_of schedule_params_members ''subscheind'') node entry)"

definition schedule_params_parse_entry ::
    "node_string \<Rightarrow> xml_node \<Rightarrow> schedule_params_entry static_config_member \<Rightarrow> (int \<times> schedule_params_entry static_config_member) option" where
  "schedule_params_parse_entry get_string =
     xml_parse_entry (- ERANGE) MAX_SCHEDULE_PARAMS_COUNT schedule_params_zero (schedule_params_entry_get get_string)"

definition schedule_parameters_table_parse ::
    "node_string \<Rightarrow> xml_node \<Rightarrow> sja1105_static_config \<Rightarrow> (int \<times> sja1105_static_config) option" where
  "schedule_parameters_table_parse get_string node =
     at_member cfg_schedule_params cfg_schedule_params_update
       (xml_table_parse (- EINVAL) (schedule_params_parse_entry get_string) node)"

definition schedule_entry_points_params_entry_get :: "node_string \<Rightarrow> xml_node \<Rightarrow> schedule_entry_points_params_entry \<Rightarrow> (int \<times> schedule_entry_points_params_entry) option" where
  "schedule_entry_points_params_entry_get get_string =
     xml_entry_get get_string (map (member_of schedule_entry_points_params_members)
       [''clksrc'', ''actsubsch''])"

definition schedule_entry_points_params_parse_entry ::
    "node_string \<Rightarrow> xml_node \<Rightarrow> schedule_entry_points_params_entry static_config_member \<Rightarrow> (int \<times> schedule_entry_points_params_entry static_config_member) option" where
  "schedule_entry_points_params_parse_entry get_string =
     xml_parse_entry (- ERANGE) MAX_SCHEDULE_ENTRY_POINTS_PARAMS_COUNT schedule_entry_points_params_zero (schedule_entry_points_params_entry_get get_string)"

definition schedule_entry_points_parameters_table_parse ::
    "node_string \<Rightarrow> xml_node \<Rightarrow> sja1105_static_config \<Rightarrow> (int \<times> sja1105_static_config) option" where
  "schedule_entry_points_parameters_table_parse get_string node =
     at_member cfg_schedule_entry_points_params cfg_schedule_entry_points_params_update
       (xml_table_parse (- EINVAL) (schedule_entry_points_params_parse_entry get_string) node)"

definition vl_forwarding_params_entry_get ::
    "node_string \<Rightarrow> xml_node \<Rightarrow> vl_forwarding_params_entry \<Rightarrow> (int \<times> vl_forwarding_params_entry) option" where
  "vl_forwarding_params_entry_get get_string node entry =
     (case xml_read_member get_string (member_of vl_forwarding_params_members ''partspc'') node entry of
        None \<Rightarrow> None
      | Some (rc, entry') \<Rightarrow>
          if rc \<noteq> 8 then Some (- ERANGE, entry')
          else xml_read_member get_string (member_of vl_forwarding_params_members ''debugen'') node entry')"

definition vl_forwarding_params_parse_entry ::
    "node_string \<Rightarrow> xml_node \<Rightarrow> vl_forwarding_params_entry static_config_member \<Rightarrow> (int \<times> vl_forwarding_params_entry static_config_member) option" where
  "vl_forwarding_params_parse_entry get_string =
     xml_parse_entry (- EINVAL) MAX_VL_FORWARDING_PARAMS_COUNT vl_forwarding_params_zero (vl_forwarding_params_entry_get get_string)"

definition vl_fw_params_table_parse ::
    "node_string \<Rightarrow> xml_node \<Rightarrow> sja1105_static_config \<Rightarrow> (int \<times> sja1105_static_config) option" where
  "vl_fw_params_table_parse get_string node =
     at_member cfg_vl_forwarding_params cfg_vl_forwarding_params_update
       (xml_table_parse (- EINVAL) (vl_forwarding_params_parse_entry get_string) node)"

definition l2_lookup_params_entry_get :: "node_string \<Rightarrow> xml_node \<Rightarrow> l2_lookup_params_entry \<Rightarrow> (int \<times> l2_lookup_params_entry) option" where
  "l2_lookup_params_entry_get get_string =
     xml_entry_get get_string (map (member_of l2_lookup_params_members)
       [''maxage'', ''dyn_tbsz'', ''poly'', ''shared_learn'', ''no_enf_hostprt'', ''no_mgmt_learn''])"

definition l2_lookup_params_parse_entry ::
    "node_string \<Rightarrow> xml_node \<Rightarrow> l2_lookup_params_entry static_config_member \<Rightarrow> (int \<times> l2_lookup_params_entry static_config_member) option" where
  "l2_lookup_params_parse_entry get_string =
     xml_parse_entry (- ERANGE) MAX_L2_LOOKUP_PARAMS_COUNT l2_lookup_params_zero (l2_lookup_params_entry_get get_string)"

text \<open>The error for a node that is no element is noted, but its children are looked at all the same.\<close>

definition l2_address_lookup_parameters_table_parse ::
    "node_string \<Rightarrow> xml_node \<Rightarrow> sja1105_static_config \<Rightarrow> (int \<times> sja1105_static_config) option" where
  "l2_address_lookup_parameters_table_parse get_string node =
     at_member cfg_l2_lookup_params cfg_l2_lookup_params_update
       (for_elements (l2_lookup_params_parse_entry get_string) (node_children node) (if \<not> is_element node then - EINVAL else 0))"

definition l2_forwarding_params_entry_get ::
    "node_string \<Rightarrow> xml_node \<Rightarrow> l2_forwarding_params_entry \<Rightarrow> (int \<times> l2_forwarding_params_entry) option" where
  "l2_forwarding_params_entry_get get_string node entry =
     (case xml_read_member get_string (member_of l2_forwarding_params_members ''max_dynp'') node entry of
        None \<Rightarrow> None
      | Some (rc, entry') \<Rightarrow>
          if rc < 0 then Some (- 1, entry')
          else map_option (\<lambda>(rc, e). (if rc \<noteq> 8 then - 1 else 0, e))
                 (xml_read_member get_string (member_of l2_forwarding_params_members ''part_spc'') node entry'))"

definition l2_forwarding_params_parse_entry ::
    "node_string \<Rightarrow> xml_node \<Rightarrow> l2_forwarding_params_entry static_config_member \<Rightarrow> (int \<times> l2_forwarding_params_entry static_config_member) option" where
  "l2_forwarding_params_parse_entry get_string =
     xml_parse_entry (- ERANGE) MAX_L2_FORWARDING_PARAMS_COUNT l2_forwarding_params_zero (l2_forwarding_params_entry_get get_string)"

definition l2_forwarding_parameters_table_parse ::
    "node_string \<Rightarrow> xml_node \<Rightarrow> sja1105_static_config \<Rightarrow> (int \<times> sja1105_static_config) option" where
  "l2_forwarding_parameters_table_parse get_string node =
     at_member cfg_l2_forwarding_params cfg_l2_forwarding_params_update
       (xml_table_parse (- EINVAL) (l2_forwarding_params_parse_entry get_string) node)"

definition avb_params_entry_get :: "node_string \<Rightarrow> xml_node \<Rightarrow> avb_params_entry \<Rightarrow> (int \<times> avb_params_entry) option" where
  "avb_params_entry_get get_string =
     xml_entry_get get_string (map (member_of avb_params_members)
       [''l2cbs'', ''cas_master'', ''destmeta'', ''srcmeta''])"

definition avb_params_parse_entry ::
    "node_string \<Rightarrow> xml_node \<Rightarrow> avb_params_entry static_config_member \<Rightarrow> (int \<times> avb_params_entry static_config_member) option" where
  "avb_params_parse_entry get_string =
     xml_parse_entry (- ERANGE) MAX_AVB_PARAMS_COUNT avb_params_zero (avb_params_entry_get get_string)"

definition avb_parameters_table_parse ::
    "node_string \<Rightarrow> xml_node \<Rightarrow> sja1105_static_config \<Rightarrow> (int \<times> sja1105_static_config) option" where
  "avb_parameters_table_parse get_string node =
     at_member cfg_avb_params cfg_avb_params_update
       (xml_table_parse (- EINVAL) (avb_params_parse_entry get_string) node)"

definition general_params_entry_get :: "node_string \<Rightarrow> xml_node \<Rightarrow> general_params_entry \<Rightarrow> (int \<times> general_params_entry) option" where
  "general_params_entry_get get_string =
     xml_entry_get get_string (map (member_of general_params_members)
       [''vllupformat'', ''mirr_ptacu'', ''switchid'', ''hostprio'', ''mac_fltres1'', ''mac_fltres0'',
        ''mac_flt1'', ''mac_flt0'', ''incl_srcpt1'', ''incl_srcpt0'', ''send_meta1'', ''send_meta0'',
        ''casc_port'', ''host_port'', ''mirr_port'', ''vlmarker'', ''vlmask'', ''tpid'', ''ignore2stf'',
        ''tpid2'', ''queue_ts'', ''egrmirrvid'', ''egrmirrpcp'', ''egrmirrdei'', ''replay_port''])"

definition general_params_parse_entry ::
    "node_string \<Rightarrow> xml_node \<Rightarrow> general_params_entry static_config_member \<Rightarrow> (int \<times> general_params_entry static_config_member) option" where
  "general_params_parse_entry get_string =
     xml_parse_entry (- ERANGE) MAX_GENERAL_PARAMS_COUNT general_params_zero (general_params_entry_get get_string)"

definition general_parameters_table_parse ::
    "node_string \<Rightarrow> xml_node \<Rightarrow> sja1105_static_config \<Rightarrow> (int \<times> sja1105_static_config) option" where
  "general_parameters_table_parse get_string node =
     at_member cfg_general_params cfg_general_params_update
       (xml_table_parse (- EINVAL) (general_params_parse_entry get_string) node)"

definition xmii_params_entry_get ::
    "node_string \<Rightarrow> xml_node \<Rightarrow> xmii_params_entry \<Rightarrow> (int \<times> xmii_params_entry) option" where
  "xmii_params_entry_get get_string node entry =
     map_option (\<lambda>(rc, e). (if rc \<noteq> 5 + 5 then - ERANGE else rc, e))
       (xml_read_counts get_string (map (member_of xmii_params_members) [''phy_mac'', ''xmii_mode'']) node 0 entry)"

definition xmii_params_parse_entry ::
    "node_string \<Rightarrow> xml_node \<Rightarrow> xmii_params_entry static_config_member \<Rightarrow> (int \<times> xmii_params_entry static_config_member) option" where
  "xmii_params_parse_entry get_string =
     xml_parse_entry (- ERANGE) MAX_XMII_PARAMS_COUNT xmii_params_zero (xmii_params_entry_get get_string)"

definition xmii_mode_parameters_table_parse ::
    "node_string \<Rightarrow> xml_node \<Rightarrow> sja1105_static_config \<Rightarrow> (int \<times> sja1105_static_config) option" where
  "xmii_mode_parameters_table_parse get_string node =
     at_member cfg_xmii_params cfg_xmii_params_update
       (xml_table_parse (- EINVAL) (xmii_params_parse_entry get_string) node)"

definition sgmii_entry_get :: "node_string \<Rightarrow> xml_node \<Rightarrow> sgmii_entry \<Rightarrow> (int \<times> sgmii_entry) option" where
  "sgmii_entry_get get_string =
     xml_entry_get get_string (map (member_of sgmii_members)
       [''digital_error_cnt'', ''digital_control_2'', ''debug_control'', ''test_control'',
        ''autoneg_control'', ''digital_control_1'', ''autoneg_adv'', ''basic_control''])"

definition sgmii_parse_entry ::
    "node_string \<Rightarrow> xml_node \<Rightarrow> sgmii_entry static_config_member \<Rightarrow> (int \<times> sgmii_entry static_config_member) option" where
  "sgmii_parse_entry get_string =
     xml_parse_entry (- ERANGE) MAX_SGMII_COUNT sgmii_zero (sgmii_entry_get get_string)"

definition sgmii_table_parse ::
    "node_string \<Rightarrow> xml_node \<Rightarrow> sja1105_static_config \<Rightarrow> (int \<times> sja1105_static_config) option" where
  "sgmii_table_parse get_string node =
     at_member cfg_sgmii cfg_sgmii_update
       (xml_table_parse (- EINVAL) (sgmii_parse_entry get_string) node)"

definition clock_synchronization_parameters_table_parse ::
    "node_string \<Rightarrow> xml_node \<Rightarrow> sja1105_static_config \<Rightarrow> (int \<times> sja1105_static_config) option" where
  "clock_synchronization_parameters_table_parse get_string node config = Some (0, config)"

section \<open>The file\<close>

text \<open>The names of the tables are the same strings as in \<^verbatim>\<open>staging_area_modify\<close>.\<close>

definition next_parse_config_table ::
    "(node_string \<Rightarrow> xml_node \<Rightarrow> sja1105_static_config \<Rightarrow> (int \<times> sja1105_static_config) option) list" where
  "next_parse_config_table =
    [schedule_table_parse,
     schedule_entry_points_table_parse,
     vl_lookup_table_parse,
     vl_policing_table_parse,
     vl_forwarding_table_parse,
     l2_address_lookup_table_parse,
     l2_policing_table_parse,
     vlan_lookup_table_parse,
     l2_forwarding_table_parse,
     mac_configuration_table_parse,
     schedule_parameters_table_parse,
     schedule_entry_points_parameters_table_parse,
     vl_fw_params_table_parse,
     l2_address_lookup_parameters_table_parse,
     l2_forwarding_parameters_table_parse,
     clock_synchronization_parameters_table_parse,
     avb_parameters_table_parse,
     general_parameters_table_parse,
     xmii_mode_parameters_table_parse,
     sgmii_table_parse]"

definition parse_config_table ::
    "node_string \<Rightarrow> xml_node \<Rightarrow> sja1105_static_config \<Rightarrow> (int \<times> sja1105_static_config) option" where
  "parse_config_table get_string node config =
     (let rc = get_match (node_name node) static_config_options
      in if rc < 0 then Some (0, config) else (next_parse_config_table ! nat rc) get_string node config)"

definition parse_static_config ::
    "node_string \<Rightarrow> xml_node \<Rightarrow> sja1105_static_config \<Rightarrow> (int \<times> sja1105_static_config) option" where
  "parse_static_config get_string node config =
     for_elements (parse_config_table get_string) (node_children node) 0 config"

text \<open>The return code, and the device that was read.\<close>

definition device_id_parse :: "node_string \<Rightarrow> xml_node \<Rightarrow> u64 \<Rightarrow> int \<times> u64" where
  "device_id_parse get_string node device_id =
     (let (rc, vals) = xml_read_field get_string ''device-id'' node
      in (rc, case vals of [] \<Rightarrow> device_id | v # _ \<Rightarrow> v))"

text \<open>The sections: the return code, what was found, and the configuration.\<close>

fun parse_sections ::
    "node_string \<Rightarrow> xml_node \<Rightarrow> xml_node list \<Rightarrow> bool \<times> bool \<Rightarrow> int \<Rightarrow> sja1105_static_config \<Rightarrow>
     (int \<times> sja1105_static_config) option" where
  "parse_sections get_string root [] (static_config_parsed, device_id_parsed) rc config =
     Some (if \<not> static_config_parsed \<or> \<not> device_id_parsed then - EINVAL else rc, config)"
| "parse_sections get_string root (node # nodes) (static_config_parsed, device_id_parsed) rc config =
     (if \<not> is_element node
      then parse_sections get_string root nodes (static_config_parsed, device_id_parsed) rc config
      else if node_name node = ''static''
      then case parse_static_config get_string node config of
             None \<Rightarrow> None
           | Some (rc', config') \<Rightarrow>
               if rc' < 0 then Some (rc', config')
               else parse_sections get_string root nodes (True, device_id_parsed) rc' config'
      else if node_name node = ''device-id''
      then let (rc', device_id) = device_id_parse get_string root (cfg_device_id config);
               config' = config\<lparr>cfg_device_id := device_id\<rparr>
           in if rc' < 0 then Some (rc', config')
              else parse_sections get_string root nodes (static_config_parsed, True) rc' config'
      else parse_sections get_string root nodes (static_config_parsed, device_id_parsed) (- EINVAL) config)"

text \<open>\<^verbatim>\<open>strcasecmp\<close> of the C library, as a test.\<close>

definition tolower :: "char \<Rightarrow> char" where
  "tolower c = (let n = of_char c :: nat in if 65 \<le> n \<and> n \<le> 90 then char_of (n + 32) else c)"

definition parse_root ::
    "node_string \<Rightarrow> xml_node \<Rightarrow> sja1105_static_config \<Rightarrow> (int \<times> sja1105_static_config) option" where
  "parse_root get_string root config =
     (if \<not> is_element root then Some (- EINVAL, config)
      else if map tolower (node_name root) \<noteq> map tolower ''sja1105'' then Some (- EINVAL, config)
      else parse_sections get_string root (node_children root) (False, False) 0 config)"

text \<open>
  \<open>xml_root\<close> is the root of the tree that the library builds from a file, or \<open>None\<close> for a file that cannot be
  read; that is reported, but the result is 0.
\<close>

definition sja1105_staging_area_from_xml ::
    "node_string \<Rightarrow> (string \<Rightarrow> xml_node option) \<Rightarrow> string \<Rightarrow> sja1105_staging_area \<Rightarrow> (int \<times> sja1105_staging_area) option" where
  "sja1105_staging_area_from_xml get_string xml_root xml_file staging_area =
     (case xml_root xml_file of
        None \<Rightarrow> Some (0, staging_area)
      | Some root \<Rightarrow>
          map_option (\<lambda>(rc, config). (rc, staging_area\<lparr>sa_static_config := config\<rparr>))
            (parse_root get_string root static_config_zero))"

end
