(* ===== verification/Xml_Write.thy ===== *)
theory Xml_Write
  imports Xml_Read "HOL-Library.State_Monad"
begin

unbundle bit_operations_syntax

text \<open>
  \<^verbatim>\<open>src/tool/config-xml-write.c\<close> and \<^verbatim>\<open>src/tool/xml/write\<close>: the configuration is written to an XML file. The
  library that writes the file is not part of the source: it is a parameter that answers every call, and the
  history of the calls with their answers is the state. A count above the capacity of its table makes the result
  \<open>None\<close>, because the loop reads behind the table.
\<close>

section \<open>Calls of the library\<close>

datatype xml_call =
    NewTextWriterFilename string
  | SetIndent int
  | SetIndentString string
  | StartDocument string
  | StartElement string
  | WriteAttribute string string
  | WriteElement string string
  | EndElement
  | EndDocument

type_synonym xml_history = "(xml_call \<times> int) list"
type_synonym xml_writer = "xml_history \<Rightarrow> xml_call \<Rightarrow> int"
type_synonym 'a xml = "(xml_history, 'a) state"

text \<open>A negative answer to the first call stands for a null pointer.\<close>

definition xml_call :: "xml_writer \<Rightarrow> xml_call \<Rightarrow> int xml" where
  "xml_call w c = State (\<lambda>h. (w h c, h @ [(c, w h c)]))"

abbreviation (input) xml_return :: "'a \<Rightarrow> 'a xml" where "xml_return \<equiv> State_Monad.return"

section \<open>Members\<close>

definition xml_write_field :: "xml_writer \<Rightarrow> string \<Rightarrow> u64 \<Rightarrow> int xml" where
  "xml_write_field writer field v =
     xml_call writer (WriteElement field
       (if field = ''index'' then print_nat 10 (unat v) else ''0x'' @ print_nat 16 (unat v)))"

text \<open>The arrays have 8 or 5 numbers, which the buffer has room for.\<close>

definition xml_write_array :: "xml_writer \<Rightarrow> string \<Rightarrow> u64 list \<Rightarrow> nat \<Rightarrow> int xml" where
  "xml_write_array writer field vals count =
     xml_call writer (WriteElement field (case print_array (take count vals) of None \<Rightarrow> [] | Some print_buf \<Rightarrow> print_buf))"

definition xml_write_member :: "xml_writer \<Rightarrow> 'e member \<Rightarrow> 'e \<Rightarrow> int xml" where
  "xml_write_member writer m entry =
     (if mem_count m = 1 then xml_write_field writer (mem_name m) (hd (mem_get m entry))
      else xml_write_array writer (mem_name m) (mem_get m entry) (mem_count m))"

text \<open>Members written one after the other, with their return codes combined by \<^verbatim>\<open>rc |= ...\<close>.\<close>

fun xml_write_members :: "xml_writer \<Rightarrow> 'e member list \<Rightarrow> 'e \<Rightarrow> int \<Rightarrow> int xml" where
  "xml_write_members writer [] entry rc = xml_return rc"
| "xml_write_members writer (m # ms) entry rc = do {
     rc' \<leftarrow> xml_write_member writer m entry;
     xml_write_members writer ms entry (rc OR rc')
   }"

section \<open>Entries and tables\<close>

text \<open>The element of an entry, with its place in the table if \<open>indexed\<close>.\<close>

definition xml_write_entry :: "xml_writer \<Rightarrow> bool \<Rightarrow> 'e member list \<Rightarrow> nat \<Rightarrow> 'e \<Rightarrow> int \<Rightarrow> int xml" where
  "xml_write_entry writer indexed ms i entry rc = do {
     rc1 \<leftarrow> xml_call writer (StartElement ''entry'');
     rc2 \<leftarrow> (if indexed then xml_write_field writer ''index'' (of_nat i) else xml_return 0);
     rc3 \<leftarrow> xml_write_members writer ms entry (rc OR rc1 OR rc2);
     rc4 \<leftarrow> xml_call writer EndElement;
     xml_return (rc3 OR rc4)
   }"

text \<open>
  The loop over the entries, of which \<open>left\<close> are left; \<open>finished\<close> is what is returned at the end for the
  return codes combined, and \<open>failed\<close> after an error.
\<close>

fun xml_write_entries ::
    "xml_writer \<Rightarrow> (int \<Rightarrow> int) \<Rightarrow> (int \<Rightarrow> int) \<Rightarrow> (nat \<Rightarrow> 'e \<Rightarrow> int \<Rightarrow> int xml) \<Rightarrow> nat \<Rightarrow> nat \<Rightarrow>
     'e static_config_member \<Rightarrow> int \<Rightarrow> int xml" where
  "xml_write_entries writer finished failed write_entry i 0 m rc = xml_return (finished rc)"
| "xml_write_entries writer finished failed write_entry i (Suc left) m rc = do {
     rc' \<leftarrow> write_entry i (entries m i) rc;
     if rc' < 0 then xml_return (failed rc')
     else xml_write_entries writer finished failed write_entry (Suc i) left m rc'
   }"

definition xml_table_write ::
    "xml_writer \<Rightarrow> (int \<Rightarrow> int) \<Rightarrow> (int \<Rightarrow> int) \<Rightarrow> (nat \<Rightarrow> 'e \<Rightarrow> int \<Rightarrow> int xml) \<Rightarrow> nat \<Rightarrow>
     'e static_config_member \<Rightarrow> int option xml" where
  "xml_table_write writer finished failed write_entry max_count m =
     (if int max_count < entry_count m then xml_return None
      else do {
        rc \<leftarrow> xml_write_entries writer finished failed write_entry 0 (nat (entry_count m)) m 0;
        xml_return (Some rc)
      })"

section \<open>The tables\<close>

type_synonym table_write = "xml_writer \<Rightarrow> sja1105_static_config \<Rightarrow> int option xml"

definition schedule_xml_members :: "schedule_entry \<Rightarrow> schedule_entry member list" where
  "schedule_xml_members entry =
     map (member_of schedule_members)
       [''winstindex'', ''winend'', ''winst'', ''destports'', ''setvalid'', ''txen'', ''resmedia_en'',
        ''resmedia'', ''vlindex'', ''delta'']"

definition schedule_table_write :: table_write where
  "schedule_table_write writer config =
     xml_table_write writer (\<lambda>_. 0) (\<lambda>_. - EINVAL)
       (\<lambda>i entry. xml_write_entry writer True (schedule_xml_members entry) i entry) MAX_SCHEDULE_COUNT (cfg_schedule config)"

definition schedule_entry_points_xml_members :: "schedule_entry_points_entry \<Rightarrow> schedule_entry_points_entry member list" where
  "schedule_entry_points_xml_members entry =
     map (member_of schedule_entry_points_members)
       [''subschindx'', ''delta'', ''address'']"

definition schedule_entry_points_table_write :: table_write where
  "schedule_entry_points_table_write writer config =
     xml_table_write writer (\<lambda>_. 0) (\<lambda>_. - EINVAL)
       (\<lambda>i entry. xml_write_entry writer True (schedule_entry_points_xml_members entry) i entry) MAX_SCHEDULE_ENTRY_POINTS_COUNT (cfg_schedule_entry_points config)"

definition vl_lookup_xml_members :: "vl_lookup_entry \<Rightarrow> vl_lookup_entry member list" where
  "vl_lookup_xml_members entry =
     map (member_of vl_lookup_members)
       (if vll_format entry = 0 then [''destports'', ''iscritical'', ''macaddr'', ''vlanid'', ''port'', ''vlanprior'']
          else [''egrmirr'', ''ingrmirr'', ''vlid'', ''port''])"

definition vl_lookup_table_write :: table_write where
  "vl_lookup_table_write writer config =
     xml_table_write writer (\<lambda>_. 0) (\<lambda>_. - EINVAL)
       (\<lambda>i entry. xml_write_entry writer True (vl_lookup_xml_members entry) i entry) MAX_VL_LOOKUP_COUNT (cfg_vl_lookup config)"

definition vl_policing_xml_members :: "vl_policing_entry \<Rightarrow> vl_policing_entry member list" where
  "vl_policing_xml_members entry =
     map (member_of vl_policing_members)
       ([''type'', ''maxlen'', ''sharindx''] @ (if vlp_type entry = 0 then [''bag'', ''jitter''] else []))"

definition vl_policing_table_write :: table_write where
  "vl_policing_table_write writer config =
     xml_table_write writer (\<lambda>_. 0) (\<lambda>_. - EINVAL)
       (\<lambda>i entry. xml_write_entry writer True (vl_policing_xml_members entry) i entry) MAX_VL_POLICING_COUNT (cfg_vl_policing config)"

definition vl_forwarding_xml_members :: "vl_forwarding_entry \<Rightarrow> vl_forwarding_entry member list" where
  "vl_forwarding_xml_members entry =
     map (member_of vl_forwarding_members)
       [''type'', ''priority'', ''partition'', ''destports'']"

definition vl_forwarding_table_write :: table_write where
  "vl_forwarding_table_write writer config =
     xml_table_write writer (\<lambda>_. 0) (\<lambda>_. - EINVAL)
       (\<lambda>i entry. xml_write_entry writer True (vl_forwarding_xml_members entry) i entry) MAX_VL_FORWARDING_COUNT (cfg_vl_forwarding config)"

definition l2_lookup_xml_members :: "u64 \<Rightarrow> l2_lookup_entry \<Rightarrow> l2_lookup_entry member list" where
  "l2_lookup_xml_members device_id entry =
     map (member_of l2_lookup_members)
       ((if IS_PQRS device_id
           then [''tsreg'', ''mirrvlan'', ''takets'', ''mirr'', ''retag'', ''mask_iotag'', ''mask_vlanid'', ''mask_macaddr'', ''iotag'']
           else []) @ [''vlanid'', ''macaddr'', ''destports'', ''enfport''])"

definition l2_address_lookup_table_write :: table_write where
  "l2_address_lookup_table_write writer config =
     xml_table_write writer (\<lambda>_. 0) (\<lambda>_. - EINVAL)
       (\<lambda>i entry. xml_write_entry writer False (l2_lookup_xml_members (cfg_device_id config) entry) i entry) MAX_L2_LOOKUP_COUNT (cfg_l2_lookup config)"

definition l2_policing_xml_members :: "l2_policing_entry \<Rightarrow> l2_policing_entry member list" where
  "l2_policing_xml_members entry =
     map (member_of l2_policing_members)
       [''sharindx'', ''smax'', ''rate'', ''maxlen'', ''partition'']"

definition l2_policing_table_write :: table_write where
  "l2_policing_table_write writer config =
     xml_table_write writer (\<lambda>rc. rc) (\<lambda>_. - EINVAL)
       (\<lambda>i entry. xml_write_entry writer True (l2_policing_xml_members entry) i entry) MAX_L2_POLICING_COUNT (cfg_l2_policing config)"

definition vlan_lookup_xml_members :: "vlan_lookup_entry \<Rightarrow> vlan_lookup_entry member list" where
  "vlan_lookup_xml_members entry =
     map (member_of vlan_lookup_members)
       [''ving_mirr'', ''vegr_mirr'', ''vmemb_port'', ''vlan_bc'', ''tag_port'', ''vlanid'']"

definition vlan_lookup_table_write :: table_write where
  "vlan_lookup_table_write writer config =
     xml_table_write writer (\<lambda>_. 0) (\<lambda>_. - EINVAL)
       (\<lambda>i entry. xml_write_entry writer True (vlan_lookup_xml_members entry) i entry) MAX_VLAN_LOOKUP_COUNT (cfg_vlan_lookup config)"

definition l2_forwarding_xml_members :: "l2_forwarding_entry \<Rightarrow> l2_forwarding_entry member list" where
  "l2_forwarding_xml_members entry =
     map (member_of l2_forwarding_members)
       [''bc_domain'', ''reach_port'', ''fl_domain'', ''vlan_pmap'']"

definition l2_forwarding_table_write :: table_write where
  "l2_forwarding_table_write writer config =
     xml_table_write writer (\<lambda>_. 0) (\<lambda>_. - EINVAL)
       (\<lambda>i entry. xml_write_entry writer True (l2_forwarding_xml_members entry) i entry) MAX_L2_FORWARDING_COUNT (cfg_l2_forwarding config)"

definition mac_config_xml_members :: "mac_config_entry \<Rightarrow> mac_config_entry member list" where
  "mac_config_xml_members entry =
     map (member_of mac_config_members)
       [''top'', ''base'', ''enabled'', ''ifg'', ''speed'', ''tp_delin'', ''tp_delout'', ''maxage'',
        ''vlanprio'', ''vlanid'', ''ing_mirr'', ''egr_mirr'', ''drpnona664'', ''drpdtag'', ''drpsotag'',
        ''drpsitag'', ''drpuntag'', ''retag'', ''dyn_learn'', ''egress'', ''ingress'', ''mirrcie'',
        ''mirrcetag'', ''ingmirrvid'', ''ingmirrpcp'', ''ingmirrdei'']"

definition mac_configuration_table_write :: table_write where
  "mac_configuration_table_write writer config =
     xml_table_write writer (\<lambda>_. 0) (\<lambda>_. - EINVAL)
       (\<lambda>i entry. xml_write_entry writer True (mac_config_xml_members entry) i entry) MAX_MAC_CONFIG_COUNT (cfg_mac_config config)"

definition schedule_params_xml_members :: "schedule_params_entry \<Rightarrow> schedule_params_entry member list" where
  "schedule_params_xml_members entry =
     map (member_of schedule_params_members)
       [''subscheind'']"

definition schedule_parameters_table_write :: table_write where
  "schedule_parameters_table_write writer config =
     xml_table_write writer (\<lambda>_. 0) (\<lambda>_. - EINVAL)
       (\<lambda>i entry. xml_write_entry writer True (schedule_params_xml_members entry) i entry) MAX_SCHEDULE_PARAMS_COUNT (cfg_schedule_params config)"

definition schedule_entry_points_params_xml_members :: "schedule_entry_points_params_entry \<Rightarrow> schedule_entry_points_params_entry member list" where
  "schedule_entry_points_params_xml_members entry =
     map (member_of schedule_entry_points_params_members)
       [''clksrc'', ''actsubsch'']"

definition schedule_entry_points_parameters_table_write :: table_write where
  "schedule_entry_points_parameters_table_write writer config =
     xml_table_write writer (\<lambda>_. 0) (\<lambda>_. - EINVAL)
       (\<lambda>i entry. xml_write_entry writer True (schedule_entry_points_params_xml_members entry) i entry) MAX_SCHEDULE_ENTRY_POINTS_PARAMS_COUNT (cfg_schedule_entry_points_params config)"

definition vl_forwarding_params_xml_members :: "vl_forwarding_params_entry \<Rightarrow> vl_forwarding_params_entry member list" where
  "vl_forwarding_params_xml_members entry =
     map (member_of vl_forwarding_params_members)
       [''partspc'', ''debugen'']"

definition vl_forwarding_parameters_table_write :: table_write where
  "vl_forwarding_parameters_table_write writer config =
     xml_table_write writer (\<lambda>rc. rc) (\<lambda>rc. rc)
       (\<lambda>i entry. xml_write_entry writer True (vl_forwarding_params_xml_members entry) i entry) MAX_VL_FORWARDING_PARAMS_COUNT (cfg_vl_forwarding_params config)"

definition l2_lookup_params_xml_members :: "l2_lookup_params_entry \<Rightarrow> l2_lookup_params_entry member list" where
  "l2_lookup_params_xml_members entry =
     map (member_of l2_lookup_params_members)
       [''maxage'', ''dyn_tbsz'', ''poly'', ''shared_learn'', ''no_enf_hostprt'', ''no_mgmt_learn'']"

definition l2_address_lookup_parameters_table_write :: table_write where
  "l2_address_lookup_parameters_table_write writer config =
     xml_table_write writer (\<lambda>_. 0) (\<lambda>_. - EINVAL)
       (\<lambda>i entry. xml_write_entry writer True (l2_lookup_params_xml_members entry) i entry) MAX_L2_LOOKUP_PARAMS_COUNT (cfg_l2_lookup_params config)"

definition l2_forwarding_params_xml_members :: "l2_forwarding_params_entry \<Rightarrow> l2_forwarding_params_entry member list" where
  "l2_forwarding_params_xml_members entry =
     map (member_of l2_forwarding_params_members)
       [''max_dynp'', ''part_spc'']"

definition l2_forwarding_parameters_table_write :: table_write where
  "l2_forwarding_parameters_table_write writer config =
     xml_table_write writer (\<lambda>_. 0) (\<lambda>_. - EINVAL)
       (\<lambda>i entry. xml_write_entry writer True (l2_forwarding_params_xml_members entry) i entry) MAX_L2_FORWARDING_PARAMS_COUNT (cfg_l2_forwarding_params config)"

definition avb_params_xml_members :: "avb_params_entry \<Rightarrow> avb_params_entry member list" where
  "avb_params_xml_members entry =
     map (member_of avb_params_members)
       [''l2cbs'', ''cas_master'', ''destmeta'', ''destmeta'', ''srcmeta'']"

definition avb_parameters_table_write :: table_write where
  "avb_parameters_table_write writer config =
     xml_table_write writer (\<lambda>_. 0) (\<lambda>_. - EINVAL)
       (\<lambda>i entry. xml_write_entry writer True (avb_params_xml_members entry) i entry) MAX_AVB_PARAMS_COUNT (cfg_avb_params config)"

definition general_params_xml_members :: "general_params_entry \<Rightarrow> general_params_entry member list" where
  "general_params_xml_members entry =
     map (member_of general_params_members)
       [''vllupformat'', ''mirr_ptacu'', ''switchid'', ''hostprio'', ''mac_fltres1'', ''mac_fltres0'',
        ''mac_flt1'', ''mac_flt0'', ''incl_srcpt1'', ''incl_srcpt0'', ''send_meta1'', ''send_meta0'',
        ''casc_port'', ''host_port'', ''mirr_port'', ''vlmarker'', ''vlmask'', ''tpid'', ''ignore2stf'',
        ''tpid2'', ''queue_ts'', ''egrmirrvid'', ''egrmirrpcp'', ''egrmirrdei'', ''replay_port'']"

definition general_parameters_table_write :: table_write where
  "general_parameters_table_write writer config =
     xml_table_write writer (\<lambda>_. 0) (\<lambda>_. - EINVAL)
       (\<lambda>i entry. xml_write_entry writer True (general_params_xml_members entry) i entry) MAX_GENERAL_PARAMS_COUNT (cfg_general_params config)"

definition xmii_params_xml_members :: "xmii_params_entry \<Rightarrow> xmii_params_entry member list" where
  "xmii_params_xml_members entry =
     map (member_of xmii_params_members)
       [''phy_mac'', ''xmii_mode'']"

definition xmii_mode_parameters_table_write :: table_write where
  "xmii_mode_parameters_table_write writer config =
     xml_table_write writer (\<lambda>_. 0) (\<lambda>_. - EINVAL)
       (\<lambda>i entry. xml_write_entry writer True (xmii_params_xml_members entry) i entry) MAX_XMII_PARAMS_COUNT (cfg_xmii_params config)"

definition sgmii_xml_members :: "sgmii_entry \<Rightarrow> sgmii_entry member list" where
  "sgmii_xml_members entry =
     map (member_of sgmii_members)
       [''digital_error_cnt'', ''digital_control_2'', ''debug_control'', ''test_control'',
        ''autoneg_control'', ''digital_control_1'', ''autoneg_adv'', ''basic_control'']"

definition sgmii_table_write :: table_write where
  "sgmii_table_write writer config =
     xml_table_write writer (\<lambda>_. 0) (\<lambda>_. - EINVAL)
       (\<lambda>i entry. xml_write_entry writer True (sgmii_xml_members entry) i entry) MAX_SGMII_COUNT (cfg_sgmii config)"

definition clock_synchronization_parameters_table_write :: table_write where
  "clock_synchronization_parameters_table_write writer config = xml_return (Some 0)"

section \<open>The file\<close>

text \<open>The names of the tables are the same strings as in \<^verbatim>\<open>staging_area_modify\<close>.\<close>

definition next_write_config_table :: "table_write list" where
  "next_write_config_table =
    [schedule_table_write,
     schedule_entry_points_table_write,
     vl_lookup_table_write,
     vl_policing_table_write,
     vl_forwarding_table_write,
     l2_address_lookup_table_write,
     l2_policing_table_write,
     vlan_lookup_table_write,
     l2_forwarding_table_write,
     mac_configuration_table_write,
     schedule_parameters_table_write,
     schedule_entry_points_parameters_table_write,
     vl_forwarding_parameters_table_write,
     l2_address_lookup_parameters_table_write,
     l2_forwarding_parameters_table_write,
     clock_synchronization_parameters_table_write,
     avb_parameters_table_write,
     general_parameters_table_write,
     xmii_mode_parameters_table_write,
     sgmii_table_write]"

fun write_config_tables ::
    "xml_writer \<Rightarrow> (string \<times> table_write) list \<Rightarrow> sja1105_static_config \<Rightarrow> int \<Rightarrow> int option xml" where
  "write_config_tables writer [] config rc = xml_return (Some rc)"
| "write_config_tables writer ((table_name, write_table) # tables) config rc = do {
     rc1 \<leftarrow> xml_call writer (StartElement table_name);
     written \<leftarrow> write_table writer config;
     case written of
       None \<Rightarrow> xml_return None
     | Some rc2 \<Rightarrow> do {
         rc3 \<leftarrow> xml_call writer EndElement;
         let rc' = rc OR rc1 OR rc2 OR rc3;
         if rc' < 0 then xml_return (Some (- EINVAL)) else write_config_tables writer tables config rc'
       }
   }"

definition device_id_write :: "xml_writer \<Rightarrow> u64 \<Rightarrow> int xml" where
  "device_id_write writer device_id = xml_write_field writer ''device-id'' device_id"

definition static_config_write :: "xml_writer \<Rightarrow> sja1105_static_config \<Rightarrow> int option xml" where
  "static_config_write writer config = do {
     rc \<leftarrow> xml_call writer (StartElement ''static'');
     if rc < 0 then xml_return (Some rc)
     else do {
       written \<leftarrow> write_config_tables writer (zip static_config_options next_write_config_table) config rc;
       case written of
         None \<Rightarrow> xml_return None
       | Some rc \<Rightarrow> if rc < 0 then xml_return (Some rc)
                    else do {
                      rc \<leftarrow> xml_call writer EndElement;
                      xml_return (Some rc)
                    }
     }
   }"

text \<open>The result is 0 whatever happened.\<close>

definition sja1105_staging_area_to_xml :: "xml_writer \<Rightarrow> string \<Rightarrow> sja1105_staging_area \<Rightarrow> int option xml" where
  "sja1105_staging_area_to_xml w xml_file staging_area = do {
     opened \<leftarrow> xml_call w (NewTextWriterFilename xml_file);
     if opened < 0 then xml_return (Some 0)
     else do {
       rc1 \<leftarrow> xml_call w (SetIndent 1);
       rc2 \<leftarrow> xml_call w (SetIndentString [char_of (9 :: nat)]);
       if rc1 OR rc2 < 0 then xml_return (Some 0)
       else do {
         rc \<leftarrow> xml_call w (StartDocument ''UTF-8'');
         if rc < 0 then xml_return (Some 0)
         else do {
           rc \<leftarrow> xml_call w (StartElement ''sja1105'');
           if rc < 0 then xml_return (Some 0)
           else do {
             xml_call w (WriteAttribute ''xmlns'' ''http://nxp.com/ns/yang/tsn/sja1105'');
             device_id_write w (cfg_device_id (sa_static_config staging_area));
             written \<leftarrow> static_config_write w (sa_static_config staging_area);
             case written of
               None \<Rightarrow> xml_return None
             | Some rc \<Rightarrow>
                 if rc < 0 then xml_return (Some 0)
                 else do {
                   rc \<leftarrow> xml_call w EndElement;
                   if rc < 0 then xml_return (Some 0)
                   else do {
                     xml_call w EndDocument;
                     xml_return (Some 0)
                   }
                 }
           }
         }
       }
     }
   }"

end
