(* ===== verification/Xml_Tables.thy ===== *)
theory Xml_Tables
  imports Xml_Write
begin

unbundle bit_operations_syntax

text \<open>
  The documents of the XML export as trees, and what the readers make of them: first members and entries, then
  the locale \<open>xml_table\<close> with what export and import need of a table, and its interpretation for every table.
\<close>

section \<open>Trees\<close>

text \<open>What a sequence of calls describes: elements with elements in them, and elements with a text.\<close>

datatype xml_tree = Elem string "xml_tree list" | Leaf string string

text \<open>\<open>st\<close> holds the open elements with what was before them, \<open>cur\<close> what is in the innermost, in reverse.\<close>

fun build :: "xml_call list \<Rightarrow> (string \<times> xml_tree list) list \<Rightarrow> xml_tree list \<Rightarrow> xml_tree list option" where
  "build [] [] cur = Some (rev cur)"
| "build [] (_ # _) cur = None"
| "build (StartElement name # cs) st cur = build cs ((name, cur) # st) []"
| "build (EndElement # cs) [] cur = None"
| "build (EndElement # cs) ((name, up) # st) cur = build cs st (Elem name (rev cur) # up)"
| "build (WriteElement name s # cs) st cur = build cs st (Leaf name s # cur)"
| "build (c # cs) st cur = build cs st cur"

definition document_tree :: "xml_call list \<Rightarrow> xml_tree option" where
  "document_tree cs = (case build cs [] [] of Some [t] \<Rightarrow> Some t | _ \<Rightarrow> None)"

definition makes :: "xml_call list \<Rightarrow> xml_tree list \<Rightarrow> bool" where
  "makes cs ts \<longleftrightarrow> (\<forall>rest st cur. build (cs @ rest) st cur = build rest st (rev ts @ cur))"

lemma makes_Nil: "makes [] []" by (simp add: makes_def)

lemma makes_append: "makes cs ts \<Longrightarrow> makes ds us \<Longrightarrow> makes (cs @ ds) (ts @ us)"
  by (simp add: makes_def)

lemma makes_leaf: "makes [WriteElement name s] [Leaf name s]"
  by (simp add: makes_def)

lemma makes_elem: "makes cs ts \<Longrightarrow> makes (StartElement name # cs @ [EndElement]) [Elem name ts]"
  by (simp add: makes_def)

text \<open>
  A tree as the library reads it: the indentation, or any other text, may be between the elements.
\<close>

inductive indents :: "xml_tree \<Rightarrow> xml_node \<Rightarrow> bool" where
  "indents (Leaf name s) (Xml_Node True name [Xml_Node False ''text'' [] s] c)"
| "list_all2 indents ts (filter is_element ns) \<Longrightarrow> list_all (\<lambda>n. is_element n \<or> node_name n = ''text'') ns \<Longrightarrow>
   indents (Elem name ts) (Xml_Node True name ns c)"
monos list_all2_mono

inductive_cases indents_LeafE: "indents (Leaf name s) node"
inductive_cases indents_ElemE: "indents (Elem name ts) node"

lemma indents_Leaf:
  "indents (Leaf name s) node \<Longrightarrow>
   is_element node \<and> node_name node = name \<and> node_children node = [Xml_Node False ''text'' [] s]"
  by (erule indents_LeafE) simp

lemma indents_Elem:
  "indents (Elem name ts) node \<Longrightarrow> is_element node \<and> node_name node = name \<and>
     list_all2 indents ts (filter is_element (node_children node)) \<and>
     (\<forall>n\<in>set (node_children node). \<not> is_element n \<longrightarrow> node_name n = ''text'')"
  by (erule indents_ElemE) (auto simp: list_all_iff)

text \<open>The law of the library's function for the text of a node.\<close>

definition gets_text :: "node_string \<Rightarrow> bool" where
  "gets_text get_string \<longleftrightarrow> (\<forall>s. get_string [Xml_Node False ''text'' [] s] = Some s)"

lemma fold_field_filter:
  "(\<forall>n\<in>set ns. \<not> is_element n \<longrightarrow> node_name n \<noteq> f) \<Longrightarrow>
   fold (\<lambda>cur val. if node_name cur = f then g cur else val) (filter is_element ns) v =
   fold (\<lambda>cur val. if node_name cur = f then g cur else val) ns v"
  by (induction ns arbitrary: v) auto

lemma fold_field_leaves:
  assumes "gets_text gs" "list_all2 indents (map (\<lambda>(n, s). Leaf n s) leaves) ns"
  shows "fold (\<lambda>cur val. if node_name cur = f then gs (node_children cur) else val) ns v =
    (case map_of (rev leaves) f of None \<Rightarrow> v | Some s \<Rightarrow> Some s)"
  using assms(2)
proof (induction leaves arbitrary: ns v)
  case (Cons leaf leaves)
  obtain n s where leaf: "leaf = (n, s)" by (cases leaf)
  with Cons.prems obtain c cs where ns: "ns = c # cs" "indents (Leaf n s) c"
    "list_all2 indents (map (\<lambda>(n, s). Leaf n s) leaves) cs"
    by (auto simp: list_all2_Cons1)
  from Cons.IH [OF ns(3)] indents_Leaf [OF ns(2)] assms(1) leaf ns(1) show ?case
    by (auto simp: gets_text_def map_add_def split: option.splits)
qed simp

lemma field_value_leaves:
  assumes "gets_text gs" "indents (Elem name (map (\<lambda>(n, s). Leaf n s) leaves)) node" "f \<noteq> ''text''"
  shows "xml_field_value gs f node = map_of (rev leaves) f"
proof -
  have "\<forall>n\<in>set (node_children node). \<not> is_element n \<longrightarrow> node_name n \<noteq> f"
    using indents_Elem [OF assms(2)] assms(3) by auto
  from fold_field_filter [OF this, of "\<lambda>cur. gs (node_children cur)" None]
    fold_field_leaves [OF assms(1), of leaves "filter is_element (node_children node)" f None] indents_Elem [OF assms(2)]
  have "xml_field_value gs f node = (case map_of (rev leaves) f of None \<Rightarrow> None | Some s \<Rightarrow> Some s)"
    unfolding xml_field_value_def by argo
  then show ?thesis by (simp split: option.splits)
qed

section \<open>Entries\<close>

definition member_text :: "'e member \<Rightarrow> 'e \<Rightarrow> string" where
  "member_text m e = (if mem_count m = 1 then ''0x'' @ print_nat 16 (unat (hd (mem_get m e)))
     else case print_array (take (mem_count m) (mem_get m e)) of None \<Rightarrow> [] | Some s \<Rightarrow> s)"

definition entry_leaves :: "bool \<Rightarrow> 'e member list \<Rightarrow> nat \<Rightarrow> 'e \<Rightarrow> (string \<times> string) list" where
  "entry_leaves indexed ms i e = (if indexed then [(''index'', print_nat 10 (unat (of_nat i :: u64)))] else []) @
     map (\<lambda>m. (mem_name m, member_text m e)) ms"

definition entry_tree :: "bool \<Rightarrow> 'e member list \<Rightarrow> nat \<Rightarrow> 'e \<Rightarrow> xml_tree" where
  "entry_tree indexed ms i e = Elem ''entry'' (map (\<lambda>(n, s). Leaf n s) (entry_leaves indexed ms i e))"

lemma mem_name_member_of: "mem_name (member_of table name) = name"
  by (auto simp: member_of_def find_Some_iff split: option.splits)

text \<open>Members that come from the members of a table under their names.\<close>

definition named_in :: "'e member list \<Rightarrow> 'e member list \<Rightarrow> bool" where
  "named_in table ms \<longleftrightarrow>
     list_all (\<lambda>m. m = member_of table (mem_name m) \<and> mem_name m \<noteq> ''index'' \<and> mem_name m \<noteq> ''text'') ms"

lemma named_in_map:
  "named_in table (map (member_of table) names) \<longleftrightarrow> ''index'' \<notin> set names \<and> ''text'' \<notin> set names"
  by (auto simp: named_in_def list_all_iff mem_name_member_of)

lemma named_inD:
  "named_in table ms \<Longrightarrow> m \<in> set ms \<Longrightarrow> member_of table (mem_name m) = m \<and> mem_name m \<noteq> ''index'' \<and> mem_name m \<noteq> ''text''"
  unfolding named_in_def list_all_iff by fastforce

lemma named_in_inject: "named_in table ms \<Longrightarrow> m \<in> set ms \<Longrightarrow> m' \<in> set ms \<Longrightarrow> mem_name m = mem_name m' \<Longrightarrow> m = m'"
  by (metis named_inD)

lemma map_of_members:
  assumes "named_in table ms" "m \<in> set ms"
  shows "map_of (rev (map (\<lambda>m. (mem_name m, t m)) ms)) (mem_name m) = Some (t m)"
proof -
  have "map_of (map (\<lambda>m. (mem_name m, t m)) xs) (mem_name m) = Some (t m)"
    if "set xs \<subseteq> set ms" "m \<in> set xs" for xs
    using that
  proof (induction xs)
    case (Cons x xs)
    then show ?case using named_in_inject [OF assms(1), of x m] assms(2) by auto
  qed simp
  from this [of "rev ms"] assms(2) show ?thesis by (simp add: rev_map)
qed

lemma entry_field_value:
  assumes "gets_text gs" "indents (entry_tree indexed ms i e) node" "named_in table ms" "m \<in> set ms"
  shows "xml_field_value gs (mem_name m) node = Some (member_text m e)"
proof -
  have m: "mem_name m \<noteq> ''index''" "mem_name m \<noteq> ''text''"
    using named_inD [OF assms(3,4)] by blast+
  from field_value_leaves [OF assms(1) assms(2) [unfolded entry_tree_def] m(2)]
    map_of_members [OF assms(3,4), of "\<lambda>m. member_text m e"] m(1) show ?thesis
    by (auto simp: entry_leaves_def map_add_def)
qed

section \<open>Reading members\<close>

lemma print_array_items_length: "length (print_array_items vs) \<le> 19 * length vs"
proof (induction vs)
  case (Cons v vs)
  have "unat v < 16 ^ Suc 15" using unsigned_less [of v] by simp
  from length_print_nat [OF _ this] Cons show ?case by (simp add: print_array_items_def)
qed (simp add: print_array_items_def)

lemma print_array_short: "length vs \<le> 8 \<Longrightarrow> print_array vs = Some (''['' @ print_array_items vs @ '']'')"
  using print_array_items_length [of vs] by (simp add: print_array_def)

lemma read_member_text:
  assumes "xml_field_value gs (mem_name m) node = Some (member_text m e)"
    and "length (mem_get m e) = mem_count m" "0 < mem_count m" "mem_count m \<le> 8"
  shows "xml_read_member gs m node e0 = Some (if mem_count m = 1 then 0 else int (mem_count m), mem_put m (mem_get m e) e0)"
proof (cases "mem_count m = 1")
  case True
  then obtain v where "mem_get m e = [v]" using assms(2) by (auto simp: length_Suc_conv)
  with True assms(1) hex_number_read [of "[]" v] show ?thesis
    by (simp add: xml_read_member_def xml_read_field_def member_text_def)
next
  case False
  have "mem_get m e \<noteq> []" using assms(2,3) by auto
  with False assms print_array_short [of "mem_get m e"] read_array_items [of "mem_get m e" "mem_count m"] show ?thesis
    by (simp add: xml_read_member_def xml_read_array_def member_text_def Let_def)
qed

text \<open>What the node of an entry shows, as far as the readers rely on it.\<close>

definition shows_members :: "node_string \<Rightarrow> xml_node \<Rightarrow> 'e member list \<Rightarrow> 'e \<Rightarrow> bool" where
  "shows_members gs node ms e \<longleftrightarrow>
     list_all (\<lambda>m. xml_field_value gs (mem_name m) node = Some (member_text m e) \<and>
       length (mem_get m e) = mem_count m \<and> 0 < mem_count m \<and> mem_count m \<le> 8) ms"

definition copy_members :: "'e member list \<Rightarrow> 'e \<Rightarrow> 'e \<Rightarrow> 'e" where
  "copy_members ms e = fold (\<lambda>m. mem_put m (mem_get m e)) ms"

lemma read_members_shown:
  "shows_members gs node ms e \<Longrightarrow> 0 \<le> rc \<Longrightarrow>
   \<exists>rc' \<ge> 0. xml_read_members gs ms node rc e0 = Some (rc', copy_members ms e e0)"
proof (induction ms arbitrary: rc e0)
  case (Cons m ms)
  then have "xml_read_member gs m node e0 =
      Some (if mem_count m = 1 then 0 else int (mem_count m), mem_put m (mem_get m e) e0)"
    by (intro read_member_text) (auto simp: shows_members_def)
  moreover have "0 \<le> rc OR (if mem_count m = 1 then 0 else int (mem_count m))" using Cons.prems(2) by simp
  ultimately show ?case using Cons.IH Cons.prems(1) by (simp add: shows_members_def copy_members_def)
qed (simp add: copy_members_def)

lemma entry_get_shown: "shows_members gs node ms e \<Longrightarrow> xml_entry_get gs ms node e0 = Some (0, copy_members ms e e0)"
  using read_members_shown [of gs node ms e 0 e0] by (auto simp: xml_entry_get_def not_less)

lemma read_counts_shown:
  "shows_members gs node ms e \<Longrightarrow> list_all (\<lambda>m. mem_count m \<noteq> 1) ms \<Longrightarrow>
   xml_read_counts gs ms node rc e0 = Some (rc + sum_list (map (\<lambda>m. int (mem_count m)) ms), copy_members ms e e0)"
proof (induction ms arbitrary: rc e0)
  case (Cons m ms)
  then have "xml_read_member gs m node e0 = Some (int (mem_count m), mem_put m (mem_get m e) e0)"
    using read_member_text [of gs m node e e0] by (auto simp: shows_members_def)
  with Cons show ?case by (simp add: shows_members_def copy_members_def)
qed (simp add: copy_members_def)

lemma read_until_error_shown:
  "shows_members gs node ms e \<Longrightarrow> xml_read_until_error gs ms node e0 = Some (0, copy_members ms e e0)"
proof (induction ms arbitrary: e0)
  case (Cons m ms)
  then have "xml_read_member gs m node e0 =
      Some (if mem_count m = 1 then 0 else int (mem_count m), mem_put m (mem_get m e) e0)"
    by (intro read_member_text) (auto simp: shows_members_def)
  with Cons show ?case by (simp add: shows_members_def copy_members_def)
qed (simp add: copy_members_def)

section \<open>Tables\<close>

text \<open>The table with the first \<open>n\<close> entries.\<close>

definition table_of :: "'e \<Rightarrow> (nat \<Rightarrow> 'e) \<Rightarrow> nat \<Rightarrow> 'e static_config_member" where
  "table_of zero f n = \<lparr>entries = (\<lambda>i. if i < n then f i else zero), entry_count = int n\<rparr>"

lemma add_entry_table_of: "add_entry (f n) (table_of zero f n) = table_of zero f (Suc n)"
  by (auto simp: add_entry_def table_of_def set_entry_def less_Suc_eq)

lemma table_of_0: "table_of zero f 0 = no_entries zero"
  by (simp add: table_of_def no_entries_def)

lemma for_elements_filter: "for_elements f ns rc s = for_elements f (filter is_element ns) rc s"
  by (induction ns arbitrary: rc s) (auto split: option.splits)

lemma shows_members_subset: "shows_members gs node ms e \<Longrightarrow> set ms' \<subseteq> set ms \<Longrightarrow> shows_members gs node ms' e"
  by (auto simp: shows_members_def list_all_iff)

definition exportable :: "'e member list \<Rightarrow> 'e \<Rightarrow> bool" where
  "exportable ms e \<longleftrightarrow> list_all (\<lambda>m. length (mem_get m e) = mem_count m \<and> 0 < mem_count m \<and> mem_count m \<le> 8) ms"

text \<open>
  What the files need of a table: the members that are written come from the members of the table, and where
  they are shown, the entry is read as \<open>imported\<close>.
\<close>

locale xml_table =
  fixes table :: "'e member list"
    and xml_members :: "'e \<Rightarrow> 'e member list"
    and parse_entry :: "node_string \<Rightarrow> xml_node \<Rightarrow> 'e static_config_member \<Rightarrow> (int \<times> 'e static_config_member) option"
    and capacity :: nat
    and ok :: "'e \<Rightarrow> bool"
    and imported :: "'e \<Rightarrow> 'e"
  assumes names: "named_in table (xml_members e)"
    and exportable: "ok e \<Longrightarrow> exportable (xml_members e) e"
    and parse: "ok e \<Longrightarrow> shows_members gs node (xml_members e) e \<Longrightarrow> 0 \<le> entry_count m \<Longrightarrow>
      entry_count m < int capacity \<Longrightarrow> \<exists>rc \<ge> 0. parse_entry gs node m = Some (rc, add_entry (imported e) m)"
begin

lemma entry:
  assumes "gets_text gs" "indents (entry_tree indexed (xml_members e) i e) node" "ok e"
    "0 \<le> entry_count m" "entry_count m < int capacity"
  shows "is_element node \<and> (\<exists>rc \<ge> 0. parse_entry gs node m = Some (rc, add_entry (imported e) m))"
proof -
  have "shows_members gs node (xml_members e) e"
    using entry_field_value [OF assms(1,2) names] exportable [OF assms(3)]
    by (auto simp: shows_members_def exportable_def list_all_iff)
  with parse [OF assms(3) this assms(4,5)] indents_Elem [OF assms(2) [unfolded entry_tree_def]] show ?thesis by blast
qed

lemma entries:
  assumes "gets_text gs" "\<forall>j < n. ok (f j)" "n \<le> capacity"
  shows "i + k = n \<Longrightarrow> 0 \<le> rc \<Longrightarrow>
    list_all2 indents (map (\<lambda>j. entry_tree indexed (xml_members (f j)) j (f j)) [i..<n]) ns \<Longrightarrow>
    \<exists>rc' \<ge> 0. for_elements (parse_entry gs) ns rc (table_of zero (\<lambda>j. imported (f j)) i) =
      Some (rc', table_of zero (\<lambda>j. imported (f j)) n)"
proof (induction k arbitrary: i ns rc)
  case (Suc k)
  then have "[i..<n] = i # [Suc i..<n]" by (simp add: upt_rec)
  with Suc.prems(3) obtain node ns' where ns: "ns = node # ns'" "indents (entry_tree indexed (xml_members (f i)) i (f i)) node"
    "list_all2 indents (map (\<lambda>j. entry_tree indexed (xml_members (f j)) j (f j)) [Suc i..<n]) ns'"
    by (auto simp: list_all2_Cons1)
  let ?m = "table_of zero (\<lambda>j. imported (f j)) i"
  have i: "i < n" using Suc.prems(1) by simp
  have "ok (f i)" "0 \<le> entry_count ?m" "entry_count ?m < int capacity"
    using assms(2,3) i by (simp_all add: table_of_def)
  from entry [OF assms(1) ns(2) this] obtain rc' where
    "is_element node" "0 \<le> rc'" "parse_entry gs node ?m = Some (rc', table_of zero (\<lambda>j. imported (f j)) (Suc i))"
    using add_entry_table_of [of "\<lambda>j. imported (f j)" i zero] by auto
  with Suc.IH [OF _ _ ns(3), of rc'] Suc.prems(1) show ?case by (simp add: ns(1))
qed auto

lemma table_parse:
  assumes "gets_text gs" "\<forall>j < n. ok (f j)" "n \<le> capacity" "0 \<le> rc"
    "indents (Elem name (map (\<lambda>j. entry_tree indexed (xml_members (f j)) j (f j)) [0..<n])) node"
  shows "\<exists>rc' \<ge> 0. for_elements (parse_entry gs) (node_children node) rc (no_entries zero) =
    Some (rc', table_of zero (\<lambda>j. imported (f j)) n)"
  using entries [OF assms(1-3), of 0 n rc indexed "filter is_element (node_children node)" zero]
    indents_Elem [OF assms(5)] assms(4)
  by (subst for_elements_filter) (simp add: table_of_0)

end

text \<open>Tables whose entries are lists of members throughout.\<close>

lemma parse_entry_shown:
  assumes "shows_members gs node (map (member_of table) written) e" "set names \<subseteq> set written"
    "0 \<le> entry_count m" "entry_count m < int capacity"
    "copy_members (map (member_of table) names) e zero = e'"
  shows "\<exists>rc \<ge> 0. xml_parse_entry full capacity zero (xml_entry_get gs (map (member_of table) names)) node m =
    Some (rc, add_entry e' m)"
proof -
  have "shows_members gs node (map (member_of table) names) e"
    by (rule shows_members_subset [OF assms(1)]) (use assms(2) in auto)
  from entry_get_shown [OF this, of zero] assms(3-5) show ?thesis by (simp add: xml_parse_entry_def)
qed

lemma regular_xml_table:
  assumes "\<And>e. xml_members e = map (member_of table) written"
    and "\<And>gs. parse_entry gs = xml_parse_entry full capacity zero (xml_entry_get gs (map (member_of table) names))"
    and "set names \<subseteq> set written" "''index'' \<notin> set written" "''text'' \<notin> set written"
    and "\<And>e. ok e \<Longrightarrow> exportable (map (member_of table) written) e"
    and "\<And>e. ok e \<Longrightarrow> copy_members (map (member_of table) names) e zero = imported e"
  shows "xml_table table xml_members parse_entry capacity ok imported"
proof
  show "named_in table (xml_members e)" for e using assms(1,4,5) by (simp add: named_in_map)
  show "exportable (xml_members e) e" if "ok e" for e using assms(1,6) that by simp
  show "\<exists>rc \<ge> 0. parse_entry gs node m = Some (rc, add_entry (imported e) m)"
    if "ok e" "shows_members gs node (xml_members e) e" "0 \<le> entry_count m" "entry_count m < int capacity" for e gs node m
    unfolding assms(2)
    by (rule parse_entry_shown [OF that(2) [unfolded assms(1)] assms(3) that(3,4) assms(7) [OF that(1)]])
qed

lemmas xml_eval = table_members member_of_def copy_members_def exportable_def members_shape_def table_zeros

interpretation schedule_xml: xml_table schedule_members schedule_xml_members schedule_parse_entry MAX_SCHEDULE_COUNT
  "\<lambda>_. True" "\<lambda>e. e"
  by (rule regular_xml_table, rule schedule_xml_members_def, unfold schedule_parse_entry_def schedule_entry_get_def, rule refl)
    (simp_all add: xml_eval)

interpretation general_params_xml: xml_table general_params_members general_params_xml_members general_params_parse_entry
  MAX_GENERAL_PARAMS_COUNT "\<lambda>_. True" "\<lambda>e. e"
  by (rule regular_xml_table, rule general_params_xml_members_def,
      unfold general_params_parse_entry_def general_params_entry_get_def, rule refl)
    (simp_all add: xml_eval)

lemma custom_xml_table:
  assumes "\<And>e. named_in table (xml_members e)"
    and "\<And>e. ok e \<Longrightarrow> exportable (xml_members e) e"
    and "\<And>gs. parse_entry gs = xml_parse_entry full capacity zero (entry_get gs)"
    and "\<And>gs node e. ok e \<Longrightarrow> shows_members gs node (xml_members e) e \<Longrightarrow>
      \<exists>rc \<ge> 0. entry_get gs node zero = Some (rc, imported e)"
  shows "xml_table table xml_members parse_entry capacity ok imported"
proof
  show "\<exists>rc \<ge> 0. parse_entry gs node m = Some (rc, add_entry (imported e) m)"
    if "ok e" "shows_members gs node (xml_members e) e" "0 \<le> entry_count m" "entry_count m < int capacity" for e gs node m
    using assms(4) [OF that(1,2)] that(3,4) by (auto simp: assms(3) xml_parse_entry_def)
qed (fact assms(1,2))+

lemma read_shown:
  "shows_members gs node ms e \<Longrightarrow> m \<in> set ms \<Longrightarrow>
   xml_read_member gs m node e0 = Some (if mem_count m = 1 then 0 else int (mem_count m), mem_put m (mem_get m e) e0)"
  by (intro read_member_text) (auto simp: shows_members_def list_all_iff)

definition l2_lookup_imported :: "u64 \<Rightarrow> l2_lookup_entry \<Rightarrow> l2_lookup_entry" where
  "l2_lookup_imported device_id e =
     (if IS_PQRS device_id then e\<lparr>l2l_index := 0\<rparr>
      else l2_lookup_zero\<lparr>l2l_vlanid := l2l_vlanid e, l2l_macaddr := l2l_macaddr e, l2l_destports := l2l_destports e,
             l2l_enfport := l2l_enfport e\<rparr>)"

interpretation l2_lookup_xml: xml_table l2_lookup_members "l2_lookup_xml_members device_id"
  "\<lambda>gs. l2_lookup_parse_entry gs device_id" MAX_L2_LOOKUP_COUNT "\<lambda>_. True" "l2_lookup_imported device_id" for device_id
  by (rule regular_xml_table, rule l2_lookup_xml_members_def, unfold l2_lookup_parse_entry_def l2_lookup_entry_get_def, rule refl)
    (simp_all add: xml_eval l2_lookup_imported_def)

definition vl_policing_imported :: "vl_policing_entry \<Rightarrow> vl_policing_entry" where
  "vl_policing_imported e = (if vlp_type e = 0 then e else e\<lparr>vlp_bag := 0, vlp_jitter := 0\<rparr>)"

interpretation vl_policing_xml: xml_table vl_policing_members vl_policing_xml_members vl_policing_parse_entry
  MAX_VL_POLICING_COUNT "\<lambda>_. True" vl_policing_imported
proof (rule custom_xml_table [OF _ _ vl_policing_parse_entry_def], goal_cases)
  case (1 e)
  show ?case unfolding vl_policing_xml_members_def by (simp only: named_in_map) simp
next
  case (2 e)
  show ?case by (simp add: vl_policing_xml_members_def xml_eval)
next
  case (3 gs node e)
  let ?start = "map (member_of vl_policing_members) [''type'', ''maxlen'', ''sharindx'']"
  let ?rest = "map (member_of vl_policing_members) [''bag'', ''jitter'']"
  have "shows_members gs node ?start e"
    by (rule shows_members_subset [OF 3(2)]) (auto simp: vl_policing_xml_members_def)
  from read_members_shown [OF this, of 0 vl_policing_zero] obtain rc where rc: "0 \<le> rc"
    "xml_read_members gs ?start node 0 vl_policing_zero = Some (rc, copy_members ?start e vl_policing_zero)" by auto
  show ?case
  proof (cases "vlp_type e = 0")
    case True
    then have "shows_members gs node ?rest e"
      by (intro shows_members_subset [OF 3(2)]) (auto simp: vl_policing_xml_members_def)
    from read_members_shown [OF this rc(1), of "copy_members ?start e vl_policing_zero"] obtain rc2 where
      "0 \<le> rc2" "xml_read_members gs ?rest node rc (copy_members ?start e vl_policing_zero) =
        Some (rc2, copy_members ?rest e (copy_members ?start e vl_policing_zero))" by auto
    moreover have "copy_members ?rest e (copy_members ?start e vl_policing_zero) = e"
      "vlp_type (copy_members ?start e vl_policing_zero) = 0"
      using True by (simp_all add: xml_eval)
    ultimately show ?thesis using rc(2) True unfolding vl_policing_entry_get_def
      by (simp add: vl_policing_imported_def del: list.map)
  next
    case False
    then show ?thesis using rc unfolding vl_policing_entry_get_def by (simp add: xml_eval vl_policing_imported_def)
  qed
qed

interpretation vl_lookup_xml: xml_table vl_lookup_members vl_lookup_xml_members vl_lookup_parse_entry
  MAX_VL_LOOKUP_COUNT "\<lambda>e. vll_format e = 0" "\<lambda>e. e"
proof (rule custom_xml_table [OF _ _ vl_lookup_parse_entry_def], goal_cases)
  case (1 e)
  show ?case unfolding vl_lookup_xml_members_def by (simp only: named_in_map) simp
next
  case (2 e)
  then show ?case by (simp add: vl_lookup_xml_members_def xml_eval)
next
  case (3 gs node e)
  have "shows_members gs node (map (member_of vl_lookup_members)
      [''port'', ''destports'', ''iscritical'', ''macaddr'', ''vlanid'', ''vlanprior'']) e"
    by (rule shows_members_subset [OF 3(2)]) (use 3(1) in \<open>auto simp: vl_lookup_xml_members_def\<close>)
  from entry_get_shown [OF this, of vl_lookup_zero] 3(1) show ?case
    unfolding vl_lookup_entry_get_def by (simp add: xml_eval)
qed

interpretation l2_forwarding_xml: xml_table l2_forwarding_members l2_forwarding_xml_members l2_forwarding_parse_entry
  MAX_L2_FORWARDING_COUNT "members_shape l2_forwarding_members" "\<lambda>e. e"
proof
  fix e :: l2_forwarding_entry
  show "named_in l2_forwarding_members (l2_forwarding_xml_members e)"
    unfolding l2_forwarding_xml_members_def by (simp only: named_in_map) simp
  show "members_shape l2_forwarding_members e \<Longrightarrow> exportable (l2_forwarding_xml_members e) e"
    by (simp add: l2_forwarding_xml_members_def xml_eval)
next
  fix e :: l2_forwarding_entry and gs node and m :: "l2_forwarding_entry static_config_member"
  assume ok: "members_shape l2_forwarding_members e" and shown: "shows_members gs node (l2_forwarding_xml_members e) e"
    and m: "0 \<le> entry_count m" "entry_count m < int MAX_L2_FORWARDING_COUNT"
  from read_until_error_shown [OF shown, of l2_forwarding_zero] ok
  have "l2_forwarding_entry_get gs node l2_forwarding_zero = Some (0, e)"
    unfolding l2_forwarding_entry_get_def l2_forwarding_xml_members_def by (simp add: xml_eval)
  then show "\<exists>rc \<ge> 0. l2_forwarding_parse_entry gs node m = Some (rc, add_entry e m)"
    using m by (simp add: l2_forwarding_parse_entry_def)
qed

interpretation xmii_params_xml: xml_table xmii_params_members xmii_params_xml_members xmii_params_parse_entry
  MAX_XMII_PARAMS_COUNT "members_shape xmii_params_members" "\<lambda>e. e"
proof (rule custom_xml_table [OF _ _ xmii_params_parse_entry_def], goal_cases)
  case (1 e)
  show ?case unfolding xmii_params_xml_members_def by (simp only: named_in_map) simp
next
  case (2 e)
  then show ?case by (simp add: xmii_params_xml_members_def xml_eval)
next
  case (3 gs node e)
  have "list_all (\<lambda>m. mem_count m \<noteq> 1) (xmii_params_xml_members e)" by (simp add: xmii_params_xml_members_def xml_eval)
  from read_counts_shown [OF 3(2) this, of 0 xmii_params_zero] 3(1) show ?case
    unfolding xmii_params_entry_get_def xmii_params_xml_members_def by (simp add: xml_eval)
qed

interpretation schedule_params_xml: xml_table schedule_params_members schedule_params_xml_members schedule_params_parse_entry
  MAX_SCHEDULE_PARAMS_COUNT "members_shape schedule_params_members" "\<lambda>e. e"
proof (rule custom_xml_table [OF _ _ schedule_params_parse_entry_def], goal_cases)
  case (1 e)
  show ?case unfolding schedule_params_xml_members_def by (simp only: named_in_map) simp
next
  case (2 e)
  then show ?case by (simp add: schedule_params_xml_members_def xml_eval)
next
  case (3 gs node e)
  from read_shown [OF 3(2), of "member_of schedule_params_members ''subscheind''" schedule_params_zero] 3(1) show ?case
    unfolding schedule_params_entry_get_def schedule_params_xml_members_def by (simp add: xml_eval)
qed

interpretation l2_forwarding_params_xml: xml_table l2_forwarding_params_members l2_forwarding_params_xml_members
  l2_forwarding_params_parse_entry MAX_L2_FORWARDING_PARAMS_COUNT "members_shape l2_forwarding_params_members" "\<lambda>e. e"
proof (rule custom_xml_table [OF _ _ l2_forwarding_params_parse_entry_def], goal_cases)
  case (1 e)
  show ?case unfolding l2_forwarding_params_xml_members_def by (simp only: named_in_map) simp
next
  case (2 e)
  then show ?case by (simp add: l2_forwarding_params_xml_members_def xml_eval)
next
  case (3 gs node e)
  from read_shown [OF 3(2), of "member_of l2_forwarding_params_members ''max_dynp''" l2_forwarding_params_zero]
    read_shown [OF 3(2), of "member_of l2_forwarding_params_members ''part_spc''"] 3(1) show ?case
    unfolding l2_forwarding_params_entry_get_def l2_forwarding_params_xml_members_def by (simp add: xml_eval)
qed

interpretation vl_forwarding_params_xml: xml_table vl_forwarding_params_members vl_forwarding_params_xml_members
  vl_forwarding_params_parse_entry MAX_VL_FORWARDING_PARAMS_COUNT "members_shape vl_forwarding_params_members" "\<lambda>e. e"
proof (rule custom_xml_table [OF _ _ vl_forwarding_params_parse_entry_def], goal_cases)
  case (1 e)
  show ?case unfolding vl_forwarding_params_xml_members_def by (simp only: named_in_map) simp
next
  case (2 e)
  then show ?case by (simp add: vl_forwarding_params_xml_members_def xml_eval)
next
  case (3 gs node e)
  from read_shown [OF 3(2), of "member_of vl_forwarding_params_members ''partspc''" vl_forwarding_params_zero]
    read_shown [OF 3(2), of "member_of vl_forwarding_params_members ''debugen''"] 3(1) show ?case
    unfolding vl_forwarding_params_entry_get_def vl_forwarding_params_xml_members_def by (simp add: xml_eval)
qed

interpretation schedule_entry_points_xml: xml_table schedule_entry_points_members schedule_entry_points_xml_members schedule_entry_points_parse_entry
  MAX_SCHEDULE_ENTRY_POINTS_COUNT "\<lambda>_. True" "\<lambda>e. e"
  by (rule regular_xml_table, rule schedule_entry_points_xml_members_def, unfold schedule_entry_points_parse_entry_def schedule_entry_points_entry_get_def, rule refl)
    (simp_all add: xml_eval)

interpretation vl_forwarding_xml: xml_table vl_forwarding_members vl_forwarding_xml_members vl_forwarding_parse_entry
  MAX_VL_FORWARDING_COUNT "\<lambda>_. True" "\<lambda>e. e"
  by (rule regular_xml_table, rule vl_forwarding_xml_members_def, unfold vl_forwarding_parse_entry_def vl_forwarding_entry_get_def, rule refl)
    (simp_all add: xml_eval)

interpretation l2_policing_xml: xml_table l2_policing_members l2_policing_xml_members l2_policing_parse_entry
  MAX_L2_POLICING_COUNT "\<lambda>_. True" "\<lambda>e. e"
  by (rule regular_xml_table, rule l2_policing_xml_members_def, unfold l2_policing_parse_entry_def l2_policing_entry_get_def, rule refl)
    (simp_all add: xml_eval)

interpretation vlan_lookup_xml: xml_table vlan_lookup_members vlan_lookup_xml_members vlan_lookup_parse_entry
  MAX_VLAN_LOOKUP_COUNT "\<lambda>_. True" "\<lambda>e. e"
  by (rule regular_xml_table, rule vlan_lookup_xml_members_def, unfold vlan_lookup_parse_entry_def vlan_lookup_entry_get_def, rule refl)
    (simp_all add: xml_eval)

interpretation schedule_entry_points_params_xml: xml_table schedule_entry_points_params_members schedule_entry_points_params_xml_members schedule_entry_points_params_parse_entry
  MAX_SCHEDULE_ENTRY_POINTS_PARAMS_COUNT "\<lambda>_. True" "\<lambda>e. e"
  by (rule regular_xml_table, rule schedule_entry_points_params_xml_members_def, unfold schedule_entry_points_params_parse_entry_def schedule_entry_points_params_entry_get_def, rule refl)
    (simp_all add: xml_eval)

interpretation avb_params_xml: xml_table avb_params_members avb_params_xml_members avb_params_parse_entry
  MAX_AVB_PARAMS_COUNT "\<lambda>_. True" "\<lambda>e. e"
  by (rule regular_xml_table, rule avb_params_xml_members_def, unfold avb_params_parse_entry_def avb_params_entry_get_def, rule refl)
    (simp_all add: xml_eval)

interpretation sgmii_xml: xml_table sgmii_members sgmii_xml_members sgmii_parse_entry
  MAX_SGMII_COUNT "\<lambda>_. True" "\<lambda>e. e"
  by (rule regular_xml_table, rule sgmii_xml_members_def, unfold sgmii_parse_entry_def sgmii_entry_get_def, rule refl)
    (simp_all add: xml_eval)

definition l2_lookup_params_imported :: "l2_lookup_params_entry \<Rightarrow> l2_lookup_params_entry" where
  "l2_lookup_params_imported e = l2_lookup_params_zero\<lparr>l2lp_maxage := l2lp_maxage e, l2lp_dyn_tbsz := l2lp_dyn_tbsz e,
     l2lp_poly := l2lp_poly e, l2lp_shared_learn := l2lp_shared_learn e, l2lp_no_enf_hostprt := l2lp_no_enf_hostprt e,
     l2lp_no_mgmt_learn := l2lp_no_mgmt_learn e\<rparr>"

interpretation l2_lookup_params_xml: xml_table l2_lookup_params_members l2_lookup_params_xml_members
  l2_lookup_params_parse_entry MAX_L2_LOOKUP_PARAMS_COUNT "\<lambda>_. True" l2_lookup_params_imported
  by (rule regular_xml_table, rule l2_lookup_params_xml_members_def,
      unfold l2_lookup_params_parse_entry_def l2_lookup_params_entry_get_def, rule refl)
    (simp_all add: xml_eval l2_lookup_params_imported_def)

interpretation mac_config_xml: xml_table mac_config_members mac_config_xml_members mac_config_parse_entry
  MAX_MAC_CONFIG_COUNT "members_shape mac_config_members" "\<lambda>e. e"
proof (rule custom_xml_table [OF _ _ mac_config_parse_entry_def], goal_cases)
  case (1 e)
  show ?case unfolding mac_config_xml_members_def by (simp only: named_in_map) simp
next
  case (2 e)
  then show ?case by (simp add: mac_config_xml_members_def xml_eval)
next
  case (3 gs node e)
  let ?arrays = "map (member_of mac_config_members) [''top'', ''base'', ''enabled'']"
  have arrays: "shows_members gs node ?arrays e" "list_all (\<lambda>m. mem_count m \<noteq> 1) ?arrays"
    by (rule shows_members_subset [OF 3(2)]) (auto simp: mac_config_xml_members_def xml_eval)
  have counts: "xml_read_counts gs ?arrays node 0 mac_config_zero = Some (8 * 3, copy_members ?arrays e mac_config_zero)"
    using read_counts_shown [OF arrays, of 0 mac_config_zero] by (simp add: xml_eval)
  let ?rest = "map (member_of mac_config_members) (drop 3
    [''top'', ''base'', ''enabled'', ''ifg'', ''speed'', ''tp_delin'', ''tp_delout'', ''maxage'', ''vlanprio'', ''vlanid'', ''ing_mirr'',
     ''egr_mirr'', ''drpnona664'', ''drpdtag'', ''drpsotag'', ''drpsitag'', ''drpuntag'', ''retag'', ''dyn_learn'', ''egress'', ''ingress'',
     ''mirrcie'', ''mirrcetag'', ''ingmirrvid'', ''ingmirrpcp'', ''ingmirrdei''])"
  have "shows_members gs node ?rest e"
    by (rule shows_members_subset [OF 3(2)]) (auto simp: mac_config_xml_members_def)
  from entry_get_shown [OF this, of "copy_members ?arrays e mac_config_zero"]
  have "xml_entry_get gs ?rest node (copy_members ?arrays e mac_config_zero) = Some (0, e)"
    using 3(1) by (simp add: xml_eval)
  then show ?case using counts unfolding mac_config_entry_get_def by (simp del: list.map)
qed

end
