(* ===== verification/Xml_Roundtrip.thy ===== *)
theory Xml_Roundtrip
  imports Xml_Tables Config_Codec
begin

unbundle bit_operations_syntax

text \<open>
  Writing a configuration to an XML file and reading it back: the calls of the writer describe a tree, whatever
  the return codes of the library that are not negative, and the reader gets from that tree, however it is
  indented, what \<open>imported_config\<close> says. The tables come one by one from the locale \<open>xml_table\<close>.
\<close>

section \<open>Writing\<close>

definition willing :: "xml_writer \<Rightarrow> bool" where
  "willing w \<longleftrightarrow> (\<forall>h c. 0 \<le> w h c)"

text \<open>A computation whose calls describe the trees, whatever was before, and whose result has a property.\<close>

definition produces :: "('a \<Rightarrow> bool) \<Rightarrow> 'a xml \<Rightarrow> xml_tree list \<Rightarrow> bool" where
  "produces P m ts \<longleftrightarrow> (\<forall>h. \<exists>x es. run_state m h = (x, h @ es) \<and> P x \<and> makes (map fst es) ts)"

lemma producesD: "produces P m ts \<Longrightarrow> \<exists>x es. run_state m h = (x, h @ es) \<and> P x \<and> makes (map fst es) ts"
  by (simp add: produces_def)

lemma produces_return: "P x \<Longrightarrow> produces P (xml_return x) []"
  by (auto simp: produces_def makes_Nil)

lemma produces_bind:
  assumes "produces Q m ts" "\<And>x. Q x \<Longrightarrow> produces P (f x) us"
  shows "produces P (State_Monad.bind m f) (ts @ us)"
  unfolding produces_def
proof
  fix h
  from producesD [OF assms(1)] obtain x es where es: "run_state m h = (x, h @ es)" "Q x" "makes (map fst es) ts" by blast
  from producesD [OF assms(2) [OF es(2)]] obtain y fs where
    "run_state (f x) (h @ es) = (y, (h @ es) @ fs)" "P y" "makes (map fst fs) us" by blast
  with es show "\<exists>y es. run_state (State_Monad.bind m f) h = (y, h @ es) \<and> P y \<and> makes (map fst es) (ts @ us)"
    using makes_append by fastforce
qed

lemma produces_leaf: "willing w \<Longrightarrow> produces (\<lambda>rc. 0 \<le> rc) (xml_call w (WriteElement name s)) [Leaf name s]"
  by (auto simp: produces_def xml_call_def willing_def makes_leaf)

text \<open>An element: what is between its start and its end are its children.\<close>

lemma produces_elem:
  assumes "willing w" "\<And>rc. 0 \<le> rc \<Longrightarrow> produces Q (m rc) ts" "\<And>rc x rc'. 0 \<le> rc \<Longrightarrow> Q x \<Longrightarrow> 0 \<le> rc' \<Longrightarrow> produces P (f rc x rc') us"
    "\<And>rc x. Q x \<Longrightarrow> g rc x = do {rc' \<leftarrow> xml_call w EndElement; f rc x rc'}"
  shows "produces P (do {rc \<leftarrow> xml_call w (StartElement name); x \<leftarrow> m rc; g rc x}) (Elem name ts # us)"
  unfolding produces_def
proof
  fix h
  define s where "s = (StartElement name, w h (StartElement name))"
  have rc: "0 \<le> snd s" using assms(1) by (simp add: s_def willing_def)
  from producesD [OF assms(2) [OF rc], of "h @ [s]"] obtain x es where es: "run_state (m (snd s)) (h @ [s]) = (x, h @ s # es)"
    "Q x" "makes (map fst es) ts" by auto
  define e where "e = (EndElement, w (h @ s # es) EndElement)"
  have rc': "0 \<le> snd e" using assms(1) by (simp add: e_def willing_def)
  from producesD [OF assms(3) [OF rc es(2) rc'], of "h @ s # es @ [e]"] obtain y fs where fs:
    "run_state (f (snd s) x (snd e)) (h @ s # es @ [e]) = (y, h @ s # es @ e # fs)" "P y" "makes (map fst fs) us" by auto
  have "makes (map fst (s # es @ [e]) @ map fst fs) ([Elem name ts] @ us)"
    using makes_append [OF makes_elem [OF es(3)] fs(3)] by (simp add: s_def e_def)
  then show "\<exists>y es. run_state (do {rc \<leftarrow> xml_call w (StartElement name); x \<leftarrow> m rc; g rc x}) h =
      (y, h @ es) \<and> P y \<and> makes (map fst es) (Elem name ts # us)"
    using es(1) fs(1,2) assms(4) [OF es(2)] by (intro exI [of _ y] exI [of _ "s # es @ e # fs"]) (simp add: xml_call_def s_def e_def)
qed

lemma produces_member:
  assumes "willing w" "mem_name m \<noteq> ''index''"
  shows "produces (\<lambda>rc. 0 \<le> rc) (xml_write_member w m e) [Leaf (mem_name m) (member_text m e)]"
  using produces_leaf [OF assms(1)] assms(2)
  by (simp add: xml_write_member_def xml_write_field_def xml_write_array_def member_text_def)

lemma produces_members:
  assumes "willing w"
  shows "named_in table ms \<Longrightarrow> 0 \<le> rc \<Longrightarrow>
    produces (\<lambda>rc. 0 \<le> rc) (xml_write_members w ms e rc) (map (\<lambda>m. Leaf (mem_name m) (member_text m e)) ms)"
proof (induction ms arbitrary: rc)
  case (Cons m ms)
  then have "mem_name m \<noteq> ''index''" by (simp add: named_in_def)
  from produces_bind [OF produces_member [OF assms this, of e], of "\<lambda>rc. 0 \<le> rc"
      "\<lambda>rc'. xml_write_members w ms e (rc OR rc')" "map (\<lambda>m. Leaf (mem_name m) (member_text m e)) ms"]
    Cons show ?case by (simp add: named_in_def)
qed (simp add: produces_return)

lemma produces_entry:
  assumes "willing w" "named_in table ms" "0 \<le> rc"
  shows "produces (\<lambda>rc. 0 \<le> rc) (xml_write_entry w indexed ms i e rc) [entry_tree indexed ms i e]"
proof -
  have index: "produces (\<lambda>rc. 0 \<le> rc) (if indexed then xml_write_field w ''index'' (of_nat i) else xml_return 0)
      (if indexed then [Leaf ''index'' (print_nat 10 (unat (of_nat i :: u64)))] else [])"
    using produces_leaf [OF assms(1)] by (simp add: xml_write_field_def produces_return)
  have body: "produces (\<lambda>rc. 0 \<le> rc) (do {
      rc2 \<leftarrow> (if indexed then xml_write_field w ''index'' (of_nat i) else xml_return 0);
      xml_write_members w ms e (rc OR rc1 OR rc2)}) (map (\<lambda>(n, s). Leaf n s) (entry_leaves indexed ms i e))"
    if "0 \<le> rc1" for rc1
    using produces_bind [OF index, of "\<lambda>rc. 0 \<le> rc" "\<lambda>rc2. xml_write_members w ms e (rc OR rc1 OR rc2)"]
      produces_members [OF assms(1,2)] assms(3) that
    by (auto simp: entry_leaves_def comp_def)
  from produces_elem [OF assms(1) body, where name = "''entry''" and f = "\<lambda>rc1 rc3 rc4. xml_return (rc3 OR rc4)" and us = "[]" and
      g = "\<lambda>rc1 rc3. do {rc4 \<leftarrow> xml_call w EndElement; xml_return (rc3 OR rc4)}" and
      P = "\<lambda>rc. 0 \<le> rc"]
  show ?thesis by (simp add: xml_write_entry_def entry_tree_def produces_return)
qed

definition table_trees :: "bool \<Rightarrow> ('e \<Rightarrow> 'e member list) \<Rightarrow> 'e static_config_member \<Rightarrow> xml_tree list" where
  "table_trees indexed ms m =
     map (\<lambda>i. entry_tree indexed (ms (entries m i)) i (entries m i)) [0..<nat (entry_count m)]"

lemma produces_entries:
  assumes "willing w" "\<And>e. named_in table (ms e)" "\<And>rc. 0 \<le> rc \<Longrightarrow> 0 \<le> finished rc"
  shows "i + left = n \<Longrightarrow> 0 \<le> rc \<Longrightarrow>
    produces (\<lambda>rc. 0 \<le> rc) (xml_write_entries w finished failed (\<lambda>i entry. xml_write_entry w indexed (ms entry) i entry) i left m rc)
      (map (\<lambda>i. entry_tree indexed (ms (entries m i)) i (entries m i)) [i..<n])"
proof (induction left arbitrary: i rc)
  case (Suc left)
  then have "[i..<n] = i # [Suc i..<n]" by (simp add: upt_rec)
  with produces_bind [OF produces_entry [OF assms(1,2) Suc.prems(2), where i = i and e = "entries m i" and indexed = indexed], where P = "\<lambda>rc. 0 \<le> rc" and
      us = "map (\<lambda>i. entry_tree indexed (ms (entries m i)) i (entries m i)) [Suc i..<n]" and f =
      "\<lambda>rc'. if rc' < 0 then xml_return (failed rc')
        else xml_write_entries w finished failed (\<lambda>i entry. xml_write_entry w indexed (ms entry) i entry) (Suc i) left m rc'"]
    Suc.IH [of "Suc i"] Suc.prems(1) show ?case by simp
qed (simp add: produces_return assms(3))

lemma produces_table:
  assumes "willing w" "\<And>e. named_in table (ms e)" "\<And>rc. 0 \<le> rc \<Longrightarrow> 0 \<le> finished rc" "entry_count m \<le> int cap"
  shows "produces (\<lambda>r. \<exists>rc \<ge> 0. r = Some rc)
    (xml_table_write w finished failed (\<lambda>i entry. xml_write_entry w indexed (ms entry) i entry) cap m) (table_trees indexed ms m)"
  using produces_bind [OF produces_entries [OF assms(1-3), where i = 0 and left = "nat (entry_count m)" and
        n = "nat (entry_count m)" and rc = 0 and failed = failed and indexed = indexed and m = m],
      where P = "\<lambda>r. \<exists>rc \<ge> 0. r = Some rc" and f = "\<lambda>rc. xml_return (Some rc)" and us = "[]"] assms(4)
  by (simp add: xml_table_write_def produces_return table_trees_def)

text \<open>All tables as trees, in the order of export.\<close>

definition config_trees :: "sja1105_static_config \<Rightarrow> xml_tree list list" where
  "config_trees c =
    [table_trees True schedule_xml_members (cfg_schedule c),
     table_trees True schedule_entry_points_xml_members (cfg_schedule_entry_points c),
     table_trees True vl_lookup_xml_members (cfg_vl_lookup c),
     table_trees True vl_policing_xml_members (cfg_vl_policing c),
     table_trees True vl_forwarding_xml_members (cfg_vl_forwarding c),
     table_trees False (l2_lookup_xml_members (cfg_device_id c)) (cfg_l2_lookup c),
     table_trees True l2_policing_xml_members (cfg_l2_policing c),
     table_trees True vlan_lookup_xml_members (cfg_vlan_lookup c),
     table_trees True l2_forwarding_xml_members (cfg_l2_forwarding c),
     table_trees True mac_config_xml_members (cfg_mac_config c),
     table_trees True schedule_params_xml_members (cfg_schedule_params c),
     table_trees True schedule_entry_points_params_xml_members (cfg_schedule_entry_points_params c),
     table_trees True vl_forwarding_params_xml_members (cfg_vl_forwarding_params c),
     table_trees True l2_lookup_params_xml_members (cfg_l2_lookup_params c),
     table_trees True l2_forwarding_params_xml_members (cfg_l2_forwarding_params c),
     [],
     table_trees True avb_params_xml_members (cfg_avb_params c),
     table_trees True general_params_xml_members (cfg_general_params c),
     table_trees True xmii_params_xml_members (cfg_xmii_params c),
     table_trees True sgmii_xml_members (cfg_sgmii c)]"

lemma produces_write_tables:
  assumes "willing w"
  shows "list_all2 (\<lambda>(name, wr) ts. produces (\<lambda>r. \<exists>rc \<ge> 0. r = Some rc) (wr w c) ts) tables tss \<Longrightarrow> 0 \<le> rc \<Longrightarrow>
    produces (\<lambda>r. \<exists>rc \<ge> 0. r = Some rc) (write_config_tables w tables c rc) (map2 (\<lambda>(name, _) ts. Elem name ts) tables tss)"
proof (induction tables arbitrary: tss rc)
  case (Cons nw tables)
  obtain name wr where nw: "nw = (name, wr)" by (cases nw)
  with Cons.prems obtain ts tss' where ts: "tss = ts # tss'" "produces (\<lambda>r. \<exists>rc \<ge> 0. r = Some rc) (wr w c) ts"
    "list_all2 (\<lambda>(name, wr) ts. produces (\<lambda>r. \<exists>rc \<ge> 0. r = Some rc) (wr w c) ts) tables tss'"
    by (auto simp: list_all2_Cons1)
  define f where "f rc1 written rc3 = (case written of
      None \<Rightarrow> xml_return None
    | Some rc2 \<Rightarrow> let rc' = rc OR rc1 OR rc2 OR rc3
        in if rc' < 0 then xml_return (Some (- EINVAL)) else write_config_tables w tables c rc')" for rc1 written rc3
  define g where "g rc1 written = (case written of
      None \<Rightarrow> xml_return None
    | Some rc2 \<Rightarrow> do {rc3 \<leftarrow> xml_call w EndElement; f rc1 (Some rc2) rc3})" for rc1 written
  have "produces (\<lambda>r. \<exists>rc \<ge> 0. r = Some rc) (do {rc1 \<leftarrow> xml_call w (StartElement name); written \<leftarrow> wr w c; g rc1 written})
      (Elem name ts # map2 (\<lambda>(name, _) ts. Elem name ts) tables tss')"
  proof (rule produces_elem [OF assms ts(2), where f = f])
    show "produces (\<lambda>r. \<exists>rc \<ge> 0. r = Some rc) (f rc1 written rc3) (map2 (\<lambda>(name, _) ts. Elem name ts) tables tss')"
      if "0 \<le> rc1" "\<exists>rc \<ge> 0. written = Some rc" "0 \<le> rc3" for rc1 written rc3
      using that Cons.IH [OF ts(3)] Cons.prems(2) by (auto simp: f_def Let_def)
  qed (auto simp: g_def)
  moreover have "write_config_tables w (nw # tables) c rc =
      do {rc1 \<leftarrow> xml_call w (StartElement name); written \<leftarrow> wr w c; g rc1 written}"
    by (simp add: nw g_def [abs_def] f_def [abs_def])
  ultimately show ?case by (simp add: nw ts(1))
qed (simp add: produces_return)

text \<open>All tables under their names.\<close>

definition config_tree :: "sja1105_static_config \<Rightarrow> xml_tree" where
  "config_tree c = Elem ''static'' (map2 Elem static_config_options (config_trees c))"

definition area_tree :: "sja1105_static_config \<Rightarrow> xml_tree" where
  "area_tree c = Elem ''sja1105'' [Leaf ''device-id'' (''0x'' @ print_nat 16 (unat (cfg_device_id c))), config_tree c]"

lemmas table_write_defs =
  schedule_table_write_def schedule_entry_points_table_write_def vl_lookup_table_write_def vl_policing_table_write_def
  vl_forwarding_table_write_def l2_address_lookup_table_write_def l2_policing_table_write_def vlan_lookup_table_write_def
  l2_forwarding_table_write_def mac_configuration_table_write_def schedule_parameters_table_write_def
  schedule_entry_points_parameters_table_write_def vl_forwarding_parameters_table_write_def
  l2_address_lookup_parameters_table_write_def l2_forwarding_parameters_table_write_def
  clock_synchronization_parameters_table_write_def avb_parameters_table_write_def general_parameters_table_write_def
  xmii_mode_parameters_table_write_def sgmii_table_write_def

lemma produces_config_tables:
  assumes "willing w" "counts_within c"
  shows "list_all2 (\<lambda>wr ts. produces (\<lambda>r. \<exists>rc \<ge> 0. r = Some rc) (wr w c) ts) next_write_config_table (config_trees c)"
proof -
  note within = assms(2) [unfolded counts_within_def]
  note table = produces_table [OF assms(1)]
  have empty: "produces (\<lambda>r. \<exists>rc \<ge> 0. r = Some rc) (xml_return (Some (0 :: int))) []" by (rule produces_return) simp
  show ?thesis
    unfolding next_write_config_table_def config_trees_def
    by (intro list.rel_intros; (unfold table_write_defs)?;
      (rule empty |
        rule table [OF schedule_xml.names] |
        rule table [OF schedule_entry_points_xml.names] |
        rule table [OF vl_lookup_xml.names] |
        rule table [OF vl_policing_xml.names] |
        rule table [OF vl_forwarding_xml.names] |
        rule table [OF l2_lookup_xml.names] |
        rule table [OF l2_policing_xml.names] |
        rule table [OF vlan_lookup_xml.names] |
        rule table [OF l2_forwarding_xml.names] |
        rule table [OF mac_config_xml.names] |
        rule table [OF schedule_params_xml.names] |
        rule table [OF schedule_entry_points_params_xml.names] |
        rule table [OF vl_forwarding_params_xml.names] |
        rule table [OF l2_lookup_params_xml.names] |
        rule table [OF l2_forwarding_params_xml.names] |
        rule table [OF avb_params_xml.names] |
        rule table [OF general_params_xml.names] |
        rule table [OF xmii_params_xml.names] |
        rule table [OF sgmii_xml.names]);
      use within in simp)
qed

lemma produces_call_cong:
  assumes "willing w" "\<And>rc. 0 \<le> rc \<Longrightarrow> K rc = L rc" "produces P (do {rc \<leftarrow> xml_call w c; L rc}) ts"
  shows "produces P (do {rc \<leftarrow> xml_call w c; K rc}) ts"
  using assms by (simp add: produces_def xml_call_def willing_def)

lemma produces_other:
  assumes "willing w" "makes [c] []" "\<And>rc. 0 \<le> rc \<Longrightarrow> produces P (K rc) ts"
  shows "produces P (do {rc \<leftarrow> xml_call w c; K rc}) ts"
proof -
  have "produces (\<lambda>rc. 0 \<le> rc) (xml_call w c) []"
    using assms(1,2) by (auto simp: produces_def xml_call_def willing_def)
  from produces_bind [OF this assms(3)] show ?thesis by simp
qed

lemma produces_guard:
  "willing w \<Longrightarrow> makes [c] [] \<Longrightarrow> produces P m ts \<Longrightarrow>
   produces P (do {rc \<leftarrow> xml_call w c; if rc < 0 then X else m}) ts"
  by (rule produces_other) simp_all

lemma zip_config_trees: "length (config_trees c) = 20" "length next_write_config_table = 20"
  by (simp_all add: config_trees_def next_write_config_table_def)

lemma map2_zip_first: "length xs = length ys \<Longrightarrow> map2 (\<lambda>(name, _) ts. Elem name ts) (zip xs ys) zs = map2 Elem xs zs"
proof (induction xs ys arbitrary: zs rule: list_induct2)
  case (Cons x xs y ys)
  then show ?case by (cases zs) simp_all
qed simp

lemma produces_static_config:
  assumes "willing w" "counts_within c"
  shows "produces (\<lambda>r. \<exists>rc \<ge> 0. r = Some rc) (static_config_write w c) [config_tree c]"
proof -
  have tables: "list_all2 (\<lambda>(name, wr) ts. produces (\<lambda>r. \<exists>rc \<ge> 0. r = Some rc) (wr w c) ts)
      (zip static_config_options next_write_config_table) (config_trees c)"
    using produces_config_tables [OF assms]
    by (simp add: list_all2_conv_all_nth zip_config_trees static_config_options_names split_beta)
  have trees: "map2 (\<lambda>(name, _) ts. Elem name ts) (zip static_config_options next_write_config_table) (config_trees c) =
      map2 Elem static_config_options (config_trees c)"
    by (rule map2_zip_first) (simp add: zip_config_trees static_config_options_names)
  have "produces (\<lambda>r. \<exists>rc \<ge> 0. r = Some rc) (do {
      rc \<leftarrow> xml_call w (StartElement ''static'');
      written \<leftarrow> write_config_tables w (zip static_config_options next_write_config_table) c rc;
      case written of
        None \<Rightarrow> xml_return None
      | Some rc \<Rightarrow> if rc < 0 then xml_return (Some rc) else do {rc \<leftarrow> xml_call w EndElement; xml_return (Some rc)}})
    [config_tree c]"
    unfolding config_tree_def
    by (rule produces_elem [OF assms(1) produces_write_tables [OF assms(1) tables, unfolded trees],
        where f = "\<lambda>_ _ rc. xml_return (Some rc)"]) (auto simp: produces_return)
  from produces_call_cong [OF assms(1) _ this] show ?thesis
    unfolding static_config_write_def by fastforce
qed

lemma produces_area:
  assumes "willing w" "counts_within (sa_static_config area)"
  shows "produces (\<lambda>r. r = Some 0) (sja1105_staging_area_to_xml w f area) [area_tree (sa_static_config area)]"
proof -
  let ?c = "sa_static_config area"
  let ?id = "Leaf ''device-id'' (''0x'' @ print_nat 16 (unat (cfg_device_id ?c)))"
  have device: "produces (\<lambda>rc. 0 \<le> rc) (device_id_write w (cfg_device_id ?c)) [?id]"
    using produces_leaf [OF assms(1)] by (simp add: device_id_write_def xml_write_field_def)
  have body: "produces (\<lambda>r. \<exists>rc \<ge> 0. r = Some rc) (do {
      xml_call w (WriteAttribute ''xmlns'' ''http://nxp.com/ns/yang/tsn/sja1105'');
      device_id_write w (cfg_device_id ?c);
      static_config_write w ?c}) [?id, config_tree ?c]"
    by (rule produces_other [OF assms(1)])
      (use produces_bind [OF device produces_static_config [OF assms]] in \<open>simp_all add: makes_def\<close>)
  define g where "g written = (case written of
      None \<Rightarrow> xml_return None
    | Some rc \<Rightarrow> if rc < (0 :: int) then xml_return (Some (0 :: int))
                 else do {
                   rc \<leftarrow> xml_call w EndElement;
                   if rc < 0 then xml_return (Some 0) else do {xml_call w EndDocument; xml_return (Some 0)}
                 })" for written
  have "produces (\<lambda>r. r = Some (0 :: int)) (do {
      rc \<leftarrow> xml_call w (StartElement ''sja1105'');
      written \<leftarrow> do {
        xml_call w (WriteAttribute ''xmlns'' ''http://nxp.com/ns/yang/tsn/sja1105'');
        device_id_write w (cfg_device_id ?c);
        static_config_write w ?c};
      g written}) [area_tree ?c]"
    unfolding area_tree_def
  proof (rule produces_elem [OF assms(1) body, where
        f = "\<lambda>_ _ rc. if rc < 0 then xml_return (Some 0) else do {xml_call w EndDocument; xml_return (Some 0)}"])
    show "produces (\<lambda>r. r = Some (0 :: int)) (if rc < 0 then xml_return (Some 0) else do {xml_call w EndDocument; xml_return (Some 0)}) []"
      if "0 \<le> rc" for rc :: int
      using that produces_other [OF assms(1), of EndDocument "\<lambda>r. r = Some (0 :: int)" "\<lambda>_. xml_return (Some 0)" "[]"]
      by (simp add: produces_return makes_def)
  qed (auto simp: g_def)
  from produces_call_cong [OF assms(1) _ this]
  have root: "produces (\<lambda>r. r = Some (0 :: int)) (do {
      rc \<leftarrow> xml_call w (StartElement ''sja1105'');
      if rc < 0 then xml_return (Some 0)
      else do {
        xml_call w (WriteAttribute ''xmlns'' ''http://nxp.com/ns/yang/tsn/sja1105'');
        device_id_write w (cfg_device_id ?c);
        written \<leftarrow> static_config_write w ?c;
        g written
      }}) [area_tree ?c]"
    by fastforce
  note start = produces_guard [OF assms(1) _ root [unfolded g_def [abs_def]], where c = "StartDocument ''UTF-8''"]
  show ?thesis
    unfolding sja1105_staging_area_to_xml_def
    by (rule produces_guard [OF assms(1)], simp add: makes_def, (rule produces_other [OF assms(1)], simp add: makes_def)+)
      (use start in \<open>simp add: makes_def\<close>)
qed

section \<open>Reading\<close>

context xml_table begin

lemma at_table:
  assumes "gets_text gs" "\<forall>i < nat (entry_count m). ok (entries m i)" "nat (entry_count m) \<le> capacity"
    "indents (Elem name (table_trees indexed xml_members m)) node" "sel s = no_entries zero"
  shows "\<exists>rc \<ge> 0. at_member sel upd (xml_table_parse not_element (parse_entry gs) node) s =
    Some (rc, upd (\<lambda>_. table_of zero (\<lambda>i. imported (entries m i)) (nat (entry_count m))) s)"
  using table_parse [OF assms(1-3), of 0 name indexed node zero] assms(4) indents_Elem [OF assms(4)]
  by (auto simp: at_member_def xml_table_parse_def table_trees_def assms(5))

end

text \<open>What becomes of a configuration that is written and read: only what the files hold.\<close>

definition imported_config :: "sja1105_static_config \<Rightarrow> sja1105_static_config" where
  "imported_config c = static_config_zero\<lparr>cfg_device_id := cfg_device_id c,
     cfg_schedule := table_of schedule_zero (entries (cfg_schedule c)) (nat (entry_count (cfg_schedule c))),
     cfg_schedule_entry_points := table_of schedule_entry_points_zero (entries (cfg_schedule_entry_points c)) (nat (entry_count (cfg_schedule_entry_points c))),
     cfg_vl_lookup := table_of vl_lookup_zero (entries (cfg_vl_lookup c)) (nat (entry_count (cfg_vl_lookup c))),
     cfg_vl_policing := table_of vl_policing_zero (\<lambda>i. vl_policing_imported (entries (cfg_vl_policing c) i)) (nat (entry_count (cfg_vl_policing c))),
     cfg_vl_forwarding := table_of vl_forwarding_zero (entries (cfg_vl_forwarding c)) (nat (entry_count (cfg_vl_forwarding c))),
     cfg_l2_lookup := table_of l2_lookup_zero (\<lambda>i. l2_lookup_imported (cfg_device_id c) (entries (cfg_l2_lookup c) i)) (nat (entry_count (cfg_l2_lookup c))),
     cfg_l2_policing := table_of l2_policing_zero (entries (cfg_l2_policing c)) (nat (entry_count (cfg_l2_policing c))),
     cfg_vlan_lookup := table_of vlan_lookup_zero (entries (cfg_vlan_lookup c)) (nat (entry_count (cfg_vlan_lookup c))),
     cfg_l2_forwarding := table_of l2_forwarding_zero (entries (cfg_l2_forwarding c)) (nat (entry_count (cfg_l2_forwarding c))),
     cfg_mac_config := table_of mac_config_zero (entries (cfg_mac_config c)) (nat (entry_count (cfg_mac_config c))),
     cfg_schedule_params := table_of schedule_params_zero (entries (cfg_schedule_params c)) (nat (entry_count (cfg_schedule_params c))),
     cfg_schedule_entry_points_params := table_of schedule_entry_points_params_zero (entries (cfg_schedule_entry_points_params c)) (nat (entry_count (cfg_schedule_entry_points_params c))),
     cfg_vl_forwarding_params := table_of vl_forwarding_params_zero (entries (cfg_vl_forwarding_params c)) (nat (entry_count (cfg_vl_forwarding_params c))),
     cfg_l2_lookup_params := table_of l2_lookup_params_zero (\<lambda>i. l2_lookup_params_imported (entries (cfg_l2_lookup_params c) i)) (nat (entry_count (cfg_l2_lookup_params c))),
     cfg_l2_forwarding_params := table_of l2_forwarding_params_zero (entries (cfg_l2_forwarding_params c)) (nat (entry_count (cfg_l2_forwarding_params c))),
     cfg_avb_params := table_of avb_params_zero (entries (cfg_avb_params c)) (nat (entry_count (cfg_avb_params c))),
     cfg_general_params := table_of general_params_zero (entries (cfg_general_params c)) (nat (entry_count (cfg_general_params c))),
     cfg_xmii_params := table_of xmii_params_zero (entries (cfg_xmii_params c)) (nat (entry_count (cfg_xmii_params c))),
     cfg_sgmii := table_of sgmii_zero (entries (cfg_sgmii c)) (nat (entry_count (cfg_sgmii c)))\<rparr>"

text \<open>Counts within the capacities, arrays of their C lengths, and VL lookup entries in the format 0.\<close>

definition exportable_config :: "sja1105_static_config \<Rightarrow> bool" where
  "exportable_config c \<longleftrightarrow> counts_within c \<and>
     (\<forall>i < nat (entry_count (cfg_vl_lookup c)). vll_format (entries (cfg_vl_lookup c) i) = 0) \<and>
     (\<forall>i < nat (entry_count (cfg_l2_forwarding c)). members_shape l2_forwarding_members (entries (cfg_l2_forwarding c) i)) \<and>
     (\<forall>i < nat (entry_count (cfg_mac_config c)). members_shape mac_config_members (entries (cfg_mac_config c) i)) \<and>
     (\<forall>i < nat (entry_count (cfg_schedule_params c)). members_shape schedule_params_members (entries (cfg_schedule_params c) i)) \<and>
     (\<forall>i < nat (entry_count (cfg_vl_forwarding_params c)). members_shape vl_forwarding_params_members (entries (cfg_vl_forwarding_params c) i)) \<and>
     (\<forall>i < nat (entry_count (cfg_l2_forwarding_params c)). members_shape l2_forwarding_params_members (entries (cfg_l2_forwarding_params c) i)) \<and>
     (\<forall>i < nat (entry_count (cfg_xmii_params c)). members_shape xmii_params_members (entries (cfg_xmii_params c) i))"

lemma parse_named:
  assumes "k < 20" "node_name node = static_config_options ! k"
  shows "parse_config_table gs node s = (next_parse_config_table ! k) gs node s"
proof -
  have "get_match (static_config_options ! k) static_config_options = int k"
    using assms(1) by (intro get_match_exact) (simp_all add: static_config_options_names)
  then show ?thesis using assms(2) by (simp add: parse_config_table_def)
qed

lemma parse_table:
  assumes "indents (Elem (static_config_options ! k) ts) node" "k < 20"
  shows "parse_config_table gs node s = (next_parse_config_table ! k) gs node s"
  using parse_named [OF assms(2)] indents_Elem [OF assms(1)] by simp

lemma schedule_step:
  assumes "gets_text gs" "exportable_config c"
    "indents (Elem (static_config_options ! 0) (table_trees True schedule_xml_members (cfg_schedule c))) node"
    "cfg_schedule s = no_entries schedule_zero"
  shows "\<exists>rc \<ge> 0. parse_config_table gs node s = Some (rc, s\<lparr>cfg_schedule :=
    table_of schedule_zero (entries (cfg_schedule c)) (nat (entry_count (cfg_schedule c)))\<rparr>)"
proof -
  note node = assms(3)
  have ok: "\<forall>i < nat (entry_count (cfg_schedule c)). True" using assms(2) by (simp add: exportable_config_def)
  have count: "nat (entry_count (cfg_schedule c)) \<le> MAX_SCHEDULE_COUNT"
    using assms(2) by (simp add: exportable_config_def counts_within_def nat_le_iff)
  from schedule_xml.at_table [OF assms(1) ok count node, where sel = cfg_schedule and upd = cfg_schedule_update and s = s and zero = schedule_zero,
      OF assms(4)]
  show ?thesis by (simp add: parse_table [OF node] next_parse_config_table_def schedule_table_parse_def)
qed

lemma schedule_entry_points_step:
  assumes "gets_text gs" "exportable_config c"
    "indents (Elem (static_config_options ! 1) (table_trees True schedule_entry_points_xml_members (cfg_schedule_entry_points c))) node"
    "cfg_schedule_entry_points s = no_entries schedule_entry_points_zero"
  shows "\<exists>rc \<ge> 0. parse_config_table gs node s = Some (rc, s\<lparr>cfg_schedule_entry_points :=
    table_of schedule_entry_points_zero (entries (cfg_schedule_entry_points c)) (nat (entry_count (cfg_schedule_entry_points c)))\<rparr>)"
proof -
  note node = assms(3)
  have ok: "\<forall>i < nat (entry_count (cfg_schedule_entry_points c)). True" using assms(2) by (simp add: exportable_config_def)
  have count: "nat (entry_count (cfg_schedule_entry_points c)) \<le> MAX_SCHEDULE_ENTRY_POINTS_COUNT"
    using assms(2) by (simp add: exportable_config_def counts_within_def nat_le_iff)
  from schedule_entry_points_xml.at_table [OF assms(1) ok count node, where sel = cfg_schedule_entry_points and upd = cfg_schedule_entry_points_update and s = s and zero = schedule_entry_points_zero,
      OF assms(4)]
  show ?thesis by (simp add: parse_table [OF node] next_parse_config_table_def schedule_entry_points_table_parse_def)
qed

lemma vl_lookup_step:
  assumes "gets_text gs" "exportable_config c"
    "indents (Elem (static_config_options ! 2) (table_trees True vl_lookup_xml_members (cfg_vl_lookup c))) node"
    "cfg_vl_lookup s = no_entries vl_lookup_zero"
  shows "\<exists>rc \<ge> 0. parse_config_table gs node s = Some (rc, s\<lparr>cfg_vl_lookup :=
    table_of vl_lookup_zero (entries (cfg_vl_lookup c)) (nat (entry_count (cfg_vl_lookup c)))\<rparr>)"
proof -
  note node = assms(3)
  have ok: "\<forall>i < nat (entry_count (cfg_vl_lookup c)). vll_format (entries (cfg_vl_lookup c) i) = 0" using assms(2) by (simp add: exportable_config_def)
  have count: "nat (entry_count (cfg_vl_lookup c)) \<le> MAX_VL_LOOKUP_COUNT"
    using assms(2) by (simp add: exportable_config_def counts_within_def nat_le_iff)
  from vl_lookup_xml.at_table [OF assms(1) ok count node, where sel = cfg_vl_lookup and upd = cfg_vl_lookup_update and s = s and zero = vl_lookup_zero,
      OF assms(4)]
  show ?thesis by (simp add: parse_table [OF node] next_parse_config_table_def vl_lookup_table_parse_def)
qed

lemma vl_policing_step:
  assumes "gets_text gs" "exportable_config c"
    "indents (Elem (static_config_options ! 3) (table_trees True vl_policing_xml_members (cfg_vl_policing c))) node"
    "cfg_vl_policing s = no_entries vl_policing_zero"
  shows "\<exists>rc \<ge> 0. parse_config_table gs node s = Some (rc, s\<lparr>cfg_vl_policing :=
    table_of vl_policing_zero (\<lambda>i. vl_policing_imported (entries (cfg_vl_policing c) i)) (nat (entry_count (cfg_vl_policing c)))\<rparr>)"
proof -
  note node = assms(3)
  have ok: "\<forall>i < nat (entry_count (cfg_vl_policing c)). True" using assms(2) by (simp add: exportable_config_def)
  have count: "nat (entry_count (cfg_vl_policing c)) \<le> MAX_VL_POLICING_COUNT"
    using assms(2) by (simp add: exportable_config_def counts_within_def nat_le_iff)
  from vl_policing_xml.at_table [OF assms(1) ok count node, where sel = cfg_vl_policing and upd = cfg_vl_policing_update and s = s and zero = vl_policing_zero,
      OF assms(4)]
  show ?thesis by (simp add: parse_table [OF node] next_parse_config_table_def vl_policing_table_parse_def)
qed

lemma vl_forwarding_step:
  assumes "gets_text gs" "exportable_config c"
    "indents (Elem (static_config_options ! 4) (table_trees True vl_forwarding_xml_members (cfg_vl_forwarding c))) node"
    "cfg_vl_forwarding s = no_entries vl_forwarding_zero"
  shows "\<exists>rc \<ge> 0. parse_config_table gs node s = Some (rc, s\<lparr>cfg_vl_forwarding :=
    table_of vl_forwarding_zero (entries (cfg_vl_forwarding c)) (nat (entry_count (cfg_vl_forwarding c)))\<rparr>)"
proof -
  note node = assms(3)
  have ok: "\<forall>i < nat (entry_count (cfg_vl_forwarding c)). True" using assms(2) by (simp add: exportable_config_def)
  have count: "nat (entry_count (cfg_vl_forwarding c)) \<le> MAX_VL_FORWARDING_COUNT"
    using assms(2) by (simp add: exportable_config_def counts_within_def nat_le_iff)
  from vl_forwarding_xml.at_table [OF assms(1) ok count node, where sel = cfg_vl_forwarding and upd = cfg_vl_forwarding_update and s = s and zero = vl_forwarding_zero,
      OF assms(4)]
  show ?thesis by (simp add: parse_table [OF node] next_parse_config_table_def vl_forwarding_table_parse_def)
qed

lemma l2_lookup_step:
  assumes "gets_text gs" "exportable_config c"
    "indents (Elem (static_config_options ! 5) (table_trees False (l2_lookup_xml_members (cfg_device_id c)) (cfg_l2_lookup c))) node"
    "cfg_l2_lookup s = no_entries l2_lookup_zero" "cfg_device_id s = cfg_device_id c"
  shows "\<exists>rc \<ge> 0. parse_config_table gs node s = Some (rc, s\<lparr>cfg_l2_lookup :=
    table_of l2_lookup_zero (\<lambda>i. l2_lookup_imported (cfg_device_id c) (entries (cfg_l2_lookup c) i)) (nat (entry_count (cfg_l2_lookup c)))\<rparr>)"
proof -
  note node = assms(3)
  have ok: "\<forall>i < nat (entry_count (cfg_l2_lookup c)). True" using assms(2) by (simp add: exportable_config_def)
  have count: "nat (entry_count (cfg_l2_lookup c)) \<le> MAX_L2_LOOKUP_COUNT"
    using assms(2) by (simp add: exportable_config_def counts_within_def nat_le_iff)
  from l2_lookup_xml.at_table [OF assms(1) ok count node, where sel = cfg_l2_lookup and upd = cfg_l2_lookup_update and s = s and zero = l2_lookup_zero,
      OF assms(4)]
  show ?thesis by (simp add: parse_table [OF node] next_parse_config_table_def l2_address_lookup_table_parse_def assms(5))
qed

lemma l2_policing_step:
  assumes "gets_text gs" "exportable_config c"
    "indents (Elem (static_config_options ! 6) (table_trees True l2_policing_xml_members (cfg_l2_policing c))) node"
    "cfg_l2_policing s = no_entries l2_policing_zero"
  shows "\<exists>rc \<ge> 0. parse_config_table gs node s = Some (rc, s\<lparr>cfg_l2_policing :=
    table_of l2_policing_zero (entries (cfg_l2_policing c)) (nat (entry_count (cfg_l2_policing c)))\<rparr>)"
proof -
  note node = assms(3)
  have ok: "\<forall>i < nat (entry_count (cfg_l2_policing c)). True" using assms(2) by (simp add: exportable_config_def)
  have count: "nat (entry_count (cfg_l2_policing c)) \<le> MAX_L2_POLICING_COUNT"
    using assms(2) by (simp add: exportable_config_def counts_within_def nat_le_iff)
  from l2_policing_xml.at_table [OF assms(1) ok count node, where sel = cfg_l2_policing and upd = cfg_l2_policing_update and s = s and zero = l2_policing_zero,
      OF assms(4)]
  show ?thesis by (simp add: parse_table [OF node] next_parse_config_table_def l2_policing_table_parse_def)
qed

lemma vlan_lookup_step:
  assumes "gets_text gs" "exportable_config c"
    "indents (Elem (static_config_options ! 7) (table_trees True vlan_lookup_xml_members (cfg_vlan_lookup c))) node"
    "cfg_vlan_lookup s = no_entries vlan_lookup_zero"
  shows "\<exists>rc \<ge> 0. parse_config_table gs node s = Some (rc, s\<lparr>cfg_vlan_lookup :=
    table_of vlan_lookup_zero (entries (cfg_vlan_lookup c)) (nat (entry_count (cfg_vlan_lookup c)))\<rparr>)"
proof -
  note node = assms(3)
  have ok: "\<forall>i < nat (entry_count (cfg_vlan_lookup c)). True" using assms(2) by (simp add: exportable_config_def)
  have count: "nat (entry_count (cfg_vlan_lookup c)) \<le> MAX_VLAN_LOOKUP_COUNT"
    using assms(2) by (simp add: exportable_config_def counts_within_def nat_le_iff)
  from vlan_lookup_xml.at_table [OF assms(1) ok count node, where sel = cfg_vlan_lookup and upd = cfg_vlan_lookup_update and s = s and zero = vlan_lookup_zero,
      OF assms(4)]
  show ?thesis by (simp add: parse_table [OF node] next_parse_config_table_def vlan_lookup_table_parse_def)
qed

lemma l2_forwarding_step:
  assumes "gets_text gs" "exportable_config c"
    "indents (Elem (static_config_options ! 8) (table_trees True l2_forwarding_xml_members (cfg_l2_forwarding c))) node"
    "cfg_l2_forwarding s = no_entries l2_forwarding_zero"
  shows "\<exists>rc \<ge> 0. parse_config_table gs node s = Some (rc, s\<lparr>cfg_l2_forwarding :=
    table_of l2_forwarding_zero (entries (cfg_l2_forwarding c)) (nat (entry_count (cfg_l2_forwarding c)))\<rparr>)"
proof -
  note node = assms(3)
  have ok: "\<forall>i < nat (entry_count (cfg_l2_forwarding c)). members_shape l2_forwarding_members (entries (cfg_l2_forwarding c) i)" using assms(2) by (simp add: exportable_config_def)
  have count: "nat (entry_count (cfg_l2_forwarding c)) \<le> MAX_L2_FORWARDING_COUNT"
    using assms(2) by (simp add: exportable_config_def counts_within_def nat_le_iff)
  from l2_forwarding_xml.at_table [OF assms(1) ok count node, where sel = cfg_l2_forwarding and upd = cfg_l2_forwarding_update and s = s and zero = l2_forwarding_zero,
      OF assms(4)]
  show ?thesis by (simp add: parse_table [OF node] next_parse_config_table_def l2_forwarding_table_parse_def)
qed

lemma mac_config_step:
  assumes "gets_text gs" "exportable_config c"
    "indents (Elem (static_config_options ! 9) (table_trees True mac_config_xml_members (cfg_mac_config c))) node"
    "cfg_mac_config s = no_entries mac_config_zero"
  shows "\<exists>rc \<ge> 0. parse_config_table gs node s = Some (rc, s\<lparr>cfg_mac_config :=
    table_of mac_config_zero (entries (cfg_mac_config c)) (nat (entry_count (cfg_mac_config c)))\<rparr>)"
proof -
  note node = assms(3)
  have ok: "\<forall>i < nat (entry_count (cfg_mac_config c)). members_shape mac_config_members (entries (cfg_mac_config c) i)" using assms(2) by (simp add: exportable_config_def)
  have count: "nat (entry_count (cfg_mac_config c)) \<le> MAX_MAC_CONFIG_COUNT"
    using assms(2) by (simp add: exportable_config_def counts_within_def nat_le_iff)
  from mac_config_xml.at_table [OF assms(1) ok count node, where sel = cfg_mac_config and upd = cfg_mac_config_update and s = s and zero = mac_config_zero,
      OF assms(4)]
  show ?thesis by (simp add: parse_table [OF node] next_parse_config_table_def mac_configuration_table_parse_def)
qed

lemma schedule_params_step:
  assumes "gets_text gs" "exportable_config c"
    "indents (Elem (static_config_options ! 10) (table_trees True schedule_params_xml_members (cfg_schedule_params c))) node"
    "cfg_schedule_params s = no_entries schedule_params_zero"
  shows "\<exists>rc \<ge> 0. parse_config_table gs node s = Some (rc, s\<lparr>cfg_schedule_params :=
    table_of schedule_params_zero (entries (cfg_schedule_params c)) (nat (entry_count (cfg_schedule_params c)))\<rparr>)"
proof -
  note node = assms(3)
  have ok: "\<forall>i < nat (entry_count (cfg_schedule_params c)). members_shape schedule_params_members (entries (cfg_schedule_params c) i)" using assms(2) by (simp add: exportable_config_def)
  have count: "nat (entry_count (cfg_schedule_params c)) \<le> MAX_SCHEDULE_PARAMS_COUNT"
    using assms(2) by (simp add: exportable_config_def counts_within_def nat_le_iff)
  from schedule_params_xml.at_table [OF assms(1) ok count node, where sel = cfg_schedule_params and upd = cfg_schedule_params_update and s = s and zero = schedule_params_zero,
      OF assms(4)]
  show ?thesis by (simp add: parse_table [OF node] next_parse_config_table_def schedule_parameters_table_parse_def)
qed

lemma schedule_entry_points_params_step:
  assumes "gets_text gs" "exportable_config c"
    "indents (Elem (static_config_options ! 11) (table_trees True schedule_entry_points_params_xml_members (cfg_schedule_entry_points_params c))) node"
    "cfg_schedule_entry_points_params s = no_entries schedule_entry_points_params_zero"
  shows "\<exists>rc \<ge> 0. parse_config_table gs node s = Some (rc, s\<lparr>cfg_schedule_entry_points_params :=
    table_of schedule_entry_points_params_zero (entries (cfg_schedule_entry_points_params c)) (nat (entry_count (cfg_schedule_entry_points_params c)))\<rparr>)"
proof -
  note node = assms(3)
  have ok: "\<forall>i < nat (entry_count (cfg_schedule_entry_points_params c)). True" using assms(2) by (simp add: exportable_config_def)
  have count: "nat (entry_count (cfg_schedule_entry_points_params c)) \<le> MAX_SCHEDULE_ENTRY_POINTS_PARAMS_COUNT"
    using assms(2) by (simp add: exportable_config_def counts_within_def nat_le_iff)
  from schedule_entry_points_params_xml.at_table [OF assms(1) ok count node, where sel = cfg_schedule_entry_points_params and upd = cfg_schedule_entry_points_params_update and s = s and zero = schedule_entry_points_params_zero,
      OF assms(4)]
  show ?thesis by (simp add: parse_table [OF node] next_parse_config_table_def schedule_entry_points_parameters_table_parse_def)
qed

lemma vl_forwarding_params_step:
  assumes "gets_text gs" "exportable_config c"
    "indents (Elem (static_config_options ! 12) (table_trees True vl_forwarding_params_xml_members (cfg_vl_forwarding_params c))) node"
    "cfg_vl_forwarding_params s = no_entries vl_forwarding_params_zero"
  shows "\<exists>rc \<ge> 0. parse_config_table gs node s = Some (rc, s\<lparr>cfg_vl_forwarding_params :=
    table_of vl_forwarding_params_zero (entries (cfg_vl_forwarding_params c)) (nat (entry_count (cfg_vl_forwarding_params c)))\<rparr>)"
proof -
  note node = assms(3)
  have ok: "\<forall>i < nat (entry_count (cfg_vl_forwarding_params c)). members_shape vl_forwarding_params_members (entries (cfg_vl_forwarding_params c) i)" using assms(2) by (simp add: exportable_config_def)
  have count: "nat (entry_count (cfg_vl_forwarding_params c)) \<le> MAX_VL_FORWARDING_PARAMS_COUNT"
    using assms(2) by (simp add: exportable_config_def counts_within_def nat_le_iff)
  from vl_forwarding_params_xml.at_table [OF assms(1) ok count node, where sel = cfg_vl_forwarding_params and upd = cfg_vl_forwarding_params_update and s = s and zero = vl_forwarding_params_zero,
      OF assms(4)]
  show ?thesis by (simp add: parse_table [OF node] next_parse_config_table_def vl_fw_params_table_parse_def)
qed

lemma l2_lookup_params_step:
  assumes "gets_text gs" "exportable_config c"
    "indents (Elem (static_config_options ! 13) (table_trees True l2_lookup_params_xml_members (cfg_l2_lookup_params c))) node"
    "cfg_l2_lookup_params s = no_entries l2_lookup_params_zero"
  shows "\<exists>rc \<ge> 0. parse_config_table gs node s = Some (rc, s\<lparr>cfg_l2_lookup_params :=
    table_of l2_lookup_params_zero (\<lambda>i. l2_lookup_params_imported (entries (cfg_l2_lookup_params c) i)) (nat (entry_count (cfg_l2_lookup_params c)))\<rparr>)"
proof -
  note node = assms(3)
  have ok: "\<forall>i < nat (entry_count (cfg_l2_lookup_params c)). True" using assms(2) by (simp add: exportable_config_def)
  have count: "nat (entry_count (cfg_l2_lookup_params c)) \<le> MAX_L2_LOOKUP_PARAMS_COUNT"
    using assms(2) by (simp add: exportable_config_def counts_within_def nat_le_iff)
  from l2_lookup_params_xml.table_parse [OF assms(1) ok count, where rc = 0 and zero = l2_lookup_params_zero]
    node indents_Elem [OF node]
  show ?thesis
    by (simp add: parse_table [OF node] next_parse_config_table_def l2_address_lookup_parameters_table_parse_def at_member_def assms(4) table_trees_def) fastforce
qed

lemma l2_forwarding_params_step:
  assumes "gets_text gs" "exportable_config c"
    "indents (Elem (static_config_options ! 14) (table_trees True l2_forwarding_params_xml_members (cfg_l2_forwarding_params c))) node"
    "cfg_l2_forwarding_params s = no_entries l2_forwarding_params_zero"
  shows "\<exists>rc \<ge> 0. parse_config_table gs node s = Some (rc, s\<lparr>cfg_l2_forwarding_params :=
    table_of l2_forwarding_params_zero (entries (cfg_l2_forwarding_params c)) (nat (entry_count (cfg_l2_forwarding_params c)))\<rparr>)"
proof -
  note node = assms(3)
  have ok: "\<forall>i < nat (entry_count (cfg_l2_forwarding_params c)). members_shape l2_forwarding_params_members (entries (cfg_l2_forwarding_params c) i)" using assms(2) by (simp add: exportable_config_def)
  have count: "nat (entry_count (cfg_l2_forwarding_params c)) \<le> MAX_L2_FORWARDING_PARAMS_COUNT"
    using assms(2) by (simp add: exportable_config_def counts_within_def nat_le_iff)
  from l2_forwarding_params_xml.at_table [OF assms(1) ok count node, where sel = cfg_l2_forwarding_params and upd = cfg_l2_forwarding_params_update and s = s and zero = l2_forwarding_params_zero,
      OF assms(4)]
  show ?thesis by (simp add: parse_table [OF node] next_parse_config_table_def l2_forwarding_parameters_table_parse_def)
qed

lemma avb_params_step:
  assumes "gets_text gs" "exportable_config c"
    "indents (Elem (static_config_options ! 16) (table_trees True avb_params_xml_members (cfg_avb_params c))) node"
    "cfg_avb_params s = no_entries avb_params_zero"
  shows "\<exists>rc \<ge> 0. parse_config_table gs node s = Some (rc, s\<lparr>cfg_avb_params :=
    table_of avb_params_zero (entries (cfg_avb_params c)) (nat (entry_count (cfg_avb_params c)))\<rparr>)"
proof -
  note node = assms(3)
  have ok: "\<forall>i < nat (entry_count (cfg_avb_params c)). True" using assms(2) by (simp add: exportable_config_def)
  have count: "nat (entry_count (cfg_avb_params c)) \<le> MAX_AVB_PARAMS_COUNT"
    using assms(2) by (simp add: exportable_config_def counts_within_def nat_le_iff)
  from avb_params_xml.at_table [OF assms(1) ok count node, where sel = cfg_avb_params and upd = cfg_avb_params_update and s = s and zero = avb_params_zero,
      OF assms(4)]
  show ?thesis by (simp add: parse_table [OF node] next_parse_config_table_def avb_parameters_table_parse_def)
qed

lemma general_params_step:
  assumes "gets_text gs" "exportable_config c"
    "indents (Elem (static_config_options ! 17) (table_trees True general_params_xml_members (cfg_general_params c))) node"
    "cfg_general_params s = no_entries general_params_zero"
  shows "\<exists>rc \<ge> 0. parse_config_table gs node s = Some (rc, s\<lparr>cfg_general_params :=
    table_of general_params_zero (entries (cfg_general_params c)) (nat (entry_count (cfg_general_params c)))\<rparr>)"
proof -
  note node = assms(3)
  have ok: "\<forall>i < nat (entry_count (cfg_general_params c)). True" using assms(2) by (simp add: exportable_config_def)
  have count: "nat (entry_count (cfg_general_params c)) \<le> MAX_GENERAL_PARAMS_COUNT"
    using assms(2) by (simp add: exportable_config_def counts_within_def nat_le_iff)
  from general_params_xml.at_table [OF assms(1) ok count node, where sel = cfg_general_params and upd = cfg_general_params_update and s = s and zero = general_params_zero,
      OF assms(4)]
  show ?thesis by (simp add: parse_table [OF node] next_parse_config_table_def general_parameters_table_parse_def)
qed

lemma xmii_params_step:
  assumes "gets_text gs" "exportable_config c"
    "indents (Elem (static_config_options ! 18) (table_trees True xmii_params_xml_members (cfg_xmii_params c))) node"
    "cfg_xmii_params s = no_entries xmii_params_zero"
  shows "\<exists>rc \<ge> 0. parse_config_table gs node s = Some (rc, s\<lparr>cfg_xmii_params :=
    table_of xmii_params_zero (entries (cfg_xmii_params c)) (nat (entry_count (cfg_xmii_params c)))\<rparr>)"
proof -
  note node = assms(3)
  have ok: "\<forall>i < nat (entry_count (cfg_xmii_params c)). members_shape xmii_params_members (entries (cfg_xmii_params c) i)" using assms(2) by (simp add: exportable_config_def)
  have count: "nat (entry_count (cfg_xmii_params c)) \<le> MAX_XMII_PARAMS_COUNT"
    using assms(2) by (simp add: exportable_config_def counts_within_def nat_le_iff)
  from xmii_params_xml.at_table [OF assms(1) ok count node, where sel = cfg_xmii_params and upd = cfg_xmii_params_update and s = s and zero = xmii_params_zero,
      OF assms(4)]
  show ?thesis by (simp add: parse_table [OF node] next_parse_config_table_def xmii_mode_parameters_table_parse_def)
qed

lemma sgmii_step:
  assumes "gets_text gs" "exportable_config c"
    "indents (Elem (static_config_options ! 19) (table_trees True sgmii_xml_members (cfg_sgmii c))) node"
    "cfg_sgmii s = no_entries sgmii_zero"
  shows "\<exists>rc \<ge> 0. parse_config_table gs node s = Some (rc, s\<lparr>cfg_sgmii :=
    table_of sgmii_zero (entries (cfg_sgmii c)) (nat (entry_count (cfg_sgmii c)))\<rparr>)"
proof -
  note node = assms(3)
  have ok: "\<forall>i < nat (entry_count (cfg_sgmii c)). True" using assms(2) by (simp add: exportable_config_def)
  have count: "nat (entry_count (cfg_sgmii c)) \<le> MAX_SGMII_COUNT"
    using assms(2) by (simp add: exportable_config_def counts_within_def nat_le_iff)
  from sgmii_xml.at_table [OF assms(1) ok count node, where sel = cfg_sgmii and upd = cfg_sgmii_update and s = s and zero = sgmii_zero,
      OF assms(4)]
  show ?thesis by (simp add: parse_table [OF node] next_parse_config_table_def sgmii_table_parse_def)
qed

text \<open>Elements that are read without an error, whatever the return code before.\<close>

definition loads :: "(xml_node \<Rightarrow> 's \<Rightarrow> (int \<times> 's) option) \<Rightarrow> xml_node list \<Rightarrow> 's \<Rightarrow> 's \<Rightarrow> bool" where
  "loads f ns s s' \<longleftrightarrow> (\<forall>rc \<ge> 0. \<exists>rc' \<ge> 0. for_elements f ns rc s = Some (rc', s'))"

lemma loads_Nil: "loads f [] s s"
  by (simp add: loads_def)

lemma loads_Cons:
  "\<exists>rc \<ge> 0. f node s = Some (rc, s1) \<Longrightarrow> is_element node \<Longrightarrow> loads f ns s1 s2 \<Longrightarrow> loads f (node # ns) s s2"
  by (fastforce simp: loads_def)

lemma clock_step:
  assumes "indents (Elem (static_config_options ! 15) []) node"
  shows "\<exists>rc \<ge> 0. parse_config_table gs node s = Some (rc, s)"
  by (simp add: parse_table [OF assms] next_parse_config_table_def clock_synchronization_parameters_table_parse_def)

text \<open>The same for trees, however they are indented.\<close>

definition reads :: "(xml_node \<Rightarrow> 's \<Rightarrow> (int \<times> 's) option) \<Rightarrow> xml_tree list \<Rightarrow> 's \<Rightarrow> 's \<Rightarrow> bool" where
  "reads f ts s s' \<longleftrightarrow> (\<forall>ns. list_all2 indents ts ns \<longrightarrow> loads f ns s s')"

lemma reads_Nil: "reads f [] s s"
  by (simp add: reads_def loads_Nil)

lemma reads_Cons:
  assumes "\<And>node. indents (Elem name kids) node \<Longrightarrow> \<exists>rc \<ge> 0. f node s = Some (rc, s1)" "reads f ts s1 s2"
  shows "reads f (Elem name kids # ts) s s2"
  unfolding reads_def
proof (intro allI impI)
  fix ns assume "list_all2 indents (Elem name kids # ts) ns"
  then obtain n ns' where "ns = n # ns'" "indents (Elem name kids) n" "list_all2 indents ts ns'"
    by (auto simp: list_all2_Cons1)
  moreover have "is_element n" using indents_Elem [OF calculation(2)] by simp
  moreover have "loads f ns' s1 s2" using calculation(3) assms(2) by (simp add: reads_def)
  ultimately show "loads f ns s s2" by (auto intro!: loads_Cons assms(1))
qed

lemma parse_static_config_imports:
  assumes "gets_text gs" "exportable_config c" "indents (config_tree c) node"
  shows "\<exists>rc \<ge> 0. parse_static_config gs node (static_config_zero\<lparr>cfg_device_id := cfg_device_id c\<rparr>) =
    Some (rc, imported_config c)"
proof -
  have trees: "map2 Elem static_config_options (config_trees c) =
    [Elem (static_config_options ! 0) (table_trees True schedule_xml_members (cfg_schedule c)),
     Elem (static_config_options ! 1) (table_trees True schedule_entry_points_xml_members (cfg_schedule_entry_points c)),
     Elem (static_config_options ! 2) (table_trees True vl_lookup_xml_members (cfg_vl_lookup c)),
     Elem (static_config_options ! 3) (table_trees True vl_policing_xml_members (cfg_vl_policing c)),
     Elem (static_config_options ! 4) (table_trees True vl_forwarding_xml_members (cfg_vl_forwarding c)),
     Elem (static_config_options ! 5) (table_trees False (l2_lookup_xml_members (cfg_device_id c)) (cfg_l2_lookup c)),
     Elem (static_config_options ! 6) (table_trees True l2_policing_xml_members (cfg_l2_policing c)),
     Elem (static_config_options ! 7) (table_trees True vlan_lookup_xml_members (cfg_vlan_lookup c)),
     Elem (static_config_options ! 8) (table_trees True l2_forwarding_xml_members (cfg_l2_forwarding c)),
     Elem (static_config_options ! 9) (table_trees True mac_config_xml_members (cfg_mac_config c)),
     Elem (static_config_options ! 10) (table_trees True schedule_params_xml_members (cfg_schedule_params c)),
     Elem (static_config_options ! 11) (table_trees True schedule_entry_points_params_xml_members (cfg_schedule_entry_points_params c)),
     Elem (static_config_options ! 12) (table_trees True vl_forwarding_params_xml_members (cfg_vl_forwarding_params c)),
     Elem (static_config_options ! 13) (table_trees True l2_lookup_params_xml_members (cfg_l2_lookup_params c)),
     Elem (static_config_options ! 14) (table_trees True l2_forwarding_params_xml_members (cfg_l2_forwarding_params c)),
     Elem (static_config_options ! 15) [],
     Elem (static_config_options ! 16) (table_trees True avb_params_xml_members (cfg_avb_params c)),
     Elem (static_config_options ! 17) (table_trees True general_params_xml_members (cfg_general_params c)),
     Elem (static_config_options ! 18) (table_trees True xmii_params_xml_members (cfg_xmii_params c)),
     Elem (static_config_options ! 19) (table_trees True sgmii_xml_members (cfg_sgmii c))]"
    by (simp add: static_config_options_def config_trees_def)
  have "reads (parse_config_table gs) (map2 Elem static_config_options (config_trees c))
    (static_config_zero\<lparr>cfg_device_id := cfg_device_id c\<rparr>) (imported_config c)"
    unfolding trees imported_config_def
    by (rule reads_Cons, erule schedule_step [OF assms(1,2)], simp add: static_config_zero_def,
        rule reads_Cons, erule schedule_entry_points_step [OF assms(1,2)], simp add: static_config_zero_def,
        rule reads_Cons, erule vl_lookup_step [OF assms(1,2)], simp add: static_config_zero_def,
        rule reads_Cons, erule vl_policing_step [OF assms(1,2)], simp add: static_config_zero_def,
        rule reads_Cons, erule vl_forwarding_step [OF assms(1,2)], simp add: static_config_zero_def,
        rule reads_Cons, erule l2_lookup_step [OF assms(1,2)], simp add: static_config_zero_def, simp add: static_config_zero_def,
        rule reads_Cons, erule l2_policing_step [OF assms(1,2)], simp add: static_config_zero_def,
        rule reads_Cons, erule vlan_lookup_step [OF assms(1,2)], simp add: static_config_zero_def,
        rule reads_Cons, erule l2_forwarding_step [OF assms(1,2)], simp add: static_config_zero_def,
        rule reads_Cons, erule mac_config_step [OF assms(1,2)], simp add: static_config_zero_def,
        rule reads_Cons, erule schedule_params_step [OF assms(1,2)], simp add: static_config_zero_def,
        rule reads_Cons, erule schedule_entry_points_params_step [OF assms(1,2)], simp add: static_config_zero_def,
        rule reads_Cons, erule vl_forwarding_params_step [OF assms(1,2)], simp add: static_config_zero_def,
        rule reads_Cons, erule l2_lookup_params_step [OF assms(1,2)], simp add: static_config_zero_def,
        rule reads_Cons, erule l2_forwarding_params_step [OF assms(1,2)], simp add: static_config_zero_def,
        rule reads_Cons, erule clock_step,
        rule reads_Cons, erule avb_params_step [OF assms(1,2)], simp add: static_config_zero_def,
        rule reads_Cons, erule general_params_step [OF assms(1,2)], simp add: static_config_zero_def,
        rule reads_Cons, erule xmii_params_step [OF assms(1,2)], simp add: static_config_zero_def,
        rule reads_Cons, erule sgmii_step [OF assms(1,2)], simp add: static_config_zero_def,
        rule reads_Nil)
  then show ?thesis
    using indents_Elem [OF assms(3) [unfolded config_tree_def]] for_elements_filter [of "parse_config_table gs" "node_children node" 0]
    by (auto simp: parse_static_config_def loads_def reads_def)
qed

lemma parse_sections_filter:
  "parse_sections gs root ns found rc c = parse_sections gs root (filter is_element ns) found rc c"
proof (induction gs root ns found rc c rule: parse_sections.induct)
  case (2 gs root node nodes st dev rc c)
  then show ?case
    by (cases "device_id_parse gs root (cfg_device_id c)") (auto simp: Let_def split: option.splits)
qed simp

lemma device_id_shown:
  assumes "gets_text gs" "indents (area_tree c) root"
  shows "device_id_parse gs root d = (0, cfg_device_id c)"
proof -
  note root = indents_Elem [OF assms(2) [unfolded area_tree_def]]
  then obtain dev st where ns: "filter is_element (node_children root) = [dev, st]"
    "indents (Leaf ''device-id'' (''0x'' @ print_nat 16 (unat (cfg_device_id c)))) dev" "indents (config_tree c) st"
    by (auto simp: list_all2_Cons1)
  have "\<forall>n\<in>set (node_children root). \<not> is_element n \<longrightarrow> node_name n \<noteq> ''device-id''" using root by auto
  from fold_field_filter [OF this, of "\<lambda>cur. gs (node_children cur)" None] ns(1)
  have "xml_field_value gs ''device-id'' root = Some (''0x'' @ print_nat 16 (unat (cfg_device_id c)))"
    using assms(1) indents_Leaf [OF ns(2)] indents_Elem [OF ns(3) [unfolded config_tree_def]]
    by (simp add: xml_field_value_def gets_text_def)
  with hex_number_read [of "[]" "cfg_device_id c"] show ?thesis
    by (simp add: device_id_parse_def xml_read_field_def)
qed

lemma parse_root_imports:
  assumes "gets_text gs" "exportable_config c" "indents (area_tree c) root"
  shows "\<exists>rc \<ge> 0. parse_root gs root static_config_zero = Some (rc, imported_config c)"
proof -
  note root = indents_Elem [OF assms(3) [unfolded area_tree_def]]
  then obtain dev st where ns: "filter is_element (node_children root) = [dev, st]"
    "indents (Leaf ''device-id'' (''0x'' @ print_nat 16 (unat (cfg_device_id c)))) dev" "indents (config_tree c) st"
    by (auto simp: list_all2_Cons1)
  from parse_static_config_imports [OF assms(1,2) ns(3)] obtain rc where rc: "0 \<le> rc"
    "parse_static_config gs st (static_config_zero\<lparr>cfg_device_id := cfg_device_id c\<rparr>) = Some (rc, imported_config c)"
    by blast
  have "parse_sections gs root [dev, st] (False, False) 0 static_config_zero = Some (rc, imported_config c)"
    using indents_Leaf [OF ns(2)] indents_Elem [OF ns(3) [unfolded config_tree_def]] rc
    by (simp add: device_id_shown [OF assms(1,3)])
  with rc(1) root show ?thesis
    by (simp add: parse_root_def parse_sections_filter [of gs root "node_children root"] ns(1))
qed

section \<open>Both ways\<close>

text \<open>
  C3: if the library accepts every call, exporting a configuration with tables within their capacities returns
  0 and its calls form one well-nested document; importing any indented form of that document is successful, and
  gives the configuration with the entries of every table, except what the files do not hold
  (\<open>imported_config\<close>: the extra members of SJA1105P/Q/R/S in two tables, and bag and jitter of the virtual
  links that are not rate constrained).
\<close>

theorem xml_export_then_import:
  assumes "willing w" "gets_text get_string" "exportable_config (sa_static_config area)"
  shows "\<exists>es tree. run_state (sja1105_staging_area_to_xml w f area) [] = (Some 0, es) \<and>
    document_tree (map fst es) = Some tree \<and>
    (\<forall>xml_root root area'. xml_root f = Some root \<and> indents tree root \<longrightarrow>
       (\<exists>rc \<ge> 0. sja1105_staging_area_from_xml get_string xml_root f area' =
          Some (rc, area'\<lparr>sa_static_config := imported_config (sa_static_config area)\<rparr>)))"
proof -
  have "counts_within (sa_static_config area)" using assms(3) by (simp add: exportable_config_def)
  from producesD [OF produces_area [OF assms(1) this], where h = "[]"] obtain es where
    es: "run_state (sja1105_staging_area_to_xml w f area) [] = (Some 0, es)"
      "makes (map fst es) [area_tree (sa_static_config area)]"
    by auto
  have "build (map fst es @ []) [] [] = build [] [] (rev [area_tree (sa_static_config area)] @ [])"
    using es(2) unfolding makes_def by blast
  then have tree: "document_tree (map fst es) = Some (area_tree (sa_static_config area))"
    by (simp add: document_tree_def)
  show ?thesis
  proof (rule exI [of _ es], rule exI [of _ "area_tree (sa_static_config area)"], intro conjI allI impI)
    fix xml_root root and area' :: sja1105_staging_area
    assume "xml_root f = Some root \<and> indents (area_tree (sa_static_config area)) root"
    with parse_root_imports [OF assms(2,3), of root]
    show "\<exists>rc \<ge> 0. sja1105_staging_area_from_xml get_string xml_root f area' =
        Some (rc, area'\<lparr>sa_static_config := imported_config (sa_static_config area)\<rparr>)"
      by (auto simp: sja1105_staging_area_from_xml_def)
  qed (use es(1) tree in simp_all)
qed


text \<open>A document with line breaks between the elements.\<close>

fun tree_node :: "xml_tree \<Rightarrow> xml_node" where
  "tree_node (Leaf name s) = Xml_Node True name [Xml_Node False ''text'' [] s] []"
| "tree_node (Elem name ts) = Xml_Node True name
     (concat (map (\<lambda>t. [Xml_Node False ''text'' [] [char_of (10 :: nat)], tree_node t]) ts)) []"

lemma is_element_tree_node: "is_element (tree_node t)" by (cases t) simp_all

lemma indents_tree_node: "indents t (tree_node t)"
proof (induction t)
  case (Elem name ts)
  have "list_all2 indents ts (map tree_node ts)" using Elem by (simp add: list_all2_conv_all_nth)
  moreover have "filter is_element (concat (map (\<lambda>t. [Xml_Node False ''text'' [] [char_of (10 :: nat)], tree_node t]) ts)) = map tree_node ts"
    by (induction ts) (simp_all add: is_element_tree_node)
  ultimately show ?case by (auto intro!: indents.intros simp: list_all_iff is_element_tree_node)
qed (simp add: indents.intros)

definition text_of :: node_string where
  "text_of ns = (if ns = [] then None else Some (concat (map node_content ns)))"

lemma exportable_example: "exportable_config example_config"
  by (simp add: exportable_config_def counts_within_def example_config_def static_config_zero_def no_entries_def)

lemma imported_example: "imported_config example_config = example_config"
  by (simp add: imported_config_def example_config_def static_config_zero_def no_entries_def table_of_def fun_eq_iff
      l2_lookup_imported_def l2_lookup_zero_def less_2_cases_iff)

lemma xml_export_then_import_witness:
  "\<exists>es tree. run_state (sja1105_staging_area_to_xml (\<lambda>_ _. 0) ''a.xml'' \<lparr>sa_static_config = example_config\<rparr>) [] = (Some 0, es) \<and>
    document_tree (map fst es) = Some tree \<and>
    (\<exists>rc \<ge> 0. sja1105_staging_area_from_xml text_of (\<lambda>_. Some (tree_node tree)) ''a.xml'' \<lparr>sa_static_config = static_config_zero\<rparr> =
       Some (rc, \<lparr>sa_static_config = example_config\<rparr>))"
proof -
  have "willing (\<lambda>_ _. 0)" "gets_text text_of" by (simp_all add: willing_def gets_text_def text_of_def)
  from xml_export_then_import [OF this, of "\<lparr>sa_static_config = example_config\<rparr>" "''a.xml''"] obtain es tree where
    es: "run_state (sja1105_staging_area_to_xml (\<lambda>_ _. 0) ''a.xml'' \<lparr>sa_static_config = example_config\<rparr>) [] = (Some 0, es)"
      "document_tree (map fst es) = Some tree" and
    again: "\<And>xml_root root area'. xml_root ''a.xml'' = Some root \<Longrightarrow> indents tree root \<Longrightarrow>
       \<exists>rc \<ge> 0. sja1105_staging_area_from_xml text_of xml_root ''a.xml'' area' =
          Some (rc, area'\<lparr>sa_static_config := example_config\<rparr>)"
    using exportable_example imported_example by (auto simp del: sja1105_staging_area.update_convs)
  with again [of "\<lambda>_. Some (tree_node tree)" "tree_node tree" "\<lparr>sa_static_config = static_config_zero\<rparr>"] indents_tree_node
  show ?thesis by auto
qed

lemma read_field_at_most_one: "length (snd (xml_read_field gs f node)) \<le> 1"
  by (simp add: xml_read_field_def split: option.splits prod.splits)

lemma read_members_failed:
  "list_all (\<lambda>m. mem_count m = 1) ms \<Longrightarrow>
   rc < 0 \<or> (\<exists>m\<in>set ms. xml_field_value gs (mem_name m) node = None) \<Longrightarrow>
   \<exists>rc' < 0. \<exists>e'. xml_read_members gs ms node rc e = Some (rc', e')"
proof (induction ms arbitrary: rc e)
  case (Cons m ms)
  obtain rc1 vals where read: "xml_read_field gs (mem_name m) node = (rc1, vals)" by fastforce
  with read_field_at_most_one [of gs "mem_name m" node] Cons.prems(1)
  have "xml_read_member gs m node e = Some (rc1, if vals = [] then e else mem_put m vals e)"
    by (simp add: xml_read_member_def)
  moreover have "rc OR rc1 < 0 \<or> (\<exists>m\<in>set ms. xml_field_value gs (mem_name m) node = None)"
    using Cons.prems(2) read by (auto simp: xml_read_field_def)
  ultimately show ?case using Cons.IH Cons.prems(1) by simp
qed simp

section \<open>Virtual links\<close>

text \<open>
  C29: an entry of the VL lookup table that is written with the members of the format 1 is never read back: the
  reader sees every entry as one of the format 0, misses its members, and reports an error.
\<close>

theorem vl_lookup_format_1_is_not_read:
  assumes "gets_text get_string" "vll_format e \<noteq> 0"
    "indents (entry_tree True (vl_lookup_xml_members e) i e) node"
  shows "\<exists>e'. vl_lookup_entry_get get_string node vl_lookup_zero = Some (- EINVAL, e')"
proof -
  have "xml_field_value get_string ''destports'' node = None"
    unfolding field_value_leaves [OF assms(1) assms(3) [unfolded entry_tree_def], of "''destports''", simplified]
    using assms(2) by (simp add: entry_leaves_def vl_lookup_xml_members_def mem_name_member_of)
  then show ?thesis
    using read_members_failed [of "map (member_of vl_lookup_members)
        (''port'' # (if vll_format vl_lookup_zero = 0 then [''destports'', ''iscritical'', ''macaddr'', ''vlanid'', ''vlanprior'']
                  else [''egrmirr'', ''ingrmirr'', ''vlid'']))" 0 get_string node vl_lookup_zero]
    by (fastforce simp: vl_lookup_entry_get_def xml_entry_get_def vl_lookup_zero_def xml_eval)
qed

lemma vl_lookup_format_1_is_not_read_witness:
  "vll_format (vl_lookup_zero\<lparr>vll_format := 1\<rparr>) \<noteq> 0 \<and> (\<exists>e'. vl_lookup_entry_get text_of
     (tree_node (entry_tree True (vl_lookup_xml_members (vl_lookup_zero\<lparr>vll_format := 1\<rparr>)) 0 (vl_lookup_zero\<lparr>vll_format := 1\<rparr>)))
     vl_lookup_zero = Some (- EINVAL, e'))"
  using vl_lookup_format_1_is_not_read [OF _ _ indents_tree_node, of text_of "vl_lookup_zero\<lparr>vll_format := 1\<rparr>" 0]
  by (simp add: gets_text_def text_of_def)

end
