(* ===== verification/Tool_Config.thy ===== *)
theory Tool_Config
  imports Spi Strings
begin

unbundle bit_operations_syntax

text \<open>
  \<^verbatim>\<open>src/tool/tool-config-file.c\<close>: the configuration file of the tool, with the settings of the bus and of the
  terminal. The settings for log messages are kept, the messages are not modelled. A search in a null pointer, for
  the section of a setting before the first section, makes the result \<open>None\<close>.
\<close>

section \<open>Settings and their defaults\<close>

definition default_staging_area :: string where "default_staging_area = ''/etc/sja1105/.staging''"
definition default_device :: string where "default_device = ''/dev/spidev0.1''"
definition default_device_id :: u64 where "default_device_id = SJA1105_NO_DEVICE_ID"

abbreviation (input) ENOENT :: int where "ENOENT \<equiv> 2"

text \<open>The modes of \<^verbatim>\<open>linux/spi/spidev.h\<close>.\<close>

abbreviation (input) SPI_CPHA :: u8 where "SPI_CPHA \<equiv> 1"
abbreviation (input) SPI_CPOL :: u8 where "SPI_CPOL \<equiv> 2"

record fields_set =
  fs_device_id :: int
  fs_device :: int
  fs_staging_area :: int
  fs_mode :: int
  fs_bits :: int
  fs_speed :: int
  fs_delay :: int
  fs_cs_change :: int
  fs_dry_run :: int
  fs_flush :: int
  fs_verbose :: int
  fs_debug :: int
  fs_entries_per_line :: int
  fs_screen_width :: int

text \<open>What \<^verbatim>\<open>memset\<close> leaves; the empty strings stand for null pointers.\<close>

definition spi_setup_zero :: sja1105_spi_setup where
  "spi_setup_zero = \<lparr>sp_device_id = 0, sp_part_nr = 0, sp_device = [], sp_mode = 0, sp_bits = 0, sp_speed = 0,
     sp_delay = 0, sp_cs_change = 0, sp_dry_run = 0, sp_staging_area = [], sp_flush = 0, sp_fd = 0\<rparr>"

definition general_config_zero :: general_config where
  "general_config_zero = \<lparr>gc_staging_area = [], gc_screen_width = 0, gc_entries_per_line = 0, gc_verbose = 0, gc_debug = 0\<rparr>"

definition fields_set_zero :: fields_set where
  "fields_set_zero = \<lparr>fs_device_id = 0, fs_device = 0, fs_staging_area = 0, fs_mode = 0, fs_bits = 0, fs_speed = 0,
     fs_delay = 0, fs_cs_change = 0, fs_dry_run = 0, fs_flush = 0, fs_verbose = 0, fs_debug = 0,
     fs_entries_per_line = 0, fs_screen_width = 0\<rparr>"

text \<open>The macro \<^verbatim>\<open>SET_DEFAULT_VAL\<close>.\<close>

definition set_default :: "int \<Rightarrow> 'v \<Rightarrow> (('v \<Rightarrow> 'v) \<Rightarrow> 's \<Rightarrow> 's) \<Rightarrow> 's \<Rightarrow> 's" where
  "set_default field default_val upd s = (if field = 0 then upd (\<lambda>_. default_val) s else s)"

definition config_set_defaults ::
    "sja1105_spi_setup \<Rightarrow> general_config \<Rightarrow> fields_set \<Rightarrow> sja1105_spi_setup \<times> general_config" where
  "config_set_defaults spi_setup general_conf given =
     (fold (\<lambda>f. f) [set_default (fs_device_id given) default_device_id sp_device_id_update,
       set_default (fs_device given) default_device sp_device_update,
       set_default (fs_staging_area given) default_staging_area sp_staging_area_update,
       set_default (fs_mode given) SPI_CPHA sp_mode_update,
       set_default (fs_bits given) 8 sp_bits_update,
       set_default (fs_speed given) 1000000 sp_speed_update,
       set_default (fs_delay given) 0 sp_delay_update,
       set_default (fs_cs_change given) 0 sp_cs_change_update,
       set_default (fs_dry_run given) 0 sp_dry_run_update,
       set_default (fs_flush given) 0 sp_flush_update] spi_setup,
      fold (\<lambda>f. f) [set_default (fs_verbose given) 0 gc_verbose_update,
       set_default (fs_debug given) 0 gc_debug_update,
       set_default (fs_entries_per_line given) 1 gc_entries_per_line_update,
       set_default (fs_screen_width given) 80 gc_screen_width_update] general_conf)"

section \<open>One setting\<close>

definition parse_spi_mode :: "sja1105_spi_setup \<Rightarrow> string \<Rightarrow> int \<times> sja1105_spi_setup" where
  "parse_spi_mode spi_setup mode =
     (if mode = ''SPI_CPHA'' then (0, spi_setup\<lparr>sp_mode := sp_mode spi_setup OR SPI_CPHA\<rparr>)
      else if mode = ''SPI_CPOL'' then (0, spi_setup\<lparr>sp_mode := sp_mode spi_setup OR SPI_CPOL\<rparr>)
      else (- 1, spi_setup))"

text \<open>
  The loop over the value, which \<^verbatim>\<open>strsep\<close> cuts at a bar: what is parsed is the text behind the bar if there is
  one, and \<^verbatim>\<open>trimwhitespace\<close> cuts the white space at its end off for the next turn as well.
\<close>

definition cut_trailing :: "string \<Rightarrow> string" where
  "cut_trailing s = (if list_all isspace s then s else rev (dropWhile isspace (rev s)))"

lemma length_cut_trailing: "length (cut_trailing s) \<le> length s"
  by (simp add: cut_trailing_def) (metis length_dropWhile_le length_rev)

function parse_spi_modes :: "sja1105_spi_setup \<Rightarrow> string \<Rightarrow> sja1105_spi_setup" where
  "parse_spi_modes spi_setup val =
     (case dropWhile (\<lambda>c. c \<noteq> CHR ''|'') val of
        [] \<Rightarrow> snd (parse_spi_mode spi_setup val)
      | _ # mode \<Rightarrow> parse_spi_modes (snd (parse_spi_mode spi_setup (trimwhitespace mode))) (cut_trailing mode))"
  by pat_completeness auto
termination
proof (relation "measure (\<lambda>(spi_setup, val). length val)")
  fix spi_setup :: sja1105_spi_setup and val c mode
  assume "dropWhile (\<lambda>c. c \<noteq> CHR ''|'') val = c # mode"
  then have "length mode < length val" using length_dropWhile_le [of "\<lambda>c. c \<noteq> CHR ''|''" val] by simp
  then show "((snd (parse_spi_mode spi_setup (trimwhitespace mode)), cut_trailing mode), spi_setup, val)
      \<in> measure (\<lambda>(spi_setup, val). length val)"
    using length_cut_trailing [of mode] by simp
qed simp

declare parse_spi_modes.simps [simp del]

text \<open>A number, stored by \<open>store\<close>, and a value that is true or false; what is stored is marked as set.\<close>

definition parse_number :: "string \<Rightarrow> (u64 \<Rightarrow> 's \<Rightarrow> 's) \<Rightarrow> 's \<Rightarrow> int \<times> 's" where
  "parse_number val st s =
     (case reliable_uint64_from_string val of
        (rc, to_val, _) \<Rightarrow>
          if rc < 0 then (rc, s) else (0, case to_val of None \<Rightarrow> s | Some tmp \<Rightarrow> st tmp s))"

definition parse_flag :: "string \<Rightarrow> (int \<Rightarrow> 's \<Rightarrow> 's) \<Rightarrow> 's \<Rightarrow> int \<times> 's" where
  "parse_flag val st s =
     (if val = ''false'' then (0, st 0 s) else if val = ''true'' then (0, st 1 s) else (- 1, s))"

text \<open>The conversion of a \<^verbatim>\<open>uint64_t\<close> to an \<^verbatim>\<open>int\<close>.\<close>

definition to_int :: "u64 \<Rightarrow> int" where "to_int v = sint (ucast v :: 32 word)"

definition parse_spi_setup ::
    "string \<Rightarrow> string \<Rightarrow> sja1105_spi_setup \<times> fields_set \<Rightarrow> int \<times> sja1105_spi_setup \<times> fields_set" where
  "parse_spi_setup key val state =
     (if key = ''device'' then
        (0, map_prod (sp_device_update (\<lambda>_. val)) (fs_device_update (\<lambda>_. 1)) state)
      else if key = ''device_id'' then
        parse_number val (\<lambda>tmp. map_prod (sp_device_id_update (\<lambda>_. tmp)) (fs_device_id_update (\<lambda>_. 1))) state
      else if key = ''bits'' then
        parse_number val (\<lambda>tmp. map_prod (sp_bits_update (\<lambda>_. ucast tmp)) (fs_bits_update (\<lambda>_. 1))) state
      else if key = ''speed'' then
        parse_number val (\<lambda>tmp. map_prod (sp_speed_update (\<lambda>_. ucast tmp)) (fs_speed_update (\<lambda>_. 1))) state
      else if key = ''delay'' then
        parse_number val (\<lambda>tmp. map_prod (sp_delay_update (\<lambda>_. ucast tmp)) (fs_delay_update (\<lambda>_. 1))) state
      else if key = ''cs_change'' then
        parse_number val (\<lambda>tmp. map_prod (sp_cs_change_update (\<lambda>_. to_int tmp)) (fs_cs_change_update (\<lambda>_. 1))) state
      else if key = ''mode'' then
        (0, map_prod (\<lambda>s. parse_spi_modes (s\<lparr>sp_mode := 0\<rparr>) val) (fs_mode_update (\<lambda>_. 1)) state)
      else if key = ''dry_run'' then
        parse_flag val (\<lambda>b. map_prod (sp_dry_run_update (\<lambda>_. b)) (fs_dry_run_update (\<lambda>_. 1))) state
      else if key = ''auto_flush'' then
        parse_flag val (\<lambda>b. map_prod (sp_flush_update (\<lambda>_. b)) (fs_flush_update (\<lambda>_. 1))) state
      else if key = ''staging_area'' then
        (0, map_prod (sp_staging_area_update (\<lambda>_. val)) (fs_staging_area_update (\<lambda>_. 1)) state)
      else (- 1, state))"

definition parse_general_config ::
    "string \<Rightarrow> string \<Rightarrow> general_config \<times> fields_set \<Rightarrow> int \<times> general_config \<times> fields_set" where
  "parse_general_config key val state =
     (if key = ''verbose'' then
        parse_flag val (\<lambda>b. map_prod (gc_verbose_update (\<lambda>_. b)) (fs_verbose_update (\<lambda>_. 1))) state
      else if key = ''debug'' then
        parse_flag val (\<lambda>b. map_prod (gc_debug_update (\<lambda>_. b)) (fs_debug_update (\<lambda>_. 1))) state
      else if key = ''entries_per_line'' then
        parse_number val (\<lambda>tmp. map_prod (gc_entries_per_line_update (\<lambda>_. to_int tmp)) (fs_entries_per_line_update (\<lambda>_. 1))) state
      else if key = ''screen_width'' then
        parse_number val (\<lambda>tmp. map_prod (gc_screen_width_update (\<lambda>_. to_int tmp)) (fs_screen_width_update (\<lambda>_. 1))) state
      else (- 1, state))"

text \<open>What the functions for the two sections return is ignored.\<close>

type_synonym settings = "sja1105_spi_setup \<times> general_config \<times> fields_set"

definition parse_key_val :: "string \<Rightarrow> string \<Rightarrow> string \<Rightarrow> settings \<Rightarrow> int \<times> settings" where
  "parse_key_val key val section_hdr = (\<lambda>(spi_setup, general_conf, given).
     if section_hdr = ''[spi_setup]'' then
       (0, case parse_spi_setup key val (spi_setup, given) of (_, spi_setup', given') \<Rightarrow> (spi_setup', general_conf, given'))
     else if section_hdr = ''[general]'' then
       (0, case parse_general_config key val (general_conf, given) of (_, general_conf', given') \<Rightarrow> (spi_setup, general_conf', given'))
     else (- 1, spi_setup, general_conf, given))"

section \<open>The file\<close>

text \<open>\<^verbatim>\<open>fgets\<close> with room for \<open>n\<close> characters before the terminating zero: the line, and the rest of the file.\<close>

fun fgets :: "nat \<Rightarrow> string \<Rightarrow> string \<times> string" where
  "fgets 0 s = ([], s)"
| "fgets (Suc n) [] = ([], [])"
| "fgets (Suc n) (c # s) =
     (if c = newline then ([c], s) else (case fgets n s of (line, rest) \<Rightarrow> (c # line, rest)))"

lemma fgets_append: "case fgets n s of (line, rest) \<Rightarrow> line @ rest = s"
  by (induction n s rule: fgets.induct) (auto split: prod.splits)

lemma fgets_shorter:
  assumes "input \<noteq> []" "(line, rest) = fgets (Suc n) input"
  shows "length rest < length input"
proof -
  from assms(1) obtain c s where "input = c # s" by (auto simp: neq_Nil_conv)
  with assms(2) have "line \<noteq> []" by (auto split: if_splits prod.splits)
  moreover have "line @ rest = input" using fgets_append [of input "Suc n"] assms(2) by auto
  ultimately show ?thesis by auto
qed

text \<open>A zero in a line ends the string.\<close>

definition c_string :: "string \<Rightarrow> string" where
  "c_string s = takeWhile (\<lambda>c. c \<noteq> CHR 0x00) s"

text \<open>
  The loop over the lines. The section is \<open>None\<close> before the first; \<open>rc\<close> is uninitialised before the first
  setting.
\<close>

function read_config_lines :: "string \<Rightarrow> string option \<Rightarrow> settings \<Rightarrow> int \<Rightarrow> (int \<times> settings) option" where
  "read_config_lines input section_hdr settings rc =
     (if input = [] then Some (rc, settings)
      else
        let (line, rest) = fgets 2047 input;
            p = trimwhitespace (c_string line)
        in if p = [] then read_config_lines rest section_hdr settings rc
           else if hd p = CHR ''['' then read_config_lines rest (Some p) settings rc
           else if hd p = CHR ''#'' then read_config_lines rest section_hdr settings rc
           else case dropWhile (\<lambda>c. c \<noteq> CHR ''='') p of
                  [] \<Rightarrow> Some (- EINVAL, settings)
                | _ # val \<Rightarrow>
                    (case section_hdr of
                       None \<Rightarrow> None
                     | Some hdr \<Rightarrow>
                         (case parse_key_val (trimwhitespace (takeWhile (\<lambda>c. c \<noteq> CHR ''='') p)) (trimwhitespace val) hdr settings of
                            (rc', settings') \<Rightarrow>
                              if rc' < 0 then Some (- EINVAL, settings')
                              else read_config_lines rest section_hdr settings' rc')))"
  by pat_completeness auto

termination
  by (relation "measure (\<lambda>(input, _). length input)") (use fgets_shorter [where n = 2046] in auto)

declare read_config_lines.simps [simp del]

text \<open>
  \<open>file\<close> is the contents of the file, or \<open>None\<close> if it cannot be opened; then \<open>settings0\<close>, the uninitialised
  variables, decide which defaults are set.
\<close>

definition read_config_file ::
    "string option \<Rightarrow> settings \<Rightarrow> int \<Rightarrow> (int \<times> sja1105_spi_setup \<times> general_config) option" where
  "read_config_file file settings0 rc0 =
     map_option (\<lambda>(rc, spi_setup, general_conf, given). (rc, config_set_defaults spi_setup general_conf given))
       (case file of
          None \<Rightarrow> Some (- ENOENT, settings0)
        | Some text \<Rightarrow> read_config_lines text None (spi_setup_zero, general_config_zero, fields_set_zero) rc0)"

section \<open>What a file says\<close>

datatype config_line = Blank | Comment string | Section string | Setting string string

definition blank :: "string \<Rightarrow> bool" where "blank s \<longleftrightarrow> (\<forall>c\<in>set s. isspace c \<and> c \<noteq> newline)"
definition plain :: "string \<Rightarrow> bool" where "plain s \<longleftrightarrow> newline \<notin> set s \<and> CHR 0x00 \<notin> set s"
definition trimmed :: "string \<Rightarrow> bool" where "trimmed s \<longleftrightarrow> s = [] \<or> \<not> isspace (hd s) \<and> \<not> isspace (last s)"

text \<open>A line of a file, with any white space around its parts.\<close>

inductive shows_line :: "config_line \<Rightarrow> string \<Rightarrow> bool" where
  blank_line: "blank w \<Longrightarrow> shows_line Blank (w @ [newline])"
| comment_line: "blank w \<Longrightarrow> plain s \<Longrightarrow> shows_line (Comment s) (w @ CHR ''#'' # s @ [newline])"
| section_line: "blank w \<Longrightarrow> blank w' \<Longrightarrow> plain s \<Longrightarrow> trimmed (CHR ''['' # s) \<Longrightarrow>
    shows_line (Section (CHR ''['' # s)) (w @ (CHR ''['' # s) @ w' @ [newline])"
| setting_line: "blank w1 \<Longrightarrow> blank w2 \<Longrightarrow> blank w3 \<Longrightarrow> blank w4 \<Longrightarrow> plain key \<Longrightarrow> plain val \<Longrightarrow>
    trimmed key \<Longrightarrow> trimmed val \<Longrightarrow> key \<noteq> [] \<Longrightarrow> hd key \<notin> {CHR ''['', CHR ''#''} \<Longrightarrow> CHR ''='' \<notin> set key \<Longrightarrow>
    shows_line (Setting key val) (w1 @ key @ w2 @ ''='' @ w3 @ val @ w4 @ [newline])"

inductive_cases shows_lineE: "shows_line l s"

text \<open>The settings of a file with their sections.\<close>

fun settings_of :: "string \<Rightarrow> config_line list \<Rightarrow> (string \<times> string \<times> string) list" where
  "settings_of hdr [] = []"
| "settings_of hdr (Section s # ls) = settings_of s ls"
| "settings_of hdr (Setting key val # ls) = (hdr, key, val) # settings_of hdr ls"
| "settings_of hdr (_ # ls) = settings_of hdr ls"

fun well_sectioned :: "bool \<Rightarrow> config_line list \<Rightarrow> bool" where
  "well_sectioned b [] \<longleftrightarrow> True"
| "well_sectioned b (Section s # ls) \<longleftrightarrow> s \<in> {''[spi_setup]'', ''[general]''} \<and> well_sectioned True ls"
| "well_sectioned b (Setting key val # ls) \<longleftrightarrow> b \<and> well_sectioned b ls"
| "well_sectioned b (_ # ls) \<longleftrightarrow> well_sectioned b ls"

definition apply_setting :: "string \<times> string \<times> string \<Rightarrow> settings \<Rightarrow> settings" where
  "apply_setting = (\<lambda>(hdr, key, val) s. snd (parse_key_val key val hdr s))"

section \<open>White space\<close>

lemma isspace_newline: "isspace newline" by (simp add: isspace_def newline_def)

lemma isspace_neq: "isspace c \<Longrightarrow> c \<noteq> CHR ''='' \<and> c \<noteq> CHR 0x00 \<and> c \<noteq> CHR ''|'' \<and> c \<noteq> CHR ''['' \<and> c \<noteq> CHR ''#''"
  by (auto simp: isspace_def)

lemma blankD: "blank w \<Longrightarrow> c \<in> set w \<Longrightarrow> isspace c" by (simp add: blank_def)

lemma blank_clean: "blank w \<Longrightarrow> newline \<notin> set w \<and> CHR 0x00 \<notin> set w"
  by (auto simp: blank_def dest: isspace_neq)

lemma trimwhitespace_around:
  assumes "\<forall>c\<in>set w. isspace c" "\<forall>c\<in>set w'. isspace c" "trimmed s"
  shows "trimwhitespace (w @ s @ w') = s"
proof (cases "s = []")
  case True
  have none: "dropWhile isspace (w @ w') = []" using assms(1,2) by (simp only: dropWhile_eq_Nil_conv) auto
  show ?thesis unfolding trimwhitespace_def True append_Nil none by simp
next
  case False
  then have "dropWhile isspace (w @ s @ w') = s @ w'"
    using assms(1,3) by (cases s) (auto simp: dropWhile_append trimmed_def dropWhile_eq_Nil_conv)
  moreover have "dropWhile isspace (rev w' @ rev s) = rev s"
    using False assms(2,3) by (cases s rule: rev_cases) (auto simp: dropWhile_append trimmed_def)
  ultimately show ?thesis by (simp add: trimwhitespace_def)
qed

lemma trimwhitespace_hd:
  assumes "\<forall>c\<in>set w. isspace c" "\<not> isspace x"
  shows "\<exists>t. trimwhitespace (w @ x # s) = x # t"
proof -
  have "dropWhile isspace (w @ x # s) = x # s" using assms by (simp add: dropWhile_append)
  moreover obtain t where "dropWhile isspace (rev s @ [x]) = t @ [x]"
  proof (cases "\<forall>c\<in>set (rev s). isspace c")
    case True
    then show ?thesis using assms(2) that [of "[]"] by (simp add: dropWhile_append)
  next
    case False
    then obtain c where "c \<in> set (rev s)" "\<not> isspace c" by blast
    then show ?thesis using that [of "dropWhile isspace (rev s)"] dropWhile_append1 by metis
  qed
  ultimately have "trimwhitespace (w @ x # s) = x # rev t" by (simp add: trimwhitespace_def)
  then show ?thesis by blast
qed

lemma fgets_line:
  "newline \<notin> set s \<Longrightarrow> length s < n \<Longrightarrow> fgets n (s @ newline # rest) = (s @ [newline], rest)"
proof (induction s arbitrary: n)
  case Nil
  then show ?case by (cases n) simp_all
next
  case (Cons c s)
  then show ?case by (cases n) auto
qed

lemma c_string_plain: "CHR 0x00 \<notin> set s \<Longrightarrow> c_string s = s"
  by (simp add: c_string_def takeWhile_eq_all_conv) metis

section \<open>Reading lines\<close>

lemma shows_line_text:
  assumes "shows_line l line" "length line \<le> 2047"
  shows "\<exists>s. line = s @ [newline] \<and> newline \<notin> set s \<and> length s < 2047 \<and> c_string line = line"
proof -
  have "newline \<notin> set ''=''" "newline \<notin> set ''[''" "newline \<notin> set ''#''"
    using isspace_neq [OF isspace_newline] by simp_all
  note eqs = this
  from assms(1) have "\<exists>s. line = s @ [newline] \<and> newline \<notin> set s \<and> CHR 0x00 \<notin> set s"
  proof cases
    case (blank_line w)
    then show ?thesis using blank_clean by blast
  next
    case (comment_line w s)
    then show ?thesis using blank_clean [of w] eqs by (intro exI [of _ "w @ CHR ''#'' # s"]) (simp add: plain_def)
  next
    case (section_line w w' s)
    then show ?thesis using blank_clean [of w] blank_clean [of w'] eqs
      by (intro exI [of _ "w @ (CHR ''['' # s) @ w'"]) (simp add: plain_def)
  next
    case (setting_line w1 w2 w3 w4 key val)
    then show ?thesis using blank_clean [of w1] blank_clean [of w2] blank_clean [of w3] blank_clean [of w4] eqs
      by (intro exI [of _ "w1 @ key @ w2 @ ''='' @ w3 @ val @ w4"]) (simp add: plain_def)
  qed
  then obtain s where "line = s @ [newline]" "newline \<notin> set s" "CHR 0x00 \<notin> set s" by blast
  moreover have "CHR 0x00 \<noteq> newline" using isspace_neq [OF isspace_newline] by auto
  ultimately show ?thesis using assms(2) by (auto intro!: c_string_plain)
qed

text \<open>What is left of a line when the white space around it is cut off.\<close>

lemma trim_section: "blank w \<Longrightarrow> blank w' \<Longrightarrow> trimmed (c # s) \<Longrightarrow> trimwhitespace (w @ (c # s) @ w' @ [newline]) = c # s"
  using trimwhitespace_around [of w "w' @ [newline]" "c # s"] isspace_newline by (auto simp: blank_def)

lemma trim_setting:
  assumes "blank w1" "blank w2" "blank w3" "blank w4" "trimmed key" "trimmed val" "key \<noteq> []" "CHR ''='' \<notin> set key"
  defines "p \<equiv> trimwhitespace (w1 @ key @ w2 @ ''='' @ w3 @ val @ w4 @ [newline])"
  shows "takeWhile (\<lambda>c. c \<noteq> CHR ''='') p = key @ w2 \<and> (\<exists>rest. dropWhile (\<lambda>c. c \<noteq> CHR ''='') p = CHR ''='' # rest \<and>
    trimwhitespace rest = val) \<and> p \<noteq> [] \<and> hd p = hd key"
proof -
  define rest where "rest = (if val = [] then [] else w3 @ val)"
  define w' where "w' = (if val = [] then w3 @ w4 @ [newline] else w4 @ [newline])"
  have spaces: "\<forall>c\<in>set w'. isspace c" "\<forall>c\<in>set w1. isspace c" "\<forall>c\<in>set w3. isspace c"
    using assms(1,3,4) isspace_newline by (auto simp: w'_def blank_def)
  have "\<not> isspace (CHR ''='')" by (simp add: isspace_def)
  then have "trimmed (key @ w2 @ CHR ''='' # rest)"
    using assms(5-7) by (auto simp: trimmed_def rest_def)
  from trimwhitespace_around [OF spaces(2,1) this]
  have p: "p = key @ w2 @ CHR ''='' # rest" by (cases "val = []") (simp_all add: p_def rest_def w'_def)
  have "\<forall>c\<in>set (key @ w2). c \<noteq> CHR ''=''" using assms(2,8) by (auto dest!: blankD isspace_neq)
  then have "takeWhile (\<lambda>c. c \<noteq> CHR ''='') p = key @ w2" "dropWhile (\<lambda>c. c \<noteq> CHR ''='') p = CHR ''='' # rest"
    using takeWhile_append2 [of "key @ w2" "\<lambda>c. c \<noteq> CHR ''=''" "CHR ''='' # rest"]
      dropWhile_append2 [of "key @ w2" "\<lambda>c. c \<noteq> CHR ''=''" "CHR ''='' # rest"]
    by (auto simp: p)
  moreover have "trimwhitespace rest = val"
    using trimwhitespace_around [OF spaces(3), of "[]" val] assms(6) by (simp add: rest_def) (simp add: trimwhitespace_def)
  ultimately show ?thesis using assms(7) by (simp add: p)
qed

lemma parse_key_val_known: "h \<in> {''[spi_setup]'', ''[general]''} \<Longrightarrow> fst (parse_key_val key val h s) = 0"
  by (auto simp: parse_key_val_def split: prod.splits)

lemma settings_of_Nil: "settings_of hdr ls = [] \<longleftrightarrow> settings_of hdr' ls = []"
  by (induction ls arbitrary: hdr hdr' rule: settings_of.induct [of _ "[]", case_names Nil]) auto

lemma read_config_lines_shown:
  "list_all2 shows_line ls lines \<Longrightarrow> \<forall>l\<in>set lines. length l \<le> 2047 \<Longrightarrow> well_sectioned (hdr \<noteq> None) ls \<Longrightarrow>
   hdr \<in> {None, Some ''[spi_setup]'', Some ''[general]''} \<Longrightarrow>
   read_config_lines (concat lines) hdr s rc =
     Some (if settings_of [] ls = [] then rc else 0, fold apply_setting (settings_of (case hdr of None \<Rightarrow> [] | Some h \<Rightarrow> h) ls) s)"
proof (induction ls arbitrary: lines hdr s rc)
  case Nil
  then show ?case by (simp add: read_config_lines.simps)
next
  case (Cons l ls)
  from Cons.prems(1) obtain line lines' where lines: "lines = line # lines'" "shows_line l line" "list_all2 shows_line ls lines'"
    by (auto simp: list_all2_Cons1)
  with Cons.prems(2) shows_line_text obtain t where t: "line = t @ [newline]" "newline \<notin> set t" "length t < 2047" "c_string line = line"
    by (metis list.set_intros(1))
  have read: "fgets 2047 (concat lines) = (line, concat lines')"
    using fgets_line [OF t(2,3), of "concat lines'"] by (simp add: lines(1) t(1))
  have IH: "well_sectioned (hdr' \<noteq> None) ls \<Longrightarrow> hdr' \<in> {None, Some ''[spi_setup]'', Some ''[general]''} \<Longrightarrow>
      read_config_lines (concat lines') hdr' s' rc' =
     Some (if settings_of [] ls = [] then rc' else 0, fold apply_setting (settings_of (case hdr' of None \<Rightarrow> [] | Some h \<Rightarrow> h) ls) s')"
    for hdr' s' rc'
    using Cons.IH [OF lines(3)] Cons.prems(2) by (simp add: lines(1))
  have ne: "concat lines \<noteq> []" by (simp add: lines(1) t(1))
  note step = trans [OF read_config_lines.simps [of "concat lines" hdr s rc] if_not_P [OF ne], unfolded read Let_def prod.case]
  from lines(2) show ?case
  proof cases
    case (blank_line w)
    have "trimwhitespace (c_string line) = []"
      using trimwhitespace_around [of "w @ [newline]" "[]" "[]"] blank_line isspace_newline t(4) by (auto simp: blank_def trimmed_def)
    with step IH [of hdr s rc] Cons.prems(3,4) blank_line show ?thesis by simp
  next
    case (comment_line w c)
    have "\<not> isspace (CHR ''#'')" by (simp add: isspace_def)
    with trimwhitespace_hd [of w "CHR ''#''" "c @ [newline]"] comment_line t(4) obtain u where
      "trimwhitespace (c_string line) = CHR ''#'' # u" by (auto simp: blank_def)
    with step IH [of hdr s rc] Cons.prems(3,4) comment_line show ?thesis by simp
  next
    case (section_line w w' h)
    have "trimwhitespace (c_string line) = CHR ''['' # h"
      using trim_section [of w w' "CHR ''[''" h] section_line t(4) by simp
    with step IH [of "Some (CHR ''['' # h)" s rc] Cons.prems(3) section_line show ?thesis
      using settings_of_Nil [of "CHR ''['' # h" ls "[]"] by simp
  next
    case (setting_line w1 w2 w3 w4 key val)
    note trim = trim_setting [OF setting_line(3-6,9-11,13)]
    obtain rest where p: "takeWhile (\<lambda>c. c \<noteq> CHR ''='') (trimwhitespace line) = key @ w2"
      "dropWhile (\<lambda>c. c \<noteq> CHR ''='') (trimwhitespace line) = CHR ''='' # rest" "trimwhitespace rest = val"
      "trimwhitespace line \<noteq> []" "hd (trimwhitespace line) = hd key"
      using trim by (auto simp: setting_line(2))
    obtain h where h: "hdr = Some h" "h \<in> {''[spi_setup]'', ''[general]''}" using Cons.prems(3,4) setting_line(1) by auto
    obtain s' where s': "parse_key_val key val h s = (0, s')"
      using parse_key_val_known [OF h(2)] by (metis prod.collapse)
    have "trimwhitespace (key @ w2) = key"
      using trimwhitespace_around [of "[]" w2 key] setting_line(4,9) by (simp add: blank_def)
    with step p IH [of hdr s' 0] Cons.prems(3,4) setting_line(1,12) h s' show ?thesis
      using settings_of_Nil [of "[]" ls h] by (simp add: t(4) apply_setting_def)
  qed
qed

text \<open>
  C7: a file whose lines are settings under known sections, comments and blank lines is read without an error,
  and gives what its settings say, applied in their order, with the defaults for what was not set.
\<close>

theorem read_config_file_settings:
  assumes "list_all2 shows_line ls lines" "\<forall>l\<in>set lines. length l \<le> 2047" "well_sectioned False ls"
  shows "read_config_file (Some (concat lines)) settings0 rc0 =
    (case fold apply_setting (settings_of [] ls) (spi_setup_zero, general_config_zero, fields_set_zero) of
       (spi_setup, general_conf, given) \<Rightarrow>
         Some (if settings_of [] ls = [] then rc0 else 0, config_set_defaults spi_setup general_conf given))"
proof -
  have "read_config_lines (concat lines) None (spi_setup_zero, general_config_zero, fields_set_zero) rc0 =
      Some (if settings_of [] ls = [] then rc0 else 0,
        fold apply_setting (settings_of [] ls) (spi_setup_zero, general_config_zero, fields_set_zero))"
    using read_config_lines_shown [OF assms(1,2), of None] assms(3) by simp
  then show ?thesis by (simp add: read_config_file_def split: prod.split)
qed

section \<open>The mode of the bus\<close>

lemma parse_spi_mode_twice: "snd (parse_spi_mode (snd (parse_spi_mode s m)) m) = snd (parse_spi_mode s m)"
  by (simp add: parse_spi_mode_def)

lemma parse_spi_mode_bar: "CHR ''|'' \<in> set m \<Longrightarrow> snd (parse_spi_mode s m) = s"
  by (auto simp: parse_spi_mode_def)

lemma trimwhitespace_id_trimmed: "trimmed s \<Longrightarrow> trimwhitespace s = s"
  using trimwhitespace_around [of "[]" "[]" s] by simp

lemma cut_trailing_trimmed: "s \<noteq> [] \<Longrightarrow> \<not> isspace (last s) \<Longrightarrow> cut_trailing s = s"
  by (cases s rule: rev_cases) (simp_all add: cut_trailing_def)

lemma trimwhitespace_keeps: "c \<in> set s \<Longrightarrow> \<not> isspace c \<Longrightarrow> c \<in> set (trimwhitespace s)"
proof -
  have keep: "c \<in> set t \<Longrightarrow> \<not> isspace c \<Longrightarrow> c \<in> set (dropWhile isspace t)" for t
    by (induction t) auto
  show "c \<in> set s \<Longrightarrow> \<not> isspace c \<Longrightarrow> c \<in> set (trimwhitespace s)"
    by (auto simp: trimwhitespace_def intro!: keep)
qed

text \<open>
  C40: of several modes separated by bars only the last one counts, although they are flags meant to be combined.
\<close>

theorem parse_spi_modes_last:
  assumes "CHR ''|'' \<notin> set b" "b \<noteq> []" "trimmed b"
  shows "parse_spi_modes s (a @ ''|'' @ b) = snd (parse_spi_mode s b)"
proof (induction "length a" arbitrary: a rule: less_induct)
  case less
  have last: "\<not> isspace (last b)" using assms(2,3) by (simp add: trimmed_def)
  show ?case
  proof (cases "CHR ''|'' \<in> set a")
    case False
    then have "dropWhile (\<lambda>c. c \<noteq> CHR ''|'') (a @ ''|'' @ b) = CHR ''|'' # b"
      by (subst dropWhile_append2) auto
    moreover have none: "dropWhile (\<lambda>c. c \<noteq> CHR ''|'') b = []" using assms(1) by (auto simp: dropWhile_eq_Nil_conv)
    have "parse_spi_modes t b = snd (parse_spi_mode t b)" for t
      unfolding parse_spi_modes.simps [of t b] none by simp
    ultimately show ?thesis
      using cut_trailing_trimmed [OF assms(2) last] trimwhitespace_id_trimmed [OF assms(3)]
      by (simp add: parse_spi_modes.simps [of s "a @ CHR ''|'' # b"] parse_spi_mode_twice)
  next
    case True
    then obtain a1 a2 where a: "a = a1 @ CHR ''|'' # a2" "CHR ''|'' \<notin> set a1" by (meson split_list_first)
    have "dropWhile (\<lambda>c. c \<noteq> CHR ''|'') (a @ ''|'' @ b) = CHR ''|'' # a2 @ ''|'' @ b"
      unfolding a(1) append_assoc append_Cons by (subst dropWhile_append2) (use a(2) in auto)
    moreover have "CHR ''|'' \<in> set (trimwhitespace (a2 @ ''|'' @ b))"
      by (rule trimwhitespace_keeps) (simp_all add: isspace_def)
    moreover have "cut_trailing (a2 @ ''|'' @ b) = a2 @ ''|'' @ b"
      using last assms(2) by (intro cut_trailing_trimmed) auto
    ultimately show ?thesis
      using less [of a2] a(1) parse_spi_mode_bar
      by (simp add: parse_spi_modes.simps [of s "a1 @ CHR ''|'' # a2 @ CHR ''|'' # b"])
  qed
qed

lemma parse_spi_modes_last_witness:
  "sp_mode (parse_spi_modes spi_setup_zero ''SPI_CPHA|SPI_CPOL'') = SPI_CPOL"
proof -
  have "parse_spi_modes spi_setup_zero (''SPI_CPHA'' @ ''|'' @ ''SPI_CPOL'') = snd (parse_spi_mode spi_setup_zero ''SPI_CPOL'')"
    by (rule parse_spi_modes_last) (simp_all add: trimmed_def isspace_def)
  then show ?thesis by (simp add: parse_spi_mode_def spi_setup_zero_def)
qed

section \<open>A file for given settings\<close>

definition setting_text :: "string \<Rightarrow> string \<Rightarrow> string" where
  "setting_text key val = key @ '' = '' @ val @ [newline]"

definition mode_name :: "u8 \<Rightarrow> string" where
  "mode_name m = (if m = SPI_CPHA then ''SPI_CPHA'' else ''SPI_CPOL'')"

definition flag_name :: "int \<Rightarrow> string" where
  "flag_name b = (if b = 0 then ''false'' else ''true'')"

definition config_settings :: "sja1105_spi_setup \<Rightarrow> general_config \<Rightarrow> (string \<times> string) list \<times> (string \<times> string) list" where
  "config_settings s g =
    ([(''device_id'', ''0x'' @ print_nat 16 (unat (sp_device_id s))), (''device'', sp_device s),
      (''staging_area'', sp_staging_area s), (''mode'', mode_name (sp_mode s)),
      (''bits'', print_nat 10 (unat (sp_bits s))), (''speed'', print_nat 10 (unat (sp_speed s))),
      (''delay'', print_nat 10 (unat (sp_delay s))), (''cs_change'', print_nat 10 (nat (sp_cs_change s))),
      (''dry_run'', flag_name (sp_dry_run s)), (''auto_flush'', flag_name (sp_flush s))],
     [(''screen_width'', print_nat 10 (nat (gc_screen_width g))),
      (''entries_per_line'', print_nat 10 (nat (gc_entries_per_line g))),
      (''verbose'', flag_name (gc_verbose g)), (''debug'', flag_name (gc_debug g))])"

definition config_text :: "sja1105_spi_setup \<Rightarrow> general_config \<Rightarrow> string" where
  "config_text s g = (case config_settings s g of (spi, gen) \<Rightarrow>
     ''[spi_setup]'' @ [newline] @ concat (map (\<lambda>(key, val). setting_text key val) spi) @
     ''[general]'' @ [newline] @ concat (map (\<lambda>(key, val). setting_text key val) gen))"

definition config_lines :: "sja1105_spi_setup \<Rightarrow> general_config \<Rightarrow> config_line list" where
  "config_lines s g = (case config_settings s g of (spi, gen) \<Rightarrow>
     Section ''[spi_setup]'' # map (\<lambda>(key, val). Setting key val) spi @
     Section ''[general]'' # map (\<lambda>(key, val). Setting key val) gen)"

text \<open>Settings that a file can hold.\<close>

definition text_ok :: "string \<Rightarrow> bool" where "text_ok s \<longleftrightarrow> plain s \<and> trimmed s \<and> length s \<le> 2000"

definition config_ok :: "sja1105_spi_setup \<Rightarrow> general_config \<Rightarrow> bool" where
  "config_ok s g \<longleftrightarrow> sp_part_nr s = 0 \<and> sp_fd s = 0 \<and> text_ok (sp_device s) \<and> text_ok (sp_staging_area s) \<and>
     sp_mode s \<in> {SPI_CPHA, SPI_CPOL} \<and> 0 \<le> sp_cs_change s \<and> sp_cs_change s < 2 ^ 31 \<and> sp_dry_run s \<in> {0, 1} \<and>
     sp_flush s \<in> {0, 1} \<and> gc_staging_area g = [] \<and> 0 \<le> gc_screen_width g \<and> gc_screen_width g < 2 ^ 31 \<and>
     0 \<le> gc_entries_per_line g \<and> gc_entries_per_line g < 2 ^ 31 \<and> gc_verbose g \<in> {0, 1} \<and> gc_debug g \<in> {0, 1}"

lemma print_nat_text:
  assumes "2 \<le> base" "base \<le> 36" "n < 2 ^ 64"
  shows "text_ok (print_nat base n)"
proof -
  have no: "c \<in> set (print_nat base n) \<Longrightarrow> \<not> isspace c \<and> c \<noteq> newline \<and> c \<noteq> CHR 0x00" for c
    using print_nat_no_special [OF assms(1,2), of c n] isspace_digit [of c] isspace_digit [OF isspace_newline]
    by (auto simp: digit_of_def)
  have "n < base ^ Suc 63" using assms(1,3) power_mono [of 2 base 64] by simp
  from length_print_nat [OF assms(1) this] no show ?thesis
    by (auto simp: text_ok_def plain_def trimmed_def)
qed

lemma hex_text:
  fixes v :: u64
  shows "text_ok (''0x'' @ print_nat 16 (unat v))"
proof -
  have "text_ok (print_nat 16 (unat v))" using unsigned_less [of v] by (intro print_nat_text) simp_all
  moreover have "isspace newline" "\<not> isspace (CHR 0x00)" using isspace_newline by (simp_all add: isspace_def)
  moreover have "\<not> isspace (CHR ''0'')" "\<not> isspace (CHR ''x'')" by (simp_all add: isspace_def)
  moreover have "newline \<noteq> CHR ''0''" "newline \<noteq> CHR ''x''" using calculation(2-5) by metis+
  moreover have "length (print_nat 16 (unat v)) \<le> Suc 15"
    using unsigned_less [of v] by (intro length_print_nat) simp_all
  ultimately show ?thesis by (auto simp: text_ok_def plain_def trimmed_def)
qed

lemma blank_space: "blank '' ''"
proof -
  have "of_char newline = (10 :: nat)" by (simp add: newline_def)
  then have "(of_char newline :: nat) \<noteq> of_char (CHR '' '')" by simp
  then have "CHR '' '' \<noteq> newline" by metis
  then show ?thesis by (simp add: blank_def isspace_def)
qed

lemma blank_Nil: "blank []" by (simp add: blank_def)

lemma shows_setting:
  assumes "plain key" "trimmed key" "key \<noteq> []" "hd key \<notin> {CHR ''['', CHR ''#''}" "CHR ''='' \<notin> set key" "text_ok val"
  shows "shows_line (Setting key val) (setting_text key val)"
  using setting_line [OF blank_Nil blank_space blank_space blank_Nil, of key val] assms
  by (simp add: setting_text_def text_ok_def)

lemma plain_text: "\<forall>c\<in>set s. of_char c \<noteq> (10 :: nat) \<and> of_char c \<noteq> (0 :: nat) \<Longrightarrow> plain s"
  by (force simp: plain_def newline_def)

lemma config_values_ok:
  assumes "config_ok s g" "(key, val) \<in> set (fst (config_settings s g)) \<union> set (snd (config_settings s g))"
  shows "text_ok val \<and> plain key \<and> trimmed key \<and> key \<noteq> [] \<and> hd key \<notin> {CHR ''['', CHR ''#''} \<and> CHR ''='' \<notin> set key \<and> length key \<le> 20"
proof -
  have num: "text_ok (print_nat 10 n)" if "n < 2 ^ 64" for n using print_nat_text [of 10 n] that by simp
  have "unat (sp_bits s) < 2 ^ LENGTH(8)" "unat (sp_speed s) < 2 ^ LENGTH(32)" "unat (sp_delay s) < 2 ^ LENGTH(16)"
    by (rule unsigned_less)+
  then have "unat (sp_bits s) < 2 ^ 64" "unat (sp_speed s) < 2 ^ 64" "unat (sp_delay s) < 2 ^ 64" by simp_all
  moreover have "nat (sp_cs_change s) < 2 ^ 64" "nat (gc_screen_width g) < 2 ^ 64" "nat (gc_entries_per_line g) < 2 ^ 64"
    using assms(1) by (simp_all add: config_ok_def nat_less_iff)
  moreover have "text_ok (mode_name (sp_mode s))" "text_ok (flag_name b)" for b
    by (simp_all add: text_ok_def mode_name_def flag_name_def trimmed_def isspace_def plain_text)
  ultimately have "text_ok val"
    using assms num hex_text [of "sp_device_id s"] by (auto simp: config_settings_def config_ok_def)
  moreover have "plain key \<and> trimmed key \<and> key \<noteq> [] \<and> hd key \<notin> {CHR ''['', CHR ''#''} \<and> CHR ''='' \<notin> set key \<and> length key \<le> 20"
    using assms(2) by (auto simp: config_settings_def plain_text trimmed_def isspace_def)
  ultimately show ?thesis by blast
qed

lemma config_lines_shown:
  assumes "config_ok s g"
  shows "\<exists>lines. config_text s g = concat lines \<and> list_all2 shows_line (config_lines s g) lines \<and> (\<forall>l\<in>set lines. length l \<le> 2047)"
proof -
  define spi gen where "spi = fst (config_settings s g)" and "gen = snd (config_settings s g)"
  define shown where "shown = map (\<lambda>(key, val). setting_text key val)"
  have settings: "shows_line (Setting key val) (setting_text key val) \<and> length (setting_text key val) \<le> 2047"
    if "(key, val) \<in> set spi \<union> set gen" for key val
    using config_values_ok [OF assms, of key val] that shows_setting [of key val]
    by (auto simp: spi_def gen_def setting_text_def text_ok_def)
  have head: "shows_line (Section (CHR ''['' # h)) ((CHR ''['' # h) @ [newline])" if "plain h" "trimmed (CHR ''['' # h)" for h
    using section_line [OF blank_Nil blank_Nil that] by simp
  have heads: "shows_line (Section ''[spi_setup]'') (''[spi_setup]'' @ [newline])" "shows_line (Section ''[general]'') (''[general]'' @ [newline])"
    by (rule head; simp add: plain_text trimmed_def isspace_def)+
  let ?lines = "(''[spi_setup]'' @ [newline]) # shown spi @ (''[general]'' @ [newline]) # shown gen"
  have all: "list_all2 shows_line (map (\<lambda>(key, val). Setting key val) kvs) (shown kvs)" if "set kvs \<subseteq> set spi \<union> set gen" for kvs
    using that settings by (induction kvs) (auto simp: shown_def)
  have "config_text s g = concat ?lines"
    by (simp add: config_text_def spi_def gen_def shown_def split_beta)
  moreover have "list_all2 shows_line (config_lines s g) ?lines"
    using heads all [of spi] all [of gen]
    by (simp add: config_lines_def split_beta spi_def [symmetric] gen_def [symmetric] list_all2_appendI)
  moreover have "\<forall>l\<in>set ?lines. length l \<le> 2047" using settings by (auto simp: shown_def)
  ultimately show ?thesis by blast
qed

lemma number_read:
  "n < 2 ^ 64 \<Longrightarrow> parse_number (print_nat 10 n) st s = (0, st (of_nat n) s)"
  "parse_number (''0x'' @ print_nat 16 (unat v)) st s = (0, st v s)"
  using hex_number_read [of "[]" v] by (simp_all add: parse_number_def decimal_number_read)

lemma int_read: "0 \<le> i \<Longrightarrow> i < 2 ^ 31 \<Longrightarrow> parse_number (print_nat 10 (nat i)) st s = (0, st (of_nat (nat i)) s) \<and> to_int (of_nat (nat i)) = i"
  using int_of_index [of "nat i"] by (simp add: number_read(1) to_int_def nat_less_iff del: word_of_nat_eq_0_iff of_nat_nat)

lemma small_read:
  "parse_number (print_nat 10 (unat (b :: u8))) st s = (0, st (ucast b) s) \<and> ucast (ucast b :: u64) = b"
  "parse_number (print_nat 10 (unat (h :: 16 word))) st s = (0, st (ucast h) s) \<and> ucast (ucast h :: u64) = h"
  "parse_number (print_nat 10 (unat (w :: u32))) st s = (0, st (ucast w) s) \<and> ucast (ucast w :: u64) = w"
proof -
  have "unat b < 2 ^ LENGTH(8)" "unat h < 2 ^ LENGTH(16)" "unat w < 2 ^ LENGTH(32)" by (rule unsigned_less)+
  then show "parse_number (print_nat 10 (unat (b :: u8))) st s = (0, st (ucast b) s) \<and> ucast (ucast b :: u64) = b"
    "parse_number (print_nat 10 (unat (h :: 16 word))) st s = (0, st (ucast h) s) \<and> ucast (ucast h :: u64) = h"
    "parse_number (print_nat 10 (unat (w :: u32))) st s = (0, st (ucast w) s) \<and> ucast (ucast w :: u64) = w"
    by (simp_all add: number_read(1) bit_eq_iff bit_simps)
qed

lemma flag_read: "b \<in> {0, 1} \<Longrightarrow> parse_flag (flag_name b) st s = (0, st b s)"
  by (auto simp: parse_flag_def flag_name_def)

lemma mode_read: "m \<in> {SPI_CPHA, SPI_CPOL} \<Longrightarrow> parse_spi_modes (s\<lparr>sp_mode := 0\<rparr>) (mode_name m) = s\<lparr>sp_mode := m\<rparr>"
  by (auto simp: parse_spi_modes.simps mode_name_def parse_spi_mode_def)

text \<open>
  C20: the settings of the bus and of the terminal that a file can hold, written one to a line under their sections,
  are read back from the file as they were.
\<close>

theorem config_file_roundtrip:
  assumes "config_ok s g"
  shows "read_config_file (Some (config_text s g)) settings0 rc0 = Some (0, s, g)"
proof -
  obtain lines where lines: "config_text s g = concat lines" "list_all2 shows_line (config_lines s g) lines" "\<forall>l\<in>set lines. length l \<le> 2047"
    using config_lines_shown [OF assms] by blast
  have "well_sectioned False (config_lines s g)" by (simp add: config_lines_def config_settings_def)
  note read = read_config_file_settings [OF lines(2,3) this, of settings0 rc0, folded lines(1)]
  note ok = assms [unfolded config_ok_def]
  have settings: "settings_of [] (config_lines s g) =
      map (\<lambda>(key, val). (''[spi_setup]'', key, val)) (fst (config_settings s g)) @
      map (\<lambda>(key, val). (''[general]'', key, val)) (snd (config_settings s g))"
    by (simp add: config_lines_def config_settings_def)
  have "fold apply_setting (settings_of [] (config_lines s g)) (spi_setup_zero, general_config_zero, fields_set_zero) =
      (s, g, \<lparr>fs_device_id = 1, fs_device = 1, fs_staging_area = 1, fs_mode = 1, fs_bits = 1, fs_speed = 1,
        fs_delay = 1, fs_cs_change = 1, fs_dry_run = 1, fs_flush = 1, fs_verbose = 1, fs_debug = 1,
        fs_entries_per_line = 1, fs_screen_width = 1\<rparr>)"
    unfolding settings
    using ok
    by (simp add: config_settings_def apply_setting_def parse_key_val_def parse_spi_setup_def parse_general_config_def
        number_read(2) [simplified] small_read mode_read flag_read int_read spi_setup_zero_def general_config_zero_def fields_set_zero_def del: of_nat_nat)
  then have fold: "fold apply_setting (settings_of [] (config_lines s g)) (spi_setup_zero, general_config_zero, fields_set_zero) = \<dots>" .
  have "settings_of [] (config_lines s g) \<noteq> []" by (simp add: settings config_settings_def)
  then show ?thesis unfolding read fold prod.case by (simp only: if_False) (simp add: config_set_defaults_def set_default_def)
qed

text \<open>A file that is not there: the default is set only if the uninitialised memory does not say that it is set already.\<close>

lemma missing_config_file:
  "read_config_file None (spi_setup, general_conf, given) rc0 = Some (- ENOENT, config_set_defaults spi_setup general_conf given) \<and>
   (fs_device given \<noteq> 0 \<longrightarrow> sp_device (fst (config_set_defaults spi_setup general_conf given)) = sp_device spi_setup)"
  by (simp add: read_config_file_def config_set_defaults_def set_default_def)

lemma config_file_roundtrip_witness:
  "config_ok (fst (config_set_defaults spi_setup_zero general_config_zero fields_set_zero))
     (snd (config_set_defaults spi_setup_zero general_config_zero fields_set_zero)) \<and>
   (\<exists>s g. (s, g) = config_set_defaults spi_setup_zero general_config_zero fields_set_zero \<and>
     read_config_file (Some (config_text s g)) (s, g, fields_set_zero) 5 = Some (0, s, g))"
proof -
  obtain s g where sg: "config_set_defaults spi_setup_zero general_config_zero fields_set_zero = (s, g)" by fastforce
  then have "config_ok s g"
    by (auto simp: config_ok_def config_set_defaults_def set_default_def spi_setup_zero_def general_config_zero_def
        fields_set_zero_def text_ok_def plain_text trimmed_def isspace_def default_device_def default_staging_area_def)
  with config_file_roundtrip [OF this] sg show ?thesis by simp
qed

lemma read_config_file_settings_witness:
  "read_config_file (Some (''[general]'' @ [newline] @ ''verbose=true'' @ [newline])) (spi_setup_zero, general_config_zero, fields_set_zero) 5 =
    (case config_set_defaults spi_setup_zero (general_config_zero\<lparr>gc_verbose := 1\<rparr>) (fields_set_zero\<lparr>fs_verbose := 1\<rparr>) of (s, g) \<Rightarrow> Some (0, s, g))"
proof -
  have "shows_line (Section ''[general]'') ([] @ (CHR ''['' # ''general]'') @ [] @ [newline])"
    by (rule section_line) (simp_all add: blank_Nil plain_text trimmed_def isspace_def)
  moreover have "shows_line (Setting ''verbose'' ''true'') ([] @ ''verbose'' @ [] @ ''='' @ [] @ ''true'' @ [] @ [newline])"
    by (rule setting_line) (simp_all add: blank_Nil plain_text trimmed_def isspace_def)
  ultimately have "list_all2 shows_line [Section ''[general]'', Setting ''verbose'' ''true'']
      [''[general]'' @ [newline], ''verbose=true'' @ [newline]]" by simp
  from read_config_file_settings [OF this, of "(spi_setup_zero, general_config_zero, fields_set_zero)" 5] show ?thesis
    by (simp add: apply_setting_def parse_key_val_def parse_general_config_def parse_flag_def split_beta)
qed

end
