(* ===== verification/Show.thy ===== *)
theory Show
  imports Config_Modify Tool_Config
begin

unbundle bit_operations_syntax

text \<open>
  \<^verbatim>\<open>src/tool/config-show.c\<close>, the functions \<^verbatim>\<open>_fmt_show\<close> and \<^verbatim>\<open>_show\<close> of the tables, \<^verbatim>\<open>lib/helpers.c\<close> and
  \<^verbatim>\<open>formatted_append\<close> of \<^verbatim>\<open>common.c\<close>: the text that is printed for a table. The result is \<open>None\<close> where a buffer
  overflows, a null pointer is searched, or the output does not end.
\<close>

section \<open>Lines of text\<close>

text \<open>The format \<^verbatim>\<open>%-30s\n\<close> has the width 30, the format \<^verbatim>\<open>%s\n\<close> none.\<close>

definition fmt_line :: "nat \<Rightarrow> string \<Rightarrow> string" where
  "fmt_line w s = s @ replicate (w - length s) (CHR '' '') @ [newline]"

text \<open>
  The buffers are taken to be long enough here; where they are printed their length is looked at, which is
  the same, because text is only ever appended.
\<close>

definition formatted_append :: "string \<Rightarrow> nat \<Rightarrow> string \<Rightarrow> string" where
  "formatted_append buffer width_fmt temp_buf = buffer @ fmt_line width_fmt temp_buf"

text \<open>A number in the format \<^verbatim>\<open>%llX\<close> behind a label, and an array, which has at most 8 elements.\<close>

definition hex_line :: "string \<Rightarrow> u64 \<Rightarrow> string" where
  "hex_line label v = label @ print_nat 16 (unat v)"

definition array_text :: "u64 list \<Rightarrow> string" where
  "array_text vs = (case print_array vs of None \<Rightarrow> [] | Some s \<Rightarrow> s)"

text \<open>The format \<^verbatim>\<open>%.02x\<close>.\<close>

definition hex_octet :: "u8 \<Rightarrow> string" where
  "hex_octet b = map (\<lambda>d. char_of (if d < 10 then 48 + d else 87 + d)) [unat b div 16, unat b mod 16]"

definition mac_addr_sprintf :: "u64 \<Rightarrow> string" where
  "mac_addr_sprintf mac_hexval =
     (let octet = (\<lambda>i. hex_octet (ucast (drop_bit i mac_hexval)))
      in octet 40 @ '':'' @ octet 32 @ '':'' @ octet 24 @ '':'' @ octet 16 @ '':'' @ octet 8 @ '':'' @ octet 0)"

definition appstoplines :: "string \<Rightarrow> nat \<Rightarrow> string list \<Rightarrow> string" where
  "appstoplines print_buf fmt ls = foldl (\<lambda>buf line. formatted_append buf fmt line) print_buf ls"

section \<open>Entries\<close>

definition sja1105_schedule_entry_fmt_show :: "string \<Rightarrow> nat \<Rightarrow> schedule_entry \<Rightarrow> string" where
  "sja1105_schedule_entry_fmt_show print_buf fmt entry =
     appstoplines print_buf fmt
      [hex_line ''WINSTINDEX  0x'' (sch_winstindex entry),
       hex_line ''WINEND      0x'' (sch_winend entry),
       hex_line ''WINST       0x'' (sch_winst entry),
       hex_line ''DESTPORTS   0x'' (sch_destports entry),
       hex_line ''SETVALID    0x'' (sch_setvalid entry),
       hex_line ''TXEN        0x'' (sch_txen entry),
       hex_line ''RESMEDIA_EN 0x'' (sch_resmedia_en entry),
       hex_line ''RESMEDIA    0x'' (sch_resmedia entry),
       hex_line ''VLINDEX     0x'' (sch_vlindex entry),
       hex_line ''DELTA       0x'' (sch_delta entry)]"

definition sja1105_schedule_entry_show :: "schedule_entry \<Rightarrow> string" where
  "sja1105_schedule_entry_show entry = sja1105_schedule_entry_fmt_show [] 0 entry @ [newline]"

definition sja1105_schedule_entry_points_entry_fmt_show :: "string \<Rightarrow> nat \<Rightarrow> schedule_entry_points_entry \<Rightarrow> string" where
  "sja1105_schedule_entry_points_entry_fmt_show print_buf fmt entry =
     appstoplines print_buf fmt
      [hex_line ''SUBSCHINDX 0x'' (sep_subschindx entry),
       hex_line ''DELTA      0x'' (sep_delta entry),
       hex_line ''ADDRESS    0x'' (sep_address entry)]"

definition sja1105_schedule_entry_points_entry_show :: "schedule_entry_points_entry \<Rightarrow> string" where
  "sja1105_schedule_entry_points_entry_show entry = sja1105_schedule_entry_points_entry_fmt_show [] 0 entry @ [newline]"

definition sja1105_vl_lookup_entry_fmt_show :: "string \<Rightarrow> nat \<Rightarrow> vl_lookup_entry \<Rightarrow> string" where
  "sja1105_vl_lookup_entry_fmt_show print_buf fmt entry =
     (if vll_format entry = 0
      then appstoplines print_buf fmt
        [hex_line ''DESTPORTS  0x'' (vll_destports entry),
         hex_line ''ISCRITICAL 0x'' (vll_iscritical entry),
         ''MACADDR    '' @ mac_addr_sprintf (vll_macaddr entry),
         hex_line ''VLANID     0x'' (vll_vlanid entry),
         hex_line ''PORT       0x'' (vll_port entry),
         hex_line ''VLANPRIOR  0x'' (vll_vlanprior entry)]
      else appstoplines print_buf fmt
        [hex_line ''EGRMIRR    0x'' (vll_egrmirr entry),
         hex_line ''INGRMIRR   0x'' (vll_ingrmirr entry),
         hex_line ''VLID       0x'' (vll_vlid entry),
         hex_line ''PORT       0x'' (vll_port entry)])"

definition sja1105_vl_lookup_entry_show :: "vl_lookup_entry \<Rightarrow> string" where
  "sja1105_vl_lookup_entry_show entry = sja1105_vl_lookup_entry_fmt_show [] 0 entry @ [newline]"

definition sja1105_vl_policing_entry_fmt_show :: "string \<Rightarrow> nat \<Rightarrow> vl_policing_entry \<Rightarrow> string" where
  "sja1105_vl_policing_entry_fmt_show print_buf fmt entry =
     (let print_buf = appstoplines print_buf fmt
        [hex_line ''TYPE      0x'' (vlp_type entry),
         hex_line ''MAXLEN    0x'' (vlp_maxlen entry),
         hex_line ''SHARINDX  0x'' (vlp_sharindx entry)]
      in if vlp_type entry = 0
         then appstoplines print_buf fmt
           [hex_line ''BAG       0x'' (vlp_bag entry),
            hex_line ''JITTER    0x'' (vlp_jitter entry)]
         else print_buf)"

definition sja1105_vl_policing_entry_show :: "vl_policing_entry \<Rightarrow> string" where
  "sja1105_vl_policing_entry_show entry = sja1105_vl_policing_entry_fmt_show [] 0 entry @ [newline]"

definition sja1105_vl_forwarding_entry_fmt_show :: "string \<Rightarrow> nat \<Rightarrow> vl_forwarding_entry \<Rightarrow> string" where
  "sja1105_vl_forwarding_entry_fmt_show print_buf fmt entry =
     appstoplines print_buf fmt
      [hex_line ''TYPE      0x'' (vlf_type entry),
       hex_line ''PRIORITY  0x'' (vlf_priority entry),
       hex_line ''PARTITION 0x'' (vlf_partition entry),
       hex_line ''DESTPORTS 0x'' (vlf_destports entry)]"

definition sja1105_vl_forwarding_entry_show :: "vl_forwarding_entry \<Rightarrow> string" where
  "sja1105_vl_forwarding_entry_show entry = sja1105_vl_forwarding_entry_fmt_show [] 0 entry @ [newline]"

definition sja1105_l2_lookup_entry_fmt_show :: "string \<Rightarrow> nat \<Rightarrow> l2_lookup_entry \<Rightarrow> string" where
  "sja1105_l2_lookup_entry_fmt_show print_buf fmt entry =
     appstoplines print_buf fmt
      [hex_line ''VLANID    0x'' (l2l_vlanid entry),
       ''MACADDR   '' @ mac_addr_sprintf (l2l_macaddr entry),
       hex_line ''DESTPORTS 0x'' (l2l_destports entry),
       hex_line ''ENFPORT   0x'' (l2l_enfport entry),
       hex_line ''INDEX     0x'' (l2l_index entry)]"

definition sja1105_l2_lookup_entry_show :: "l2_lookup_entry \<Rightarrow> string" where
  "sja1105_l2_lookup_entry_show entry = sja1105_l2_lookup_entry_fmt_show [] 0 entry @ [newline]"

definition sja1105_l2_policing_entry_fmt_show :: "string \<Rightarrow> nat \<Rightarrow> l2_policing_entry \<Rightarrow> string" where
  "sja1105_l2_policing_entry_fmt_show print_buf fmt entry =
     appstoplines print_buf fmt
      [hex_line ''SHARINDX  0x'' (l2p_sharindx entry),
       hex_line ''SMAX      0x'' (l2p_smax entry),
       hex_line ''RATE      0x'' (l2p_rate entry),
       hex_line ''MAXLEN    0x'' (l2p_maxlen entry),
       hex_line ''PARTITION 0x'' (l2p_partition entry)]"

definition sja1105_l2_policing_entry_show :: "l2_policing_entry \<Rightarrow> string" where
  "sja1105_l2_policing_entry_show entry = sja1105_l2_policing_entry_fmt_show [] 0 entry @ [newline]"

definition sja1105_vlan_lookup_entry_fmt_show :: "string \<Rightarrow> nat \<Rightarrow> vlan_lookup_entry \<Rightarrow> string" where
  "sja1105_vlan_lookup_entry_fmt_show print_buf fmt entry =
     appstoplines print_buf fmt
      [hex_line ''VING_MIRR  0x'' (vln_ving_mirr entry),
       hex_line ''VEGR_MIRR  0x'' (vln_vegr_mirr entry),
       hex_line ''VMEMB_PORT 0x'' (vln_vmemb_port entry),
       hex_line ''VLAN_BC    0x'' (vln_vlan_bc entry),
       hex_line ''TAG_PORT   0x'' (vln_tag_port entry),
       hex_line ''VLANID     0x'' (vln_vlanid entry)]"

definition sja1105_vlan_lookup_entry_show :: "vlan_lookup_entry \<Rightarrow> string" where
  "sja1105_vlan_lookup_entry_show entry = sja1105_vlan_lookup_entry_fmt_show [] 0 entry @ [newline]"

definition sja1105_l2_forwarding_entry_fmt_show :: "string \<Rightarrow> nat \<Rightarrow> l2_forwarding_entry \<Rightarrow> string" where
  "sja1105_l2_forwarding_entry_fmt_show print_buf fmt entry =
     appstoplines print_buf fmt
      [hex_line ''BC_DOMAIN  0x'' (l2f_bc_domain entry),
       hex_line ''REACH_PORT 0x'' (l2f_reach_port entry),
       hex_line ''FL_DOMAIN  0x'' (l2f_fl_domain entry),
       ''VLAN_PMAP '' @ array_text (take 8 (l2f_vlan_pmap entry))]"

definition sja1105_l2_forwarding_entry_show :: "l2_forwarding_entry \<Rightarrow> string" where
  "sja1105_l2_forwarding_entry_show entry = sja1105_l2_forwarding_entry_fmt_show [] 0 entry @ [newline]"

definition sja1105_mac_config_entry_fmt_show :: "string \<Rightarrow> nat \<Rightarrow> mac_config_entry \<Rightarrow> string" where
  "sja1105_mac_config_entry_fmt_show print_buf fmt entry =
     appstoplines print_buf fmt
      [''BASE      '' @ array_text (take 8 (mac_base entry)),
       ''TOP       '' @ array_text (take 8 (mac_top entry)),
       ''ENABLED   '' @ array_text (take 8 (mac_enabled entry)),
       hex_line ''IFG        0x'' (mac_ifg entry),
       hex_line ''SPEED      0x'' (mac_speed entry),
       hex_line ''TP_DELIN   0x'' (mac_tp_delin entry),
       hex_line ''TP_DELOUT  0x'' (mac_tp_delout entry),
       hex_line ''MAXAGE     0x'' (mac_maxage entry),
       hex_line ''VLANPRIO   0x'' (mac_vlanprio entry),
       hex_line ''VLANID     0x'' (mac_vlanid entry),
       hex_line ''ING_MIRR   0x'' (mac_ing_mirr entry),
       hex_line ''EGR_MIRR   0x'' (mac_egr_mirr entry),
       hex_line ''DRPNONA664 0x'' (mac_drpnona664 entry),
       hex_line ''DRPDTAG    0x'' (mac_drpdtag entry),
       hex_line ''DRPUNTAG   0x'' (mac_drpuntag entry),
       hex_line ''DRPSOTAG   0x'' (mac_drpsotag entry),
       hex_line ''DRPSITAG   0x'' (mac_drpsitag entry),
       hex_line ''RETAG      0x'' (mac_retag entry),
       hex_line ''DYN_LEARN  0x'' (mac_dyn_learn entry),
       hex_line ''EGRESS     0x'' (mac_egress entry),
       hex_line ''INGRESS    0x'' (mac_ingress entry),
       hex_line ''MIRRCIE    0x'' (mac_mirrcie entry),
       hex_line ''MIRRCETAG  0x'' (mac_mirrcetag entry),
       hex_line ''INGMIRRVID 0x'' (mac_ingmirrvid entry),
       hex_line ''INGMIRRPCP 0x'' (mac_ingmirrpcp entry),
       hex_line ''INGMIRRDEI 0x'' (mac_ingmirrdei entry)]"

definition sja1105_mac_config_entry_show :: "mac_config_entry \<Rightarrow> string" where
  "sja1105_mac_config_entry_show entry = sja1105_mac_config_entry_fmt_show [] 0 entry @ [newline]"

definition sja1105_schedule_params_entry_fmt_show :: "string \<Rightarrow> nat \<Rightarrow> schedule_params_entry \<Rightarrow> string" where
  "sja1105_schedule_params_entry_fmt_show print_buf fmt entry =
     appstoplines print_buf fmt
      [''SUBSCHEIND '' @ array_text (take 8 (schp_subscheind entry))]"

definition sja1105_schedule_params_entry_show :: "schedule_params_entry \<Rightarrow> string" where
  "sja1105_schedule_params_entry_show entry = sja1105_schedule_params_entry_fmt_show [] 0 entry @ [newline]"

definition sja1105_schedule_entry_points_params_entry_fmt_show :: "string \<Rightarrow> nat \<Rightarrow> schedule_entry_points_params_entry \<Rightarrow> string" where
  "sja1105_schedule_entry_points_params_entry_fmt_show print_buf fmt entry =
     appstoplines print_buf fmt
      [hex_line ''CLKSRC    0x'' (sepp_clksrc entry),
       hex_line ''ACTSUBSCH 0x'' (sepp_actsubsch entry)]"

definition sja1105_schedule_entry_points_params_entry_show :: "schedule_entry_points_params_entry \<Rightarrow> string" where
  "sja1105_schedule_entry_points_params_entry_show entry = sja1105_schedule_entry_points_params_entry_fmt_show [] 0 entry @ [newline]"

definition sja1105_vl_forwarding_params_entry_fmt_show :: "string \<Rightarrow> nat \<Rightarrow> vl_forwarding_params_entry \<Rightarrow> string" where
  "sja1105_vl_forwarding_params_entry_fmt_show print_buf fmt entry =
     appstoplines print_buf fmt
      [''PARTSPC  '' @ array_text (take 8 (vlfp_partspc entry)),
       hex_line ''DEBUGEN  0x'' (vlfp_debugen entry)]"

definition sja1105_vl_forwarding_params_entry_show :: "vl_forwarding_params_entry \<Rightarrow> string" where
  "sja1105_vl_forwarding_params_entry_show entry = sja1105_vl_forwarding_params_entry_fmt_show [] 0 entry @ [newline]"

definition sja1105_l2_lookup_params_entry_fmt_show :: "string \<Rightarrow> nat \<Rightarrow> l2_lookup_params_entry \<Rightarrow> string" where
  "sja1105_l2_lookup_params_entry_fmt_show print_buf fmt entry =
     appstoplines print_buf fmt
      [hex_line ''MAXAGE         0x'' (l2lp_maxage entry),
       hex_line ''DYN_TBSZ       0x'' (l2lp_dyn_tbsz entry),
       hex_line ''POLY           0x'' (l2lp_poly entry),
       hex_line ''SHARED_LEARN   0x'' (l2lp_shared_learn entry),
       hex_line ''NO_ENF_HOSTPRT 0x'' (l2lp_no_enf_hostprt entry),
       hex_line ''NO_MGMT_LEARN  0x'' (l2lp_no_mgmt_learn entry)]"

definition sja1105_l2_lookup_params_entry_show :: "l2_lookup_params_entry \<Rightarrow> string" where
  "sja1105_l2_lookup_params_entry_show entry = sja1105_l2_lookup_params_entry_fmt_show [] 0 entry @ [newline]"

definition sja1105_l2_forwarding_params_entry_fmt_show :: "string \<Rightarrow> nat \<Rightarrow> l2_forwarding_params_entry \<Rightarrow> string" where
  "sja1105_l2_forwarding_params_entry_fmt_show print_buf fmt entry =
     appstoplines print_buf fmt
      [hex_line ''MAX_DYNP  0x'' (l2fp_max_dynp entry),
       ''PART_SPC '' @ array_text (take 8 (l2fp_part_spc entry))]"

definition sja1105_l2_forwarding_params_entry_show :: "l2_forwarding_params_entry \<Rightarrow> string" where
  "sja1105_l2_forwarding_params_entry_show entry = sja1105_l2_forwarding_params_entry_fmt_show [] 0 entry @ [newline]"

definition sja1105_avb_params_entry_fmt_show :: "string \<Rightarrow> nat \<Rightarrow> avb_params_entry \<Rightarrow> string" where
  "sja1105_avb_params_entry_fmt_show print_buf fmt entry =
     appstoplines print_buf fmt
      [''DESTMETA '' @ mac_addr_sprintf (avb_destmeta entry),
       ''SRCMETA  '' @ mac_addr_sprintf (avb_srcmeta entry)]"

definition sja1105_avb_params_entry_show :: "avb_params_entry \<Rightarrow> string" where
  "sja1105_avb_params_entry_show entry = sja1105_avb_params_entry_fmt_show [] 0 entry @ [newline]"

definition sja1105_general_params_entry_fmt_show :: "string \<Rightarrow> nat \<Rightarrow> general_params_entry \<Rightarrow> string" where
  "sja1105_general_params_entry_fmt_show print_buf fmt entry =
     appstoplines print_buf fmt
      [hex_line ''VLLUPFORMAT 0x'' (gen_vllupformat entry),
       hex_line ''MIRR_PTACU  0x'' (gen_mirr_ptacu entry),
       hex_line ''SWITCHID    0x'' (gen_switchid entry),
       hex_line ''HOSTPRIO    0x'' (gen_hostprio entry),
       ''MAC_FLTRES1 '' @ mac_addr_sprintf (gen_mac_fltres1 entry),
       ''MAC_FLTRES0 '' @ mac_addr_sprintf (gen_mac_fltres0 entry),
       ''MAC_FLT1    '' @ mac_addr_sprintf (gen_mac_flt1 entry),
       ''MAC_FLT0    '' @ mac_addr_sprintf (gen_mac_flt0 entry),
       hex_line ''INCL_SRCPT1 0x'' (gen_incl_srcpt1 entry),
       hex_line ''INCL_SRCPT0 0x'' (gen_incl_srcpt0 entry),
       hex_line ''SEND_META1  0x'' (gen_send_meta1 entry),
       hex_line ''SEND_META0  0x'' (gen_send_meta0 entry),
       hex_line ''CASC_PORT   0x'' (gen_casc_port entry),
       hex_line ''HOST_PORT   0x'' (gen_host_port entry),
       hex_line ''MIRR_PORT   0x'' (gen_mirr_port entry),
       hex_line ''VLMARKER    0x'' (gen_vlmarker entry),
       hex_line ''VLMASK      0x'' (gen_vlmask entry),
       hex_line ''TPID        0x'' (gen_tpid entry),
       hex_line ''IGNORE2STF  0x'' (gen_ignore2stf entry),
       hex_line ''TPID2       0x'' (gen_tpid2 entry)]"

definition sja1105_general_params_entry_show :: "general_params_entry \<Rightarrow> string" where
  "sja1105_general_params_entry_show entry = sja1105_general_params_entry_fmt_show [] 0 entry @ [newline]"

definition sja1105_xmii_params_entry_fmt_show :: "string \<Rightarrow> nat \<Rightarrow> xmii_params_entry \<Rightarrow> string" where
  "sja1105_xmii_params_entry_fmt_show print_buf fmt entry =
     appstoplines print_buf fmt
      [''PHY_MAC   '' @ array_text (take 5 (xmii_phy_mac entry)),
       ''xMII_MODE '' @ array_text (take 5 (xmii_xmii_mode entry))]"

definition sja1105_xmii_params_entry_show :: "xmii_params_entry \<Rightarrow> string" where
  "sja1105_xmii_params_entry_show entry = sja1105_xmii_params_entry_fmt_show [] 0 entry @ [newline]"

definition sja1105_sgmii_entry_fmt_show :: "string \<Rightarrow> nat \<Rightarrow> sgmii_entry \<Rightarrow> string" where
  "sja1105_sgmii_entry_fmt_show print_buf fmt entry =
     appstoplines print_buf fmt
      [hex_line ''DIGITAL_ERROR_CNT 0x'' (sgmii_digital_error_cnt entry),
       hex_line ''DIGITAL_CONTROL_2 0x'' (sgmii_digital_control_2 entry),
       hex_line ''DEBUG_CONTROL     0x'' (sgmii_debug_control entry),
       hex_line ''TEST_CONTROL      0x'' (sgmii_test_control entry),
       hex_line ''AUTONEG_CONTROL   0x'' (sgmii_autoneg_control entry),
       hex_line ''DIGITAL_CONTROL_1 0x'' (sgmii_digital_control_1 entry),
       hex_line ''AUTONEG_ADV       0x'' (sgmii_autoneg_adv entry),
       hex_line ''BASIC_CONTROL     0x'' (sgmii_basic_control entry)]"

definition sja1105_sgmii_entry_show :: "sgmii_entry \<Rightarrow> string" where
  "sja1105_sgmii_entry_show entry = sja1105_sgmii_entry_fmt_show [] 0 entry @ [newline]"

section \<open>Tables\<close>

definition show_print_bufs :: "general_config \<Rightarrow> string list \<Rightarrow> string option" where
  "show_print_bufs gc print_bufs =
     (case show_print_bufs_from gc print_bufs of
        None \<Rightarrow> None
      | Some groups \<Rightarrow>
          foldr (\<lambda>group rest. case (linewise_concat group, rest) of (Some out, Some outs) \<Rightarrow> Some (out @ outs) | _ \<Rightarrow> None)
            groups (Some []))"

text \<open>
  The macro \<^verbatim>\<open>DECLARE_TABLE_SHOW_FN\<close>; \<open>title\<close> is \<^verbatim>\<open>STRING_NAME\<close>. The table and the array of buffers have room
  for \<open>max_count\<close> entries. \<^verbatim>\<open>calloc\<close> does not fail here.
\<close>

definition print_decimal :: "int \<Rightarrow> string" where
  "print_decimal i = (if i < 0 then ''-'' else []) @ print_nat 10 (nat \<bar>i\<bar>)"

definition table_show ::
    "nat \<Rightarrow> string \<Rightarrow> nat \<Rightarrow> (string \<Rightarrow> nat \<Rightarrow> 'e \<Rightarrow> string) \<Rightarrow> general_config \<Rightarrow> 'e static_config_member \<Rightarrow> int \<Rightarrow>
     (int \<times> string) option" where
  "table_show max_count title fmt fmt_show gc m index =
     (let start = (if index = - 1 then 0 else index);
          stop = (if index = - 1 then entry_count m else index + 1);
          entry_buf = (\<lambda>i. formatted_append (fmt_show (formatted_append [] fmt (''Entry '' @ print_decimal i @ '':'')) fmt
            (entries m (nat i))) fmt [])
      in if entry_count m = 0 then Some (0, [])
         else if index < - 1 \<or> entry_count m \<le> index then Some (- 1, [])
         else if int max_count < stop then None
         else
           let print_bufs = map entry_buf [start..stop - 1]
           in if list_all (\<lambda>buf. length buf < MAX_LINE_SIZE) print_bufs
              then map_option (\<lambda>out. (0, title @ '': '' @ print_decimal (entry_count m) @ '' entries'' @ [newline] @ out))
                (show_print_bufs gc print_bufs)
              else None)"

definition schedule_table_show :: "general_config \<Rightarrow> sja1105_static_config \<Rightarrow> int \<Rightarrow> (int \<times> string) option" where
  "schedule_table_show gc config = table_show MAX_SCHEDULE_COUNT ''Schedule Table'' 30 sja1105_schedule_entry_fmt_show gc (cfg_schedule config)"

definition schedule_entry_points_table_show :: "general_config \<Rightarrow> sja1105_static_config \<Rightarrow> int \<Rightarrow> (int \<times> string) option" where
  "schedule_entry_points_table_show gc config = table_show MAX_SCHEDULE_ENTRY_POINTS_COUNT ''Schedule Entry Points Table'' 30 sja1105_schedule_entry_points_entry_fmt_show gc (cfg_schedule_entry_points config)"

definition l2_lookup_table_show :: "general_config \<Rightarrow> sja1105_static_config \<Rightarrow> int \<Rightarrow> (int \<times> string) option" where
  "l2_lookup_table_show gc config = table_show MAX_L2_LOOKUP_COUNT ''L2 Address Lookup Table'' 30 sja1105_l2_lookup_entry_fmt_show gc (cfg_l2_lookup config)"

definition l2_policing_table_show :: "general_config \<Rightarrow> sja1105_static_config \<Rightarrow> int \<Rightarrow> (int \<times> string) option" where
  "l2_policing_table_show gc config = table_show MAX_L2_POLICING_COUNT ''L2 Policing Table'' 20 sja1105_l2_policing_entry_fmt_show gc (cfg_l2_policing config)"

definition vlan_lookup_table_show :: "general_config \<Rightarrow> sja1105_static_config \<Rightarrow> int \<Rightarrow> (int \<times> string) option" where
  "vlan_lookup_table_show gc config = table_show MAX_VLAN_LOOKUP_COUNT ''VLAN Lookup Table'' 20 sja1105_vlan_lookup_entry_fmt_show gc (cfg_vlan_lookup config)"

definition l2_forwarding_table_show :: "general_config \<Rightarrow> sja1105_static_config \<Rightarrow> int \<Rightarrow> (int \<times> string) option" where
  "l2_forwarding_table_show gc config = table_show MAX_L2_FORWARDING_COUNT ''L2 Forwarding Table'' 45 sja1105_l2_forwarding_entry_fmt_show gc (cfg_l2_forwarding config)"

definition mac_config_table_show :: "general_config \<Rightarrow> sja1105_static_config \<Rightarrow> int \<Rightarrow> (int \<times> string) option" where
  "mac_config_table_show gc config = table_show MAX_MAC_CONFIG_COUNT ''MAC Configuration Table'' 60 sja1105_mac_config_entry_fmt_show gc (cfg_mac_config config)"

definition schedule_params_table_show :: "general_config \<Rightarrow> sja1105_static_config \<Rightarrow> int \<Rightarrow> (int \<times> string) option" where
  "schedule_params_table_show gc config = table_show MAX_SCHEDULE_PARAMS_COUNT ''Schedule Parameters Table'' 50 sja1105_schedule_params_entry_fmt_show gc (cfg_schedule_params config)"

definition schedule_entry_points_params_table_show :: "general_config \<Rightarrow> sja1105_static_config \<Rightarrow> int \<Rightarrow> (int \<times> string) option" where
  "schedule_entry_points_params_table_show gc config = table_show MAX_SCHEDULE_ENTRY_POINTS_PARAMS_COUNT ''Schedule Entry Points Parameters Table'' 30 sja1105_schedule_entry_points_params_entry_fmt_show gc (cfg_schedule_entry_points_params config)"

definition l2_lookup_params_table_show :: "general_config \<Rightarrow> sja1105_static_config \<Rightarrow> int \<Rightarrow> (int \<times> string) option" where
  "l2_lookup_params_table_show gc config = table_show MAX_L2_LOOKUP_PARAMS_COUNT ''L2 Address Lookup Parameters Table'' 30 sja1105_l2_lookup_params_entry_fmt_show gc (cfg_l2_lookup_params config)"

definition l2_forwarding_params_table_show :: "general_config \<Rightarrow> sja1105_static_config \<Rightarrow> int \<Rightarrow> (int \<times> string) option" where
  "l2_forwarding_params_table_show gc config = table_show MAX_L2_FORWARDING_PARAMS_COUNT ''L2 Forwarding Parameters Table'' 50 sja1105_l2_forwarding_params_entry_fmt_show gc (cfg_l2_forwarding_params config)"

definition general_params_table_show :: "general_config \<Rightarrow> sja1105_static_config \<Rightarrow> int \<Rightarrow> (int \<times> string) option" where
  "general_params_table_show gc config = table_show MAX_GENERAL_PARAMS_COUNT ''General Parameters Table'' 30 sja1105_general_params_entry_fmt_show gc (cfg_general_params config)"

definition xmii_params_table_show :: "general_config \<Rightarrow> sja1105_static_config \<Rightarrow> int \<Rightarrow> (int \<times> string) option" where
  "xmii_params_table_show gc config = table_show MAX_XMII_PARAMS_COUNT ''xMII Mode Parameters Table'' 35 sja1105_xmii_params_entry_fmt_show gc (cfg_xmii_params config)"

definition sgmii_table_show :: "general_config \<Rightarrow> sja1105_static_config \<Rightarrow> int \<Rightarrow> (int \<times> string) option" where
  "sgmii_table_show gc config = table_show MAX_SGMII_COUNT ''SGMII Table'' 35 sja1105_sgmii_entry_fmt_show gc (cfg_sgmii config)"

definition vl_lookup_table_show :: "general_config \<Rightarrow> sja1105_static_config \<Rightarrow> int \<Rightarrow> (int \<times> string) option" where
  "vl_lookup_table_show gc config = table_show MAX_VL_LOOKUP_COUNT ''Virtual Link Address Lookup Table:'' 35 sja1105_vl_lookup_entry_fmt_show gc (cfg_vl_lookup config)"

definition vl_policing_table_show :: "general_config \<Rightarrow> sja1105_static_config \<Rightarrow> int \<Rightarrow> (int \<times> string) option" where
  "vl_policing_table_show gc config = table_show MAX_VL_POLICING_COUNT ''Virtual Link Policing Table:'' 35 sja1105_vl_policing_entry_fmt_show gc (cfg_vl_policing config)"

definition vl_forwarding_table_show :: "general_config \<Rightarrow> sja1105_static_config \<Rightarrow> int \<Rightarrow> (int \<times> string) option" where
  "vl_forwarding_table_show gc config = table_show MAX_VL_FORWARDING_COUNT ''Virtual Link Forwarding Table'' 35 sja1105_vl_forwarding_entry_fmt_show gc (cfg_vl_forwarding config)"

definition avb_params_table_show :: "general_config \<Rightarrow> sja1105_static_config \<Rightarrow> int \<Rightarrow> (int \<times> string) option" where
  "avb_params_table_show gc config = table_show MAX_AVB_PARAMS_COUNT ''Audio/Video Bridging Parameters Table'' 35 sja1105_avb_params_entry_fmt_show gc (cfg_avb_params config)"

definition vl_forwarding_params_table_show :: "general_config \<Rightarrow> sja1105_static_config \<Rightarrow> int \<Rightarrow> (int \<times> string) option" where
  "vl_forwarding_params_table_show gc config = table_show MAX_VL_FORWARDING_PARAMS_COUNT ''Virtual Link Forwarding Parameters Table'' 50 sja1105_vl_forwarding_params_entry_fmt_show gc (cfg_vl_forwarding_params config)"

definition clock_sync_params_table_show :: "general_config \<Rightarrow> sja1105_static_config \<Rightarrow> int \<Rightarrow> (int \<times> string) option" where
  "clock_sync_params_table_show gc config index = Some (0, [])"

text \<open>The names of the tables are the same strings as in \<^verbatim>\<open>staging_area_modify\<close>.\<close>

definition next_config_table_show ::
    "(general_config \<Rightarrow> sja1105_static_config \<Rightarrow> int \<Rightarrow> (int \<times> string) option) list" where
  "next_config_table_show =
    [schedule_table_show,
     schedule_entry_points_table_show,
     vl_lookup_table_show,
     vl_policing_table_show,
     vl_forwarding_table_show,
     l2_lookup_table_show,
     l2_policing_table_show,
     vlan_lookup_table_show,
     l2_forwarding_table_show,
     mac_config_table_show,
     schedule_params_table_show,
     schedule_entry_points_params_table_show,
     vl_forwarding_params_table_show,
     l2_lookup_params_table_show,
     l2_forwarding_params_table_show,
     clock_sync_params_table_show,
     avb_params_table_show,
     general_params_table_show,
     xmii_params_table_show,
     sgmii_table_show]"

text \<open>All tables, up to the first error.\<close>

fun show_tables ::
    "(general_config \<Rightarrow> sja1105_static_config \<Rightarrow> int \<Rightarrow> (int \<times> string) option) list \<Rightarrow> general_config \<Rightarrow> sja1105_static_config \<Rightarrow> int \<Rightarrow> (int \<times> string) option" where
  "show_tables [] gc config rc = Some (rc, [])"
| "show_tables (shw # shows) gc config rc =
     (case shw gc config (- 1) of
        None \<Rightarrow> None
      | Some (rc, out) \<Rightarrow>
          if rc < 0 then Some (rc, out)
          else map_option (\<lambda>(rc, outs). (rc, out @ outs)) (show_tables shows gc config rc))"

text \<open>The format \<^verbatim>\<open>%08llx\<close>: at least eight digits.\<close>

definition hex8 :: "u64 \<Rightarrow> string" where
  "hex8 v =
     (let digits = concat (map (\<lambda>i. hex_octet (ucast (drop_bit i v))) [56, 48, 40, 32, 24, 16, 8, 0])
      in dropWhile (\<lambda>c. c = CHR ''0'') (take 8 digits) @ drop 8 digits)"

definition device_line :: "u64 \<Rightarrow> string" where
  "device_line device_id = ''Device ID is 0x'' @ hex8 device_id @ '' ('' @
     sja1105_device_id_string_get device_id SJA1105_PART_NR_DONT_CARE @ '')'' @ [newline]"

text \<open>
  A table name that is \<open>None\<close> is a null pointer; \<open>index0\<close> is what the uninitialised index holds. More than one
  number between the brackets is stored behind the index.
\<close>

definition sja1105_staging_area_show ::
    "u64 \<Rightarrow> general_config \<Rightarrow> sja1105_staging_area \<Rightarrow> string option \<Rightarrow> (int \<times> string) option" where
  "sja1105_staging_area_show index0 gc staging_area table_name =
     (case table_name of
        None \<Rightarrow> map_option (\<lambda>(rc, out). (rc, device_line (cfg_device_id (sa_static_config staging_area)) @ out))
          (show_tables next_config_table_show gc (sa_static_config staging_area) 0)
      | Some name \<Rightarrow>
          if name = [] then map_option (\<lambda>(rc, out). (rc, device_line (cfg_device_id (sa_static_config staging_area)) @ out))
            (show_tables next_config_table_show gc (sa_static_config staging_area) 0)
          else
            let index_ptr = dropWhile (\<lambda>c. c \<noteq> CHR ''['') name;
                (rc, vals) = (if index_ptr = [] then (0, []) else read_array index_ptr 1);
                entry_index = (if index_ptr = [] then - 1
                               else sint (ucast (case vals of [] \<Rightarrow> index0 | v # _ \<Rightarrow> v) :: u32))
            in if 1 < length vals then None
               else if rc < 0 then Some (rc, [])
               else
                 let table = get_match (takeWhile (\<lambda>c. c \<noteq> CHR ''['') name) static_config_options
                 in if table < 0 then Some (table, [])
                    else (next_config_table_show ! nat table) gc (sa_static_config staging_area) entry_index)"

section \<open>Addresses\<close>

definition low_digit :: "nat \<Rightarrow> char" where
  "low_digit d = char_of (if d < 10 then 48 + d else 87 + d)"

lemma low_digit_facts:
  assumes "d < 16"
  shows "digit_of (low_digit d) = d" "\<not> isspace (low_digit d)" "low_digit d \<noteq> CHR ''-''" "low_digit d \<noteq> CHR ''+''"
    "low_digit d \<noteq> CHR ''x''" "low_digit d \<noteq> CHR ''X''"
proof -
  have c: "of_char (low_digit d) = (if d < 10 then 48 + d else 87 + d)" using assms by (simp add: low_digit_def)
  show "digit_of (low_digit d) = d" "\<not> isspace (low_digit d)" using assms by (auto simp: digit_of_def isspace_def c Let_def)
  show "low_digit d \<noteq> CHR ''-''" "low_digit d \<noteq> CHR ''+''" "low_digit d \<noteq> CHR ''x''" "low_digit d \<noteq> CHR ''X''"
    using assms c by (auto split: if_splits)
qed

lemma hex_octet_low: "hex_octet b = [low_digit (unat b div 16), low_digit (unat b mod 16)]"
  by (simp add: hex_octet_def low_digit_def)

lemma strtoull_octet:
  assumes "rest = [] \<or> digit_of (hd rest) = 36"
  shows "strtoull (hex_octet b @ rest) 16 = (ucast b, False, rest)"
proof -
  have "unat b < 2 ^ LENGTH(8)" by (rule unsigned_less)
  then have "unat b < 16 * 16" by simp
  then have d: "unat b div 16 < 16" "unat b mod 16 < 16" by (simp_all add: less_mult_imp_div_less)
  note f = low_digit_facts [OF d(1)] low_digit_facts [OF d(2)]
  have "strtoull_base 16 (hex_octet b @ rest) = (16, hex_octet b @ rest)"
    using f by (simp add: strtoull_base_def hex_octet_low split: list.splits)
  moreover have "takeWhile (\<lambda>c. digit_of c < 16) (hex_octet b @ rest) = hex_octet b"
    "dropWhile (\<lambda>c. digit_of c < 16) (hex_octet b @ rest) = rest"
    using f d assms by (cases rest; simp add: hex_octet_low)+
  moreover have "strtoull_digits 16 (hex_octet b) = unat b"
    using f by (simp add: strtoull_digits_def hex_octet_low)
  moreover have "of_nat (unat b) = (ucast b :: u64)" by simp
  ultimately show ?thesis
    using f \<open>unat b < 2 ^ LENGTH(8)\<close> by (simp add: strtoull_def strtoull_sign_def hex_octet_low)
qed

lemma octet_bytes_Suc:
  "mac_addr_bytes (Suc j) (hex_octet b @ CHR '':'' # s) acc = mac_addr_bytes j s (acc OR push_bit (Suc j * 8) (ucast b))"
  by (simp add: strtoull_octet digit_of_def)

lemma octet_bytes_0: "mac_addr_bytes 0 (hex_octet b) acc = (0, acc OR ucast b, [])"
  using strtoull_octet [of "[]" b] by simp

lemma word_octets:
  fixes v :: u64
  shows "(((((push_bit (Suc (Suc (Suc (Suc (Suc 0)))) * 8) (ucast (ucast (drop_bit 40 v) :: u8) :: u64) OR
      push_bit (Suc (Suc (Suc (Suc 0))) * 8) (ucast (ucast (drop_bit 32 v) :: u8))) OR
      push_bit (Suc (Suc (Suc 0)) * 8) (ucast (ucast (drop_bit 24 v) :: u8))) OR
      push_bit (Suc (Suc 0) * 8) (ucast (ucast (drop_bit 16 v) :: u8))) OR
      push_bit (Suc 0 * 8) (ucast (ucast (drop_bit 8 v) :: u8))) OR ucast (ucast (drop_bit 0 v) :: u8)) = take_bit 48 v"
proof (rule bit_word_eqI)
  fix n :: nat
  assume "n < LENGTH(64)"
  then have "n < 64" by simp
  then consider "n < 8" | "8 \<le> n" "n < 16" | "16 \<le> n" "n < 24" | "24 \<le> n" "n < 32" | "32 \<le> n" "n < 40"
    | "40 \<le> n" "n < 48" | "48 \<le> n" "n < 64" by linarith
  then show "bit (((((push_bit (Suc (Suc (Suc (Suc (Suc 0)))) * 8) (ucast (ucast (drop_bit 40 v) :: u8) :: u64) OR
      push_bit (Suc (Suc (Suc (Suc 0))) * 8) (ucast (ucast (drop_bit 32 v) :: u8))) OR
      push_bit (Suc (Suc (Suc 0)) * 8) (ucast (ucast (drop_bit 24 v) :: u8))) OR
      push_bit (Suc (Suc 0) * 8) (ucast (ucast (drop_bit 16 v) :: u8))) OR
      push_bit (Suc 0 * 8) (ucast (ucast (drop_bit 8 v) :: u8))) OR ucast (ucast (drop_bit 0 v) :: u8)) n = bit (take_bit 48 v) n"
    by cases (simp_all add: bit_simps less_diff_conv2)
qed

text \<open>C38: an address that is printed is read again: the 48 bits of the address.\<close>

theorem mac_addr_printed_then_read:
  "reliable_uint64_from_string (mac_addr_sprintf v) = (0, Some (take_bit 48 v), [])"
proof -
  have five: "(5 :: nat) = Suc (Suc (Suc (Suc (Suc 0))))" by simp
  have "CHR '':'' \<in> set (mac_addr_sprintf v)" by (simp add: mac_addr_sprintf_def Let_def)
  moreover have "mac_addr_bytes 5 (mac_addr_sprintf v) 0 = (0, take_bit 48 v, [])"
    unfolding five mac_addr_sprintf_def Let_def append_Cons append_Nil octet_bytes_Suc octet_bytes_0
    by (simp only: prod.inject simp_thms or.left_neutral word_octets)
  ultimately show ?thesis
    by (simp only: reliable_uint64_from_string_def mac_addr_from_string_def if_True prod.case refl)
qed

section \<open>Buffers side by side\<close>

definition line_ends :: "string \<Rightarrow> nat" where "line_ends s = length (filter (\<lambda>c. c = newline) s)"

lemma split_line_Cons:
  "split_line [] = ([], None)"
  "split_line (c # s) = (if c = newline then ([], Some s) else (c # fst (split_line s), snd (split_line s)))"
  by (simp_all add: split_line_def)

lemma line_ends_Cons: "line_ends [] = 0" "line_ends (c # s) = (if c = newline then Suc (line_ends s) else line_ends s)"
  by (simp_all add: line_ends_def)

lemma split_line_ends:
  "line_ends s = 0 \<Longrightarrow> snd (split_line s) = None"
  "line_ends s \<noteq> 0 \<Longrightarrow> \<exists>r. snd (split_line s) = Some r \<and> line_ends s = Suc (line_ends r)"
  by (induction s) (simp_all add: split_line_Cons line_ends_Cons split: if_splits)

lemma linewise_concat_line_None: "None \<in> set current \<Longrightarrow> linewise_concat_line first current = None"
  by (induction first current rule: linewise_concat_line.induct) (auto split: option.splits)

lemma linewise_concat_line_Some:
  "None \<notin> set current \<Longrightarrow> \<exists>out. linewise_concat_line first current = Some (out, map (\<lambda>s. snd (split_line (the s))) current)"
  by (induction first current rule: linewise_concat_line.induct) (auto split: option.splits)

lemma linewise_concat_loop_step:
  "linewise_concat_loop (map Some (buf # bufs)) = None \<longleftrightarrow>
   linewise_concat_loop (map (\<lambda>s. snd (split_line s)) (buf # bufs)) = None"
proof -
  obtain out where "linewise_concat_line True (map Some (buf # bufs)) = Some (out, map (\<lambda>s. snd (split_line (the s))) (map Some (buf # bufs)))"
    using linewise_concat_line_Some [of "map Some (buf # bufs)" True] by auto
  then show ?thesis by (simp add: linewise_concat_loop.simps [of "Some buf # map Some bufs"] o_def del: linewise_concat_line.simps)
qed

lemma linewise_concat_loop_defined:
  "linewise_concat_loop (map Some (buf # bufs)) = None \<longleftrightarrow> (\<exists>b\<in>set bufs. line_ends b < line_ends buf)"
proof (induction "line_ends buf" arbitrary: buf bufs)
  case 0
  then have "snd (split_line buf) = None" using split_line_ends(1) [of buf] by simp
  then show ?case
    unfolding linewise_concat_loop_step by (simp add: linewise_concat_loop.simps 0 [symmetric])
next
  case (Suc n)
  define tail where "tail s = the (snd (split_line s))" for s
  have buf: "snd (split_line buf) = Some (tail buf)" "line_ends (tail buf) = n"
    using split_line_ends(2) [of buf] Suc.hyps(2) by (auto simp: tail_def)
  show ?case
  proof (cases "\<exists>b\<in>set bufs. line_ends b = 0")
    case True
    then obtain b where "b \<in> set bufs" "None = snd (split_line b)" using split_line_ends(1) by force
    then have "None \<in> set (map (\<lambda>s. snd (split_line s)) (buf # bufs))" by auto
    then have "linewise_concat_line True (map (\<lambda>s. snd (split_line s)) (buf # bufs)) = None"
      by (rule linewise_concat_line_None)
    then have "linewise_concat_loop (map (\<lambda>s. snd (split_line s)) (buf # bufs)) = None"
      using buf(1) by (simp add: linewise_concat_loop.simps [of "Some (tail buf) # _"])
    moreover have "\<exists>b\<in>set bufs. line_ends b < line_ends buf" using True Suc.hyps(2) by force
    ultimately show ?thesis unfolding linewise_concat_loop_step by simp
  next
    case False
    then have "snd (split_line b) = Some (tail b) \<and> line_ends (tail b) = line_ends b - 1 \<and> line_ends b \<noteq> 0" if "b \<in> set bufs" for b
      using split_line_ends(2) [of b] that by (auto simp: tail_def)
    note rest = this
    then have "map (\<lambda>s. snd (split_line s)) (buf # bufs) = map Some (tail buf # map tail bufs)"
      using buf(1) by simp
    then have "linewise_concat_loop (map Some (buf # bufs)) = None \<longleftrightarrow> (\<exists>b\<in>set bufs. line_ends (tail b) < n)"
      using Suc.hyps(1) [of "tail buf" "map tail bufs"] buf(2) by (simp only: linewise_concat_loop_step) auto
    also have "\<dots> \<longleftrightarrow> (\<exists>b\<in>set bufs. line_ends b < line_ends buf)"
      using rest Suc.hyps(2) by (metis Suc_less_eq diff_Suc_1 old.nat.exhaust)
    finally show ?thesis .
  qed
qed

text \<open>
  Printing buffers side by side comes to an end, without reading behind a null pointer, exactly when none of
  them has fewer lines than the first.
\<close>

theorem linewise_concat_defined:
  "(\<exists>out. linewise_concat (buf # bufs) = Some out) \<longleftrightarrow> (\<forall>b\<in>set bufs. line_ends buf \<le> line_ends b)"
  using linewise_concat_loop_defined [of buf bufs] by (auto simp: linewise_concat_def not_le not_less)

lemma linewise_concat_defined_witness: "\<not> (\<exists>out. linewise_concat [[newline, newline], [newline]] = Some out)"
  using linewise_concat_defined [of "[newline, newline]" "[[newline]]"] by (simp add: line_ends_def)

text \<open>Printing the groups side by side, one below the other.\<close>

lemma show_print_bufs_defined:
  assumes "0 < gc_entries_per_line gc" "gc_entries_per_line gc = 1 \<or> (\<forall>b\<in>set bufs. line_ends b = n)"
  shows "\<exists>out. show_print_bufs gc bufs = Some out"
proof -
  obtain groups where groups: "show_print_bufs_from gc bufs = Some groups" "concat groups = bufs"
      "\<forall>grp\<in>set groups. screen_group_ok gc grp"
    using show_print_bufs_groups [OF assms(1)] by blast
  have "\<exists>out. linewise_concat grp = Some out" if "grp \<in> set groups" for grp
  proof -
    have "grp \<noteq> []" using groups(3) that by (simp add: screen_group_ok_def)
    then obtain b bs where grp: "grp = b # bs" by (auto simp: neq_Nil_conv)
    have "bs = [] \<or> (\<forall>b'\<in>set grp. line_ends b' = n)"
      using assms(2) groups(2,3) that by (auto simp: screen_group_ok_def grp)
    then show ?thesis using linewise_concat_loop_defined [of b bs] by (auto simp: grp linewise_concat_def)
  qed
  then have "\<exists>out. foldr (\<lambda>group rest. case (linewise_concat group, rest) of (Some out, Some outs) \<Rightarrow> Some (out @ outs) | _ \<Rightarrow> None)
      groups (Some []) = Some out"
  proof (induction groups)
    case (Cons grp groups)
    then obtain outs where "foldr (\<lambda>group rest. case (linewise_concat group, rest) of (Some out, Some outs) \<Rightarrow> Some (out @ outs) | _ \<Rightarrow> None)
      groups (Some []) = Some outs" by auto
    moreover obtain out where "linewise_concat grp = Some out" using Cons.prems by auto
    ultimately show ?case by simp
  qed simp
  then show ?thesis by (simp add: show_print_bufs_def groups(1))
qed

lemma show_two_bufs:
  assumes "2 \<le> gc_entries_per_line gc" "get_multiline_buf_width b0 + get_multiline_buf_width b1 < gc_screen_width gc"
    "line_ends b1 < line_ends b0"
  shows "show_print_bufs gc [b0, b1] = None"
proof -
  have "get_entry_count_to_fit_screen gc [b0, b1] = 2" using assms(2) by (simp add: get_entry_count_to_fit_screen_def)
  then have "show_print_bufs_from gc [b0, b1] = Some [[b0, b1]]"
    using assms(1) by (simp add: show_print_bufs_from.simps [of gc "[b0, b1]"] show_print_bufs_from.simps [of gc "[]"])
  moreover have "linewise_concat [b0, b1] = None"
    using linewise_concat_loop_defined [of b0 "[b1]"] assms(3) by (simp add: linewise_concat_def)
  ultimately show ?thesis by (simp add: show_print_bufs_def)
qed

text \<open>The texts of entries: their lines hold no line ends and fit into the width.\<close>

definition short_text :: "nat \<Rightarrow> string \<Rightarrow> bool" where "short_text w s \<longleftrightarrow> newline \<notin> set s \<and> length s \<le> w"

lemma appstoplines_concat: "appstoplines buf w ls = buf @ concat (map (fmt_line w) ls)"
  by (induction ls rule: rev_induct) (simp_all add: appstoplines_def formatted_append_def)

lemma line_ends_append: "line_ends (s @ t) = line_ends s + line_ends t" by (simp add: line_ends_def)

lemma newline_not_space: "newline \<noteq> CHR '' ''"
proof -
  have "of_char newline \<noteq> (of_char (CHR '' '') :: nat)" by (simp add: newline_def)
  then show ?thesis by metis
qed

lemma line_ends_lines: "\<forall>s\<in>set ls. short_text w s \<Longrightarrow> line_ends (concat (map (fmt_line w) ls)) = length ls"
proof (induction ls)
  case (Cons s ls)
  then have "newline \<notin> set s" by (simp add: short_text_def)
  then have "filter (\<lambda>c. c = newline) s = []" by (auto simp: filter_empty_conv)
  then have "line_ends (fmt_line w s) = 1" using newline_not_space by (simp add: line_ends_def fmt_line_def)
  with Cons show ?case by (simp add: line_ends_append)
qed (simp add: line_ends_def)

lemma length_lines: "\<forall>s\<in>set ls. short_text w s \<Longrightarrow> length (concat (map (fmt_line w) ls)) = length ls * Suc w"
  by (induction ls) (auto simp: short_text_def fmt_line_def)

lemma width_lines:
  "\<forall>s\<in>set ls. short_text w s \<Longrightarrow> multiline_buf_width_loop (concat (map (fmt_line w) ls)) m = (if ls = [] then m else max m w)"
proof (induction ls arbitrary: m)
  case (Cons s ls)
  have "split_line (t @ newline # rest) = (t, Some rest)" if "newline \<notin> set t" for t rest
    using that by (induction t) (auto simp: split_line_Cons)
  from this [of "s @ replicate (w - length s) (CHR '' '')"]
  have "split_line (fmt_line w s @ rest) = (s @ replicate (w - length s) (CHR '' ''), Some rest)" for rest
    using Cons.prems newline_not_space by (simp add: fmt_line_def short_text_def)
  with Cons show ?case
    by (simp add: multiline_buf_width_loop.simps [of "fmt_line w s @ _"] short_text_def) (simp add: fmt_line_def)
qed (simp add: multiline_buf_width_loop.simps)

lemma fits_label: "\<forall>c\<in>set s. of_char c \<noteq> (10 :: nat) \<Longrightarrow> length s \<le> w \<Longrightarrow> short_text w s"
  by (force simp: short_text_def newline_def)

lemma fits_append: "short_text v s \<Longrightarrow> short_text w t \<Longrightarrow> v + w \<le> u \<Longrightarrow> short_text u (s @ t)" by (auto simp: short_text_def)

lemma fits_print_nat:
  assumes "2 \<le> base" "base \<le> 36" "n < base ^ Suc k"
  shows "short_text (Suc k) (print_nat base n)"
proof -
  have "newline \<notin> set (print_nat base n)"
    using print_nat_no_special [OF assms(1,2), of newline n] by (auto simp: digit_of_def newline_def)
  then show ?thesis using length_print_nat [OF assms(1,3)] by (simp add: short_text_def)
qed

lemma fits_hex_line:
  assumes "\<forall>c\<in>set label. of_char c \<noteq> (10 :: nat)" "length label + 16 \<le> w"
  shows "short_text w (hex_line label v)"
proof -
  have "unat v < 2 ^ LENGTH(64)" by (rule unsigned_less)
  then have "short_text (Suc 15) (print_nat 16 (unat v))" by (intro fits_print_nat) simp_all
  then show ?thesis using fits_append [OF fits_label [OF assms(1) order.refl]] assms(2) by (simp add: hex_line_def)
qed


section \<open>All tables\<close>

text \<open>Lines without line ends, for which at most \<open>L\<close> characters are printed.\<close>

definition takes :: "nat \<Rightarrow> nat \<Rightarrow> string list \<Rightarrow> bool" where
  "takes w L ls \<longleftrightarrow> (\<forall>s\<in>set ls. newline \<notin> set s) \<and> length (concat (map (fmt_line w) ls)) \<le> L"

lemma takes_Nil: "takes w L []" by (simp add: takes_def)

lemma takes_Cons: "short_text k s \<Longrightarrow> Suc (max w k) \<le> L \<Longrightarrow> takes w (L - Suc (max w k)) ls \<Longrightarrow> takes w L (s # ls)"
  by (auto simp: takes_def short_text_def fmt_line_def)

lemma takes_hex:
  "\<forall>c\<in>set label. of_char c \<noteq> (10 :: nat) \<Longrightarrow> Suc (max w (length label + 16)) \<le> L \<Longrightarrow>
   takes w (L - Suc (max w (length label + 16))) ls \<Longrightarrow> takes w L (hex_line label v # ls)"
  by (rule takes_Cons [OF fits_hex_line]) simp_all

lemma newline_neq: "of_char c \<noteq> (10 :: nat) \<Longrightarrow> newline \<noteq> c" by (auto simp: newline_def)

lemma fits_mac: "short_text 17 (mac_addr_sprintf v)"
proof -
  have "low_digit d \<noteq> newline" if "d < 16" for d
    using low_digit_facts(2) [OF that] by (auto simp: isspace_def newline_def)
  moreover have "unat b div 16 < 16" "unat b mod 16 < 16" for b :: u8
  proof -
    have "unat b < 2 ^ LENGTH(8)" by (rule unsigned_less)
    then have "unat b < 16 * 16" by simp
    then show "unat b div 16 < 16" "unat b mod 16 < 16" by (simp_all add: less_mult_imp_div_less)
  qed
  ultimately have octet: "newline \<notin> set (hex_octet b)" for b by (metis hex_octet_low list.set_cases set_ConsD empty_iff list.set(1))
  have colon: "newline \<noteq> CHR '':''" by (rule newline_neq) simp
  moreover have "length (hex_octet b) = 2" for b by (simp add: hex_octet_low)
  ultimately show ?thesis using octet by (simp add: mac_addr_sprintf_def short_text_def Let_def)
qed

lemma takes_mac:
  "\<forall>c\<in>set label. of_char c \<noteq> (10 :: nat) \<Longrightarrow> Suc (max w (length label + 17)) \<le> L \<Longrightarrow>
   takes w (L - Suc (max w (length label + 17))) ls \<Longrightarrow> takes w L ((label @ mac_addr_sprintf v) # ls)"
  by (rule takes_Cons [OF fits_append [OF fits_label [OF _ order.refl] fits_mac]]) simp_all

lemma fits_items: "short_text (19 * length vs) (print_array_items vs)"
proof (induction vs)
  case (Cons v vs)
  have "unat v < 16 ^ Suc 15" using unsigned_less [of v] by simp
  then have "short_text (Suc 15) (print_nat 16 (unat v))" by (intro fits_print_nat) simp_all
  moreover have "newline \<noteq> CHR ''0''" "newline \<noteq> CHR ''x''" "newline \<noteq> CHR '' ''" by (rule newline_neq; simp)+
  ultimately show ?case using Cons by (simp add: short_text_def print_array_items_def)
qed (simp add: print_array_items_def short_text_def)

lemma takes_array:
  "\<forall>c\<in>set label. of_char c \<noteq> (10 :: nat) \<Longrightarrow> n \<le> 8 \<Longrightarrow> Suc (max w (length label + (2 + 19 * n))) \<le> L \<Longrightarrow>
   takes w (L - Suc (max w (length label + (2 + 19 * n)))) ls \<Longrightarrow> takes w L ((label @ array_text (take n vs)) # ls)"
proof -
  assume n: "n \<le> 8"
  have "short_text (19 * n) (print_array_items (take n vs))"
    using fits_items [of "take n vs"] by (auto simp: short_text_def)
  moreover have "newline \<noteq> CHR ''[''" "newline \<noteq> CHR '']''" by (rule newline_neq; simp)+
  ultimately have "short_text (2 + 19 * n) (array_text (take n vs))"
    using n by (simp add: array_text_def print_array_def short_text_def)
  note arr = this
  show "\<forall>c\<in>set label. of_char c \<noteq> (10 :: nat) \<Longrightarrow> Suc (max w (length label + (2 + 19 * n))) \<le> L \<Longrightarrow>
      takes w (L - Suc (max w (length label + (2 + 19 * n)))) ls \<Longrightarrow> takes w L ((label @ array_text (take n vs)) # ls)"
    by (rule takes_Cons [OF fits_append [OF fits_label [OF _ order.refl] arr order.refl]])
qed

lemmas takes_lines = takes_hex takes_mac takes_array takes_Nil

text \<open>An entry is printed on \<open>n\<close> lines.\<close>

definition texts_ok :: "nat \<Rightarrow> ('e \<Rightarrow> nat) \<Rightarrow> (string \<Rightarrow> nat \<Rightarrow> 'e \<Rightarrow> string) \<Rightarrow> bool" where
  "texts_ok w n f \<longleftrightarrow> w \<le> 60 \<and>
     (\<forall>e. \<exists>ls. (\<forall>buf. f buf w e = appstoplines buf w ls) \<and> length ls = n e \<and> takes w 1900 ls)"

lemma texts_okI:
  "(\<And>e buf. f buf w e = appstoplines buf w (ls e)) \<Longrightarrow> (\<And>e. length (ls e) = n e) \<Longrightarrow> (\<And>e. takes w 1900 (ls e)) \<Longrightarrow>
   w \<le> 60 \<Longrightarrow> texts_ok w n f"
  unfolding texts_ok_def by blast

lemma line_ends_takes: "takes w L ls \<Longrightarrow> line_ends (concat (map (fmt_line w) ls)) = length ls"
proof (induction ls arbitrary: L)
  case (Cons s ls)
  then have "newline \<notin> set s" "takes w L ls" by (auto simp: takes_def)
  moreover from this(1) have "filter (\<lambda>c. c = newline) s = []" by (auto simp: filter_empty_conv)
  then have "line_ends (fmt_line w s) = 1" using newline_not_space by (simp add: line_ends_def fmt_line_def)
  ultimately show ?case using Cons.IH by (simp add: line_ends_append)
qed (simp add: line_ends_def)

lemma table_show_completes:
  assumes "texts_ok w n f" "0 < gc_entries_per_line gc" "0 \<le> entry_count m" "entry_count m \<le> int max_count" "max_count \<le> 10000"
    "gc_entries_per_line gc = 1 \<or> (\<forall>i < nat (entry_count m). n (entries m i) = n (entries m 0))"
  shows "\<exists>out. table_show max_count title w f gc m (- 1) = Some (0, out)"
proof -
  define entry_buf where "entry_buf i = formatted_append (f (formatted_append [] w (''Entry '' @ print_decimal i @ '':'')) w
            (entries m (nat i))) w []" for i
  have buf: "length (entry_buf i) < MAX_LINE_SIZE \<and> line_ends (entry_buf i) = 2 + n (entries m (nat i))"
    if i: "0 \<le> i" "i < entry_count m" for i
  proof -
    obtain ls where ls: "f buf w (entries m (nat i)) = appstoplines buf w ls" "length ls = n (entries m (nat i))" "takes w 1900 ls" for buf
      using assms(1) unfolding texts_ok_def by metis
    have "nat i < 10 ^ Suc 3" using i assms(4,5) by auto
    then have "short_text 4 (print_nat 10 (nat i))" using fits_print_nat [of 10 "nat i" 3] by simp
    then have "short_text (4 + 1) (print_nat 10 (nat i) @ '':'')" by (rule fits_append [where w = 1]) (simp_all add: fits_label)
    then have "short_text (6 + (4 + 1)) (''Entry '' @ (print_nat 10 (nat i) @ '':''))" by (rule fits_append [of 6, rotated]) (simp_all add: fits_label)
    then have head: "short_text 11 (''Entry '' @ print_decimal i @ '':'')" using i(1) by (simp add: print_decimal_def)
    have "entry_buf i = concat (map (fmt_line w) ((''Entry '' @ print_decimal i @ '':'') # ls @ [[]]))"
      by (simp add: entry_buf_def formatted_append_def ls(1) appstoplines_concat)
    moreover have "takes w 2047 ((''Entry '' @ print_decimal i @ '':'') # ls @ [[]])"
      using ls(3) head assms(1) by (auto simp: takes_def short_text_def fmt_line_def texts_ok_def)
    ultimately show ?thesis using line_ends_takes ls(2) by (fastforce simp: takes_def)
  qed
  show ?thesis
  proof (cases "entry_count m = 0")
    case True
    then show ?thesis by (simp add: table_show_def Let_def)
  next
    case False
    define idx where "idx = [0..entry_count m - 1]"
    have idx: "set idx = {0..<entry_count m}" by (auto simp: idx_def)
    have "line_ends (entry_buf i) = 2 + n (entries m 0)"
      if "\<forall>i < nat (entry_count m). n (entries m i) = n (entries m 0)" "i \<in> set idx" for i
    proof -
      have i: "0 \<le> i" "i < entry_count m" using that(2) by (simp_all add: idx)
      show ?thesis using buf [OF i] that(1) [rule_format, of "nat i"] i by simp
    qed
    then have "gc_entries_per_line gc = 1 \<or> (\<forall>b\<in>set (map entry_buf idx). line_ends b = 2 + n (entries m 0))"
      using assms(6) by auto
    from show_print_bufs_defined [OF assms(2) this] obtain out where "show_print_bufs gc (map entry_buf idx) = Some out" ..
    moreover have "list_all (\<lambda>buf. length buf < MAX_LINE_SIZE) (map entry_buf idx)"
      using buf by (simp add: list_all_iff idx)
    ultimately show ?thesis
      unfolding table_show_def Let_def entry_buf_def [abs_def, symmetric] using False assms(3,4) by (simp add: idx_def)
  qed
qed

lemma schedule_texts: "texts_ok 30 (\<lambda>_. 10) sja1105_schedule_entry_fmt_show"
  by (rule texts_okI, rule sja1105_schedule_entry_fmt_show_def, simp, intro takes_lines; simp)

lemma schedule_entry_points_texts: "texts_ok 30 (\<lambda>_. 3) sja1105_schedule_entry_points_entry_fmt_show"
  by (rule texts_okI, rule sja1105_schedule_entry_points_entry_fmt_show_def, simp, intro takes_lines; simp)

lemma vl_lookup_texts: "texts_ok 35 (\<lambda>e. if vll_format e = 0 then 6 else 4) sja1105_vl_lookup_entry_fmt_show"
proof (rule texts_okI [where ls = "\<lambda>entry. if vll_format entry = 0 then [hex_line ''DESTPORTS  0x'' (vll_destports entry), hex_line ''ISCRITICAL 0x'' (vll_iscritical entry), ''MACADDR    '' @ mac_addr_sprintf (vll_macaddr entry), hex_line ''VLANID     0x'' (vll_vlanid entry), hex_line ''PORT       0x'' (vll_port entry), hex_line ''VLANPRIOR  0x'' (vll_vlanprior entry)] else [hex_line ''EGRMIRR    0x'' (vll_egrmirr entry), hex_line ''INGRMIRR   0x'' (vll_ingrmirr entry), hex_line ''VLID       0x'' (vll_vlid entry), hex_line ''PORT       0x'' (vll_port entry)]"])
  fix e :: vl_lookup_entry and buf
  show "sja1105_vl_lookup_entry_fmt_show buf 35 e = appstoplines buf 35 ((\<lambda>entry. if vll_format entry = 0 then [hex_line ''DESTPORTS  0x'' (vll_destports entry), hex_line ''ISCRITICAL 0x'' (vll_iscritical entry), ''MACADDR    '' @ mac_addr_sprintf (vll_macaddr entry), hex_line ''VLANID     0x'' (vll_vlanid entry), hex_line ''PORT       0x'' (vll_port entry), hex_line ''VLANPRIOR  0x'' (vll_vlanprior entry)] else [hex_line ''EGRMIRR    0x'' (vll_egrmirr entry), hex_line ''INGRMIRR   0x'' (vll_ingrmirr entry), hex_line ''VLID       0x'' (vll_vlid entry), hex_line ''PORT       0x'' (vll_port entry)]) e)"
    by (simp add: sja1105_vl_lookup_entry_fmt_show_def appstoplines_def)
  show "length ((\<lambda>entry. if vll_format entry = 0 then [hex_line ''DESTPORTS  0x'' (vll_destports entry), hex_line ''ISCRITICAL 0x'' (vll_iscritical entry), ''MACADDR    '' @ mac_addr_sprintf (vll_macaddr entry), hex_line ''VLANID     0x'' (vll_vlanid entry), hex_line ''PORT       0x'' (vll_port entry), hex_line ''VLANPRIOR  0x'' (vll_vlanprior entry)] else [hex_line ''EGRMIRR    0x'' (vll_egrmirr entry), hex_line ''INGRMIRR   0x'' (vll_ingrmirr entry), hex_line ''VLID       0x'' (vll_vlid entry), hex_line ''PORT       0x'' (vll_port entry)]) e) = (\<lambda>e. if vll_format e = 0 then 6 else 4) e" by simp
  show "takes 35 1900 ((\<lambda>entry. if vll_format entry = 0 then [hex_line ''DESTPORTS  0x'' (vll_destports entry), hex_line ''ISCRITICAL 0x'' (vll_iscritical entry), ''MACADDR    '' @ mac_addr_sprintf (vll_macaddr entry), hex_line ''VLANID     0x'' (vll_vlanid entry), hex_line ''PORT       0x'' (vll_port entry), hex_line ''VLANPRIOR  0x'' (vll_vlanprior entry)] else [hex_line ''EGRMIRR    0x'' (vll_egrmirr entry), hex_line ''INGRMIRR   0x'' (vll_ingrmirr entry), hex_line ''VLID       0x'' (vll_vlid entry), hex_line ''PORT       0x'' (vll_port entry)]) e)"
    by (split if_split, intro conjI impI takes_lines; simp)
qed simp

lemma vl_policing_texts: "texts_ok 35 (\<lambda>e. if vlp_type e = 0 then 5 else 3) sja1105_vl_policing_entry_fmt_show"
proof (rule texts_okI [where ls = "\<lambda>entry. if vlp_type entry = 0 then [hex_line ''TYPE      0x'' (vlp_type entry), hex_line ''MAXLEN    0x'' (vlp_maxlen entry), hex_line ''SHARINDX  0x'' (vlp_sharindx entry), hex_line ''BAG       0x'' (vlp_bag entry), hex_line ''JITTER    0x'' (vlp_jitter entry)] else [hex_line ''TYPE      0x'' (vlp_type entry), hex_line ''MAXLEN    0x'' (vlp_maxlen entry), hex_line ''SHARINDX  0x'' (vlp_sharindx entry)]"])
  fix e :: vl_policing_entry and buf
  show "sja1105_vl_policing_entry_fmt_show buf 35 e = appstoplines buf 35 ((\<lambda>entry. if vlp_type entry = 0 then [hex_line ''TYPE      0x'' (vlp_type entry), hex_line ''MAXLEN    0x'' (vlp_maxlen entry), hex_line ''SHARINDX  0x'' (vlp_sharindx entry), hex_line ''BAG       0x'' (vlp_bag entry), hex_line ''JITTER    0x'' (vlp_jitter entry)] else [hex_line ''TYPE      0x'' (vlp_type entry), hex_line ''MAXLEN    0x'' (vlp_maxlen entry), hex_line ''SHARINDX  0x'' (vlp_sharindx entry)]) e)"
    by (simp add: sja1105_vl_policing_entry_fmt_show_def appstoplines_def)
  show "length ((\<lambda>entry. if vlp_type entry = 0 then [hex_line ''TYPE      0x'' (vlp_type entry), hex_line ''MAXLEN    0x'' (vlp_maxlen entry), hex_line ''SHARINDX  0x'' (vlp_sharindx entry), hex_line ''BAG       0x'' (vlp_bag entry), hex_line ''JITTER    0x'' (vlp_jitter entry)] else [hex_line ''TYPE      0x'' (vlp_type entry), hex_line ''MAXLEN    0x'' (vlp_maxlen entry), hex_line ''SHARINDX  0x'' (vlp_sharindx entry)]) e) = (\<lambda>e. if vlp_type e = 0 then 5 else 3) e" by simp
  show "takes 35 1900 ((\<lambda>entry. if vlp_type entry = 0 then [hex_line ''TYPE      0x'' (vlp_type entry), hex_line ''MAXLEN    0x'' (vlp_maxlen entry), hex_line ''SHARINDX  0x'' (vlp_sharindx entry), hex_line ''BAG       0x'' (vlp_bag entry), hex_line ''JITTER    0x'' (vlp_jitter entry)] else [hex_line ''TYPE      0x'' (vlp_type entry), hex_line ''MAXLEN    0x'' (vlp_maxlen entry), hex_line ''SHARINDX  0x'' (vlp_sharindx entry)]) e)"
    by (split if_split, intro conjI impI takes_lines; simp)
qed simp

lemma vl_forwarding_texts: "texts_ok 35 (\<lambda>_. 4) sja1105_vl_forwarding_entry_fmt_show"
  by (rule texts_okI, rule sja1105_vl_forwarding_entry_fmt_show_def, simp, intro takes_lines; simp)

lemma l2_lookup_texts: "texts_ok 30 (\<lambda>_. 5) sja1105_l2_lookup_entry_fmt_show"
  by (rule texts_okI, rule sja1105_l2_lookup_entry_fmt_show_def, simp, intro takes_lines; simp)

lemma l2_policing_texts: "texts_ok 20 (\<lambda>_. 5) sja1105_l2_policing_entry_fmt_show"
  by (rule texts_okI, rule sja1105_l2_policing_entry_fmt_show_def, simp, intro takes_lines; simp)

lemma vlan_lookup_texts: "texts_ok 20 (\<lambda>_. 6) sja1105_vlan_lookup_entry_fmt_show"
  by (rule texts_okI, rule sja1105_vlan_lookup_entry_fmt_show_def, simp, intro takes_lines; simp)

lemma l2_forwarding_texts: "texts_ok 45 (\<lambda>_. 4) sja1105_l2_forwarding_entry_fmt_show"
  by (rule texts_okI, rule sja1105_l2_forwarding_entry_fmt_show_def, simp, intro takes_lines; simp)

lemma mac_config_texts: "texts_ok 60 (\<lambda>_. 26) sja1105_mac_config_entry_fmt_show"
  by (rule texts_okI, rule sja1105_mac_config_entry_fmt_show_def, simp, intro takes_lines; simp)

lemma schedule_params_texts: "texts_ok 50 (\<lambda>_. 1) sja1105_schedule_params_entry_fmt_show"
  by (rule texts_okI, rule sja1105_schedule_params_entry_fmt_show_def, simp, intro takes_lines; simp)

lemma schedule_entry_points_params_texts: "texts_ok 30 (\<lambda>_. 2) sja1105_schedule_entry_points_params_entry_fmt_show"
  by (rule texts_okI, rule sja1105_schedule_entry_points_params_entry_fmt_show_def, simp, intro takes_lines; simp)

lemma vl_forwarding_params_texts: "texts_ok 50 (\<lambda>_. 2) sja1105_vl_forwarding_params_entry_fmt_show"
  by (rule texts_okI, rule sja1105_vl_forwarding_params_entry_fmt_show_def, simp, intro takes_lines; simp)

lemma l2_lookup_params_texts: "texts_ok 30 (\<lambda>_. 6) sja1105_l2_lookup_params_entry_fmt_show"
  by (rule texts_okI, rule sja1105_l2_lookup_params_entry_fmt_show_def, simp, intro takes_lines; simp)

lemma l2_forwarding_params_texts: "texts_ok 50 (\<lambda>_. 2) sja1105_l2_forwarding_params_entry_fmt_show"
  by (rule texts_okI, rule sja1105_l2_forwarding_params_entry_fmt_show_def, simp, intro takes_lines; simp)

lemma avb_params_texts: "texts_ok 35 (\<lambda>_. 2) sja1105_avb_params_entry_fmt_show"
  by (rule texts_okI, rule sja1105_avb_params_entry_fmt_show_def, simp, intro takes_lines; simp)

lemma general_params_texts: "texts_ok 30 (\<lambda>_. 20) sja1105_general_params_entry_fmt_show"
  by (rule texts_okI, rule sja1105_general_params_entry_fmt_show_def, simp, intro takes_lines; simp)

lemma xmii_params_texts: "texts_ok 35 (\<lambda>_. 2) sja1105_xmii_params_entry_fmt_show"
  by (rule texts_okI, rule sja1105_xmii_params_entry_fmt_show_def, simp, intro takes_lines; simp)

lemma sgmii_texts: "texts_ok 35 (\<lambda>_. 8) sja1105_sgmii_entry_fmt_show"
  by (rule texts_okI, rule sja1105_sgmii_entry_fmt_show_def, simp, intro takes_lines; simp)

lemmas texts_ok_tables =
  schedule_texts schedule_entry_points_texts vl_lookup_texts vl_policing_texts vl_forwarding_texts l2_lookup_texts l2_policing_texts vlan_lookup_texts l2_forwarding_texts mac_config_texts schedule_params_texts schedule_entry_points_params_texts vl_forwarding_params_texts l2_lookup_params_texts l2_forwarding_params_texts avb_params_texts general_params_texts xmii_params_texts sgmii_texts

text \<open>
  Entries of a table that are printed side by side have equally many lines: one entry is printed to a line, or all
  entries are of one kind.
\<close>

definition one_kind :: "('e \<Rightarrow> bool) \<Rightarrow> 'e static_config_member \<Rightarrow> bool" where
  "one_kind kind m \<longleftrightarrow> (\<forall>i < nat (entry_count m). kind (entries m i) = kind (entries m 0))"

lemmas table_show_defs =
  schedule_table_show_def schedule_entry_points_table_show_def l2_lookup_table_show_def l2_policing_table_show_def vlan_lookup_table_show_def l2_forwarding_table_show_def mac_config_table_show_def schedule_params_table_show_def schedule_entry_points_params_table_show_def l2_lookup_params_table_show_def l2_forwarding_params_table_show_def general_params_table_show_def xmii_params_table_show_def sgmii_table_show_def vl_lookup_table_show_def vl_policing_table_show_def vl_forwarding_table_show_def avb_params_table_show_def vl_forwarding_params_table_show_def clock_sync_params_table_show_def

lemma all_tables_complete:
  assumes "0 < gc_entries_per_line gc" "counts_within c"
    "gc_entries_per_line gc = 1 \<or>
     one_kind (\<lambda>e. vll_format e = 0) (cfg_vl_lookup c) \<and> one_kind (\<lambda>e. vlp_type e = 0) (cfg_vl_policing c)"
    "shw \<in> set next_config_table_show"
  shows "\<exists>out. shw gc c (- 1) = Some (0, out)"
proof -
  note counts = assms(2) [unfolded counts_within_def]
  have kinds: "gc_entries_per_line gc = 1 \<or> (\<forall>i < nat (entry_count (cfg_vl_lookup c)).
      (if vll_format (entries (cfg_vl_lookup c) i) = 0 then 6 else 4) = (if vll_format (entries (cfg_vl_lookup c) 0) = 0 then 6 else 4 :: nat))"
    "gc_entries_per_line gc = 1 \<or> (\<forall>i < nat (entry_count (cfg_vl_policing c)).
      (if vlp_type (entries (cfg_vl_policing c) i) = 0 then 5 else 3) = (if vlp_type (entries (cfg_vl_policing c) 0) = 0 then 5 else 3 :: nat))"
    using assms(3) by (auto simp: one_kind_def)
  have "list_all (\<lambda>shw. \<exists>out. shw gc c (- 1) = Some (0, out)) next_config_table_show"
    by (simp only: next_config_table_show_def list.pred_inject simp_thms, intro conjI; unfold table_show_defs;
      (rule exI, rule refl | rule table_show_completes, rule texts_ok_tables, rule assms(1);
        insert counts kinds; simp))
  then show ?thesis using assms(4) by (simp add: list_all_iff)
qed


lemma show_tables_complete:
  "\<forall>shw\<in>set fs. \<exists>out. shw gc c (- 1) = Some (0, out) \<Longrightarrow> \<exists>out. show_tables fs gc c 0 = Some (0, out)"
proof (induction fs)
  case (Cons shw fs)
  then obtain out outs where "shw gc c (- 1) = Some (0, out)" "show_tables fs gc c 0 = Some (0, outs)" by auto
  then show ?case by simp
qed simp

text \<open>
  Printing the whole configuration comes to an end without an error, for any contents of the tables, when one entry
  is printed to a line, or when the entries of the two tables whose texts have different numbers of lines are of one kind.
\<close>

lemma staging_area_show_completes:
  assumes "0 < gc_entries_per_line gc" "counts_within (sa_static_config area)"
    "gc_entries_per_line gc = 1 \<or>
     one_kind (\<lambda>e. vll_format e = 0) (cfg_vl_lookup (sa_static_config area)) \<and>
     one_kind (\<lambda>e. vlp_type e = 0) (cfg_vl_policing (sa_static_config area))"
  shows "\<exists>out. sja1105_staging_area_show index0 gc area None = Some (0, out)"
  using show_tables_complete [of next_config_table_show gc "sa_static_config area"] all_tables_complete [OF assms]
  by (auto simp: sja1105_staging_area_show_def)


end
