(* ===== verification/Commands.thy ===== *)
theory Commands
  imports Staging_Area Tool_Config Default_Config Xml_Write Show
begin

unbundle bit_operations_syntax

text \<open>
  The command line of the tool: \<^verbatim>\<open>src/tool/main.c\<close>, \<^verbatim>\<open>parse-config.c\<close>, \<^verbatim>\<open>parse-reset.c\<close>, \<^verbatim>\<open>parse-status.c\<close> and
  \<^verbatim>\<open>raw-access.c\<close>, and how the status is printed. Messages and usage texts are not modelled; what a command prints
  as its result is. An access behind the arguments or behind a table makes the result \<open>None\<close>.
\<close>

section \<open>Printing the status\<close>

definition dec_line :: "string \<Rightarrow> u64 \<Rightarrow> string" where
  "dec_line label v = label @ print_nat 10 (unat v)"

text \<open>The lines that are printed for every device.\<close>

definition port_status_lines :: "port_status \<Rightarrow> int \<Rightarrow> string list" where
  "port_status_lines status port =
       [''Port '' @ print_decimal port,
        [],
        ''MAC-Level Diagnostic Counters'',
        dec_line ''N_RUNT          '' (ps_n_runt status),
        dec_line ''N_SOFERR        '' (ps_n_soferr status),
        dec_line ''N_ALIGNERR      '' (ps_n_alignerr status),
        dec_line ''N_MIIERR        '' (ps_n_miierr status),
        [],
        ''MAC-Level Diagnostic Flags'',
        hex_line ''TYPEERR         '' (ps_typeerr status),
        hex_line ''SIZEERR         '' (ps_sizeerr status),
        hex_line ''TCTIMEOUT       '' (ps_tctimeout status),
        hex_line ''PRIORERR        '' (ps_priorerr status),
        hex_line ''NOMASTER        '' (ps_nomaster status),
        hex_line ''MEMOV           '' (ps_memov status),
        hex_line ''MEMERR          '' (ps_memerr status),
        hex_line ''INVTYP          '' (ps_invtyp status),
        hex_line ''INTCYOV         '' (ps_intcyov status),
        hex_line ''DOMERR          '' (ps_domerr status),
        hex_line ''PCFBAGDROP      '' (ps_pcfbagdrop status),
        hex_line ''SPCPRIOR        '' (ps_spcprior status),
        hex_line ''AGEPRIOR        '' (ps_ageprior status),
        hex_line ''PORTDROP        '' (ps_portdrop status),
        hex_line ''LENDROP         '' (ps_lendrop status),
        hex_line ''BAGDROP         '' (ps_bagdrop status),
        hex_line ''POLICEERR       '' (ps_policeerr status),
        hex_line ''DRPNON664ERR    '' (ps_drpnona664err status),
        hex_line ''SPCERR          '' (ps_spcerr status),
        hex_line ''AGEDRP          '' (ps_agedrp status),
        [],
        ''High-Level Diagnostic Counters'',
        dec_line ''N_N664ERR       '' (ps_n_n664err status),
        dec_line ''N_VLANERR       '' (ps_n_vlanerr status),
        dec_line ''N_UNRELEASED    '' (ps_n_unreleased status),
        dec_line ''N_SIZERR        '' (ps_n_sizerr status),
        dec_line ''N_CRCERR        '' (ps_n_crcerr status),
        dec_line ''N_VLNOTFOUND    '' (ps_n_vlnotfound status),
        dec_line ''N_BEPOLERR      '' (ps_n_bepolerr status),
        dec_line ''N_POLERR        '' (ps_n_polerr status),
        dec_line ''N_RXFRM         '' (ps_n_rxfrm status),
        dec_line ''N_RXBYTE        '' (ps_n_rxbyte status),
        dec_line ''N_TXFRM         '' (ps_n_txfrm status),
        dec_line ''N_TXBYTE        '' (ps_n_txbyte status),
        dec_line ''N_QFULL         '' (ps_n_qfull status),
        dec_line ''N_PART_DROP     '' (ps_n_part_drop status),
        dec_line ''N_EGR_DISABLED  '' (ps_n_egr_disabled status),
        dec_line ''N_NOT_REACH     '' (ps_n_not_reach status),
        []]"

definition port_level_lines :: "port_status \<Rightarrow> nat \<Rightarrow> string list" where
  "port_level_lines status i =
     [''QLEVEL_HWM_'' @ print_nat 10 i @ ''   '' @ print_nat 10 (unat (ps_qlevel_hwm status ! i)),
      ''QLEVEL_'' @ print_nat 10 i @ ''       '' @ print_nat 10 (unat (ps_qlevel status ! i))]"

definition sja1105_port_status_show :: "port_status \<Rightarrow> int \<Rightarrow> string \<Rightarrow> u64 \<Rightarrow> string" where
  "sja1105_port_status_show status port print_buf device_id =
     (let print_buf = appstoplines print_buf 30 (port_status_lines status port)
      in if \<not> IS_PQRS device_id then print_buf
         else
           let print_buf = appstoplines print_buf 30 [''Queue Levels''];
               print_buf = foldl (\<lambda>print_buf i. appstoplines print_buf 30 (port_level_lines status i)) print_buf [0..<8]
           in appstoplines print_buf 30 [[]])"

definition sja1105_general_status_show :: "general_status \<Rightarrow> u64 \<Rightarrow> string" where
  "sja1105_general_status_show status device_id =
     concat (map (\<lambda>line. line @ [newline])
       ([hex_line ''CONFIGS    '' (gs_configs status),
         hex_line ''CRCCHKL    '' (gs_crcchkl status),
         hex_line ''IDS        '' (gs_ids status),
         hex_line ''CRCCHKG    '' (gs_crcchkg status),
         hex_line ''NSLOT      '' (gs_nslot status),
         hex_line ''VLIND      '' (gs_vlind status),
         hex_line ''VLPARIND   '' (gs_vlparind status),
         hex_line ''VLROUTES   '' (gs_vlroutes status),
         hex_line ''VLPARTS    '' (gs_vlparts status),
         hex_line ''MACADDL    '' (gs_macaddl status),
         hex_line ''PORTENF    '' (gs_portenf status),
         hex_line ''FWDS_03h   '' (gs_fwds_03h status),
         hex_line ''MACFDS     '' (gs_macfds status),
         hex_line ''ENFFDS     '' (gs_enffds status),
         hex_line ''L2BUSYFDS  '' (gs_l2busyfds status),
         hex_line ''L2BUSYS    '' (gs_l2busys status),
         hex_line ''MACADDU    '' (gs_macaddu status),
         hex_line ''MACADDHCL  '' (gs_macaddhcl status),
         hex_line ''VLANIDHC   '' (gs_vlanidhc status),
         hex_line ''HASHCONFS  '' (gs_hashconfs status),
         hex_line ''MACADDHCU  '' (gs_macaddhcu status),
         hex_line ''WPVLANID   '' (gs_wpvlanid status),
         hex_line ''PORT_07h   '' (gs_port_07h status),
         hex_line ''VLAN_BUSYS '' (gs_vlanbusys status),
         hex_line ''WRONGPORTS '' (gs_wrongports status),
         hex_line ''VNOTFOUNDS '' (gs_vnotfounds status),
         hex_line ''VLID       '' (gs_vlid status),
         hex_line ''PORTVL     '' (gs_portvl status),
         hex_line ''VLNOTFOUND '' (gs_vlnotfound status),
         hex_line ''EMPTYS     '' (gs_emptys status),
         hex_line ''BUFFERS    '' (gs_buffers status)] @
        (if IS_PQRS device_id then [hex_line ''BUFLWMARK  '' (gs_buflwmark status)] else []) @
        [hex_line ''PORT_0Ah   '' (gs_port_0ah status),
         hex_line ''FWDS_0Ah   '' (gs_fwds_0ah status),
         hex_line ''PARTS      '' (gs_parts status),
         hex_line ''RAMPARERRL '' (gs_ramparerrl status),
         hex_line ''RAMPARERRU '' (gs_ramparerru status)]))"

section \<open>The surroundings of a command\<close>

text \<open>
  What is around a command besides the kernel: the contents of fresh memory and of uninitialised variables, the XML
  library, and the configuration files of the tool by their names.
\<close>

record tool_env =
  te_heap :: "nat \<Rightarrow> u8"
  te_stack :: "u8 list"
  te_word :: u64
  te_area :: sja1105_staging_area
  te_get_string :: node_string
  te_xml_root :: "string \<Rightarrow> xml_node option"
  te_xml_writer :: xml_writer
  te_config_file :: "string \<Rightarrow> string option"
  te_settings :: settings
  te_rc :: int

text \<open>What a command leaves: its return code, the settings, the text printed and the XML document written.\<close>

record outcome =
  oc_rc :: int
  oc_setup :: sja1105_spi_setup
  oc_out :: string
  oc_xml :: xml_history

definition finish :: "int \<Rightarrow> sja1105_spi_setup \<Rightarrow> string \<Rightarrow> outcome option io" where
  "finish rc spi_setup out = io_return (Some \<lparr>oc_rc = rc, oc_setup = spi_setup, oc_out = out, oc_xml = []\<rparr>)"

type_synonym command = "kernel \<Rightarrow> tool_env \<Rightarrow> general_config \<Rightarrow> sja1105_spi_setup \<Rightarrow> string list \<Rightarrow> outcome option io"

section \<open>config\<close>

definition get_flush_mode :: "sja1105_spi_setup \<Rightarrow> string list \<Rightarrow> sja1105_spi_setup \<times> string list" where
  "get_flush_mode spi_setup argv =
     (case argv of
        [] \<Rightarrow> (spi_setup, argv)
      | arg # rest \<Rightarrow> if arg = ''-f'' \<or> arg = ''--flush'' then (spi_setup\<lparr>sp_flush := 1\<rparr>, rest) else (spi_setup, argv))"

text \<open>
  The end of \<^verbatim>\<open>load\<close>, \<^verbatim>\<open>default\<close> and \<^verbatim>\<open>modify\<close>: the staging area is saved, and flushed on request. They differ in the
  error for a device that cannot be opened.
\<close>

definition config_store ::
    "kernel \<Rightarrow> tool_env \<Rightarrow> sja1105_spi_setup \<Rightarrow> sja1105_staging_area \<Rightarrow> int \<Rightarrow> outcome option io" where
  "config_store k env spi_setup staging_area hw_error = do {
     saved \<leftarrow> staging_area_save k (te_heap env) (sp_staging_area spi_setup) staging_area;
     case saved of
       None \<Rightarrow> io_return None
     | Some (rc, staging_area) \<Rightarrow>
         if rc < 0 then finish (sja1105_err_remap rc SJA1105_ERR_FILESYSTEM) spi_setup []
         else if sp_flush spi_setup = 0 then finish (sja1105_err_remap rc SJA1105_ERR_OK) spi_setup []
         else do {
           (rc, spi_setup) \<leftarrow> sja1105_spi_configure k spi_setup;
           if rc < 0 then finish (sja1105_err_remap rc hw_error) spi_setup []
           else do {
             flushed \<leftarrow> staging_area_flush k (te_heap env) (te_stack env) spi_setup staging_area;
             case flushed of
               None \<Rightarrow> io_return None
             | Some (rc, _) \<Rightarrow>
                 if rc < 0 then
                   finish (sja1105_err_remap rc SJA1105_ERR_UPLOAD_FAILED_HW_LEFT_FLOATING_STAGING_AREA_DIRTY) spi_setup []
                 else finish (sja1105_err_remap rc SJA1105_ERR_OK) spi_setup []
           }
         }
   }"

text \<open>The staging area is loaded from its file; an error is returned as it is.\<close>

definition config_with_area ::
    "kernel \<Rightarrow> tool_env \<Rightarrow> sja1105_spi_setup \<Rightarrow> (sja1105_staging_area \<Rightarrow> outcome option io) \<Rightarrow> outcome option io" where
  "config_with_area k env spi_setup f = do {
     loaded \<leftarrow> staging_area_load k (te_heap env) (sp_staging_area spi_setup) (te_area env);
     case loaded of
       None \<Rightarrow> io_return None
     | Some (rc, staging_area) \<Rightarrow> if rc < 0 then finish rc spi_setup [] else f staging_area
   }"

abbreviation (input) parse_error :: "sja1105_spi_setup \<Rightarrow> outcome option io" where
  "parse_error spi_setup \<equiv> finish (- SJA1105_ERR_CMDLINE_PARSE) spi_setup []"

definition config_load :: command where
  "config_load k env gc spi_setup0 argv0 =
     (let (spi_setup, argv) = get_flush_mode spi_setup0 argv0
      in case argv of
           [xml_file] \<Rightarrow>
             (case sja1105_staging_area_from_xml (te_get_string env) (te_xml_root env) xml_file (te_area env) of
                None \<Rightarrow> io_return None
              | Some (rc, staging_area) \<Rightarrow>
                  if rc < 0 then finish (sja1105_err_remap rc SJA1105_ERR_INVALID_XML) spi_setup []
                  else config_store k env spi_setup staging_area SJA1105_ERR_HW_NOT_RESPONDING)
         | _ \<Rightarrow> parse_error spi_setup)"

definition config_save :: command where
  "config_save k env gc spi_setup argv =
     (case argv of
        [xml_file] \<Rightarrow> config_with_area k env spi_setup (\<lambda>staging_area.
          case run_state (sja1105_staging_area_to_xml (te_xml_writer env) xml_file staging_area) [] of
            (None, doc) \<Rightarrow> io_return None
          | (Some rc, doc) \<Rightarrow>
              io_return (Some \<lparr>oc_rc = if rc < 0 then sja1105_err_remap rc SJA1105_ERR_INVALID_XML
                                    else sja1105_err_remap rc SJA1105_ERR_OK,
                oc_setup = spi_setup, oc_out = [], oc_xml = doc\<rparr>))
      | _ \<Rightarrow> parse_error spi_setup)"

definition config_default :: command where
  "config_default k env gc spi_setup0 argv0 =
     (let (spi_setup, argv) = get_flush_mode spi_setup0 argv0
      in case argv of
           [name] \<Rightarrow>
             (let m = get_match name [''ls1021atsn'']
              in if m < 0 then parse_error spi_setup
                 else case sja1105_default_staging_area (te_area env) ([LS1021ATSN] ! nat m) of
                        None \<Rightarrow> io_return None
                      | Some (rc, staging_area) \<Rightarrow>
                          if rc < 0 then finish (sja1105_err_remap rc SJA1105_ERR_STAGING_AREA_INVALID) spi_setup []
                          else config_store k env spi_setup staging_area SJA1105_ERR_HW_NOT_RESPONDING_STAGING_AREA_DIRTY)
         | _ \<Rightarrow> parse_error spi_setup)"

definition config_upload :: command where
  "config_upload k env gc spi_setup argv =
     (if argv \<noteq> [] then parse_error spi_setup
      else config_with_area k env spi_setup (\<lambda>staging_area. do {
        (rc, spi_setup) \<leftarrow> sja1105_spi_configure k spi_setup;
        if rc < 0 then finish (sja1105_err_remap rc SJA1105_ERR_HW_NOT_RESPONDING) spi_setup []
        else do {
          flushed \<leftarrow> staging_area_flush k (te_heap env) (te_stack env) spi_setup staging_area;
          case flushed of
            None \<Rightarrow> io_return None
          | Some (rc, _) \<Rightarrow> finish (if rc < 0 then rc else sja1105_err_remap rc SJA1105_ERR_OK) spi_setup []
        }
      }))"

definition config_modify :: command where
  "config_modify k env gc spi_setup0 argv0 =
     (let (spi_setup, argv) = get_flush_mode spi_setup0 argv0
      in config_with_area k env spi_setup (\<lambda>staging_area.
           case staging_area_modify_parse (te_word env) (te_word env) staging_area argv of
             None \<Rightarrow> io_return None
           | Some (rc, staging_area) \<Rightarrow>
               if rc < 0 then finish rc spi_setup []
               else config_store k env spi_setup staging_area SJA1105_ERR_HW_NOT_RESPONDING_STAGING_AREA_DIRTY))"

text \<open>With two arguments of which the first is no option, the identifier stays 0.\<close>

definition config_new :: command where
  "config_new k env gc spi_setup argv =
     (let save = (\<lambda>device_id. do {
            saved \<leftarrow> staging_area_save k (te_heap env) (sp_staging_area spi_setup)
              \<lparr>sa_static_config = static_config_zero\<lparr>cfg_device_id := device_id\<rparr>\<rparr>;
            case saved of
              None \<Rightarrow> io_return None
            | Some (rc, _) \<Rightarrow>
                finish (if rc < 0 then sja1105_err_remap rc SJA1105_ERR_FILESYSTEM
                        else sja1105_err_remap rc SJA1105_ERR_OK) spi_setup []
          })
      in case argv of
           [] \<Rightarrow> save SJA1105T_DEVICE_ID
         | [option_name, device_id] \<Rightarrow>
             if matches option_name ''-d'' = 0 \<or> matches option_name ''--device-id'' = 0 then
               (case reliable_uint64_from_string device_id of
                  (rc, v, _) \<Rightarrow>
                    if rc < 0 then parse_error spi_setup
                    else save (case v of None \<Rightarrow> 0 | Some v \<Rightarrow> v))
             else save 0
         | _ \<Rightarrow> parse_error spi_setup)"

definition config_show :: command where
  "config_show k env gc spi_setup argv =
     (let show = (\<lambda>name. config_with_area k env spi_setup (\<lambda>staging_area.
            case sja1105_staging_area_show (te_word env) gc staging_area name of
              None \<Rightarrow> io_return None
            | Some (rc, out) \<Rightarrow>
                finish (if rc < 0 then sja1105_err_remap rc SJA1105_ERR_STAGING_AREA_INVALID
                        else sja1105_err_remap rc SJA1105_ERR_OK) spi_setup out))
      in case argv of
           [] \<Rightarrow> show None
         | [table_name] \<Rightarrow> show (Some table_name)
         | _ \<Rightarrow> parse_error spi_setup)"

definition config_hexdump :: command where
  "config_hexdump k env gc spi_setup argv =
     (if argv \<noteq> [] then parse_error spi_setup
      else do {
        dumped \<leftarrow> staging_area_hexdump k (te_heap env) (sp_staging_area spi_setup);
        case dumped of
          None \<Rightarrow> io_return None
        | Some rc \<Rightarrow> finish (if rc < 0 then rc else sja1105_err_remap rc SJA1105_ERR_OK) spi_setup []
      })"

definition config_options :: "string list" where
  "config_options = [''help'', ''load'', ''save'', ''default'', ''modify'', ''new'', ''upload'', ''show'', ''hexdump'']"

definition config_parse_args :: command where
  "config_parse_args k env gc spi_setup argv =
     (case argv of
        [] \<Rightarrow> parse_error spi_setup
      | cmd # argv \<Rightarrow>
          (let m = get_match cmd config_options
           in if m < 0 then parse_error spi_setup
              else if config_options ! nat m = ''help'' then finish (- SJA1105_ERR_OK) spi_setup []
              else if config_options ! nat m = ''load'' then config_load k env gc spi_setup argv
              else if config_options ! nat m = ''save'' then config_save k env gc spi_setup argv
              else if config_options ! nat m = ''default'' then config_default k env gc spi_setup argv
              else if config_options ! nat m = ''upload'' then config_upload k env gc spi_setup argv
              else if config_options ! nat m = ''modify'' then config_modify k env gc spi_setup argv
              else if config_options ! nat m = ''new'' then config_new k env gc spi_setup argv
              else if config_options ! nat m = ''show'' then config_show k env gc spi_setup argv
              else if config_options ! nat m = ''hexdump'' then config_hexdump k env gc spi_setup argv
              else parse_error spi_setup))"

section \<open>reset\<close>

definition rgu_parse_args :: command where
  "rgu_parse_args k env gc spi_setup argv =
     (case argv of
        [] \<Rightarrow> finish (- EINVAL) spi_setup []
      | arg # _ \<Rightarrow>
          (let m = get_match arg [''core'', ''config'', ''clocking'', ''otp'', ''warm'', ''cold'', ''por'']
           in if m < 0 then finish (- EINVAL) spi_setup []
              else do {
                (rc, spi_setup) \<leftarrow> sja1105_spi_configure k spi_setup;
                if rc < 0 then finish rc spi_setup []
                else do {
                  rc \<leftarrow> ([sja1105_switch_core_reset, sja1105_config_reset, sja1105_clocking_reset, sja1105_otp_reset,
                     sja1105_warm_reset, sja1105_cold_reset, sja1105_por_reset] ! nat m) k spi_setup;
                  finish rc spi_setup []
                }
              }))"

section \<open>status\<close>

text \<open>The loop over the ports that are left.\<close>

fun status_texts :: "kernel \<Rightarrow> sja1105_spi_setup \<Rightarrow> nat list \<Rightarrow> int \<Rightarrow> (int \<times> string list) io" where
  "status_texts k spi_setup [] rc = io_return (rc, [])"
| "status_texts k spi_setup (i # ports) rc = do {
     (rc, status) \<leftarrow> sja1105_port_status_get k spi_setup i;
     if rc < 0 then io_return (rc, [])
     else do {
       (rc, print_buf) \<leftarrow> status_texts k spi_setup ports rc;
       io_return (rc, sja1105_port_status_show status (int i) [] (sp_device_id spi_setup) # print_buf)
     }
   }"

text \<open>The base addresses of a port are read from tables with five elements.\<close>

definition status_ports :: "kernel \<Rightarrow> sja1105_spi_setup \<Rightarrow> int \<Rightarrow> (int \<times> string) option io" where
  "status_ports k spi_setup port_no =
     (if port_no = - 1 then do {
        (rc, print_buf) \<leftarrow> status_texts k spi_setup [0..<5] 0;
        io_return (if rc < 0 then Some (rc, [])
                   else map_option (\<lambda>out. (rc, out)) (linewise_concat print_buf))
      }
      else if port_no < 0 \<or> 5 \<le> port_no then io_return None
      else do {
        (rc, status) \<leftarrow> sja1105_port_status_get k spi_setup (nat port_no);
        io_return (Some (rc, if rc < 0 then []
          else sja1105_port_status_show status port_no [] (sp_device_id spi_setup) @ [newline]))
      })"

definition status_general :: command where
  "status_general k env gc spi_setup argv = do {
     (rc, spi_setup) \<leftarrow> sja1105_spi_configure k spi_setup;
     if rc < 0 then finish rc spi_setup []
     else do {
       (rc, status) \<leftarrow> sja1105_general_status_get k spi_setup general_status_zero;
       if rc < 0 then finish rc spi_setup []
       else finish 0 spi_setup (sja1105_general_status_show status (sp_device_id spi_setup))
     }
   }"

definition status_command ::
    "kernel \<Rightarrow> sja1105_spi_setup \<Rightarrow> bool \<Rightarrow> int \<Rightarrow> outcome option io" where
  "status_command k spi_setup clear port_no = do {
     (rc, spi_setup) \<leftarrow> sja1105_spi_configure k spi_setup;
     if rc < 0 then finish rc spi_setup []
     else if clear then
       if port_no < - 1 then io_return None
       else do {
         rc \<leftarrow> sja1105_port_status_clear k spi_setup port_no;
         finish (if rc < 0 then rc else 0) spi_setup []
       }
     else do {
       shown \<leftarrow> status_ports k spi_setup port_no;
       case shown of
         None \<Rightarrow> io_return None
       | Some (rc, out) \<Rightarrow> finish (if rc < 0 then rc else 0) spi_setup out
     }
   }"

definition status_parse_args :: command where
  "status_parse_args k env gc spi_setup argv =
     (case argv of
        [] \<Rightarrow> finish (- EINVAL) spi_setup []
      | arg # rest \<Rightarrow>
          (let m = get_match arg [''general'', ''ports'']
           in if m < 0 then finish (- EINVAL) spi_setup []
              else if m = 0 then status_general k env gc spi_setup argv
              else
                let clear = (rest \<noteq> [] \<and> matches (hd rest) ''clear'' = 0);
                    ports = (if clear then tl rest else rest)
                in case ports of
                     [] \<Rightarrow> status_command k spi_setup clear (- 1)
                   | [port] \<Rightarrow>
                       (case reliable_uint64_from_string port of
                          (rc, tmp, _) \<Rightarrow>
                            if rc < 0 then finish rc spi_setup []
                            else status_command k spi_setup clear
                              (to_int (case tmp of None \<Rightarrow> te_word env | Some tmp \<Rightarrow> tmp)))
                   | _ \<Rightarrow> finish (- EINVAL) spi_setup []))"

section \<open>reg\<close>

definition reg_line :: "u64 \<Rightarrow> u64 \<Rightarrow> string" where
  "reg_line address data = ''0x'' @ hex8 address @ '': '' @ hex8 data @ [newline]"

definition reg_number :: "u64 \<Rightarrow> string \<Rightarrow> int \<times> u64" where
  "reg_number word arg =
     (case reliable_uint64_from_string arg of (rc, v, _) \<Rightarrow> (rc, case v of None \<Rightarrow> word | Some v \<Rightarrow> v))"

text \<open>The loop over the registers, of which \<open>left\<close> are left.\<close>

fun reg_dump_loop :: "kernel \<Rightarrow> sja1105_spi_setup \<Rightarrow> u64 \<Rightarrow> u64 \<Rightarrow> nat \<Rightarrow> u64 \<Rightarrow> (int \<times> string) io" where
  "reg_dump_loop k spi_setup address data 0 i = io_return (0, [])"
| "reg_dump_loop k spi_setup address data (Suc left) i = do {
     (rc, v) \<leftarrow> sja1105_spi_send_int k spi_setup SPI_READ (address + i) data 4;
     if rc < 0 then io_return (rc, [])
     else do {
       let data = (case v of None \<Rightarrow> data | Some v \<Rightarrow> v);
       (rc, out) \<leftarrow> reg_dump_loop k spi_setup address data left (i + 1);
       io_return (rc, reg_line (address + i) data @ out)
     }
   }"

text \<open>The device is opened before the numbers are read.\<close>

definition reg_parse_args :: command where
  "reg_parse_args k env gc spi_setup argv =
     (case argv of
        [] \<Rightarrow> finish (- EINVAL) spi_setup []
      | arg # rest \<Rightarrow>
          if matches arg ''dump'' = 0 then
            (case rest of
               [address_arg, count_arg] \<Rightarrow> do {
                 (rc, spi_setup) \<leftarrow> sja1105_spi_configure k spi_setup;
                 if rc < 0 then finish rc spi_setup []
                 else
                   let (rc1, address) = reg_number (te_word env) address_arg;
                       (rc2, count) = reg_number (te_word env) count_arg
                   in if rc1 < 0 then finish rc1 spi_setup []
                      else if rc2 < 0 then finish rc2 spi_setup []
                      else do {
                        (rc, out) \<leftarrow> reg_dump_loop k spi_setup address (te_word env) (unat count) 0;
                        finish rc spi_setup out
                      }
               }
             | _ \<Rightarrow> finish 0 spi_setup [])
          else case rest of
            [] \<Rightarrow> do {
              (rc, spi_setup) \<leftarrow> sja1105_spi_configure k spi_setup;
              if rc < 0 then finish rc spi_setup []
              else
                let (rc, address) = reg_number (te_word env) arg
                in if rc < 0 then finish rc spi_setup []
                   else do {
                     (rc, v) \<leftarrow> sja1105_spi_send_int k spi_setup SPI_READ address (te_word env) 4;
                     if rc < 0 then finish rc spi_setup []
                     else finish 0 spi_setup (reg_line address (case v of None \<Rightarrow> te_word env | Some v \<Rightarrow> v))
                   }
            }
          | [data_arg] \<Rightarrow> do {
              (rc, spi_setup) \<leftarrow> sja1105_spi_configure k spi_setup;
              if rc < 0 then finish rc spi_setup []
              else
                let (rc1, address) = reg_number (te_word env) arg;
                    (rc2, data) = reg_number (te_word env) data_arg
                in if rc1 < 0 then finish rc1 spi_setup []
                   else if rc2 < 0 then finish rc2 spi_setup []
                   else do {
                     (rc, _) \<leftarrow> sja1105_spi_send_int k spi_setup SPI_WRITE address data 4;
                     finish (if rc < 0 then rc else 0) spi_setup []
                   }
            }
          | _ \<Rightarrow> finish 0 spi_setup [])"

section \<open>main\<close>

definition default_sja1105_conf_file :: string where
  "default_sja1105_conf_file = ''/etc/sja1105/sja1105.conf''"

text \<open>
  The loop over the special arguments: the return code, the configuration file and the arguments that are left.
  After \<^verbatim>\<open>-c\<close> as the last argument the count is -1, and the loop goes on behind the arguments.
\<close>

fun parse_special_args :: "string list \<Rightarrow> string \<Rightarrow> int \<Rightarrow> (int \<times> string \<times> string list) option" where
  "parse_special_args [] sja1105_conf_file rc = Some (rc, sja1105_conf_file, [])"
| "parse_special_args (arg # argv) sja1105_conf_file rc =
     (if matches arg ''-V'' = 0 \<or> matches arg ''version'' = 0 \<or> matches arg ''--version'' = 0 \<or>
         matches arg ''-h'' = 0 \<or> matches arg ''help'' = 0 \<or> matches arg ''--help'' = 0
      then parse_special_args argv sja1105_conf_file (sja1105_err_remap rc SJA1105_ERR_USAGE)
      else if matches arg ''-c'' = 0 \<or> matches arg ''--config-file'' = 0 then
        (case argv of
           [] \<Rightarrow> None
         | conf_file # argv' \<Rightarrow> parse_special_args argv' conf_file (sja1105_err_remap rc SJA1105_ERR_OK))
      else Some (rc, sja1105_conf_file, arg # argv))"

definition parse_args :: command where
  "parse_args k env gc spi_setup argv =
     (case argv of
        [] \<Rightarrow> finish (- EINVAL) spi_setup []
      | arg # rest \<Rightarrow>
          (let rc = get_match arg [''configure'', ''status'', ''reset'', ''reg'']
           in if rc < 0 then finish rc spi_setup []
              else ([config_parse_args, status_parse_args, rgu_parse_args, reg_parse_args] ! nat rc) k env gc spi_setup rest))"

text \<open>The strings are not freed here.\<close>

definition cleanup :: "kernel \<Rightarrow> sja1105_spi_setup \<Rightarrow> unit io" where
  "cleanup k spi_setup =
     (if sp_fd spi_setup \<noteq> 0 then do { system k (Close (sp_fd spi_setup)); io_return () } else io_return ())"

definition reinterpreted_return_code :: "int \<Rightarrow> int" where "reinterpreted_return_code rc = - rc"

text \<open>\<open>argv\<close> are the arguments behind the name of the program. The result is the exit code and what was printed.\<close>

definition main :: "kernel \<Rightarrow> tool_env \<Rightarrow> string list \<Rightarrow> (int \<times> string \<times> xml_history) option io" where
  "main k env argv =
     (if argv = [] then io_return (Some (reinterpreted_return_code SJA1105_ERR_OK, [], []))
      else case parse_special_args argv default_sja1105_conf_file 0 of
        None \<Rightarrow> io_return None
      | Some (rc, sja1105_conf_file, argv) \<Rightarrow>
          if rc < 0 then io_return (Some (reinterpreted_return_code rc, [], []))
          else case read_config_file (te_config_file env sja1105_conf_file) (te_settings env) (te_rc env) of
            None \<Rightarrow> io_return None
          | Some (_, spi_setup, general_config) \<Rightarrow> do {
              done \<leftarrow> parse_args k env general_config spi_setup argv;
              case done of
                None \<Rightarrow> io_return None
              | Some oc \<Rightarrow> do {
                  cleanup k (oc_setup oc);
                  io_return (Some (reinterpreted_return_code (oc_rc oc), oc_out oc, oc_xml oc))
                }
            })"

section \<open>The calls of a command\<close>

text \<open>
  What holds of the calls that a computation adds to the history, when it holds of no calls and of calls in a row.
\<close>

definition adds_only :: "(history \<Rightarrow> bool) \<Rightarrow> 'a io \<Rightarrow> bool" where
  "adds_only ok m \<longleftrightarrow> (\<forall>h. \<exists>es. snd (run_state m h) = h @ es \<and> ok es)"

named_theorems call_intros "computations by the calls they add"

locale call_discipline =
  fixes ok :: "history \<Rightarrow> bool"
  assumes ok_Nil: "ok []" and ok_append: "ok es \<Longrightarrow> ok fs \<Longrightarrow> ok (es @ fs)"
begin

lemma adds_return: "adds_only ok (io_return x)"
  using ok_Nil by (simp add: adds_only_def)

lemma adds_bind:
  assumes "adds_only ok m" "\<And>x. adds_only ok (f x)"
  shows "adds_only ok (State_Monad.bind m f)"
  unfolding adds_only_def
proof
  fix h
  obtain x h1 where m: "run_state m h = (x, h1)" by fastforce
  with assms(1) obtain es where es: "h1 = h @ es" "ok es" unfolding adds_only_def by (metis snd_conv)
  from assms(2) obtain fs where "snd (run_state (f x) h1) = h1 @ fs" "ok fs" unfolding adds_only_def by blast
  with m es show "\<exists>es. snd (run_state (State_Monad.bind m f) h) = h @ es \<and> ok es" by (auto intro: ok_append)
qed

lemma adds_if: "(b \<Longrightarrow> adds_only ok m) \<Longrightarrow> (\<not> b \<Longrightarrow> adds_only ok n) \<Longrightarrow> adds_only ok (if b then m else n)"
  by simp

lemma adds_option: "adds_only ok m \<Longrightarrow> (\<And>x. adds_only ok (f x)) \<Longrightarrow> adds_only ok (case z of None \<Rightarrow> m | Some x \<Rightarrow> f x)"
  by (cases z) simp_all

lemma adds_prod: "(\<And>x y. adds_only ok (f x y)) \<Longrightarrow> adds_only ok (case z of (x, y) \<Rightarrow> f x y)"
  by (cases z) simp_all

lemma adds_list: "adds_only ok m \<Longrightarrow> (\<And>x xs. adds_only ok (f x xs)) \<Longrightarrow> adds_only ok (case z of [] \<Rightarrow> m | x # xs \<Rightarrow> f x xs)"
  by (cases z) simp_all

lemma adds_finish: "adds_only ok (finish rc s out)"
  by (simp add: finish_def adds_return)

lemmas adds_rules = adds_return adds_bind adds_if adds_option adds_prod adds_list adds_finish

end

text \<open>Calls on files only.\<close>

fun file_call :: "syscall \<Rightarrow> bool" where
  "file_call (Open_Read f) \<longleftrightarrow> True"
| "file_call (Open_Create f) \<longleftrightarrow> True"
| "file_call (Fstat fd) \<longleftrightarrow> True"
| "file_call (Read fd n) \<longleftrightarrow> True"
| "file_call (Write fd b) \<longleftrightarrow> True"
| "file_call (Close fd) \<longleftrightarrow> True"
| "file_call c \<longleftrightarrow> False"

definition file_calls :: "history \<Rightarrow> bool" where
  "file_calls es \<longleftrightarrow> list_all (\<lambda>e. file_call (fst e)) es"

interpretation files: call_discipline file_calls
  by unfold_locales (simp_all add: file_calls_def)

interpretation bus: call_discipline bus_trace
  by unfold_locales (simp_all add: bus_trace.idle bus_trace_append)

lemma file_calls_bus: "file_calls es \<Longrightarrow> bus_trace es"
proof (induction es)
  case (Cons e es)
  then show ?case by (cases e; cases "fst e") (auto simp: file_calls_def intro: bus_trace.other)
qed (rule bus_trace.idle)

lemma adds_keeps: "keeps_bus m \<Longrightarrow> adds_only bus_trace m"
  by (simp add: adds_only_def keeps_bus_def)

lemma adds_files_bus: "adds_only file_calls m \<Longrightarrow> adds_only bus_trace m"
  unfolding adds_only_def using file_calls_bus by metis

lemma adds_system: "file_call c \<Longrightarrow> adds_only file_calls (system k c)"
  by (simp add: adds_only_def system_def file_calls_def)

lemma read_loop_files: "\<exists>es. snd (reliable_read_loop k fd len bytes buf h) = h @ es \<and> file_calls es"
proof (induction k fd len bytes buf h rule: reliable_read_loop.induct)
  case (1 k fd len bytes buf h)
  define call where "call = Read fd (len - bytes)"
  define a where "a = k h call"
  define rc where "rc = min (ret a) (int (len - bytes))"
  define buf' where "buf' = take bytes buf @ overwrite (take (nat rc) (bytes_read a)) (drop bytes buf)"
  have one: "file_calls [(call, a)]" by (simp add: file_calls_def call_def)
  note unf = reliable_read_loop.simps [of k fd len bytes buf h, unfolded Let_def, folded call_def, folded a_def, folded rc_def, folded buf'_def]
  show ?case
  proof (cases "rc \<le> 0")
    case True
    then show ?thesis using one by (cases "rc < 0") (auto simp: unf)
  next
    case False
    then obtain es where "snd (reliable_read_loop k fd len (bytes + nat rc) buf' (h @ [(call, a)])) = (h @ [(call, a)]) @ es" "file_calls es"
      using "1.IH" [OF call_def a_def refl rc_def _ buf'_def] by auto
    then show ?thesis using False files.ok_append [OF one] by (auto simp: unf)
  qed
qed

lemma write_loop_files: "\<exists>es. snd (reliable_write_loop k fd buf len bytes h) = h @ es \<and> file_calls es"
proof (induction k fd buf len bytes h rule: reliable_write_loop.induct)
  case (1 k fd buf len bytes h)
  define call where "call = Write fd (take (len - bytes) (drop bytes buf))"
  define a where "a = k h call"
  define rc where "rc = min (ret a) (int (len - bytes))"
  have one: "file_calls [(call, a)]" by (simp add: file_calls_def call_def)
  note unf = reliable_write_loop.simps [of k fd buf len bytes h, unfolded Let_def, folded call_def, folded a_def, folded rc_def]
  show ?case
  proof (cases "rc \<le> 0")
    case True
    then show ?thesis using one by (cases "rc < 0") (auto simp: unf)
  next
    case False
    then obtain es where "snd (reliable_write_loop k fd buf len (bytes + nat rc) (h @ [(call, a)])) = (h @ [(call, a)]) @ es" "file_calls es"
      using "1.IH" [OF call_def a_def refl rc_def] by auto
    then show ?thesis using False files.ok_append [OF one] by (auto simp: unf)
  qed
qed

lemma adds_files [call_intros]:
  "adds_only file_calls (reliable_read k fd buf len)" "adds_only file_calls (reliable_write k fd buf len)"
  "file_call c \<Longrightarrow> adds_only file_calls (system k c)"
  using read_loop_files write_loop_files adds_system
  by (simp_all add: adds_only_def reliable_read_def reliable_write_def)

lemma adds_area [call_intros]:
  "adds_only file_calls (staging_area_load k heap f area)"
  "adds_only file_calls (staging_area_save k heap f area)"
  "adds_only file_calls (staging_area_hexdump k heap f)"
  unfolding staging_area_load_def staging_area_save_def staging_area_hexdump_def Let_def
  by (intro files.adds_rules call_intros; simp)+

text \<open>The functions that use the bus leave it idle; so does every command.\<close>

lemma adds_register [call_intros]: "adds_only bus_trace (write_register k s a b)"
  by (rule adds_keeps) (rule keeps_bus_write_register)

lemma adds_spi [call_intros]:
  "adds_only bus_trace (sja1105_spi_configure k s)"
  "adds_only bus_trace (sja1105_spi_send_int k s rw a v n)"
  "adds_only bus_trace (sja1105_spi_send_packed_buf k s rw a b n)"
  "adds_only bus_trace (sja1105_spi_send_long_packed_buf k s rw a b n)"
  "not_bus c \<Longrightarrow> adds_only bus_trace (system k c)"
  by (rule adds_keeps; simp add: bus_intros)+

lemma adds_resets [call_intros]: "adds_only bus_trace (sja1105_reset_cmd_commit k s r)"
  unfolding sja1105_reset_cmd_commit_def by (intro bus.adds_rules call_intros)

lemmas reset_defs = sja1105_switch_core_reset_def sja1105_config_reset_def sja1105_clocking_reset_def
  sja1105_otp_reset_def sja1105_warm_reset_def sja1105_cold_reset_def sja1105_por_reset_def

lemma adds_status [call_intros]:
  "adds_only bus_trace (sja1105_general_status_get k s st)"
  "adds_only bus_trace (sja1105_port_status_get k s i)"
  "adds_only bus_trace (sja1105_port_status_clear k s p)"
  unfolding sja1105_general_status_get_def sja1105_port_status_get_def sja1105_port_status_clear_def Let_def
  by (intro bus.adds_rules call_intros)+

lemma adds_wait [call_intros]: "adds_only bus_trace (wait_l2busys k s n)"
proof (induction n)
  case 0
  show ?case unfolding wait_l2busys.simps by (rule bus.adds_return)
next
  case (Suc n)
  then show ?case unfolding wait_l2busys.simps by (intro bus.adds_rules call_intros) simp_all
qed

lemma adds_clocking [call_intros]: "adds_only bus_trace (sja1105_clocking_setup k s params mac)"
proof -
  note defs = sja1105_cgu_idiv_config_def sja1105_cgu_mii_tx_clk_config_def sja1105_cgu_mii_rx_clk_config_def
    sja1105_cgu_mii_ext_tx_clk_config_def sja1105_cgu_mii_ext_rx_clk_config_def sja1105_cgu_rmii_ref_clk_config_def
    sja1105_cgu_rmii_ext_tx_clk_config_def sja1105_cgu_rmii_pll_config_def sja1105_cgu_rgmii_tx_clk_config_def
    sja1105_rgmii_cfg_pad_tx_config_def
  have setups: "adds_only bus_trace (mii_clocking_setup k s i m)" "adds_only bus_trace (rmii_clocking_setup k s i m)"
    "adds_only bus_trace (rgmii_clocking_setup k s i m)" "adds_only bus_trace (sgmii_clocking_setup k s i m)" for i m
    unfolding mii_clocking_setup_def rmii_clocking_setup_def rgmii_clocking_setup_def sgmii_clocking_setup_def defs Let_def
    by (intro bus.adds_rules call_intros)+
  have "adds_only bus_trace (clocking_ports k s params mac is)" for "is"
  proof (induction "is")
    case Nil
    show ?case unfolding clocking_ports.simps by (rule bus.adds_return)
  next
    case (Cons i "is")
    then show ?case unfolding clocking_ports.simps Let_def by (intro bus.adds_rules setups)
  qed
  then show ?thesis by (simp add: sja1105_clocking_setup_def)
qed

lemma adds_flush [call_intros]: "adds_only bus_trace (staging_area_flush k heap stack s area)"
proof -
  have "adds_only bus_trace (static_config_upload k heap s c)" for c
    unfolding static_config_upload_def Let_def by (intro bus.adds_rules call_intros)
  moreover have "adds_only bus_trace (sja1105_inhibit_tx k s stack m)" "adds_only bus_trace (sja1105_cold_reset k s)" for m
    unfolding sja1105_inhibit_tx_def sja1105_cold_reset_def by (intro call_intros)+
  ultimately show ?thesis
    unfolding staging_area_flush_def static_config_flush_def Let_def
    by (intro bus.adds_rules call_intros) simp_all
qed

lemma adds_area_bus [call_intros]:
  "adds_only bus_trace (staging_area_load k heap f area)"
  "adds_only bus_trace (staging_area_save k heap f area)"
  "adds_only bus_trace (staging_area_hexdump k heap f)"
  by (rule adds_files_bus, rule adds_area)+

lemma adds_store [call_intros]: "adds_only bus_trace (config_store k env s area e)"
  unfolding config_store_def Let_def by (intro bus.adds_rules call_intros)

lemma adds_with_area [call_intros]: "(\<And>area. adds_only bus_trace (f area)) \<Longrightarrow> adds_only bus_trace (config_with_area k env s f)"
  unfolding config_with_area_def by (intro bus.adds_rules call_intros)

lemma adds_config [call_intros]: "adds_only bus_trace (config_parse_args k env gc s argv)"
  unfolding config_parse_args_def config_load_def config_save_def config_default_def config_upload_def
    config_modify_def config_new_def config_show_def config_hexdump_def Let_def
  by (intro bus.adds_rules call_intros)

lemma adds_nth:
  "list_all (\<lambda>f. adds_only ok (f k s)) fs \<Longrightarrow> 0 \<le> get_match arg options \<Longrightarrow> length options = length fs \<Longrightarrow>
   adds_only ok ((fs ! nat (get_match arg options)) k s)"
  using get_match_range [of arg options] by (auto simp: list_all_length)

lemma adds_rgu [call_intros]: "adds_only bus_trace (rgu_parse_args k env gc s argv)"
proof -
  have "list_all (\<lambda>f. adds_only bus_trace (f k s))
      [sja1105_switch_core_reset, sja1105_config_reset, sja1105_clocking_reset, sja1105_otp_reset,
       sja1105_warm_reset, sja1105_cold_reset, sja1105_por_reset]" for s
    by (simp add: reset_defs adds_resets)
  note resets = adds_nth [OF this]
  show ?thesis
    unfolding rgu_parse_args_def Let_def by (intro bus.adds_rules call_intros resets) simp_all
qed

lemma adds_status_command [call_intros]: "adds_only bus_trace (status_parse_args k env gc s argv)"
proof -
  have texts: "adds_only bus_trace (status_texts k s ports rc)" for s ports rc
  proof (induction ports arbitrary: rc)
    case Nil
    show ?case unfolding status_texts.simps by (rule bus.adds_return)
  next
    case (Cons i ports)
    show ?case unfolding status_texts.simps by (intro bus.adds_rules call_intros Cons)
  qed
  have "adds_only bus_trace (status_command k s clear p)" for clear p
    unfolding status_command_def status_ports_def by (intro bus.adds_rules call_intros texts)
  moreover have "adds_only bus_trace (status_general k env gc s argv)"
    unfolding status_general_def by (intro bus.adds_rules call_intros)
  ultimately show ?thesis
    unfolding status_parse_args_def Let_def by (intro bus.adds_rules)
qed

lemma adds_reg [call_intros]: "adds_only bus_trace (reg_parse_args k env gc s argv)"
proof -
  have "adds_only bus_trace (reg_dump_loop k s a d n i)" for s a d n i
  proof (induction n arbitrary: d i)
    case 0
    show ?case unfolding reg_dump_loop.simps by (rule bus.adds_return)
  next
    case (Suc n)
    show ?case unfolding reg_dump_loop.simps Let_def by (intro bus.adds_rules call_intros Suc)
  qed
  then show ?thesis
    unfolding reg_parse_args_def Let_def by (intro bus.adds_rules call_intros)
qed

text \<open>
  C6: whatever the command line, the configuration file and the kernel, the whole tool leaves the bus idle: every
  message is sent while the lock is held, and the lock is released behind it.
\<close>

theorem main_leaves_bus_idle: "\<exists>es. snd (run_state (main k env argv) h) = h @ es \<and> bus_trace es"
proof -
  have commands: "list_all (\<lambda>f. adds_only bus_trace (f k env gc s rest))
      [config_parse_args, status_parse_args, rgu_parse_args, reg_parse_args]" for gc s rest
    by (simp add: call_intros)
  have "adds_only bus_trace (([config_parse_args, status_parse_args, rgu_parse_args, reg_parse_args] !
      nat (get_match arg [''configure'', ''status'', ''reset'', ''reg''])) k env gc s rest)"
    if "\<not> get_match arg [''configure'', ''status'', ''reset'', ''reg''] < 0" for arg gc s rest
    using commands [of gc s rest] get_match_range [of arg "[''configure'', ''status'', ''reset'', ''reg'']"] that
    by (auto simp: list_all_length)
  then have "adds_only bus_trace (parse_args k env gc s rest)" for gc s rest
    unfolding parse_args_def Let_def by (intro bus.adds_rules)
  then have "adds_only bus_trace (main k env argv)"
    unfolding main_def cleanup_def by (intro bus.adds_rules call_intros) simp_all
  then show ?thesis by (simp add: adds_only_def)
qed

section \<open>Commands without the device\<close>

definition asks_flush :: "sja1105_spi_setup \<Rightarrow> string list \<Rightarrow> bool" where
  "asks_flush spi_setup argv \<longleftrightarrow> sp_flush spi_setup \<noteq> 0 \<or> ''-f'' \<in> set argv \<or> ''--flush'' \<in> set argv"

lemma flush_mode_off: "\<not> asks_flush s argv \<Longrightarrow> get_flush_mode s argv = (s, argv)"
  by (cases argv) (auto simp: get_flush_mode_def asks_flush_def)

lemma store_files: "sp_flush s = 0 \<Longrightarrow> adds_only file_calls (config_store k env s area e)"
  unfolding config_store_def by (simp only: simp_thms if_True) (intro files.adds_rules call_intros)

lemma with_area_files: "(\<And>area. adds_only file_calls (f area)) \<Longrightarrow> adds_only file_calls (config_with_area k env s f)"
  unfolding config_with_area_def by (intro files.adds_rules call_intros)

text \<open>
  C16: a command on the configuration that is neither \<^verbatim>\<open>upload\<close> nor asked to flush makes calls on files only: no
  device is opened and no message is sent.
\<close>

theorem config_stays_off_bus:
  assumes "\<not> asks_flush s argv" "get_match cmd config_options \<noteq> 6"
  shows "\<exists>es. snd (run_state (config_parse_args k env gc s (cmd # argv)) h) = h @ es \<and> file_calls es"
proof -
  have s: "sp_flush s = 0" using assms(1) by (simp add: asks_flush_def)
  note store = store_files [OF s]
  have "adds_only file_calls (config_load k env gc s argv)" "adds_only file_calls (config_default k env gc s argv)"
    "adds_only file_calls (config_modify k env gc s argv)"
    unfolding config_load_def config_default_def config_modify_def flush_mode_off [OF assms(1)] Let_def prod.case
    by (intro files.adds_rules call_intros store with_area_files)+
  moreover have "adds_only file_calls (config_save k env gc s argv)" "adds_only file_calls (config_new k env gc s argv)"
    "adds_only file_calls (config_show k env gc s argv)" "adds_only file_calls (config_hexdump k env gc s argv)"
    unfolding config_save_def config_new_def config_show_def config_hexdump_def Let_def
    by (intro files.adds_rules call_intros with_area_files)+
  moreover have "config_options ! nat m = ''upload'' \<Longrightarrow> m = 6" if "m = get_match cmd config_options" "\<not> m < 0" for m
    using that get_match_range [of cmd config_options]
    by (auto simp: config_options_def less_Suc_eq numeral_eq_Suc)
  ultimately have "adds_only file_calls (config_parse_args k env gc s (cmd # argv))"
    using assms(2) unfolding config_parse_args_def Let_def list.case by (intro files.adds_rules) auto
  then show ?thesis by (simp add: adds_only_def)
qed

section \<open>Results\<close>

definition result_in :: "int set \<Rightarrow> outcome option \<Rightarrow> bool" where
  "result_in rcs r \<longleftrightarrow> (case r of None \<Rightarrow> True | Some oc \<Rightarrow> oc_rc oc \<in> rcs)"

definition error_in :: "int set \<Rightarrow> (int \<times> 'a) option \<Rightarrow> bool" where
  "error_in rcs r \<longleftrightarrow> (case r of None \<Rightarrow> True | Some (rc, _) \<Rightarrow> rc < 0 \<longrightarrow> rc \<in> rcs)"

lemma results_finish: "rc \<in> rcs \<Longrightarrow> results (result_in rcs) (finish rc s out)"
  by (simp add: finish_def results_def result_in_def)

lemma results_option: "(z = None \<Longrightarrow> results P m) \<Longrightarrow> (\<And>x. z = Some x \<Longrightarrow> results P (f x)) \<Longrightarrow> results P (case z of None \<Rightarrow> m | Some x \<Rightarrow> f x)"
  by (cases z) simp_all

lemma results_prod: "(\<And>x y. z = (x, y) \<Longrightarrow> results P (f x y)) \<Longrightarrow> results P (case z of (x, y) \<Rightarrow> f x y)"
  by (cases z) simp_all

lemma results_list: "results P m \<Longrightarrow> (\<And>x xs. results P (f x xs)) \<Longrightarrow> results P (case z of [] \<Rightarrow> m | x # xs \<Rightarrow> f x xs)"
  by (cases z) simp_all

lemmas results_rules = results_if results_option results_prod results_list

lemma load_errors: "results (error_in {-9, -7}) (staging_area_load k heap f area)"
  unfolding staging_area_load_def Let_def sja1105_err_remap_def
  by (rule results_rules results_any results_return | simp add: error_in_def split: option.split prod.split)+

lemma flush_errors: "results (error_in {-3, -5, -7}) (staging_area_flush k heap stack s area)"
proof -
  have "results (error_in {-3, -5, -7}) (static_config_flush k heap stack s c)" for c
    unfolding static_config_flush_def Let_def sja1105_err_remap_def
    by (rule results_rules results_any results_return | simp add: error_in_def)+
  then show ?thesis
    unfolding staging_area_flush_def
    by (rule results_bind) (auto intro!: results_return simp: error_in_def split: option.splits)
qed

lemma results_with_area:
  "{-9, -7} \<subseteq> rcs \<Longrightarrow> (\<And>area. results (result_in rcs) (f area)) \<Longrightarrow> results (result_in rcs) (config_with_area k env s f)"
  unfolding config_with_area_def
  by (rule results_bind [OF load_errors])
    (auto simp: error_in_def result_in_def intro!: results_return results_finish split: option.splits)

lemma results_store:
  "{0, -6, -9, - e} \<subseteq> rcs \<Longrightarrow> results (result_in rcs) (config_store k env s area e)"
  unfolding config_store_def sja1105_err_remap_def
  by (rule results_rules results_any results_finish results_return | simp add: result_in_def)+

text \<open>
  C19: what a command on the configuration other than \<^verbatim>\<open>modify\<close> returns is 0 or the negative of one of the codes for
  a wrong command line, the device, the staging area, XML and files: 2 to 9, never an error number of the system.
\<close>

theorem config_parse_args_codes:
  assumes "get_match cmd config_options \<noteq> 4" "fst (run_state (config_parse_args k env gc s (cmd # argv)) h) = Some oc"
  shows "oc_rc oc \<in> {-9..-2} \<union> {0}"
proof -
  let ?P = "result_in ({-9..-2} \<union> {0})"
  have None: "results ?P (io_return None)" by (simp add: results_def result_in_def)
  have loads: "results ?P (config_load k env gc s argv)" "results ?P (config_default k env gc s argv)"
    unfolding config_load_def config_default_def Let_def sja1105_err_remap_def
    by (rule results_rules results_store results_finish None | simp)+
  have new: "results ?P (config_new k env gc s argv)"
    unfolding config_new_def Let_def sja1105_err_remap_def
    by (rule results_rules results_any results_finish None | simp)+
  have saves: "results ?P (config_save k env gc s argv)" "results ?P (config_show k env gc s argv)"
    unfolding config_save_def config_show_def Let_def sja1105_err_remap_def
    by (rule results_rules results_with_area results_finish None | simp add: results_def result_in_def)+
  have upload: "results ?P (config_upload k env gc s argv)"
    unfolding config_upload_def sja1105_err_remap_def
    by (rule results_rules results_with_area results_bind [OF flush_errors] results_any results_finish None
        | simp add: error_in_def | arith)+
  have dump: "results ?P (config_hexdump k env gc s argv)"
    unfolding config_hexdump_def sja1105_err_remap_def
    by (rule results_rules results_bind [where Q = "\<lambda>r. r \<in> {None, Some (-9), Some (-7)}"] results_finish None
        | simp add: results_def staging_area_hexdump_never_succeeds [simplified]
        | arith)+
  have "config_options ! nat m = ''modify'' \<Longrightarrow> m = 4" if "m = get_match cmd config_options" "\<not> m < 0" for m
    using that get_match_range [of cmd config_options]
    by (auto simp: config_options_def less_Suc_eq numeral_eq_Suc)
  then have modify: "\<not> get_match cmd config_options < 0 \<Longrightarrow> config_options ! nat (get_match cmd config_options) = ''modify'' \<Longrightarrow>
      results ?P (config_modify k env gc s argv)" using assms(1) by blast
  have "results ?P (config_parse_args k env gc s (cmd # argv))"
    unfolding config_parse_args_def Let_def list.case
    by (intro results_if; (rule loads new saves upload dump | (rule modify, assumption, assumption) |
        (rule results_finish, simp (no_asm))))
  then have "?P (Some oc)" using assms(2) unfolding results_def by metis
  then show ?thesis by (simp only: result_in_def option.case)
qed

section \<open>A modification of the staging area\<close>

lemma whole_area: "area\<lparr>sa_static_config := c\<rparr> = \<lparr>sa_static_config = c\<rparr>" for area :: sja1105_staging_area
  by (cases area) simp

lemma store_works:
  assumes "DEVICE_ID_VALID (cfg_device_id c)" "tables_ok c" "accepts_file k (sp_staging_area s)" "sp_flush s = 0"
  shows "\<exists>es. run_state (config_store k env s \<lparr>sa_static_config = c\<rparr> e) h =
      (Some \<lparr>oc_rc = 0, oc_setup = s, oc_out = [], oc_xml = []\<rparr>, h @ es) \<and>
    bytes_written (ret (k h (Open_Create (sp_staging_area s)))) es = config_bytes (sja1105_static_config_patch_fdb c)"
  using staging_area_save_works [OF assms(1-3), of "te_heap env" h] assms(4)
  by (auto simp: config_store_def finish_def sja1105_err_remap_def)

text \<open>
  C5: \<^verbatim>\<open>config modify\<close> is loading, modifying and saving: from a file that holds the packed configuration \<open>c\<close>, whatever
  pieces the kernel reads and writes it in, it writes the packed form of what \<^verbatim>\<open>staging_area_modify\<close> makes of \<open>c\<close>.
\<close>

theorem config_modify_rewrites_file:
  assumes "DEVICE_ID_VALID (cfg_device_id c)" "tables_ok c" "formats_agree c"
    "cfg_entries_in_fdb_bin c = bins_counted (entries (cfg_l2_lookup c)) (nat (entry_count (cfg_l2_lookup c))) (\<lambda>_. 0)"
    "holds_file k (sp_staging_area s) (config_bytes c)" "accepts_file k (sp_staging_area s)"
    "\<not> asks_flush s [table, field, val]"
    "staging_area_modify (te_word env) (te_word env) \<lparr>sa_static_config = c\<rparr> table (Some field) (Some val) =
       Some (rc, \<lparr>sa_static_config = c'\<rparr>)" "0 \<le> rc"
    "DEVICE_ID_VALID (cfg_device_id c')" "tables_ok c'"
  shows "\<exists>h' es. run_state (config_parse_args k env gc s [''modify'', table, field, val]) h =
      (Some \<lparr>oc_rc = 0, oc_setup = s, oc_out = [], oc_xml = []\<rparr>, h' @ es) \<and>
    bytes_written (ret (k h' (Open_Create (sp_staging_area s)))) es = config_bytes (sja1105_static_config_patch_fdb c')"
proof -
  have "c\<lparr>cfg_entries_in_fdb_bin := bins_counted (entries (cfg_l2_lookup c)) (nat (entry_count (cfg_l2_lookup c))) (\<lambda>_. 0)\<rparr> = c"
    using assms(4) by simp
  then have "sja1105_static_config_unpack (config_bytes c) = Some (0, c)"
    using unpack_config [OF assms(1-3), of "[]"] by simp
  then have "fst (run_state (staging_area_load k (te_heap env) (sp_staging_area s) (te_area env)) h) = Some (0, \<lparr>sa_static_config = c\<rparr>)"
    using staging_area_load_works [OF assms(5), of c "te_heap env" "te_area env" h] by simp
  then obtain h' where h': "run_state (staging_area_load k (te_heap env) (sp_staging_area s) (te_area env)) h =
      (Some (0, \<lparr>sa_static_config = c\<rparr>), h')" by (metis prod.collapse)
  have s: "sp_flush s = 0" using assms(7) by (simp add: asks_flush_def)
  obtain es where es: "run_state (config_store k env s \<lparr>sa_static_config = c'\<rparr> 4) h' =
      (Some \<lparr>oc_rc = 0, oc_setup = s, oc_out = [], oc_xml = []\<rparr>, h' @ es)"
    "bytes_written (ret (k h' (Open_Create (sp_staging_area s)))) es = config_bytes (sja1105_static_config_patch_fdb c')"
    using store_works [OF assms(10,11,6) s, of env 4 h'] by blast
  have "get_match ''modify'' config_options = 4" using get_match_exact [of config_options 4] by (simp add: config_options_def)
  then have "config_parse_args k env gc s [''modify'', table, field, val] = config_modify k env gc s [table, field, val]"
    by (simp add: config_parse_args_def config_options_def)
  moreover have "run_state (config_modify k env gc s [table, field, val]) h =
      (Some \<lparr>oc_rc = 0, oc_setup = s, oc_out = [], oc_xml = []\<rparr>, h' @ es)"
    using assms(8,9) h' es(1)
    by (simp add: config_modify_def flush_mode_off [OF assms(7)] config_with_area_def staging_area_modify_parse_def)
  ultimately show ?thesis using es(2) by auto
qed

text \<open>
  C36: \<^verbatim>\<open>config load -f\<close> with a device that cannot be opened returns the code for a device that does not respond, as if
  the staging area had not changed; but the staging area has been replaced by the imported configuration.
\<close>

theorem load_flush_without_device:
  assumes "te_xml_root env xml_file = Some root" "parse_root (te_get_string env) root static_config_zero = Some (0, c)"
    "DEVICE_ID_VALID (cfg_device_id c)" "tables_ok c" "accepts_file k (sp_staging_area s)"
    "sp_dry_run s = 0" "\<forall>h. ret (k h (Open (sp_device s))) < 0"
  shows "\<exists>oc es. run_state (config_parse_args k env gc s [''load'', ''-f'', xml_file]) h = (Some oc, h @ es) \<and>
    oc_rc oc = - SJA1105_ERR_HW_NOT_RESPONDING \<and>
    bytes_written (ret (k h (Open_Create (sp_staging_area s)))) es = config_bytes (sja1105_static_config_patch_fdb c)"
proof -
  define s' where "s' = s\<lparr>sp_flush := 1\<rparr>"
  obtain es where es: "run_state (staging_area_save k (te_heap env) (sp_staging_area s) \<lparr>sa_static_config = c\<rparr>) h =
      (Some (0, \<lparr>sa_static_config = sja1105_static_config_patch_fdb c\<rparr>), h @ es)"
    "bytes_written (ret (k h (Open_Create (sp_staging_area s)))) es = config_bytes (sja1105_static_config_patch_fdb c)"
    using staging_area_save_works [OF assms(3-5)] by blast
  define call where "call = (Open (sp_device s), k (h @ es) (Open (sp_device s)))"
  have open_fails: "run_state (sja1105_spi_configure k s') (h @ es) = ((ret (snd call), s'), h @ es @ [call])"
    using assms(6,7) by (simp add: sja1105_spi_configure_def s'_def system_def call_def)
  have "run_state (config_store k env s' \<lparr>sa_static_config = c\<rparr> 3) h =
      (Some \<lparr>oc_rc = -3, oc_setup = s', oc_out = [], oc_xml = []\<rparr>, h @ es @ [call])"
    using es(1) open_fails assms(7)
    by (simp add: config_store_def finish_def sja1105_err_remap_def s'_def call_def)
  moreover have "get_match ''load'' config_options = 1" using get_match_exact [of config_options 1] by (simp add: config_options_def)
  then have "config_parse_args k env gc s [''load'', ''-f'', xml_file] = config_store k env s' \<lparr>sa_static_config = c\<rparr> 3"
    using assms(1,2)
    by (simp add: config_parse_args_def config_options_def config_load_def get_flush_mode_def
        sja1105_staging_area_from_xml_def s'_def whole_area)
  moreover have "bytes_written (ret (k h (Open_Create (sp_staging_area s)))) (es @ [call]) =
      config_bytes (sja1105_static_config_patch_fdb c)" using es(2) by (simp add: call_def)
  ultimately show ?thesis by auto
qed

definition example_env :: tool_env where
  "example_env = \<lparr>te_heap = \<lambda>_. 0, te_stack = [0, 0, 0, 0], te_word = 0, te_area = \<lparr>sa_static_config = static_config_zero\<rparr>,
     te_get_string = \<lambda>ns. Some ''0x9E00030E'',
     te_xml_root = \<lambda>f. Some (Xml_Node True ''sja1105'' [Xml_Node True ''device-id'' [] [], Xml_Node True ''static'' [] []] []),
     te_xml_writer = \<lambda>h c. 0, te_config_file = \<lambda>f. None,
     te_settings = (spi_setup_zero, general_config_zero, fields_set_zero), te_rc = 0\<rparr>"

definition empty_config :: sja1105_static_config where
  "empty_config = static_config_zero\<lparr>cfg_device_id := SJA1105T_DEVICE_ID\<rparr>"

lemma empty_config_ok:
  "DEVICE_ID_VALID (cfg_device_id empty_config)" "tables_ok empty_config" "formats_agree empty_config"
  "cfg_entries_in_fdb_bin empty_config = (\<lambda>_. 0)"
  by (simp_all add: empty_config_def DEVICE_ID_VALID_def IS_ET_def IS_PQRS_def formats_agree_def tables_ok_def
      static_config_zero_def member_ok_no_entries no_entries_def) (simp_all add: member_ok_def)

lemma config_stays_off_bus_witness:
  "\<exists>es. snd (run_state (config_parse_args (file_kernel []) example_env general_config_zero spi_setup_zero [''new'']) []) = es \<and>
     file_calls es"
proof -
  have "get_match ''new'' config_options \<noteq> 6" using get_match_exact [of config_options 5] by (simp add: config_options_def)
  from config_stays_off_bus [OF _ this, of spi_setup_zero "[]" "file_kernel []" example_env general_config_zero "[]"]
  show ?thesis by (simp add: asks_flush_def spi_setup_zero_def)
qed

lemma config_parse_args_codes_witness:
  "\<exists>oc. fst (run_state (config_parse_args (file_kernel []) example_env general_config_zero spi_setup_zero [''load'']) []) = Some oc \<and>
     oc_rc oc \<in> {-9..-2} \<union> {0}"
proof -
  have m: "get_match ''load'' config_options = 1" using get_match_exact [of config_options 1] by (simp add: config_options_def)
  then have "fst (run_state (config_parse_args (file_kernel []) example_env general_config_zero spi_setup_zero [''load'']) []) =
      Some \<lparr>oc_rc = -2, oc_setup = spi_setup_zero, oc_out = [], oc_xml = []\<rparr>"
    by (simp add: config_parse_args_def config_options_def config_load_def get_flush_mode_def finish_def)
  from config_parse_args_codes [OF _ this] m this show ?thesis by auto
qed

lemma load_flush_without_device_witness:
  "\<exists>oc es. run_state (config_parse_args (\<lambda>h c. case c of Open d \<Rightarrow> \<lparr>ret = -1, bytes_read = []\<rparr> | _ \<Rightarrow> file_kernel [] h c)
      example_env general_config_zero (example_setup\<lparr>sp_flush := 0\<rparr>) [''load'', ''-f'', ''new.xml'']) [] = (Some oc, es) \<and> oc_rc oc = -3"
proof -
  let ?k = "\<lambda>h c. case c of Open d \<Rightarrow> \<lparr>ret = -1, bytes_read = []\<rparr> | _ \<Rightarrow> file_kernel [] h c"
  have "parse_root (te_get_string example_env) (the (te_xml_root example_env ''new.xml'')) static_config_zero = Some (0, empty_config)"
    by (simp add: example_env_def parse_root_def device_id_parse_def xml_read_field_def xml_field_value_def strings_eval parse_static_config_def
        empty_config_def for_elements.simps)
  moreover have "accepts_file ?k f" for f
    using file_kernel_accepts [of "[]" f] by (simp add: accepts_file_def takes_file_def)
  ultimately show ?thesis
    using load_flush_without_device [of example_env "''new.xml''" "the (te_xml_root example_env ''new.xml'')" empty_config ?k
        "example_setup\<lparr>sp_flush := 0\<rparr>" general_config_zero "[]"] empty_config_ok
    by (auto simp: example_env_def example_setup_def)
qed

lemma config_modify_rewrites_file_witness:
  "\<exists>h' es. run_state (config_parse_args (file_kernel (config_bytes empty_config)) example_env general_config_zero
        (example_setup\<lparr>sp_flush := 0\<rparr>) [''modify'', ''vlan-lookup-table'', ''entry-count'', ''1'']) [] =
      (Some \<lparr>oc_rc = 0, oc_setup = example_setup\<lparr>sp_flush := 0\<rparr>, oc_out = [], oc_xml = []\<rparr>, h' @ es)"
proof -
  define c' where "c' = empty_config\<lparr>cfg_vlan_lookup := \<lparr>entries = \<lambda>_. vlan_lookup_zero, entry_count = 1\<rparr>\<rparr>"
  have "vlan_lookup_ok vlan_lookup_zero"
    by (simp add: vlan_lookup_ok_def table_shapes fits_def table_layouts fld_def width_def table_zeros)
  then have "DEVICE_ID_VALID (cfg_device_id c')" "tables_ok c'"
    by (simp_all add: c'_def empty_config_def DEVICE_ID_VALID_def IS_ET_def IS_PQRS_def tables_ok_def
      static_config_zero_def member_ok_no_entries no_entries_def) (simp_all add: member_ok_def)
  moreover have "staging_area_modify 0 0 \<lparr>sa_static_config = empty_config\<rparr> ''vlan-lookup-table'' (Some ''entry-count'') (Some ''1'') =
      Some (0, \<lparr>sa_static_config = c'\<rparr>)"
  proof -
    have "get_match ''vlan-lookup-table'' static_config_options = 7"
      using get_match_exact [of static_config_options 7] static_config_options_names(1,2) by (simp add: static_config_options_def)
    then show ?thesis
      by (simp add: staging_area_modify_def Let_def next_static_table_modify_def vlan_lookup_table_entry_modify_def at_member_def
          table_entry_modify_def matches_0_iff strings_eval c'_def empty_config_def static_config_zero_def no_entries_def)
  qed
  moreover have "holds_file (file_kernel (config_bytes empty_config)) f (config_bytes empty_config)" for f
    using config_bytes_bound [OF empty_config_ok(2)] by (intro file_kernel_holds) simp
  moreover have "\<not> asks_flush (example_setup\<lparr>sp_flush := 0\<rparr>) [''vlan-lookup-table'', ''entry-count'', ''1'']"
    by (simp add: asks_flush_def)
  moreover have "te_word example_env = 0" by (simp add: example_env_def)
  moreover have "cfg_entries_in_fdb_bin empty_config = bins_counted (entries (cfg_l2_lookup empty_config)) (nat (entry_count (cfg_l2_lookup empty_config))) (\<lambda>_. 0)"
    by (simp add: empty_config_def static_config_zero_def no_entries_def fun_eq_iff bins_counted_def)
  ultimately show ?thesis
    using config_modify_rewrites_file [OF empty_config_ok(1-3), where s = "example_setup\<lparr>sp_flush := 0\<rparr>" and
        k = "file_kernel (config_bytes empty_config)" and table = "''vlan-lookup-table''" and field = "''entry-count''" and
        val = "''1''" and env = example_env and rc = 0 and c' = c' and gc = general_config_zero and h = "[]"] file_kernel_accepts
    by fastforce
qed

section \<open>Loading and showing\<close>

definition area_within :: "(int \<times> sja1105_staging_area) option \<Rightarrow> bool" where
  "area_within r \<longleftrightarrow> (case r of None \<Rightarrow> True | Some (rc, area) \<Rightarrow> 0 \<le> rc \<longrightarrow> counts_within (sa_static_config area))"

lemma load_within: "results area_within (staging_area_load k heap f area)"
  unfolding staging_area_load_def Let_def sja1105_err_remap_def
  by (rule results_rules results_any results_return |
      simp add: area_within_def unpack_counts_within split: option.split prod.split)+


text \<open>
  C18: \<^verbatim>\<open>config show\<close> prints every configuration that can be loaded, to the end and without an error, when one entry is
  printed to a line, as it is by default.
\<close>

theorem config_show_completes:
  assumes "fst (run_state (staging_area_load k (te_heap env) (sp_staging_area s) (te_area env)) h) = Some (rc, area)" "0 \<le> rc"
    "gc_entries_per_line gc = 1"
  shows "\<exists>out h'. run_state (config_parse_args k env gc s [''show'']) h =
    (Some \<lparr>oc_rc = 0, oc_setup = s, oc_out = out, oc_xml = []\<rparr>, h')"
proof -
  have "counts_within (sa_static_config area)"
    using load_within [of k "te_heap env" "sp_staging_area s" "te_area env"] assms(1,2) unfolding results_def
    by (metis area_within_def case_prod_conv option.simps(5))
  then obtain out where out: "sja1105_staging_area_show (te_word env) gc area None = Some (0, out)"
    using staging_area_show_completes [of gc area "te_word env"] assms(3) by auto
  obtain h' where "run_state (staging_area_load k (te_heap env) (sp_staging_area s) (te_area env)) h = (Some (rc, area), h')"
    using assms(1) by (metis prod.collapse)
  moreover have "get_match ''show'' config_options = 7" using get_match_exact [of config_options 7] by (simp add: config_options_def)
  then have "config_parse_args k env gc s [''show''] = config_show k env gc s []"
    by (simp add: config_parse_args_def config_options_def)
  ultimately show ?thesis
    using assms(2) out by (simp add: config_show_def config_with_area_def finish_def sja1105_err_remap_def)
qed

lemma empty_config_loads:
  "fst (run_state (staging_area_load (file_kernel (config_bytes empty_config)) heap f area) h) = Some (0, \<lparr>sa_static_config = empty_config\<rparr>)"
proof -
  have "cfg_entries_in_fdb_bin empty_config =
      bins_counted (entries (cfg_l2_lookup empty_config)) (nat (entry_count (cfg_l2_lookup empty_config))) (\<lambda>_. 0)"
    by (simp add: empty_config_def static_config_zero_def no_entries_def fun_eq_iff bins_counted_def)
  then have "sja1105_static_config_unpack (config_bytes empty_config) = Some (0, empty_config)"
    using unpack_config [OF empty_config_ok(1-3), of "[]"] by simp
  moreover have "holds_file (file_kernel (config_bytes empty_config)) f (config_bytes empty_config)"
    using config_bytes_bound [OF empty_config_ok(2)] by (intro file_kernel_holds) simp
  ultimately show ?thesis using staging_area_load_works [of _ f "config_bytes empty_config" empty_config heap area h] by (simp add: whole_area)
qed


lemma config_show_completes_witness:
  "\<exists>out h'. run_state (config_parse_args (file_kernel (config_bytes empty_config)) example_env
      (general_config_zero\<lparr>gc_entries_per_line := 1\<rparr>) example_setup [''show'']) [] =
    (Some \<lparr>oc_rc = 0, oc_setup = example_setup, oc_out = out, oc_xml = []\<rparr>, h')"
  by (rule config_show_completes [OF empty_config_loads]) simp_all

section \<open>Small errors\<close>

text \<open>A wrong number of arguments is no error for \<^verbatim>\<open>reg\<close>; the usage is printed.\<close>

lemma reg_wrong_arguments:
  "2 < length argv \<Longrightarrow> matches (hd argv) ''dump'' \<noteq> 0 \<Longrightarrow> reg_parse_args k env gc s argv = finish 0 s []"
  "length argv \<noteq> 3 \<Longrightarrow> argv \<noteq> [] \<Longrightarrow> matches (hd argv) ''dump'' = 0 \<Longrightarrow> reg_parse_args k env gc s argv = finish 0 s []"
  by (auto simp: reg_parse_args_def neq_Nil_conv split: list.split)

text \<open>The option for the configuration file makes the tool run after the version was asked for.\<close>

lemma special_args_forget:
  "parse_special_args [''-V'', ''-c'', file_name, arg] conf 0 = parse_special_args [arg] file_name 0"
  "parse_special_args [''-c''] conf 0 = None"
  by (simp_all add: matches_0_iff sja1105_err_remap_def)

section \<open>All ports side by side\<close>

lemma takes_dec:
  "\<forall>c\<in>set label. of_char c \<noteq> (10 :: nat) \<Longrightarrow> Suc (max w (length label + 20)) \<le> L \<Longrightarrow>
   takes w (L - Suc (max w (length label + 20))) ls \<Longrightarrow> takes w L (dec_line label v # ls)"
proof -
  have "unat v < 2 ^ LENGTH(64)" by (rule unsigned_less)
  then have "short_text (Suc 19) (print_nat 10 (unat v))" by (intro fits_print_nat) simp_all
  then show "\<forall>c\<in>set label. of_char c \<noteq> (10 :: nat) \<Longrightarrow> Suc (max w (length label + 20)) \<le> L \<Longrightarrow>
      takes w (L - Suc (max w (length label + 20))) ls \<Longrightarrow> takes w L (dec_line label v # ls)"
    unfolding dec_line_def by (intro takes_Cons [OF fits_append [OF fits_label [OF _ order.refl] _ order.refl]]) simp_all
qed

lemma takes_label:
  "\<forall>c\<in>set s. of_char c \<noteq> (10 :: nat) \<Longrightarrow> Suc (max w (length s)) \<le> L \<Longrightarrow> takes w (L - Suc (max w (length s))) ls \<Longrightarrow> takes w L (s # ls)"
  by (rule takes_Cons [OF fits_label [OF _ order.refl]])

lemma takes_append: "takes w L ls \<Longrightarrow> takes w M ms \<Longrightarrow> takes w (L + M) (ls @ ms)"
  by (auto simp: takes_def)

lemma line_ends_appstoplines: "takes w L ls \<Longrightarrow> line_ends (appstoplines buf w ls) = line_ends buf + length ls"
  by (simp add: appstoplines_concat line_ends_append line_ends_takes)

lemma takes_port: "p < 10 \<Longrightarrow> 62 \<le> L \<Longrightarrow> takes 30 (L - 31) ls \<Longrightarrow> takes 30 L ((''Port '' @ print_decimal (int p)) # ls)"
proof -
  assume p: "p < 10"
  then have digit: "short_text (Suc 0) (print_nat 10 p)" by (intro fits_print_nat) simp_all
  have "short_text 5 ''Port ''" by (simp add: fits_label)
  then have "short_text 6 (''Port '' @ print_nat 10 p)" by (rule fits_append [OF _ digit]) simp
  then show "62 \<le> L \<Longrightarrow> takes 30 (L - 31) ls \<Longrightarrow> takes 30 L ((''Port '' @ print_decimal (int p)) # ls)"
    by (intro takes_Cons [where k = 6]) (simp_all add: print_decimal_def)
qed

lemma takes_level: "i < 8 \<Longrightarrow> takes 30 100 (port_level_lines st i)"
proof -
  assume i: "i < 8"
  have big: "short_text 20 (print_nat 10 (unat v))" for v :: u64
  proof -
    have "unat v < 2 ^ LENGTH(64)" by (rule unsigned_less)
    then have "short_text (Suc 19) (print_nat 10 (unat v))" by (intro fits_print_nat) simp_all
    then show ?thesis by simp
  qed
  have small: "short_text 1 (print_nat 10 i)" using fits_print_nat [of 10 i 0] i by simp
  have "short_text 40 (x @ print_nat 10 i @ y @ print_nat 10 (unat v))" if "short_text 11 x" "short_text 7 y" for x y and v :: u64
  proof -
    have "short_text 27 (y @ print_nat 10 (unat v))" using fits_append [OF that(2) big] by simp
    then have "short_text 28 (print_nat 10 i @ y @ print_nat 10 (unat v))" using fits_append [OF small] by simp
    then show ?thesis using fits_append [OF that(1)] by simp
  qed
  note line = this
  have "short_text 11 ''QLEVEL_HWM_''" "short_text 11 ''QLEVEL_''" "short_text 7 ''   ''" "short_text 7 ''       ''"
    by (simp_all add: fits_label)
  from line [OF this(1,3)] line [OF this(2,4)]
  show ?thesis unfolding port_level_lines_def by (intro takes_Cons [where k = 40] takes_Nil) simp_all
qed

lemma line_ends_status:
  assumes "p < 5"
  shows "line_ends (sja1105_port_status_show st (int p) [] d) = (if IS_PQRS d then 66 else 48)"
proof -
  have fold: "line_ends (foldl (\<lambda>buf i. appstoplines buf 30 (port_level_lines st i)) buf is) = line_ends buf + 2 * length is"
    if "\<forall>i\<in>set is. i < 8" for buf "is"
    using that
  proof (induction "is" arbitrary: buf)
    case (Cons i "is")
    then have "line_ends (appstoplines buf 30 (port_level_lines st i)) = line_ends buf + 2"
      using line_ends_appstoplines [of 30 100 "port_level_lines st i"] takes_level [of i] by (simp add: port_level_lines_def)
    with Cons show ?case by simp
  qed simp
  have heads: "takes 30 1000 [''Queue Levels'']" "takes 30 1000 [[]]"
    by (intro takes_label takes_Nil; simp)+
  have "takes 30 3000 (port_status_lines st (int p))"
    unfolding port_status_lines_def using assms by (intro takes_port takes_dec takes_hex takes_label takes_Nil; simp)
  moreover have "length (port_status_lines st (int p)) = 48" by (simp add: port_status_lines_def)
  ultimately have "line_ends (appstoplines [] 30 (port_status_lines st (int p))) = 48"
    by (simp add: line_ends_appstoplines line_ends_Cons)
  then show ?thesis
    unfolding sja1105_port_status_show_def Let_def
    by (simp add: line_ends_appstoplines [OF heads(1)] line_ends_appstoplines [OF heads(2)] fold)
qed

lemma status_texts_lines:
  "\<forall>p\<in>set ports. p < 5 \<Longrightarrow> b \<in> set (snd (fst (run_state (status_texts k s ports rc0) h))) \<Longrightarrow>
   line_ends b = (if IS_PQRS (sp_device_id s) then 66 else 48)"
proof (induction ports arbitrary: rc0 h)
  case (Cons p ports)
  show ?case
    using Cons.prems Cons.IH [of "fst (fst (run_state (sja1105_port_status_get k s p) h))" "snd (run_state (sja1105_port_status_get k s p) h)"]
    by (auto simp: split_beta line_ends_status split: if_splits)
qed auto


end
