(* ===== verification/Spec2Isabelle.thy ===== *)
theory Spec2Isabelle
  imports Config_Codec Clocking Control Status Dynamic_Config Ptp Config_Modify Staging_Area Xml_Roundtrip Commands
begin

text \<open>
  \<^bold>\<open>The program.\<close> \<^verbatim>\<open>sja1105-tool\<close> configures the NXP SJA1105 Ethernet switch (first generation E and T, second
  generation P, Q, R, S) over SPI. Its library \<^verbatim>\<open>src/src/lib\<close> packs the static configuration, up to twenty
  tables, into the bit stream that the switch loads, with a header and two checksums for every table; it builds the
  messages on the SPI bus, resets the switch, sets its clocks, reads its status, changes its forwarding table at run
  time and drives its PTP clock. The tool \<^verbatim>\<open>src/src/tool\<close> keeps a configuration in a file, the staging area: it
  modifies one member of one table entry by name, imports, exports and prints it, and uploads it to the switch; other
  commands print the status, reset parts of the switch and access single registers.

  \<^bold>\<open>Theories.\<close> Definitions bear the names of the C functions, structs and macros; members of a struct have a prefix for
  the struct (\<open>l2l_macaddr\<close> is \<^verbatim>\<open>macaddr\<close> of \<^verbatim>\<open>struct sja1105_l2_lookup_entry\<close>).

  \<^item> \<open>Prelude\<close>: machine words (\<open>u8\<close> to \<open>u64\<close>), error numbers, lemma collections, bits of words, list segments.
  \<^item> \<open>Gtable\<close>: \<^verbatim>\<open>lib/gtable/gtable.c\<close>, a bit field of up to 64 bits in a buffer, with the three quirks. The logical bit
    \<open>tbit\<close> of a buffer is the specification: packing sets the bits of its field, and leaves the others.
  \<^item> \<open>Crc\<close>: the CRC-32 of the tables and the CRC-8 of the forwarding database. Both loops are instances of the locale
    \<open>shift_register\<close> (a linear feedback shift register); the CRC-32 equals the reflected IEEE one.
  \<^item> \<open>Layout\<close>: the shape of the access functions of the tables, lists of fields with bit ranges. The locale
    \<open>table_codec\<close> turns a well-formed layout into packing and unpacking that are inverse to each other.
  \<^item> \<open>Tables_Base\<close>, \<open>Tables_L2\<close>, \<open>Tables_VL\<close>, \<open>Tables_General\<close>: \<^verbatim>\<open>lib/static-config/tables/*.c\<close> and
    \<^verbatim>\<open>lib/include/static-config.h\<close>; entries as records, one layout for every device family that has its own. Each table
    interprets \<open>table_codec\<close> and, for the configuration as a whole, \<open>entry_codec\<close>.
  \<^item> \<open>Static_Config\<close>: \<^verbatim>\<open>lib/static-config/static-config.c\<close>, packing, unpacking, patches, checks, length. The locale
    \<open>config_section\<close> extends \<open>entry_codec\<close> to a section of the packed configuration.
  \<^item> \<open>Config_Codec\<close>: the sections as instances of \<open>config_section\<close>, and the properties of the whole configuration.
  \<^item> \<open>Spi\<close>: \<^verbatim>\<open>lib/spi/*.c\<close>, messages, transfers, chunks, the lock on the device, the device identifier.
  \<^item> \<open>Registers\<close>, \<open>Clocking\<close>: \<^verbatim>\<open>lib/clock/*.c\<close>, the registers of the clock generation unit and the pads, and the clocks
    of the ports, refined to a table of register values.
  \<^item> \<open>Control\<close>: \<^verbatim>\<open>lib/reset/rgu.c\<close> and \<^verbatim>\<open>lib/control/port.c\<close>.
  \<^item> \<open>Status\<close>: \<^verbatim>\<open>lib/status/*.c\<close>; the locale \<open>register_map\<close> relates a status to the registers it is read from.
  \<^item> \<open>Dynamic_Config\<close>: \<^verbatim>\<open>lib/dynamic-config/l2-lookup.c\<close>, management routes.
  \<^item> \<open>Ptp\<close>: \<^verbatim>\<open>lib/ptp/ptp.c\<close>, times, the rate (a C double, handled by its bits), timestamps, schedule and pin.
  \<^item> \<open>Strings\<close>: \<^verbatim>\<open>tool/strings.c\<close> and \<^verbatim>\<open>common.c\<close>, abbreviated names, numbers, arrays, addresses, output in columns.
  \<^item> \<open>Members\<close>, \<open>Config_Modify\<close>: \<^verbatim>\<open>tool/config-modify.c\<close>; the lists of named members (locale \<open>member_table\<close>: members
    that do not share storage) and the modification of one of them.
  \<^item> \<open>Staging_Area\<close>: \<^verbatim>\<open>tool/staging-area.c\<close>, the file, its dump, the upload and its retries.
  \<^item> \<open>Xml_Read\<close>, \<open>Xml_Write\<close>: \<^verbatim>\<open>tool/config-xml-*.c\<close> and \<^verbatim>\<open>tool/xml\<close>, one reader and one writer for every table.
    \<open>Xml_Tables\<close> has the locale \<open>xml_table\<close>, what import and export of a table rely on, and its instances;
    \<open>Xml_Roundtrip\<close> composes them to whole files.
  \<^item> \<open>Tool_Config\<close>: \<^verbatim>\<open>tool/tool-config-file.c\<close>, the settings of the tool and the file they are read from.
  \<^item> \<open>Default_Config\<close>: \<^verbatim>\<open>lib/static-config/default.c\<close>, the built-in packed configuration.
  \<^item> \<open>Show\<close>: \<^verbatim>\<open>tool/config-show.c\<close>, \<^verbatim>\<open>lib/helpers.c\<close> and the \<^verbatim>\<open>_show\<close> functions of the tables, as the text that
    is printed, entries side by side or one below the other.
  \<^item> \<open>Commands\<close>: \<^verbatim>\<open>tool/main.c\<close> and the command line (\<^verbatim>\<open>parse-config.c\<close>, \<^verbatim>\<open>parse-status.c\<close>, \<^verbatim>\<open>parse-reset.c\<close>,
    \<^verbatim>\<open>raw-access.c\<close>), one definition per command. The locale \<open>call_discipline\<close> is what a set of system calls needs so that a
    command keeps to it; its interpretation \<open>bus\<close> is the idle bus, and \<open>files\<close> the calls on files only.

  \<^bold>\<open>State and effects.\<close> The configuration is a record of twenty tables, each an array (a function from indices, all
  of them checked against the capacity) with its fill count. Buffers are lists of bytes. The operating system is a
  parameter, a function \<open>kernel\<close> from the history of system calls to the next answer; the history is the state of the
  functions that make system calls (\<open>'a io\<close>, a state monad), so that a theorem speaks about the bytes sent, their order,
  and every possible sequence of failures. In the same way libxml2 is a parameter of export (a function that answers
  calls) and import (the tree it has read, and its function for the text of a node). A function of C that returns an
  error number returns an \<open>int\<close>. The value \<open>None\<close> of an option is behaviour that C leaves undefined: an access outside
  an object, a null pointer used. Theorems on success state that the result is \<open>Some\<close>.

  \<^bold>\<open>What is proved.\<close> The path of a configuration from its entries to the switch and back:
  fields (packing then unpacking, frame), checksums (agreement with the IEEE polynomial, detection of bursts, FDB hash),
  entries of every table, the packed configuration (round trip, length, rejection of corrupted tables, indices of static
  addresses), the staging area in a file (round trip for every way in which the kernel splits reads and writes), XML
  (export then import), modification of a single member, and the upload (what is written to the switch, in which order, and the
  four results a flush can have). For the tool: its configuration file (what its settings mean, round trip), and the commands
  (modifying is loading, modifying and saving; what is printed is complete; which commands stay off the bus; the codes they
  return). For the bus: a long write refines one write to a register store, and every function keeps
  lock and unlock paired, up to \<open>main\<close>. For clocks, status, routes and the PTP clock: the registers written or read are those of the
  fields of the record; the error of the clock rate is bounded. Where the code differs from what it means to do, a theorem states
  what it does.

  \<^bold>\<open>Bounds and termination.\<close> All loops of the code but one are structural recursions or have a measure. The output in
  columns (\<open>show_print_bufs_from\<close>) may not end, and is a \<open>partial_function\<close> on options; a theorem says when it ends. The retries of the
  upload are 100 turns in the code and in the model. No fuel is used. Integers have their C widths where they can wrap around,
  and are \<open>int\<close> where they are C ints that stay far from their bounds (return codes, counts).

  \<^bold>\<open>Not modelled.\<close> Messages to the terminal, usage texts, the strings of \<^verbatim>\<open>version.c\<close> and of the error codes, the dumps of
  buffers and registers for debugging (\<^verbatim>\<open>gtable_hexdump\<close> but where it replaces a message in a dry run, the \<^verbatim>\<open>_show\<close> functions of
  the clocks and of the PTP clock), the strings freed at the end, and the C library beyond what \<open>Strings\<close> and \<open>Tool_Config\<close>
  define. \<^verbatim>\<open>malloc\<close> is taken not to fail.
\<close>

end
